(* ===== verification/Prelude.thy ===== *)
theory Prelude
  imports Main "HOL-Library.Word" "HOL-Library.Log_Nat" "HOL-Library.Multiset"
begin

text \<open>
  The vocabulary the component theories share: the integer types of
  \<^verbatim>\<open>ServerCore/Types.h\<close>, two's-complement wrap-around for \<open>int32\<close> arithmetic, the
  rounding of an \<open>int32\<close> that is stored in a \<open>float\<close>, and the \<open>VectorInt\<close> structure of
  \<^verbatim>\<open>Server/pch.h\<close> with its arithmetic and its lexicographic order.

  An \<open>int32\<close> is an HOL \<open>int\<close>; every addition or subtraction whose operands the code does not
  bound is written through \<open>wrap32\<close>. A \<open>uint16\<close>, \<open>uint32\<close> or \<open>uint64\<close> is a word of that width,
  whose arithmetic wraps as the code's does.
\<close>

section \<open>Hint collections\<close>

named_theorems inv_intros \<open>preservation lemmas of the components' invariants\<close>
named_theorems frame_simps \<open>what an operation leaves unchanged\<close>

section \<open>Integer types\<close>

type_synonym byte = "8 word"
type_synonym uint16 = "16 word"
type_synonym uint32 = "32 word"
type_synonym uint64 = "64 word"
type_synonym int32 = int

definition in32 :: "int \<Rightarrow> bool" where
  "in32 x \<longleftrightarrow> - 2147483648 \<le> x \<and> x \<le> 2147483647"

definition wrap32 :: "int \<Rightarrow> int32" where
  "wrap32 x = (x + 2147483648) mod 4294967296 - 2147483648"

lemma wrap32_id [simp]: "in32 x \<Longrightarrow> wrap32 x = x"
  by (simp add: in32_def wrap32_def)

lemma in32_wrap32 [simp, intro]: "in32 (wrap32 x)"
proof -
  have "0 \<le> (x + 2147483648) mod 4294967296" "(x + 2147483648) mod 4294967296 < 4294967296"
    by simp_all
  then show ?thesis by (simp add: in32_def wrap32_def)
qed

lemma wrap32_idem [simp]: "wrap32 (wrap32 x) = wrap32 x"
  by simp

lemma in32_between: "in32 a \<Longrightarrow> in32 c \<Longrightarrow> a \<le> b \<Longrightarrow> b \<le> c \<Longrightarrow> in32 b"
  by (simp add: in32_def)

lemma in32_diff_nonneg: "in32 a \<Longrightarrow> in32 b \<Longrightarrow> 0 \<le> a \<Longrightarrow> 0 \<le> b \<Longrightarrow> in32 (a - b)"
  by (simp add: in32_def)

text \<open>A counter that has not reached the largest value moves up.\<close>

lemma word_less_succ: "w \<noteq> - 1 \<Longrightarrow> w < w + (1 :: 'a::len word)"
proof -
  assume "w \<noteq> - 1"
  then have "1 + w \<noteq> 0" using max_word_wrap [of w] by (auto simp: add.commute)
  then have "unat (1 + w) = Suc (unat w)" by (rule unatSuc)
  then show "w < w + 1" by (simp add: word_less_nat_alt add.commute)
qed

section \<open>An int32 stored in a float\<close>

text \<open>
  A \<open>float\<close> has a 24-bit significand: an integer below \<open>2 ^ 24\<close> in absolute value is exact, a
  larger one is rounded to a multiple of a power of two, ties to the even quotient.
\<close>

definition round_half_even :: "nat \<Rightarrow> nat \<Rightarrow> nat" where
  "round_half_even a b =
     (let q = a div b; r = a mod b
      in if 2 * r < b \<or> 2 * r = b \<and> even q then q else Suc q)"

definition float_of_int32 :: "int32 \<Rightarrow> int" where
  "float_of_int32 x =
     (let a = nat \<bar>x\<bar>; k = floorlog 2 a - 24
      in sgn x * int (2 ^ k * round_half_even a (2 ^ k)))"

lemma floorlog_24: "a < 2 ^ 24 \<Longrightarrow> floorlog 2 a \<le> 24"
  by (simp add: floorlog_leI)

lemma float_of_int32_exact [simp]:
  assumes "\<bar>x\<bar> < 16777216"
  shows "float_of_int32 x = x"
proof -
  have "nat \<bar>x\<bar> < 2 ^ 24" using assms by simp
  then have "floorlog 2 (nat \<bar>x\<bar>) - 24 = 0" using floorlog_24 by simp
  moreover have "sgn x * \<bar>x\<bar> = x" by (simp add: sgn_mult_abs)
  ultimately show ?thesis
    by (simp add: float_of_int32_def round_half_even_def Let_def)
qed

text \<open>\<open>static_cast<int32>(x * 0.5f)\<close>: halving a float is exact, the cast truncates towards zero.\<close>

definition half_trunc :: "int32 \<Rightarrow> int32" where
  "half_trunc x = (let f = float_of_int32 x in sgn f * (\<bar>f\<bar> div 2))"

lemma half_trunc_small:
  assumes "\<bar>x\<bar> < 16777216"
  shows "half_trunc x = sgn x * (\<bar>x\<bar> div 2)"
  using assms by (simp add: half_trunc_def)

section \<open>VectorInt\<close>

text \<open>
  The coordinates are unbounded integers: the code keeps them inside a tile map whose sizes are
  \<open>int32\<close> values, so no sum or difference of two of them reaches the bounds of an \<open>int32\<close>.
\<close>

datatype VectorInt = Vec (vx: int) (vy: int)

type_synonym Vec2Int = VectorInt

instantiation VectorInt :: "{plus, minus, linorder}"
begin

definition plus_VectorInt :: "VectorInt \<Rightarrow> VectorInt \<Rightarrow> VectorInt" where
  "plus_VectorInt a b = Vec (vx a + vx b) (vy a + vy b)"

definition minus_VectorInt :: "VectorInt \<Rightarrow> VectorInt \<Rightarrow> VectorInt" where
  "minus_VectorInt a b = Vec (vx a - vx b) (vy a - vy b)"

definition less_VectorInt :: "VectorInt \<Rightarrow> VectorInt \<Rightarrow> bool" where
  "less_VectorInt a b = (if vx a \<noteq> vx b then vx a < vx b else vy a < vy b)"

definition less_eq_VectorInt :: "VectorInt \<Rightarrow> VectorInt \<Rightarrow> bool" where
  "less_eq_VectorInt a b = (a = b \<or> a < b)"

instance
  by standard (auto simp: less_VectorInt_def less_eq_VectorInt_def VectorInt.expand split: if_splits)

end

lemma vx_plus [simp]: "vx (a + b) = vx a + vx b"
  and vy_plus [simp]: "vy (a + b) = vy a + vy b"
  and vx_minus [simp]: "vx (a - b) = vx a - vx b"
  and vy_minus [simp]: "vy (a - b) = vy a - vy b"
  by (simp_all add: plus_VectorInt_def minus_VectorInt_def)

lemma Vec_plus [simp]: "Vec a b + Vec c d = Vec (a + c) (b + d)"
  by (simp add: plus_VectorInt_def)

lemma Vec_minus [simp]: "Vec a b - Vec c d = Vec (a - c) (b - d)"
  by (simp add: minus_VectorInt_def)

definition LengthSquared :: "VectorInt \<Rightarrow> int" where
  "LengthSquared v = vx v * vx v + vy v * vy v"

definition Vector_scale :: "VectorInt \<Rightarrow> int32 \<Rightarrow> VectorInt" where
  "Vector_scale v value = Vec (vx v * value) (vy v * value)"

definition Vector_Dot :: "VectorInt \<Rightarrow> VectorInt \<Rightarrow> int32" where
  "Vector_Dot v other = vx v * vx other + vy v * vy other"

definition Vector_Cross :: "VectorInt \<Rightarrow> VectorInt \<Rightarrow> int32" where
  "Vector_Cross v other = vx v * vy other - vy v * vx other"

text \<open>The Manhattan length \<open>abs(d.x) + abs(d.y)\<close> the room and the monsters compute everywhere.\<close>

definition manhattan :: "VectorInt \<Rightarrow> int" where
  "manhattan d = \<bar>vx d\<bar> + \<bar>vy d\<bar>"

lemma manhattan_nonneg [simp]: "0 \<le> manhattan d"
  by (simp add: manhattan_def)

lemma manhattan_sym: "manhattan (a - b) = manhattan (b - a)"
  by (simp add: manhattan_def)

lemma manhattan_triangle: "manhattan (a - c) \<le> manhattan (a - b) + manhattan (b - c)"
  by (simp add: manhattan_def)

lemma manhattan_eq_0 [simp]: "manhattan (a - b) = 0 \<longleftrightarrow> a = b"
  by (cases a; cases b) (auto simp: manhattan_def)

lemma LengthSquared_nonneg [simp]: "0 \<le> LengthSquared v"
  by (simp add: LengthSquared_def)

section \<open>Division\<close>

text \<open>C++'s \<open>/\<close> on \<open>int32\<close> truncates; the divisor is positive wherever it is used.\<close>

definition trunc_div :: "int \<Rightarrow> int \<Rightarrow> int" where
  "trunc_div a b = (if a < 0 then - ((- a) div b) else a div b)"

lemma trunc_div_nonneg [simp]: "0 \<le> a \<Longrightarrow> trunc_div a b = a div b"
  by (simp add: trunc_div_def)

end
