(* ===== verification/Buffers.thy ===== *)
theory Buffers
  imports Prelude
begin

text \<open>
  The byte buffers of \<^verbatim>\<open>ServerCore\<close>: \<open>RecvBuffer\<close> (the window of bytes received and not yet
  consumed), \<open>SendBuffer\<close>, \<open>BufferReader\<close> and \<open>BufferWriter\<close>. A copy that leaves its array,
  or whose source and target overlap, is undefined behaviour: such an operation returns \<open>None\<close>.
  The interface the sessions rely on, a FIFO of bytes, is the locale \<open>byte_fifo\<close>, interpreted
  on \<open>RecvBuffer\<close>.
\<close>

section \<open>Byte-level writes\<close>

definition blit :: "byte list \<Rightarrow> nat \<Rightarrow> byte list \<Rightarrow> byte list" where
  "blit src pos dst = take pos dst @ src @ drop (pos + length src) dst"

lemma length_blit [simp]: "pos + length src \<le> length dst \<Longrightarrow> length (blit src pos dst) = length dst"
  by (simp add: blit_def)

lemma take_drop_blit [simp]:
  "pos + length src \<le> length dst \<Longrightarrow> take (length src) (drop pos (blit src pos dst)) = src"
  by (simp add: blit_def)

lemma take_blit_before: "n \<le> pos \<Longrightarrow> pos \<le> length dst \<Longrightarrow> take n (blit src pos dst) = take n dst"
  by (simp add: blit_def min_def)

lemma window_blit_append:
  assumes "r \<le> w" "w + length src \<le> length dst"
  shows "take (w + length src - r) (drop r (blit src w dst)) = take (w - r) (drop r dst) @ src"
  using assms by (simp add: blit_def drop_take)

section \<open>RecvBuffer\<close>

record RecvBuffer =
  capacity :: int32
  bufferSize :: int32
  readPos :: int32
  writePos :: int32
  rbuffer :: "byte list"

definition BUFFER_COUNT :: int32 where
  "BUFFER_COUNT = 10"

definition RecvBuffer_new :: "int32 \<Rightarrow> RecvBuffer" where
  "RecvBuffer_new bytes =
     \<lparr>capacity = wrap32 (bytes * BUFFER_COUNT), bufferSize = bytes, readPos = 0, writePos = 0,
      rbuffer = replicate (nat (wrap32 (bytes * BUFFER_COUNT))) 0\<rparr>"

definition DataSize :: "RecvBuffer \<Rightarrow> int32" where
  "DataSize b = wrap32 (writePos b - readPos b)"

definition FreeSize :: "RecvBuffer \<Rightarrow> int32" where
  "FreeSize b = wrap32 (capacity b - writePos b)"

text \<open>
  \<open>Clean\<close> moves the pending bytes to the front once less than one receive's worth of space is
  left. The move is a \<open>memcpy\<close>, undefined when the two ranges overlap or leave the vector.
\<close>

definition Clean :: "RecvBuffer \<Rightarrow> RecvBuffer option" where
  "Clean b =
     (let dataSize = DataSize b
      in if dataSize = 0 then Some (b\<lparr>readPos := 0, writePos := 0\<rparr>)
         else if FreeSize b < bufferSize b then
           (if 0 \<le> dataSize \<and> dataSize \<le> readPos b \<and> readPos b + dataSize \<le> int (length (rbuffer b))
            then Some (b\<lparr>rbuffer := blit (take (nat dataSize) (drop (nat (readPos b)) (rbuffer b))) 0 (rbuffer b),
                         readPos := 0, writePos := dataSize\<rparr>)
            else None)
         else Some b)"

definition OnRead :: "int32 \<Rightarrow> RecvBuffer \<Rightarrow> bool \<times> RecvBuffer" where
  "OnRead numOfBytes b =
     (if numOfBytes > DataSize b then (False, b)
      else (True, b\<lparr>readPos := wrap32 (readPos b + numOfBytes)\<rparr>))"

definition OnWrite :: "int32 \<Rightarrow> RecvBuffer \<Rightarrow> bool \<times> RecvBuffer" where
  "OnWrite numOfBytes b =
     (if numOfBytes > FreeSize b then (False, b)
      else (True, b\<lparr>writePos := wrap32 (writePos b + numOfBytes)\<rparr>))"

text \<open>
  What the operating system does between \<open>RegisterRecv\<close> and its completion: it stores the bytes
  it received at \<open>WritePos()\<close>, in the \<open>FreeSize()\<close> bytes it was given.
\<close>

definition kernel_write :: "byte list \<Rightarrow> RecvBuffer \<Rightarrow> RecvBuffer" where
  "kernel_write bs b = b\<lparr>rbuffer := blit bs (nat (writePos b)) (rbuffer b)\<rparr>"

subsection \<open>Invariant and abstraction\<close>

definition rb_inv :: "RecvBuffer \<Rightarrow> bool" where
  "rb_inv b \<longleftrightarrow> 0 \<le> readPos b \<and> readPos b \<le> writePos b \<and> writePos b \<le> capacity b
     \<and> in32 (capacity b) \<and> 0 < bufferSize b \<and> bufferSize b \<le> capacity b
     \<and> length (rbuffer b) = nat (capacity b)"

definition rb_data :: "RecvBuffer \<Rightarrow> byte list" where
  "rb_data b = take (nat (writePos b - readPos b)) (drop (nat (readPos b)) (rbuffer b))"

lemma rb_invD:
  assumes "rb_inv b"
  shows "0 \<le> readPos b" "readPos b \<le> writePos b" "writePos b \<le> capacity b"
    "in32 (writePos b - readPos b)" "in32 (capacity b - writePos b)"
    "length (rbuffer b) = nat (capacity b)" "0 < bufferSize b" "in32 (capacity b)"
    "in32 (writePos b)" "in32 (readPos b)" "bufferSize b \<le> capacity b"
  using assms by (auto simp: rb_inv_def in32_def)

lemma DataSize_eq: "rb_inv b \<Longrightarrow> DataSize b = writePos b - readPos b"
  by (simp add: DataSize_def rb_invD)

lemma FreeSize_eq: "rb_inv b \<Longrightarrow> FreeSize b = capacity b - writePos b"
  by (simp add: FreeSize_def rb_invD)

lemma length_rb_data: "rb_inv b \<Longrightarrow> int (length (rb_data b)) = DataSize b"
  by (simp add: rb_data_def DataSize_eq rb_inv_def) linarith

lemma rb_inv_new: "0 < n \<Longrightarrow> n \<le> 214748364 \<Longrightarrow> rb_inv (RecvBuffer_new n)"
  by (simp add: rb_inv_def RecvBuffer_new_def BUFFER_COUNT_def in32_def)

lemma rb_data_new: "rb_data (RecvBuffer_new n) = []"
  by (simp add: rb_data_def RecvBuffer_new_def)

lemma OnWrite_kernel:
  assumes "rb_inv b" "int (length bs) \<le> FreeSize b"
  shows "\<exists>b'. OnWrite (int (length bs)) (kernel_write bs b) = (True, b')
           \<and> rb_inv b' \<and> rb_data b' = rb_data b @ bs
           \<and> capacity b' = capacity b \<and> bufferSize b' = bufferSize b
           \<and> readPos b' = readPos b"
proof -
  note D = rb_invD [OF assms(1)]
  define b' where "b' = (kernel_write bs b)\<lparr>writePos := writePos b + int (length bs)\<rparr>"
  have free: "int (length bs) \<le> capacity b - writePos b"
    using assms by (simp add: FreeSize_eq)
  have w: "in32 (writePos b + int (length bs))"
    using D free by (simp add: in32_def)
  have fs: "FreeSize (kernel_write bs b) = FreeSize b" "writePos (kernel_write bs b) = writePos b"
    by (simp_all add: FreeSize_def kernel_write_def)
  have fit: "nat (writePos b) + length bs \<le> length (rbuffer b)"
    using D free by simp
  have "OnWrite (int (length bs)) (kernel_write bs b) = (True, b')"
    using assms(2) w by (simp add: OnWrite_def fs b'_def)
  moreover have "rb_inv b'"
    using assms(1) D free fit by (simp add: rb_inv_def b'_def kernel_write_def)
  moreover have "rb_data b' = rb_data b @ bs"
  proof -
    have "nat (readPos b) \<le> nat (writePos b)" using D by simp
    from window_blit_append [OF this fit]
    have *: "take (nat (writePos b) + length bs - nat (readPos b)) (drop (nat (readPos b)) (blit bs (nat (writePos b)) (rbuffer b)))
        = take (nat (writePos b) - nat (readPos b)) (drop (nat (readPos b)) (rbuffer b)) @ bs" .
    have "nat (writePos b + int (length bs) - readPos b) = nat (writePos b) + length bs - nat (readPos b)"
      "nat (writePos b - readPos b) = nat (writePos b) - nat (readPos b)"
      using D by linarith+
    with * show ?thesis
      by (simp add: rb_data_def b'_def kernel_write_def)
  qed
  ultimately show ?thesis
    by (intro exI [of _ b']) (simp add: b'_def kernel_write_def)
qed

lemma OnRead_data:
  assumes "rb_inv b" "n \<le> length (rb_data b)"
  shows "\<exists>b'. OnRead (int n) b = (True, b') \<and> rb_inv b' \<and> rb_data b' = drop n (rb_data b)
           \<and> capacity b' = capacity b \<and> bufferSize b' = bufferSize b \<and> writePos b' = writePos b
           \<and> readPos b' = readPos b + int n"
proof -
  note D = rb_invD [OF assms(1)]
  have n: "int n \<le> writePos b - readPos b"
    using assms length_rb_data [of b] by (simp add: DataSize_eq)
  have r: "in32 (readPos b + int n)" using D n by (simp add: in32_def)
  define b' where "b' = b\<lparr>readPos := readPos b + int n\<rparr>"
  have "OnRead (int n) b = (True, b')"
    using n r assms(1) by (simp add: OnRead_def DataSize_eq b'_def)
  moreover have "rb_inv b'" using assms(1) D n by (simp add: rb_inv_def b'_def)
  moreover have "rb_data b' = drop n (rb_data b)"
    using D n by (simp add: rb_data_def b'_def drop_take nat_add_distrib add.commute nat_diff_distrib)
  ultimately show ?thesis by (intro exI [of _ b']) (simp add: b'_def)
qed

text \<open>\<open>Clean\<close> keeps the pending bytes, and leaves room for a whole receive.\<close>

lemma Clean_data:
  assumes "rb_inv b" "length (rb_data b) \<le> nat (readPos b) \<or> bufferSize b \<le> FreeSize b"
    and "DataSize b + bufferSize b \<le> capacity b"
  shows "\<exists>b'. Clean b = Some b' \<and> rb_inv b' \<and> rb_data b' = rb_data b
           \<and> capacity b' = capacity b \<and> bufferSize b' = bufferSize b
           \<and> bufferSize b' \<le> FreeSize b'"
proof -
  note D = rb_invD [OF assms(1)] and E = DataSize_eq [OF assms(1)] FreeSize_eq [OF assms(1)]
  consider (empty) "DataSize b = 0"
    | (move) "DataSize b \<noteq> 0" "FreeSize b < bufferSize b"
    | (keep) "DataSize b \<noteq> 0" "bufferSize b \<le> FreeSize b" by linarith
  then show ?thesis
  proof cases
    case empty
    define b' where "b' = b\<lparr>readPos := 0, writePos := 0\<rparr>"
    have i: "rb_inv b'" using assms(1) by (simp add: rb_inv_def b'_def)
    have "FreeSize b' = capacity b" using FreeSize_eq [OF i] by (simp add: b'_def)
    then show ?thesis
      using empty i D E by (intro exI [of _ b']) (simp add: Clean_def b'_def rb_data_def)
  next
    case move
    have ov: "DataSize b \<le> readPos b"
      using assms(2) move(2) length_rb_data [OF assms(1)] D by linarith
    define pend where "pend = take (nat (DataSize b)) (drop (nat (readPos b)) (rbuffer b))"
    have pend: "pend = rb_data b" by (simp add: pend_def rb_data_def E)
    have len: "length pend = nat (DataSize b)"
      using length_rb_data [OF assms(1)] pend by simp
    define b' where "b' = b\<lparr>rbuffer := blit pend 0 (rbuffer b), readPos := 0, writePos := DataSize b\<rparr>"
    have inb: "readPos b + DataSize b \<le> int (length (rbuffer b))"
      using D E by simp
    have c: "Clean b = Some b'"
      using move ov D E inb by (simp add: Clean_def Let_def b'_def pend_def)
    have lb: "length (blit pend 0 (rbuffer b)) = length (rbuffer b)"
      using len D E by (intro length_blit) simp
    have i: "rb_inv b'"
      using assms(1) D E lb by (simp add: rb_inv_def b'_def)
    have d: "rb_data b' = rb_data b"
      using len D E take_drop_blit [of 0 pend "rbuffer b"] pend by (simp add: rb_data_def b'_def)
    have "bufferSize b' \<le> FreeSize b'"
      using FreeSize_eq [OF i] assms(3) by (simp add: b'_def)
    with c i d show ?thesis by (simp add: b'_def)
  next
    case keep
    then show ?thesis using assms(1) by (intro exI [of _ b]) (simp add: Clean_def)
  qed
qed

section \<open>The FIFO interface of the receive path\<close>

text \<open>
  What \<open>Session::ProcessRecv\<close> needs from its buffer: bytes go in at the back, leave at the front,
  and a clean-up between two receives changes nothing but the space left.
\<close>

locale byte_fifo =
  fixes inv :: "'b \<Rightarrow> bool"
    and contents :: "'b \<Rightarrow> byte list"
    and room :: "'b \<Rightarrow> nat"
    and limit :: "'b \<Rightarrow> nat"
    and push :: "byte list \<Rightarrow> 'b \<Rightarrow> 'b"
    and pop :: "nat \<Rightarrow> 'b \<Rightarrow> 'b"
    and tidy :: "'b \<Rightarrow> 'b option"
  assumes push: "inv b \<Longrightarrow> length bs \<le> room b \<Longrightarrow>
      inv (push bs b) \<and> contents (push bs b) = contents b @ bs \<and> limit (push bs b) = limit b"
    and pop: "inv b \<Longrightarrow> n \<le> length (contents b) \<Longrightarrow>
      inv (pop n b) \<and> contents (pop n b) = drop n (contents b) \<and> limit (pop n b) = limit b"
    and tidy: "inv b \<Longrightarrow> length (contents b) < limit b \<Longrightarrow>
      \<exists>b'. tidy b = Some b' \<and> inv b' \<and> contents b' = contents b \<and> limit b' = limit b
        \<and> limit b' \<le> room b'"
begin

text \<open>One receive: the bytes arrive, a prefix is consumed, the buffer is tidied.\<close>

definition cycle :: "byte list \<Rightarrow> nat \<Rightarrow> 'b \<Rightarrow> 'b option" where
  "cycle bs n b = tidy (pop n (push bs b))"

lemma cycle_contents:
  assumes "inv b" "length bs \<le> room b" "n \<le> length (contents b @ bs)"
    and "length (drop n (contents b @ bs)) < limit b"
  shows "\<exists>b'. cycle bs n b = Some b' \<and> inv b' \<and> contents b' = drop n (contents b @ bs)
           \<and> limit b' = limit b \<and> limit b' \<le> room b'"
proof -
  from push [OF assms(1,2)] have p: "inv (push bs b)" "contents (push bs b) = contents b @ bs"
    "limit (push bs b) = limit b" by auto
  have n: "n \<le> length (contents (push bs b))" using assms(3) p by simp
  from pop [OF p(1) n] p have q: "inv (pop n (push bs b))"
    "contents (pop n (push bs b)) = drop n (contents b @ bs)" "limit (pop n (push bs b)) = limit b"
    by auto
  have "length (contents (pop n (push bs b))) < limit (pop n (push bs b))" using assms(4) q by simp
  from tidy [OF q(1) this] show ?thesis using q by (auto simp: cycle_def)
qed

end

definition rb_push :: "byte list \<Rightarrow> RecvBuffer \<Rightarrow> RecvBuffer" where
  "rb_push bs b = snd (OnWrite (int (length bs)) (kernel_write bs b))"

definition rb_pop :: "nat \<Rightarrow> RecvBuffer \<Rightarrow> RecvBuffer" where
  "rb_pop n b = snd (OnRead (int n) b)"

definition rb_session_inv :: "RecvBuffer \<Rightarrow> bool" where
  "rb_session_inv b \<longleftrightarrow> rb_inv b \<and> capacity b = bufferSize b * BUFFER_COUNT"

lemma Clean_session:
  assumes "rb_session_inv b" "length (rb_data b) < nat (bufferSize b)"
  shows "\<exists>b'. Clean b = Some b' \<and> rb_session_inv b' \<and> rb_data b' = rb_data b
           \<and> bufferSize b' = bufferSize b \<and> nat (bufferSize b') \<le> nat (FreeSize b')"
proof -
  from assms(1) have i: "rb_inv b" and c: "capacity b = bufferSize b * 10"
    by (simp_all add: rb_session_inv_def BUFFER_COUNT_def)
  have d: "DataSize b < bufferSize b"
    using assms(2) length_rb_data [OF i] by linarith
  have "length (rb_data b) \<le> nat (readPos b) \<or> bufferSize b \<le> FreeSize b"
    using d c length_rb_data [OF i] rb_invD [OF i] DataSize_eq [OF i] FreeSize_eq [OF i]
    by linarith
  moreover have "DataSize b + bufferSize b \<le> capacity b"
    using d c rb_invD [OF i] by linarith
  ultimately obtain b' where "Clean b = Some b'" "rb_inv b'" "rb_data b' = rb_data b"
    "capacity b' = capacity b" "bufferSize b' = bufferSize b" "bufferSize b' \<le> FreeSize b'"
    using Clean_data [OF i] by blast
  then show ?thesis using assms(1) by (auto simp: rb_session_inv_def)
qed

interpretation rb: byte_fifo rb_session_inv rb_data "\<lambda>b. nat (FreeSize b)" "\<lambda>b. nat (bufferSize b)"
  rb_push rb_pop Clean
proof
  fix b and bs :: "byte list"
  assume b: "rb_session_inv b" and "length bs \<le> nat (FreeSize b)"
  then have i: "rb_inv b" and l: "int (length bs) \<le> FreeSize b"
    using FreeSize_eq [of b] rb_invD [of b] by (auto simp: rb_session_inv_def)
  from OnWrite_kernel [OF i l] b
  show "rb_session_inv (rb_push bs b) \<and> rb_data (rb_push bs b) = rb_data b @ bs
      \<and> nat (bufferSize (rb_push bs b)) = nat (bufferSize b)"
    by (auto simp: rb_push_def rb_session_inv_def)
next
  fix b n
  assume b: "rb_session_inv b" and n: "n \<le> length (rb_data b)"
  then have "rb_inv b" by (simp add: rb_session_inv_def)
  from OnRead_data [OF this n] b
  show "rb_session_inv (rb_pop n b) \<and> rb_data (rb_pop n b) = drop n (rb_data b)
      \<and> nat (bufferSize (rb_pop n b)) = nat (bufferSize b)"
    by (auto simp: rb_pop_def rb_session_inv_def)
next
  fix b
  assume "rb_session_inv b" "length (rb_data b) < nat (bufferSize b)"
  from Clean_session [OF this]
  show "\<exists>b'. Clean b = Some b' \<and> rb_session_inv b' \<and> rb_data b' = rb_data b
      \<and> nat (bufferSize b') = nat (bufferSize b) \<and> nat (bufferSize b') \<le> nat (FreeSize b')"
    by auto
qed

section \<open>SendBuffer\<close>

record SendBuffer =
  sbuffer :: "byte list"
  writeSize :: int32

definition SendBuffer_new :: "nat \<Rightarrow> SendBuffer" where
  "SendBuffer_new n = \<lparr>sbuffer = replicate n 0, writeSize = 0\<rparr>"

definition Capacity :: "SendBuffer \<Rightarrow> int32" where
  "Capacity b = wrap32 (int (length (sbuffer b)))"

text \<open>\<open>None\<close>: the assertion \<open>Capacity() >= len\<close> fails, or the copy runs past the vector.\<close>

definition CopyData :: "byte list \<Rightarrow> SendBuffer \<Rightarrow> SendBuffer option" where
  "CopyData src b =
     (if int (length src) \<le> Capacity b \<and> length src \<le> length (sbuffer b)
      then Some (b\<lparr>sbuffer := blit src 0 (sbuffer b), writeSize := int (length src)\<rparr>) else None)"

definition Close :: "uint32 \<Rightarrow> SendBuffer \<Rightarrow> SendBuffer" where
  "Close n b = b\<lparr>writeSize := sint n\<rparr>"

text \<open>What \<open>RegisterSend\<close> hands to the socket: the first \<open>WriteSize()\<close> bytes.\<close>

definition wire :: "SendBuffer \<Rightarrow> byte list" where
  "wire b = take (nat (writeSize b)) (sbuffer b)"

lemma CopyData_wire: "CopyData src b = Some b' \<Longrightarrow> wire b' = src"
  by (auto simp: CopyData_def wire_def blit_def split: if_splits)

section \<open>BufferReader and BufferWriter\<close>

text \<open>
  A reader or writer is a pointer to memory, a size the caller claims and a cursor. \<open>Refused\<close> is
  the \<open>false\<close> the size check returns; \<open>OutOfRange\<close> is an access past the memory that is there,
  which the check does not see when the claimed size is wrong.
\<close>

datatype 'a access = Access 'a | Refused | OutOfRange

record BufferCursor =
  memory :: "byte list"
  bsize :: uint32
  bpos :: uint32

definition BufferCursor_new :: "byte list \<Rightarrow> uint32 \<Rightarrow> uint32 \<Rightarrow> BufferCursor" where
  "BufferCursor_new m n p = \<lparr>memory = m, bsize = n, bpos = p\<rparr>"

definition Cursor_FreeSize :: "BufferCursor \<Rightarrow> uint32" where
  "Cursor_FreeSize r = bsize r - bpos r"

definition peek_bytes :: "BufferCursor \<Rightarrow> nat \<Rightarrow> byte list access" where
  "peek_bytes r n =
     (if unat (bpos r) + n \<le> length (memory r)
      then Access (take n (drop (unat (bpos r)) (memory r))) else OutOfRange)"

definition Peek :: "BufferCursor \<Rightarrow> uint32 \<Rightarrow> byte list access" where
  "Peek r len = (if Cursor_FreeSize r < len then Refused else peek_bytes r (unat len))"

definition Read :: "BufferCursor \<Rightarrow> uint32 \<Rightarrow> byte list access \<times> BufferCursor" where
  "Read r len =
     (case Peek r len of
        Access bs \<Rightarrow> (Access bs, r\<lparr>bpos := bpos r + len\<rparr>)
      | Refused \<Rightarrow> (Refused, r)
      | OutOfRange \<Rightarrow> (OutOfRange, r))"

text \<open>\<open>operator>>\<close> has no size check.\<close>

definition Extract :: "BufferCursor \<Rightarrow> uint32 \<Rightarrow> byte list access \<times> BufferCursor" where
  "Extract r len = (peek_bytes r (unat len), r\<lparr>bpos := bpos r + len\<rparr>)"

definition store_bytes :: "BufferCursor \<Rightarrow> byte list \<Rightarrow> BufferCursor access" where
  "store_bytes r src =
     (if unat (bpos r) + length src \<le> length (memory r)
      then Access (r\<lparr>memory := blit src (unat (bpos r)) (memory r),
                     bpos := bpos r + of_nat (length src)\<rparr>)
      else OutOfRange)"

definition Write :: "BufferCursor \<Rightarrow> byte list \<Rightarrow> BufferCursor access" where
  "Write r src =
     (if Cursor_FreeSize r < of_nat (length src) then Refused else store_bytes r src)"

definition Reserve :: "BufferCursor \<Rightarrow> uint32 \<Rightarrow> (nat \<times> BufferCursor) option" where
  "Reserve r n =
     (if Cursor_FreeSize r < n then None else Some (unat (bpos r), r\<lparr>bpos := bpos r + n\<rparr>))"

definition Insert :: "BufferCursor \<Rightarrow> byte list \<Rightarrow> BufferCursor access" where
  "Insert r src = store_bytes r src"

definition cursor_ok :: "BufferCursor \<Rightarrow> bool" where
  "cursor_ok r \<longleftrightarrow> unat (bsize r) = length (memory r) \<and> bpos r \<le> bsize r"

lemma Cursor_FreeSize_unat: "cursor_ok r \<Longrightarrow> unat (Cursor_FreeSize r) = length (memory r) - unat (bpos r)"
  by (simp add: Cursor_FreeSize_def cursor_ok_def unat_sub)

lemma cursor_ok_pos: "cursor_ok r \<Longrightarrow> unat (bpos r) \<le> length (memory r)"
  by (simp add: cursor_ok_def word_le_nat_alt)

lemma cursor_ok_length: "cursor_ok r \<Longrightarrow> length (memory r) < 4294967296"
  using unsigned_less [of "bsize r", where ?'a = nat] by (simp add: cursor_ok_def)

text \<open>A checked read of an honest cursor never leaves the memory; nor does a checked write.\<close>

lemma Peek_safe: "cursor_ok r \<Longrightarrow> Peek r len \<noteq> OutOfRange"
  using Cursor_FreeSize_unat [of r] cursor_ok_pos [of r]
  by (auto simp: Peek_def peek_bytes_def word_less_nat_alt)

lemma cursor_ok_advance:
  assumes "cursor_ok r" "unat (bpos r) + n \<le> length (memory r)" "length m = length (memory r)"
  shows "cursor_ok (r\<lparr>memory := m, bpos := bpos r + of_nat n\<rparr>)"
    "unat (bpos r + of_nat n) = unat (bpos r) + n"
proof -
  have "n < 4294967296" "unat (bpos r) + n < 4294967296"
    using assms cursor_ok_length [OF assms(1)] by linarith+
  then show u: "unat (bpos r + of_nat n) = unat (bpos r) + n"
    by (simp add: unat_word_ariths unat_of_nat)
  with assms show "cursor_ok (r\<lparr>memory := m, bpos := bpos r + of_nat n\<rparr>)"
    by (simp add: cursor_ok_def word_le_nat_alt)
qed

lemma Write_ok:
  assumes "cursor_ok r" "length src < 4294967296" "Write r src = Access r'"
  shows "cursor_ok r' \<and> length (memory r') = length (memory r)
    \<and> take (length src) (drop (unat (bpos r)) (memory r')) = src
    \<and> take (unat (bpos r)) (memory r') = take (unat (bpos r)) (memory r)"
proof -
  have r': "r' = r\<lparr>memory := blit src (unat (bpos r)) (memory r), bpos := bpos r + of_nat (length src)\<rparr>"
    and fit: "unat (bpos r) + length src \<le> length (memory r)"
    using assms(3) by (auto simp: Write_def store_bytes_def split: if_splits)
  show ?thesis
    using cursor_ok_advance(1) [OF assms(1) fit length_blit [OF fit]] fit r'
    by (simp add: take_blit_before)
qed

lemma Write_safe: "cursor_ok r \<Longrightarrow> length src < 4294967296 \<Longrightarrow> Write r src \<noteq> OutOfRange"
  using Cursor_FreeSize_unat [of r] cursor_ok_pos [of r]
  by (auto simp: Write_def store_bytes_def word_less_nat_alt unat_of_nat)

end
