(* ===== verification/Framing.thy ===== *)
theory Framing
  imports Buffers
begin

text \<open>
  The wire format of every connection: a frame is a \<open>PacketHeader\<close> (little-endian size and id,
  both \<open>uint16\<close>) followed by a serialized protobuf message. \<open>MakeSendBuffer\<close> builds a frame,
  \<open>ParsePacket\<close> takes its payload out and \<open>PacketSession::OnRecv\<close> cuts the received bytes into
  frames. Serialization itself belongs to protobuf: payloads are byte lists here.
\<close>

section \<open>PacketHeader\<close>

record PacketHeader =
  hsize :: uint16
  hid :: uint16

definition sizeof_PacketHeader :: nat where
  "sizeof_PacketHeader = 4"

definition le16_bytes :: "uint16 \<Rightarrow> byte list" where
  "le16_bytes w = [word_of_nat (unat w mod 256), word_of_nat (unat w div 256)]"

definition le16_value :: "byte \<Rightarrow> byte \<Rightarrow> uint16" where
  "le16_value lo hi = word_of_nat (unat lo + 256 * unat hi)"

definition header_bytes :: "PacketHeader \<Rightarrow> byte list" where
  "header_bytes h = le16_bytes (hsize h) @ le16_bytes (hid h)"

text \<open>\<open>reinterpret_cast<PacketHeader*>(&buffer[i])\<close>, with four bytes there.\<close>

definition header_at :: "byte list \<Rightarrow> nat \<Rightarrow> PacketHeader" where
  "header_at b i =
     \<lparr>hsize = le16_value (b ! i) (b ! (i + 1)), hid = le16_value (b ! (i + 2)) (b ! (i + 3))\<rparr>"

lemma length_header_bytes [simp]: "length (header_bytes h) = 4"
  by (simp add: header_bytes_def le16_bytes_def)

lemma le16_roundtrip:
  "le16_value (word_of_nat (unat w mod 256)) (word_of_nat (unat w div 256)) = w"
proof -
  have "unat w < 65536" using unsigned_less [of w, where ?'a = nat] by simp
  then have "unat (word_of_nat (unat w div 256) :: byte) = unat w div 256"
    "unat (word_of_nat (unat w mod 256) :: byte) = unat w mod 256"
    by (simp_all add: unat_of_nat)
  then show ?thesis by (simp add: le16_value_def)
qed

lemma header_roundtrip: "header_at (header_bytes h @ xs) 0 = h"
  by (simp add: header_at_def header_bytes_def le16_bytes_def le16_roundtrip)

lemma header_at_append: "i + 4 \<le> length xs \<Longrightarrow> header_at (xs @ ys) i = header_at xs i"
  by (simp add: header_at_def nth_append)

lemma header_at_shift: "header_at (xs @ ys) (length xs) = header_at ys 0"
proof -
  have "(xs @ ys) ! (length xs + k) = ys ! k" for k by (rule nth_append_length_plus)
  from this [of 0] this [of 1] this [of 2] this [of 3] show ?thesis
    by (simp add: header_at_def numeral_2_eq_2)
qed

lemma header_at_drop: "i \<le> length b \<Longrightarrow> header_at b i = header_at (drop i b) 0"
  using header_at_shift [of "take i b" "drop i b"] by simp

section \<open>MakeSendBuffer and ParsePacket\<close>

text \<open>
  \<open>MakeSendBuffer\<close> serializes inside \<open>assert(...)\<close>: with \<open>NDEBUG\<close> (\<open>debug = False\<close>, the release
  configurations of every project) the call is not compiled and the payload stays zero.
  \<open>None\<close>: the header is written past a buffer whose \<open>uint16\<close> size wrapped, or the assertion
  fails because the message does not fit its truncated size.
\<close>

definition MakeSendBuffer :: "bool \<Rightarrow> byte list \<Rightarrow> uint16 \<Rightarrow> SendBuffer option" where
  "MakeSendBuffer debug payload pktId =
     (let dataSize = (word_of_nat (length payload) :: uint16);
          packetSize = dataSize + word_of_nat sizeof_PacketHeader;
          sendBuffer = SendBuffer_new (unat packetSize);
          header = header_bytes \<lparr>hsize = packetSize, hid = pktId\<rparr>
      in if unat packetSize < sizeof_PacketHeader then None
         else let b1 = sendBuffer\<lparr>sbuffer := blit header 0 (sbuffer sendBuffer)\<rparr>
              in if \<not> debug then Some (Close (ucast packetSize) b1)
                 else if length payload \<le> unat dataSize
                 then Some (Close (ucast packetSize)
                        (b1\<lparr>sbuffer := blit payload sizeof_PacketHeader (sbuffer b1)\<rparr>))
                 else None)"

text \<open>
  The bytes \<open>ParsePacket\<close> gives to \<open>ParseFromArray\<close>: \<open>None\<close> when the size in the header is
  below the header's own size or beyond the bytes received.
\<close>

definition ParsePacket :: "byte list \<Rightarrow> byte list option" where
  "ParsePacket b =
     (let n = unat (hsize (header_at b 0))
      in if n < sizeof_PacketHeader \<or> length b < n then None
         else Some (take (n - sizeof_PacketHeader) (drop sizeof_PacketHeader b)))"

definition frame :: "byte list \<Rightarrow> bool" where
  "frame p \<longleftrightarrow> sizeof_PacketHeader \<le> length p \<and> unat (hsize (header_at p 0)) = length p"

lemma packet_size:
  assumes "length payload \<le> 65531"
  shows "unat ((word_of_nat (length payload) :: uint16) + word_of_nat sizeof_PacketHeader) = length payload + 4"
    "unat (word_of_nat (length payload) :: uint16) = length payload"
  using assms by (simp_all add: unat_of_nat unat_word_ariths sizeof_PacketHeader_def)

lemma Close_writeSize: "writeSize (Close (ucast (n :: uint16)) b) = int (unat n)"
proof -
  have "uint n < 65536" using unsigned_less [of n, where ?'a = int] by simp
  moreover have "uint (ucast n :: uint32) = uint n"
    by (simp add: uint_up_ucast is_up)
  moreover have "- 2147483648 \<le> uint n"
    using unsigned_greater_eq [of n, where ?'a = int] by linarith
  ultimately have "sint (ucast n :: uint32) = uint n"
    by (simp add: sint_uint signed_take_bit_int_eq_self_iff)
  then show ?thesis by (simp add: Close_def)
qed

lemma MakeSendBuffer_wire:
  assumes "length payload \<le> 65531"
  shows "\<exists>b. MakeSendBuffer debug payload pid = Some b
    \<and> wire b = header_bytes \<lparr>hsize = word_of_nat (length payload + 4), hid = pid\<rparr>
        @ (if debug then payload else replicate (length payload) 0)"
proof -
  note P = packet_size [OF assms]
  define n where "n = (word_of_nat (length payload) :: uint16) + word_of_nat sizeof_PacketHeader"
  define h where "h = header_bytes \<lparr>hsize = n, hid = pid\<rparr>"
  have n: "n = word_of_nat (length payload + 4)"
    by (simp add: n_def sizeof_PacketHeader_def)
  have un: "unat n = length payload + 4" using P(1) by (simp add: n_def)
  have lh: "length h = 4" by (simp add: h_def)
  have b1: "blit h 0 (replicate (unat n) 0) = h @ replicate (length payload) 0"
    using un lh by (simp add: blit_def)
  have b2: "blit payload 4 (h @ replicate (length payload) 0) = h @ payload"
    using lh by (simp add: blit_def)
  have w: "writeSize (Close (ucast n) b) = int (length payload + 4)" for b
    using Close_writeSize [of n b] un by simp
  have sb: "sbuffer (Close (ucast n) b) = sbuffer b" for b by (simp add: Close_def)
  let ?B = "Close (ucast n) ((SendBuffer_new (unat n))
      \<lparr>sbuffer := h @ (if debug then payload else replicate (length payload) 0)\<rparr>)"
  have "MakeSendBuffer debug payload pid = Some ?B"
    using un lh b1 b2 P(2) unfolding MakeSendBuffer_def Let_def n_def [symmetric] h_def [symmetric]
    by (simp add: sizeof_PacketHeader_def SendBuffer_new_def)
  moreover have "wire ?B = h @ (if debug then payload else replicate (length payload) 0)"
    using lh by (simp add: wire_def w sb)
  ultimately show ?thesis unfolding n [symmetric] h_def by blast
qed

section \<open>PacketSession::OnRecv\<close>

text \<open>
  The loop over the received bytes, with the packets handed to \<open>OnRecvPacket\<close> collected. It is
  a \<^theory_text>\<open>partial_function\<close>: a header with size 0 does not advance \<open>processLen\<close>, and \<open>None\<close> is
  a loop that does not return.
\<close>

partial_function (option) OnRecv_loop ::
    "byte list \<Rightarrow> nat \<Rightarrow> byte list list \<Rightarrow> (nat \<times> byte list list) option" where
  "OnRecv_loop buffer processLen packets =
     (if length buffer - processLen < sizeof_PacketHeader then Some (processLen, packets)
      else if length buffer - processLen < unat (hsize (header_at buffer processLen))
      then Some (processLen, packets)
      else OnRecv_loop buffer (processLen + unat (hsize (header_at buffer processLen)))
             (packets @ [take (unat (hsize (header_at buffer processLen))) (drop processLen buffer)]))"

definition OnRecv :: "byte list \<Rightarrow> (nat \<times> byte list list) option" where
  "OnRecv buffer = OnRecv_loop buffer 0 []"

definition incomplete :: "byte list \<Rightarrow> bool" where
  "incomplete r \<longleftrightarrow> length r < sizeof_PacketHeader \<or> length r < unat (hsize (header_at r 0))"

lemma frame_header: "frame p \<Longrightarrow> hsize (header_at (p @ xs) 0) = hsize (header_at p 0)"
  by (simp add: header_at_append frame_def sizeof_PacketHeader_def)

lemma OnRecv_loop_frames:
  assumes "\<forall>p \<in> set ps. frame p" "incomplete rest"
  shows "OnRecv_loop (pre @ concat ps @ rest) (length pre) acc
    = Some (length pre + length (concat ps), acc @ ps)"
  using assms
proof (induction ps arbitrary: pre acc)
  case Nil
  then show ?case
    by (subst OnRecv_loop.simps) (auto simp: header_at_shift incomplete_def)
next
  case (Cons p ps)
  let ?b = "pre @ p @ concat ps @ rest"
  from Cons.prems have f: "frame p" by simp
  have s: "unat (hsize (header_at ?b (length pre))) = length p"
    using frame_header [OF f, of "concat ps @ rest"] f
    by (simp add: header_at_shift frame_def)
  have l: "sizeof_PacketHeader \<le> length p" using f by (simp add: frame_def)
  have "OnRecv_loop ?b (length pre) acc = OnRecv_loop ?b (length (pre @ p)) (acc @ [p])"
    using s l by (subst OnRecv_loop.simps) simp
  also have "\<dots> = Some (length (pre @ p) + length (concat ps), (acc @ [p]) @ ps)"
    using Cons.IH [of "pre @ p" "acc @ [p]"] Cons.prems by simp
  finally show ?case by simp
qed

lemma OnRecv_frames:
  "\<lbrakk>\<forall>p \<in> set ps. frame p; incomplete rest\<rbrakk> \<Longrightarrow>
    OnRecv (concat ps @ rest) = Some (length (concat ps), ps)"
  using OnRecv_loop_frames [of ps rest "[]" "[]"] by (simp add: OnRecv_def)

text \<open>Whatever it returns is a consumed prefix and its cut into pieces.\<close>

lemma OnRecv_loop_sound:
  assumes "OnRecv_loop b n acc = Some (m, ps)" "n \<le> length b"
  shows "n \<le> m \<and> m \<le> length b \<and> (\<exists>qs. ps = acc @ qs \<and> concat qs = take (m - n) (drop n b))"
proof -
  have "n \<le> length b \<longrightarrow> n \<le> m \<and> m \<le> length b
      \<and> (\<exists>qs. ps = acc @ qs \<and> concat qs = take (m - n) (drop n b))"
  proof (rule OnRecv_loop.raw_induct [where P = "\<lambda>b n acc (m, ps). n \<le> length b \<longrightarrow> n \<le> m \<and> m \<le> length b
      \<and> (\<exists>qs. ps = acc @ qs \<and> concat qs = take (m - n) (drop n b))", OF _ assms(1), simplified prod.case],
      goal_cases)
    case (1 loop b n acc r)
    obtain m ps where r: "r = (m, ps)" by (cases r)
    show ?case
    proof (cases "length b - n < sizeof_PacketHeader \<or> length b - n < unat (hsize (header_at b n))")
      case True
      with "1"(2) r show ?thesis by (auto split: if_splits)
    next
      case False
      define k where "k = unat (hsize (header_at b n))"
      from False "1"(2) r have "loop b (n + k) (acc @ [take k (drop n b)]) = Some (m, ps)"
        by (auto simp: k_def)
      from "1"(1) [OF this]
      have IH: "n + k \<le> length b \<Longrightarrow> n + k \<le> m \<and> m \<le> length b
        \<and> (\<exists>qs. ps = (acc @ [take k (drop n b)]) @ qs \<and> concat qs = take (m - (n + k)) (drop (n + k) b))"
        by simp
      show ?thesis
      proof (clarsimp simp: r)
        assume "n \<le> length b"
        with False have "n + k \<le> length b" unfolding k_def by linarith
        from IH [OF this] obtain qs where m: "n + k \<le> m" "m \<le> length b"
          and ps: "ps = (acc @ [take k (drop n b)]) @ qs"
          and qs: "concat qs = take (m - (n + k)) (drop (n + k) b)" by blast
        have "take (m - n) (drop n b) = take k (drop n b) @ take (m - n - k) (drop k (drop n b))"
          using m(1) take_add [of k "m - n - k" "drop n b"] by simp
        then have "concat (take k (drop n b) # qs) = take (m - n) (drop n b)"
          using qs m by (simp add: add.commute)
        with m ps show "n \<le> m \<and> m \<le> length b \<and> (\<exists>qs. ps = acc @ qs \<and> concat qs = take (m - n) (drop n b))"
          by (metis append.assoc append_Cons append_Nil add_leE)
      qed
    qed
  qed
  with assms(2) show ?thesis by simp
qed

text \<open>A zero size field stops the loop from ever returning.\<close>

lemma OnRecv_loop_stuck:
  assumes "sizeof_PacketHeader \<le> length b - n" "hsize (header_at b n) = 0"
  shows "OnRecv_loop b n acc = None"
proof (rule ccontr)
  assume "OnRecv_loop b n acc \<noteq> None"
  then obtain r where r: "OnRecv_loop b n acc = Some r" by blast
  have "\<not> (sizeof_PacketHeader \<le> length b - n \<and> hsize (header_at b n) = 0)"
    by (rule OnRecv_loop.raw_induct [where P = "\<lambda>b n acc r.
        \<not> (sizeof_PacketHeader \<le> length b - n \<and> hsize (header_at b n) = 0)", OF _ r])
      (auto split: if_splits)
  with assms show False by simp
qed

end
