(* ===== verification/Session.thy ===== *)
theory Session
  imports Framing
begin

text \<open>
  \<open>Session\<close> and \<open>Service\<close> of \<^verbatim>\<open>ServerCore\<close>: one record per connection with its receive window,
  its send queue and the flags that say which asynchronous operations are out. The operating
  system's answers (what \<open>WSARecv\<close>, \<open>WSASend\<close>, \<open>ConnectEx\<close> return, which bytes arrived) are
  arguments. The calls a session makes upwards (the virtual \<open>On...\<close> methods) and outwards (the
  socket API) are recorded, in order, in the field \<open>calls\<close>.
\<close>

section \<open>State\<close>

datatype wsa_result = WsaOk | WsaError int32

definition WSA_IO_PENDING :: int32 where "WSA_IO_PENDING = 997"
definition WSAECONNABORTED :: int32 where "WSAECONNABORTED = 10053"
definition WSAECONNRESET :: int32 where "WSAECONNRESET = 10054"
definition WSAENOTCONN :: int32 where "WSAENOTCONN = 10057"

datatype session_call =
    CallOnConnected
  | CallOnDisconnected
  | CallOnRecvPacket "byte list"
  | CallOnSend nat
  | CallAddSession
  | CallReleaseSession
  | CallConnectEx
  | CallDisconnectEx
  | CallWSARecv int32
  | CallWSASend "byte list list"

record Session =
  connected :: bool
  recvBuffer :: RecvBuffer
  sendQueue :: "SendBuffer list"
  sendRegistered :: bool
  sendBuffers :: "SendBuffer list"
  connectOwner :: bool
  disconnectOwner :: bool
  recvOwner :: bool
  sendOwner :: bool
  calls :: "session_call list"

definition BUFFER_SIZE :: int32 where
  "BUFFER_SIZE = 65536"

definition Session_new :: Session where
  "Session_new =
     \<lparr>connected = False, recvBuffer = RecvBuffer_new BUFFER_SIZE, sendQueue = [],
      sendRegistered = False, sendBuffers = [], connectOwner = False, disconnectOwner = False,
      recvOwner = False, sendOwner = False, calls = []\<rparr>"

definition call :: "session_call \<Rightarrow> Session \<Rightarrow> Session" where
  "call c s = s\<lparr>calls := calls s @ [c]\<rparr>"

text \<open>Neither of the two ways an asynchronous call is accepted: it fails with another code.\<close>

definition wsa_failed :: "wsa_result \<Rightarrow> bool" where
  "wsa_failed r = (case r of WsaOk \<Rightarrow> False | WsaError e \<Rightarrow> e \<noteq> WSA_IO_PENDING)"

definition wsa_code :: "wsa_result \<Rightarrow> int32" where
  "wsa_code r = (case r of WsaOk \<Rightarrow> 0 | WsaError e \<Rightarrow> e)"

section \<open>Disconnecting\<close>

definition RegisterDisconnect :: "wsa_result \<Rightarrow> Session \<Rightarrow> bool \<times> Session" where
  "RegisterDisconnect r s =
     (let s1 = call CallDisconnectEx (s\<lparr>disconnectOwner := True\<rparr>)
      in if wsa_failed r then (False, s1\<lparr>disconnectOwner := False\<rparr>) else (True, s1))"

definition Disconnect :: "wsa_result \<Rightarrow> Session \<Rightarrow> Session" where
  "Disconnect r s =
     (if \<not> connected s then s
      else snd (RegisterDisconnect r
             (call CallReleaseSession (call CallOnDisconnected (s\<lparr>connected := False\<rparr>)))))"

definition ProcessDisconnect :: "Session \<Rightarrow> Session" where
  "ProcessDisconnect s = s\<lparr>disconnectOwner := False\<rparr>"

definition HandleError :: "int32 \<Rightarrow> wsa_result \<Rightarrow> Session \<Rightarrow> Session" where
  "HandleError errorCode r s =
     (if errorCode \<in> {WSAECONNRESET, WSAECONNABORTED, WSAENOTCONN} then Disconnect r s else s)"

section \<open>Connecting\<close>

text \<open>
  \<open>RegisterConnect\<close>: already connected, wrong service type, the two socket options, then
  \<open>ConnectEx\<close>. The arguments are what \<open>SetReuseAddress\<close>, \<open>BindAnyAddress\<close> and \<open>ConnectEx\<close> answer.
\<close>

datatype ServiceType = ServiceServer | ServiceClient

definition RegisterConnect ::
    "ServiceType \<Rightarrow> bool \<Rightarrow> bool \<Rightarrow> wsa_result \<Rightarrow> Session \<Rightarrow> bool \<times> Session" where
  "RegisterConnect ty reuse bound r s =
     (if connected s then (False, s)
      else if ty \<noteq> ServiceClient then (False, s)
      else if \<not> reuse then (False, s)
      else if \<not> bound then (False, s)
      else let s1 = call CallConnectEx (s\<lparr>connectOwner := True\<rparr>)
           in if wsa_failed r then (False, s1\<lparr>connectOwner := False\<rparr>) else (True, s1))"

section \<open>Receiving\<close>

definition RegisterRecv :: "wsa_result \<Rightarrow> wsa_result \<Rightarrow> Session \<Rightarrow> Session" where
  "RegisterRecv r rd s =
     (if \<not> connected s then s
      else let s1 = call (CallWSARecv (FreeSize (recvBuffer s))) (s\<lparr>recvOwner := True\<rparr>)
           in if wsa_failed r then (HandleError (wsa_code r) rd s1)\<lparr>recvOwner := False\<rparr> else s1)"

definition ProcessConnect :: "bool \<Rightarrow> wsa_result \<Rightarrow> wsa_result \<Rightarrow> Session \<Rightarrow> Session" where
  "ProcessConnect overlapped_ok r rd s =
     (let s1 = s\<lparr>connectOwner := False\<rparr>
      in if \<not> overlapped_ok then s1
         else RegisterRecv r rd
                (call CallOnConnected (call CallAddSession (s1\<lparr>connected := True\<rparr>))))"

text \<open>
  A receive completes with the bytes \<open>bs\<close> the system stored at \<open>WritePos()\<close>. \<open>Hangs\<close>: \<open>OnRecv\<close>
  does not return; \<open>BadCopy\<close>: \<open>Clean\<close> copies between overlapping ranges.
\<close>

datatype recv_fault = Hangs | BadCopy

fun deliver :: "byte list list \<Rightarrow> Session \<Rightarrow> Session" where
  "deliver [] s = s"
| "deliver (p # ps) s = deliver ps (call (CallOnRecvPacket p) s)"

definition ProcessRecv ::
    "byte list \<Rightarrow> wsa_result \<Rightarrow> wsa_result \<Rightarrow> Session \<Rightarrow> recv_fault + Session" where
  "ProcessRecv bs r rd s0 =
     (let s = s0\<lparr>recvOwner := False, recvBuffer := kernel_write bs (recvBuffer s0)\<rparr>
      in if length bs = 0 then Inr (Disconnect rd s)
         else case OnWrite (int (length bs)) (recvBuffer s) of
           (False, _) \<Rightarrow> Inr (Disconnect rd s)
         | (True, b1) \<Rightarrow>
             (case OnRecv (rb_data b1) of
                None \<Rightarrow> Inl Hangs
              | Some (processLen, packets) \<Rightarrow>
                  let s1 = deliver packets (s\<lparr>recvBuffer := b1\<rparr>)
                  in if DataSize b1 < int processLen then Inr (Disconnect rd s1)
                     else case OnRead (int processLen) b1 of
                       (False, _) \<Rightarrow> Inr (Disconnect rd s1)
                     | (True, b2) \<Rightarrow>
                         (case Clean b2 of
                            None \<Rightarrow> Inl BadCopy
                          | Some b3 \<Rightarrow> Inr (RegisterRecv r rd (s1\<lparr>recvBuffer := b3\<rparr>)))))"

section \<open>Sending\<close>

text \<open>
  Each locked block and each atomic exchange is one definition, so that the threads of the pool
  can interleave between them: \<open>Send_locked\<close> (the push and the exchange), \<open>RegisterSend_begin\<close>
  (the test of \<open>IsConnected()\<close>, and the event takes its owner), \<open>RegisterSend_drain\<close> (the queue
  moves into the event), \<open>RegisterSend_post\<close> (the \<open>WSASend\<close>), \<open>ProcessSend_release\<close>
  (a completion drops the event's buffers) and \<open>ProcessSend_locked\<close> (the decision to go on).
\<close>

definition Send_locked :: "SendBuffer \<Rightarrow> Session \<Rightarrow> bool \<times> Session" where
  "Send_locked b s =
     (\<not> sendRegistered s, s\<lparr>sendQueue := sendQueue s @ [b], sendRegistered := True\<rparr>)"

definition RegisterSend_begin :: "Session \<Rightarrow> bool \<times> Session" where
  "RegisterSend_begin s =
     (if \<not> connected s then (False, s) else (True, s\<lparr>sendOwner := True\<rparr>))"

definition RegisterSend_drain :: "Session \<Rightarrow> Session" where
  "RegisterSend_drain s = s\<lparr>sendBuffers := sendBuffers s @ sendQueue s, sendQueue := []\<rparr>"

definition RegisterSend_post :: "wsa_result \<Rightarrow> wsa_result \<Rightarrow> Session \<Rightarrow> Session" where
  "RegisterSend_post r rd s =
     (let s1 = call (CallWSASend (map wire (sendBuffers s))) s
      in if wsa_failed r
         then (HandleError (wsa_code r) rd s1)
                \<lparr>sendOwner := False, sendBuffers := [], sendRegistered := False\<rparr>
         else s1)"

definition RegisterSend :: "wsa_result \<Rightarrow> wsa_result \<Rightarrow> Session \<Rightarrow> Session" where
  "RegisterSend r rd s =
     (case RegisterSend_begin s of
        (go, s1) \<Rightarrow> if go then RegisterSend_post r rd (RegisterSend_drain s1) else s1)"

definition Send :: "SendBuffer \<Rightarrow> wsa_result \<Rightarrow> wsa_result \<Rightarrow> Session \<Rightarrow> Session" where
  "Send b r rd s =
     (case Send_locked b s of (registerSend, s1) \<Rightarrow> if registerSend then RegisterSend r rd s1 else s1)"

definition ProcessSend_release :: "Session \<Rightarrow> Session" where
  "ProcessSend_release s = s\<lparr>sendOwner := False, sendBuffers := []\<rparr>"

definition ProcessSend_locked :: "Session \<Rightarrow> bool \<times> Session" where
  "ProcessSend_locked s =
     (if sendQueue s = [] then (False, s\<lparr>sendRegistered := False\<rparr>) else (True, s))"

definition ProcessSend :: "nat \<Rightarrow> wsa_result \<Rightarrow> wsa_result \<Rightarrow> Session \<Rightarrow> Session" where
  "ProcessSend numOfBytes r rd s =
     (let s1 = ProcessSend_release s
      in if numOfBytes = 0 then Disconnect rd s1
         else case ProcessSend_locked (call (CallOnSend numOfBytes) s1) of
           (registerSend, s2) \<Rightarrow> if registerSend then RegisterSend r rd s2 else s2)"

section \<open>Dispatch\<close>

datatype completion =
    ConnectDone bool
  | DisconnectDone
  | RecvDone "byte list"
  | SendDone nat

definition Session_Dispatch ::
    "completion \<Rightarrow> wsa_result \<Rightarrow> wsa_result \<Rightarrow> Session \<Rightarrow> recv_fault + Session" where
  "Session_Dispatch ev r rd s =
     (case ev of
        ConnectDone ok \<Rightarrow> Inr (ProcessConnect ok r rd s)
      | DisconnectDone \<Rightarrow> Inr (ProcessDisconnect s)
      | RecvDone bs \<Rightarrow> ProcessRecv bs r rd s
      | SendDone n \<Rightarrow> Inr (ProcessSend n r rd s))"

section \<open>Service\<close>

text \<open>
  \<open>ReleaseSession\<close> erases inside \<open>assert(...)\<close>: without assertions (\<open>debug = False\<close>) the session
  stays in the set, and only the counter goes down. \<open>None\<close>: the assertion fails.
\<close>

record Service =
  serviceType :: ServiceType
  sessions :: "nat set"
  sessionCount :: int32
  maxSessionCount :: int32

definition Service_new :: "ServiceType \<Rightarrow> int32 \<Rightarrow> Service" where
  "Service_new ty n = \<lparr>serviceType = ty, sessions = {}, sessionCount = 0, maxSessionCount = n\<rparr>"

definition AddSession :: "nat \<Rightarrow> Service \<Rightarrow> Service" where
  "AddSession i s = s\<lparr>sessionCount := wrap32 (sessionCount s + 1), sessions := insert i (sessions s)\<rparr>"

definition ReleaseSession :: "bool \<Rightarrow> nat \<Rightarrow> Service \<Rightarrow> Service option" where
  "ReleaseSession debug i s =
     (if debug then
        (if i \<in> sessions s
         then Some (s\<lparr>sessions := sessions s - {i}, sessionCount := wrap32 (sessionCount s - 1)\<rparr>)
         else None)
      else Some (s\<lparr>sessionCount := wrap32 (sessionCount s - 1)\<rparr>))"

definition service_inv :: "Service \<Rightarrow> bool" where
  "service_inv s \<longleftrightarrow> finite (sessions s) \<and> sessionCount s = int (card (sessions s))
     \<and> card (sessions s) < 2147483647"

text \<open>
  \<open>CreateSession\<close> gives \<open>nullptr\<close> when the completion port refuses the socket.
  \<open>ClientService::Start\<close> creates and connects the sessions one by one and gives up at the first
  that fails; each list element says whether the session was registered and what its
  \<open>Connect()\<close> answers. \<open>None\<close>: \<open>Connect()\<close> is called on a null session.
\<close>

definition CreateSession :: "bool \<Rightarrow> Session option" where
  "CreateSession registered = (if registered then Some Session_new else None)"

fun ClientService_Start :: "bool \<Rightarrow> (bool \<times> bool) list \<Rightarrow> (bool \<times> nat) option" where
  "ClientService_Start canStart [] = Some (canStart, 0)"
| "ClientService_Start canStart ((registered, connects) # rest) =
     (if \<not> canStart then Some (False, 0)
      else case CreateSession registered of
        None \<Rightarrow> None
      | Some _ \<Rightarrow>
          if \<not> connects then Some (False, 1)
          else map_option (map_prod id Suc) (ClientService_Start canStart rest))"

end
