(* ===== verification/Session_Recv.thy ===== *)
theory Session_Recv
  imports Session
begin

text \<open>
  The receive path end to end: however the network cuts a stream of frames into receives, a
  session hands exactly those frames to \<open>OnRecvPacket\<close>, in order, and its window never
  overflows. The proof runs the session over the FIFO interface of its buffer.
\<close>

section \<open>Cutting a stream\<close>

lemma incomplete_prefix: "incomplete (d @ e) \<Longrightarrow> incomplete d"
  using header_at_append [of 0 d e]
  by (cases "length d < 4") (auto simp: incomplete_def sizeof_PacketHeader_def)

lemma incomplete_proper_prefix:
  assumes "frame (d @ x)" "x \<noteq> []"
  shows "incomplete d"
proof (cases "4 \<le> length d")
  case True
  then have "header_at (d @ x) 0 = header_at d 0" by (simp add: header_at_append)
  then have "unat (hsize (header_at d 0)) = length d + length x"
    using assms(1) by (simp add: frame_def)
  with assms(2) show ?thesis by (simp add: incomplete_def)
qed (simp add: incomplete_def sizeof_PacketHeader_def)

lemma split_stream:
  assumes "\<forall>p \<in> set ps. frame p" "incomplete rest" "d @ e = concat ps @ rest"
  shows "\<exists>ps1 ps2 d'. ps = ps1 @ ps2 \<and> d = concat ps1 @ d' \<and> incomplete d'
    \<and> d' @ e = concat ps2 @ rest"
  using assms
proof (induction ps arbitrary: d)
  case Nil
  then show ?case
    using incomplete_prefix [of d e] by (intro exI [of _ "[]"] exI [of _ d]) simp
next
  case (Cons p ps)
  have eq: "d @ e = p @ concat ps @ rest" using Cons.prems(3) by simp
  show ?case
  proof (cases "length p \<le> length d")
    case True
    then obtain d2 where d: "d = p @ d2"
      using eq by (metis append_eq_append_conv_if append_take_drop_id)
    with eq have "d2 @ e = concat ps @ rest" by simp
    with Cons.IH [of d2] Cons.prems obtain ps1 ps2 d' where
      "ps = ps1 @ ps2" "d2 = concat ps1 @ d'" "incomplete d'" "d' @ e = concat ps2 @ rest" by auto
    with d show ?thesis
      by (intro exI [of _ "p # ps1"] exI [of _ ps2] exI [of _ d']) simp
  next
    case False
    then obtain x where x: "p = d @ x" "x \<noteq> []"
      using eq by (metis append_eq_append_conv_if append_self_conv append_take_drop_id nat_le_linear
          take_all)
    with Cons.prems(1) have "incomplete d" by (intro incomplete_proper_prefix [of d x]) simp_all
    with eq show ?thesis
      by (intro exI [of _ "[]"] exI [of _ "p # ps"] exI [of _ d]) simp
  qed
qed

lemma incomplete_length: "incomplete r \<Longrightarrow> length r < 65536"
  using unsigned_less [of "hsize (header_at r 0)", where ?'a = nat]
  by (auto simp: incomplete_def sizeof_PacketHeader_def)

section \<open>One receive\<close>

definition packets :: "session_call list \<Rightarrow> byte list list" where
  "packets cs = concat (map (\<lambda>c. case c of CallOnRecvPacket p \<Rightarrow> [p] | _ \<Rightarrow> []) cs)"

lemma packets_append [simp]: "packets (cs @ ds) = packets cs @ packets ds"
  by (simp add: packets_def)

lemma packets_simps [simp]:
  "packets [] = []" "packets [CallOnRecvPacket p] = [p]" "packets [CallWSARecv n] = []"
  by (simp_all add: packets_def)

lemma deliver_frame [simp]:
  "connected (deliver ps s) = connected s" "recvBuffer (deliver ps s) = recvBuffer s"
  by (induction ps arbitrary: s) (simp_all add: call_def)

lemma packets_deliver: "packets (calls (deliver ps s)) = packets (calls s) @ ps"
  by (induction ps arbitrary: s) (simp_all add: call_def)

definition receiving :: "Session \<Rightarrow> bool" where
  "receiving s \<longleftrightarrow> connected s \<and> rb_session_inv (recvBuffer s)
     \<and> bufferSize (recvBuffer s) = BUFFER_SIZE \<and> BUFFER_SIZE \<le> FreeSize (recvBuffer s)"

lemma receiving_new: "receiving (Session_new\<lparr>connected := True\<rparr>)"
  by (simp add: receiving_def Session_new_def rb_session_inv_def rb_inv_def RecvBuffer_new_def
      BUFFER_SIZE_def BUFFER_COUNT_def in32_def FreeSize_def)

lemma ProcessRecv_frames:
  assumes s: "receiving s" and bs: "bs \<noteq> []" "int (length bs) \<le> FreeSize (recvBuffer s)"
    and cut: "rb_data (recvBuffer s) @ bs = concat ps @ d" "\<forall>p \<in> set ps. frame p" "incomplete d"
  shows "\<exists>s'. ProcessRecv bs WsaOk WsaOk s = Inr s' \<and> receiving s'
    \<and> rb_data (recvBuffer s') = d \<and> packets (calls s') = packets (calls s) @ ps"
proof -
  define b where "b = recvBuffer s"
  from s have b: "rb_session_inv b" "bufferSize b = 65536" and i: "rb_inv b"
    by (simp_all add: receiving_def b_def rb_session_inv_def BUFFER_SIZE_def)
  have room: "length bs \<le> nat (FreeSize b)" using bs by (simp add: b_def)
  have data: "rb_data b @ bs = concat ps @ d" using cut by (simp add: b_def)
  from OnWrite_kernel [OF i] bs obtain b1 where b1: "OnWrite (int (length bs)) (kernel_write bs b) = (True, b1)"
    by (auto simp: b_def)
  then have "b1 = rb_push bs b" by (simp add: rb_push_def)
  with rb.push [OF b(1) room] data b have b1': "rb_session_inv b1" "rb_data b1 = concat ps @ d"
    "bufferSize b1 = 65536" and i1: "rb_inv b1"
    by (auto simp: rb_session_inv_def)
  let ?n = "length (concat ps)"
  have on: "OnRecv (rb_data b1) = Some (?n, ps)" using OnRecv_frames [OF cut(2,3)] b1' by simp
  from OnRead_data [OF i1, of ?n] b1' obtain b2 where b2: "OnRead (int ?n) b1 = (True, b2)" by auto
  then have "b2 = rb_pop ?n b1" by (simp add: rb_pop_def)
  with rb.pop [OF b1'(1), of ?n] b1' have b2': "rb_session_inv b2" "rb_data b2 = d" "bufferSize b2 = 65536"
    by (auto simp: rb_session_inv_def rb_inv_def)
  from rb.tidy [OF b2'(1)] b2' incomplete_length [OF cut(3)] obtain b3 where
    b3: "Clean b2 = Some b3" "rb_session_inv b3" "rb_data b3 = d" and "nat (bufferSize b3) = 65536"
      "nat (bufferSize b3) \<le> nat (FreeSize b3)"
    by auto
  then have b3s: "bufferSize b3 = 65536" "65536 \<le> FreeSize b3" by linarith+
  have le: "\<not> DataSize b1 < int ?n"
    using length_rb_data [OF i1] b1' by simp
  define s1 where "s1 = deliver ps (s\<lparr>recvOwner := False, recvBuffer := b1\<rparr>)"
  have "ProcessRecv bs WsaOk WsaOk s = Inr (RegisterRecv WsaOk WsaOk (s1\<lparr>recvBuffer := b3\<rparr>))"
    using bs b1 on le b2 b3 by (simp add: ProcessRecv_def Let_def b_def s1_def)
  moreover have "connected s1" using s by (simp add: s1_def receiving_def)
  ultimately show ?thesis using b3 b3s
    by (simp add: RegisterRecv_def receiving_def wsa_failed_def call_def s1_def packets_deliver BUFFER_SIZE_def)
qed

section \<open>A run of receives\<close>

primrec recv_run :: "byte list list \<Rightarrow> Session \<Rightarrow> recv_fault + Session" where
  "recv_run [] s = Inr s"
| "recv_run (c # cs) s =
     (case ProcessRecv c WsaOk WsaOk s of Inl f \<Rightarrow> Inl f | Inr s' \<Rightarrow> recv_run cs s')"

text \<open>
  What the system promises of each completion: at least one byte, and no more than the space
  the receive was given.
\<close>

primrec recv_fits :: "byte list list \<Rightarrow> Session \<Rightarrow> bool" where
  "recv_fits [] s = True"
| "recv_fits (c # cs) s =
     (c \<noteq> [] \<and> int (length c) \<le> FreeSize (recvBuffer s)
      \<and> (case ProcessRecv c WsaOk WsaOk s of Inl f \<Rightarrow> True | Inr s' \<Rightarrow> recv_fits cs s'))"

lemma recv_run_stream:
  assumes "receiving s" "\<forall>p \<in> set ps. frame p" "incomplete rest"
    and "rb_data (recvBuffer s) @ concat chunks = concat ps @ rest" "recv_fits chunks s"
    and "incomplete (rb_data (recvBuffer s))"
  shows "\<exists>s'. recv_run chunks s = Inr s' \<and> receiving s' \<and> rb_data (recvBuffer s') = rest
    \<and> packets (calls s') = packets (calls s) @ ps"
  using assms
proof (induction chunks arbitrary: s ps)
  case Nil
  from split_stream [OF Nil.prems(2,3), of "rb_data (recvBuffer s)" "[]"] Nil.prems
  have "incomplete (concat ps @ rest)" by simp
  then have "ps = []"
    using Nil.prems(2) incomplete_prefix [of _ "concat (tl ps) @ rest"]
    by (cases ps) (auto simp: incomplete_def frame_def header_at_append sizeof_PacketHeader_def)
  with Nil.prems show ?case by simp
next
  case (Cons c cs)
  have "(rb_data (recvBuffer s) @ c) @ concat cs = concat ps @ rest" using Cons.prems(4) by simp
  from split_stream [OF Cons.prems(2,3) this] obtain ps1 ps2 d where
    ps: "ps = ps1 @ ps2" and cut: "rb_data (recvBuffer s) @ c = concat ps1 @ d" "incomplete d"
    and tl: "d @ concat cs = concat ps2 @ rest" by blast
  from Cons.prems(5) have c: "c \<noteq> []" "int (length c) \<le> FreeSize (recvBuffer s)" by simp_all
  have "\<forall>p \<in> set ps1. frame p" using Cons.prems(2) ps by simp
  from ProcessRecv_frames [OF Cons.prems(1) c cut(1) this cut(2)] obtain s1 where
    s1: "ProcessRecv c WsaOk WsaOk s = Inr s1" "receiving s1" "rb_data (recvBuffer s1) = d"
      "packets (calls s1) = packets (calls s) @ ps1" by blast
  have "\<exists>s'. recv_run cs s1 = Inr s' \<and> receiving s' \<and> rb_data (recvBuffer s') = rest
    \<and> packets (calls s') = packets (calls s1) @ ps2"
    using Cons.prems ps s1 cut tl by (intro Cons.IH) simp_all
  with s1 ps show ?case by auto
qed

text \<open>
  C7. Framing does not depend on how the transport cuts the byte stream: a connected session
  that has received the frames \<open>ps\<close> and the beginning \<open>rest\<close> of another, in any sequence of
  receives each of which fits the space it was given, has handed exactly \<open>ps\<close>, in order, to
  \<open>OnRecvPacket\<close>, holds exactly \<open>rest\<close>, is still connected with at least 64 KB of space for the
  next receive, and no receive hung, copied between overlapping ranges or overflowed the window.
\<close>

theorem received_stream_is_framed:
  assumes "receiving s" "rb_data (recvBuffer s) = []"
    and "\<forall>p \<in> set ps. frame p" "incomplete rest"
    and "concat chunks = concat ps @ rest" "recv_fits chunks s"
  shows "\<exists>s'. recv_run chunks s = Inr s' \<and> connected s' \<and> rb_data (recvBuffer s') = rest
    \<and> packets (calls s') = packets (calls s) @ ps \<and> BUFFER_SIZE \<le> FreeSize (recvBuffer s')"
  using recv_run_stream [OF assms(1,3,4), of chunks] assms
  by (auto simp: incomplete_def sizeof_PacketHeader_def receiving_def)

text \<open>Two frames cut inside the second one and followed by a third frame's first byte.\<close>

theorem received_stream_is_framed_witness:
  "\<exists>s'. recv_run [[4, 0, 1, 0, 5, 0], [2, 0, 9, 6]] (Session_new\<lparr>connected := True\<rparr>) = Inr s'
    \<and> connected s' \<and> rb_data (recvBuffer s') = [6]
    \<and> packets (calls s') = [[4, 0, 1, 0], [5, 0, 2, 0, 9]]"
proof -
  define s where "s = Session_new\<lparr>connected := True\<rparr>"
  have s: "receiving s" "rb_data (recvBuffer s) = []" "packets (calls s) = []"
    using receiving_new by (simp_all add: s_def Session_new_def rb_data_def RecvBuffer_new_def)
  have free: "\<And>s. receiving s \<Longrightarrow> 65536 \<le> FreeSize (recvBuffer s)"
    by (simp add: receiving_def BUFFER_SIZE_def)
  have frames: "\<forall>p \<in> set [[4, 0, 1, 0], [5, 0, 2, 0, 9]]. frame p"
    by (simp add: frame_def sizeof_PacketHeader_def header_at_def le16_value_def)
  have rest: "incomplete [6]" "incomplete [5, 0]"
    by (simp_all add: incomplete_def sizeof_PacketHeader_def)
  from ProcessRecv_frames [OF s(1), of "[4, 0, 1, 0, 5, 0]" "[[4, 0, 1, 0]]" "[5, 0]"] frames rest
    free [OF s(1)] s(2)
  obtain s1 where "ProcessRecv [4, 0, 1, 0, 5, 0] WsaOk WsaOk s = Inr s1" "receiving s1" by auto
  then have "recv_fits [[4, 0, 1, 0, 5, 0], [2, 0, 9, 6]] s"
    using free [OF s(1)] free [of s1] by (simp split: sum.split)
  from received_stream_is_framed [OF s(1,2) frames rest(1) _ this] s(3)
  show ?thesis unfolding s_def by (simp del: recv_run.simps) blast
qed

end
