(* ===== verification/Session_Send.thy ===== *)
theory Session_Send
  imports Session
begin

text \<open>
  The send path under concurrency. Any thread may call \<open>Send\<close>, and pool threads run
  \<open>RegisterSend\<close> and \<open>ProcessSend\<close>; a step is one locked block or one system call of one of
  them, so every interleaving of those blocks is a run of \<open>send_step\<close>. The counters say how
  many threads stand before each block, and \<open>outstanding\<close> how many accepted \<open>WSASend\<close> calls have
  not completed; \<open>pushed\<close> and \<open>dropped\<close> are history: the buffers given to \<open>Send\<close>, and whether a
  block gave up (not connected, a failed \<open>WSASend\<close>, a completion of 0 bytes). \<open>RegisterSend\<close> is
  three steps: the test of \<open>IsConnected()\<close>, which takes no lock, the locked loop that empties the
  queue, and the call of \<open>WSASend\<close>; between them the session may be disconnected.
\<close>

section \<open>The steps\<close>

record send_sys =
  ses :: Session
  registering :: nat
  draining :: nat
  posting :: nat
  outstanding :: nat
  finishing :: nat
  pushed :: "SendBuffer list"
  dropped :: bool

definition send_init :: send_sys where
  "send_init = \<lparr>ses = Session_new, registering = 0, draining = 0, posting = 0, outstanding = 0, finishing = 0,
     pushed = [], dropped = False\<rparr>"

inductive send_step :: "send_sys \<Rightarrow> send_sys \<Rightarrow> bool" where
  push: "Send_locked b (ses S) = (reg, s) \<Longrightarrow>
    send_step S (S\<lparr>ses := s, registering := registering S + of_bool reg, pushed := pushed S @ [b]\<rparr>)"
| begins: "registering S = Suc k \<Longrightarrow> RegisterSend_begin (ses S) = (go, s) \<Longrightarrow>
    send_step S (S\<lparr>registering := k, draining := draining S + of_bool go, ses := s,
      dropped := (dropped S \<or> \<not> go)\<rparr>)"
| drain: "draining S = Suc k \<Longrightarrow>
    send_step S (S\<lparr>draining := k, posting := Suc (posting S), ses := RegisterSend_drain (ses S)\<rparr>)"
| post: "posting S = Suc k \<Longrightarrow>
    send_step S (S\<lparr>posting := k, ses := RegisterSend_post r rd (ses S),
      outstanding := outstanding S + of_bool (\<not> wsa_failed r), dropped := (dropped S \<or> wsa_failed r)\<rparr>)"
| complete: "outstanding S = Suc k \<Longrightarrow>
    send_step S (S\<lparr>outstanding := k, finishing := Suc (finishing S), ses := ProcessSend_release (ses S)\<rparr>)"
| finish_zero: "finishing S = Suc k \<Longrightarrow>
    send_step S (S\<lparr>finishing := k, ses := Disconnect rd (ses S), dropped := True\<rparr>)"
| finish: "finishing S = Suc k \<Longrightarrow> ProcessSend_locked (call (CallOnSend n) (ses S)) = (reg, s) \<Longrightarrow>
    send_step S (S\<lparr>finishing := k, ses := s, registering := registering S + of_bool reg\<rparr>)"
| disconnect: "send_step S (S\<lparr>ses := Disconnect rd (ses S)\<rparr>)"
| connect: "send_step S (S\<lparr>ses := ProcessConnect ok r rd (ses S)\<rparr>)"

inductive send_reachable :: "send_sys \<Rightarrow> bool" where
  start: "send_reachable send_init"
| step: "send_reachable S \<Longrightarrow> send_step S T \<Longrightarrow> send_reachable T"

section \<open>What the blocks leave alone\<close>

definition wsa_sends :: "session_call list \<Rightarrow> byte list list list" where
  "wsa_sends cs = concat (map (\<lambda>c. case c of CallWSASend bs \<Rightarrow> [bs] | _ \<Rightarrow> []) cs)"

lemma wsa_sends_append [simp]: "wsa_sends (cs @ ds) = wsa_sends cs @ wsa_sends ds"
  by (simp add: wsa_sends_def)

lemma wsa_sends_simps [simp]:
  "wsa_sends [] = []"
  "wsa_sends (c # cs) = (case c of CallWSASend bs \<Rightarrow> [bs] | _ \<Rightarrow> []) @ wsa_sends cs"
  by (simp_all add: wsa_sends_def)

lemma call_send_frame [frame_simps]:
  "sendQueue (call c s) = sendQueue s" "sendRegistered (call c s) = sendRegistered s"
  "sendBuffers (call c s) = sendBuffers s" "calls (call c s) = calls s @ [c]"
  "connected (call c s) = connected s"
  by (simp_all add: call_def)

lemma Disconnect_send_frame [frame_simps]:
  "sendQueue (Disconnect rd s) = sendQueue s" "sendRegistered (Disconnect rd s) = sendRegistered s"
  "sendBuffers (Disconnect rd s) = sendBuffers s"
  "wsa_sends (calls (Disconnect rd s)) = wsa_sends (calls s)"
  by (simp_all add: Disconnect_def RegisterDisconnect_def Let_def frame_simps)

lemma HandleError_send_frame [frame_simps]:
  "sendQueue (HandleError e rd s) = sendQueue s"
  "sendRegistered (HandleError e rd s) = sendRegistered s"
  "sendBuffers (HandleError e rd s) = sendBuffers s"
  "wsa_sends (calls (HandleError e rd s)) = wsa_sends (calls s)"
  by (simp_all add: HandleError_def frame_simps)

lemma ProcessConnect_send_frame [frame_simps]:
  "sendQueue (ProcessConnect ok r rd s) = sendQueue s"
  "sendRegistered (ProcessConnect ok r rd s) = sendRegistered s"
  "sendBuffers (ProcessConnect ok r rd s) = sendBuffers s"
  "wsa_sends (calls (ProcessConnect ok r rd s)) = wsa_sends (calls s)"
  by (simp_all add: ProcessConnect_def RegisterRecv_def Let_def frame_simps)

section \<open>The invariant\<close>

definition in_charge :: "send_sys \<Rightarrow> nat" where
  "in_charge S = registering S + draining S + posting S + outstanding S + finishing S"

definition send_inv :: "send_sys \<Rightarrow> bool" where
  "send_inv S \<longleftrightarrow>
     in_charge S \<le> of_bool (sendRegistered (ses S))
     \<and> (sendBuffers (ses S) \<noteq> [] \<longrightarrow> 0 < posting S + outstanding S)
     \<and> (\<not> dropped S \<longrightarrow> in_charge S = of_bool (sendRegistered (ses S))
          \<and> (sendQueue (ses S) \<noteq> [] \<longrightarrow> sendRegistered (ses S)))
     \<and> map wire (pushed S) = concat (wsa_sends (calls (ses S)))
          @ (if 0 < posting S then map wire (sendBuffers (ses S)) else [])
          @ map wire (sendQueue (ses S))"

lemmas send_ops = Send_locked_def RegisterSend_begin_def RegisterSend_drain_def RegisterSend_post_def
  ProcessSend_release_def ProcessSend_locked_def

lemma send_inv_init: "send_inv send_init"
  by (simp add: send_inv_def send_init_def in_charge_def Session_new_def)

lemma send_step_inv:
  assumes "send_step S T" "send_inv S"
  shows "send_inv T"
  using assms
proof (induction rule: send_step.induct)
  case (push b S reg s)
  then show ?case by (auto simp: send_inv_def in_charge_def send_ops)
next
  case (begins S k go s)
  then have "draining S = 0" "posting S = 0" "outstanding S = 0" "finishing S = 0" "k = 0"
    "sendRegistered (ses S)"
    by (auto simp: send_inv_def in_charge_def of_bool_def split: if_splits)
  with begins show ?case by (auto simp: send_inv_def in_charge_def send_ops split: if_splits)
next
  case (drain S k)
  then have "registering S = 0" "posting S = 0" "outstanding S = 0" "finishing S = 0" "k = 0"
    "sendRegistered (ses S)"
    by (auto simp: send_inv_def in_charge_def of_bool_def split: if_splits)
  with drain show ?case by (auto simp: send_inv_def in_charge_def send_ops)
next
  case (post S k r rd)
  then have "registering S = 0" "draining S = 0" "outstanding S = 0" "finishing S = 0" "k = 0"
    "sendRegistered (ses S)"
    by (auto simp: send_inv_def in_charge_def of_bool_def split: if_splits)
  with post show ?case
    by (auto simp: send_inv_def in_charge_def RegisterSend_post_def Let_def frame_simps)
next
  case (complete S k)
  then have "registering S = 0" "draining S = 0" "posting S = 0" "finishing S = 0" "k = 0"
    "sendRegistered (ses S)"
    by (auto simp: send_inv_def in_charge_def of_bool_def split: if_splits)
  with complete show ?case by (auto simp: send_inv_def in_charge_def send_ops)
next
  case (finish_zero S k rd)
  then show ?case by (auto simp: send_inv_def in_charge_def frame_simps)
next
  case (finish S k n reg s)
  then have "registering S = 0" "draining S = 0" "posting S = 0" "outstanding S = 0" "k = 0"
    "sendRegistered (ses S)"
    by (auto simp: send_inv_def in_charge_def of_bool_def split: if_splits)
  with finish show ?case
    by (auto simp: send_inv_def in_charge_def send_ops frame_simps split: if_splits)
next
  case (disconnect S rd)
  then show ?case by (simp add: send_inv_def in_charge_def frame_simps)
next
  case (connect S ok r rd)
  then show ?case by (simp add: send_inv_def in_charge_def frame_simps)
qed

lemma send_reachable_inv: "send_reachable S \<Longrightarrow> send_inv S"
  by (induction rule: send_reachable.induct) (auto intro: send_inv_init send_step_inv)

text \<open>
  C9. In every interleaving at most one \<open>WSASend\<close> of a session is outstanding, and the bytes
  given to \<open>WSASend\<close> so far, followed by those being posted and those still queued, are exactly
  the buffers given to \<open>Send\<close>, in the order they were pushed: nothing is lost, sent twice or
  reordered.
\<close>

theorem sends_are_fifo:
  assumes "send_reachable S"
  shows "outstanding S + posting S \<le> 1
    \<and> map wire (pushed S) = concat (wsa_sends (calls (ses S)))
        @ (if 0 < posting S then map wire (sendBuffers (ses S)) else [])
        @ map wire (sendQueue (ses S))"
proof -
  from send_reachable_inv [OF assms] have i: "send_inv S" .
  then have "in_charge S \<le> 1" by (auto simp: send_inv_def of_bool_def split: if_splits)
  with i show ?thesis by (auto simp: send_inv_def in_charge_def)
qed

text \<open>
  C23. No wake-up is lost: as long as no block has given up, a queued buffer always has exactly
  one thread or one outstanding \<open>WSASend\<close> in charge of sending it.
\<close>

theorem queued_buffers_have_a_sender:
  assumes "send_reachable S" "\<not> dropped S" "sendQueue (ses S) \<noteq> []"
  shows "in_charge S = 1"
  using send_reachable_inv [OF assms(1)] assms(2,3) by (auto simp: send_inv_def)

section \<open>A send before the connection\<close>

text \<open>
  Nobody is in charge of the queue although the flag says so, nothing was given to \<open>WSASend\<close>
  since the state \<open>S\<close>, and everything pushed since then is still queued.
\<close>

definition send_stuck :: "send_sys \<Rightarrow> send_sys \<Rightarrow> bool" where
  "send_stuck S T \<longleftrightarrow> in_charge T = 0 \<and> sendRegistered (ses T)
     \<and> wsa_sends (calls (ses T)) = wsa_sends (calls (ses S))
     \<and> (\<exists>bs. pushed T = pushed S @ bs \<and> sendQueue (ses T) = sendQueue (ses S) @ bs)"

lemma send_stuck_step:
  assumes "send_step T U" "send_stuck S T"
  shows "send_stuck S U"
  using assms
  by (induction rule: send_step.induct)
    (auto simp: send_stuck_def in_charge_def Send_locked_def frame_simps)

lemma send_stuck_steps: "send_step\<^sup>*\<^sup>* T U \<Longrightarrow> send_stuck S T \<Longrightarrow> send_stuck S U"
  by (induction rule: rtranclp_induct) (auto intro: send_stuck_step)

text \<open>A whole \<open>Send\<close> of one thread on a session that is not connected is a run of the steps.\<close>

lemma early_Send_steps:
  assumes "\<not> connected (ses S)" "\<not> sendRegistered (ses S)"
  shows "send_step\<^sup>*\<^sup>* S
    (S\<lparr>ses := Send b r rd (ses S), pushed := pushed S @ [b], dropped := True\<rparr>)"
proof -
  let ?T = "S\<lparr>ses := Send b r rd (ses S), pushed := pushed S @ [b], dropped := True\<rparr>"
  let ?s = "snd (Send_locked b (ses S))"
  let ?S1 = "S\<lparr>ses := ?s, registering := Suc (registering S), pushed := pushed S @ [b]\<rparr>"
  have "send_step S ?S1"
    using send_step.push [of b S True ?s] assms(2) by (simp add: Send_locked_def)
  moreover obtain s2 where go: "RegisterSend_begin ?s = (False, s2)"
    using assms(1) by (simp add: RegisterSend_begin_def Send_locked_def)
  have "?T = ?S1\<lparr>registering := registering S, draining := draining S, ses := s2, dropped := True\<rparr>"
    using go assms(2) by (simp add: Send_def Send_locked_def RegisterSend_def)
  then have "send_step ?S1 ?T"
    using send_step.begins [of ?S1 "registering S" False s2] go by simp
  ultimately show ?thesis by (meson converse_rtranclp_into_rtranclp r_into_rtranclp)
qed

text \<open>
  C24. A \<open>Send\<close> on a session that is not yet connected, with nothing being sent, leaves
  \<open>_sendRegistered\<close> set with nobody in charge: from then on, whatever the threads do and however
  often the session connects, it never calls \<open>WSASend\<close> again, and this buffer and every later
  one stay in the queue.
\<close>

theorem send_before_connect_blocks_the_session:
  assumes "send_reachable S" "\<not> connected (ses S)" "\<not> sendRegistered (ses S)"
    and "S' = S\<lparr>ses := Send b r rd (ses S), pushed := pushed S @ [b], dropped := True\<rparr>"
    and "send_step\<^sup>*\<^sup>* S' T"
  shows "send_step\<^sup>*\<^sup>* S S'
    \<and> wsa_sends (calls (ses T)) = wsa_sends (calls (ses S))
    \<and> (\<exists>bs. pushed T = pushed S @ b # bs \<and> sendQueue (ses T) = sendQueue (ses S) @ b # bs)"
proof -
  have "in_charge S = 0" using send_reachable_inv [OF assms(1)] assms(3) by (simp add: send_inv_def)
  then have s': "in_charge S' = 0" "sendRegistered (ses S')" "pushed S' = pushed S @ [b]"
    "sendQueue (ses S') = sendQueue (ses S) @ [b]" "calls (ses S') = calls (ses S)"
    using assms(2-4)
    by (auto simp: in_charge_def Send_def Send_locked_def RegisterSend_def RegisterSend_begin_def)
  then have "send_stuck S' S'" by (simp add: send_stuck_def)
  from send_stuck_steps [OF assms(5) this] have "send_stuck S' T" .
  moreover have "send_step\<^sup>*\<^sup>* S S'"
    unfolding assms(4) by (rule early_Send_steps [OF assms(2,3)])
  ultimately show ?thesis using s' by (auto simp: send_stuck_def)
qed

section \<open>Concrete runs\<close>

definition wit_buffer :: SendBuffer where
  "wit_buffer = Close 2 (SendBuffer_new 2)"

text \<open>A buffer is pushed on a connected session, and its \<open>RegisterSend\<close> drains it.\<close>

definition wit_pushed :: send_sys where
  "wit_pushed =
     (let S = send_init\<lparr>ses := ProcessConnect True WsaOk WsaOk Session_new\<rparr>
      in S\<lparr>ses := snd (Send_locked wit_buffer (ses S)), registering := 1, pushed := [wit_buffer]\<rparr>)"

lemma wit_pushed_reachable: "send_reachable wit_pushed"
proof -
  let ?S = "send_init\<lparr>ses := ProcessConnect True WsaOk WsaOk Session_new\<rparr>"
  have "send_reachable ?S"
    using send_reachable.step [OF send_reachable.start send_step.connect [of send_init True WsaOk WsaOk]]
    by (simp add: send_init_def)
  moreover have "send_step ?S wit_pushed"
    using send_step.push [of wit_buffer ?S True "snd (Send_locked wit_buffer (ses ?S))"]
    by (simp add: wit_pushed_def Let_def Send_locked_def send_init_def frame_simps Session_new_def)
  ultimately show ?thesis by (rule send_reachable.step)
qed

definition wit_begun :: send_sys where
  "wit_begun = wit_pushed\<lparr>registering := 0, draining := 1, ses := snd (RegisterSend_begin (ses wit_pushed))\<rparr>"

definition wit_drained :: send_sys where
  "wit_drained = wit_begun\<lparr>draining := 0, posting := 1, ses := RegisterSend_drain (ses wit_begun)\<rparr>"

lemma wit_drained_reachable: "send_reachable wit_drained"
proof -
  have "connected (ses wit_pushed)"
    by (simp add: wit_pushed_def Let_def Send_locked_def ProcessConnect_def
        RegisterRecv_def wsa_failed_def call_def)
  then have "send_step wit_pushed wit_begun"
    using send_step.begins [of wit_pushed 0 True "snd (RegisterSend_begin (ses wit_pushed))"]
    by (simp add: wit_begun_def RegisterSend_begin_def) (simp add: wit_pushed_def Let_def send_init_def)
  then have "send_reachable wit_begun" by (rule send_reachable.step [OF wit_pushed_reachable])
  moreover have "send_step wit_begun wit_drained"
    using send_step.drain [of wit_begun 0]
    by (simp add: wit_drained_def) (simp add: wit_begun_def wit_pushed_def Let_def send_init_def)
  ultimately show ?thesis by (rule send_reachable.step)
qed

theorem sends_are_fifo_witness:
  "posting wit_drained = 1 \<and> map wire [wit_buffer] = map wire (sendBuffers (ses wit_drained))"
  using sends_are_fifo [OF wit_drained_reachable]
  by (simp add: wit_drained_def wit_begun_def wit_pushed_def Let_def send_ops frame_simps
      send_init_def Session_new_def split: if_splits)

theorem queued_buffers_have_a_sender_witness: "in_charge wit_pushed = 1"
  by (rule queued_buffers_have_a_sender [OF wit_pushed_reachable])
    (simp_all add: wit_pushed_def Let_def Send_locked_def send_init_def)

text \<open>
  A buffer is sent before the connection; then the session connects, and another buffer is
  sent: the session is connected, and both buffers are still queued.
\<close>

definition wit_early :: send_sys where
  "wit_early = send_init\<lparr>ses := Send wit_buffer WsaOk WsaOk Session_new, pushed := [wit_buffer], dropped := True\<rparr>"

definition wit_late :: send_sys where
  "wit_late = wit_early\<lparr>ses := Send wit_buffer WsaOk WsaOk (ProcessConnect True WsaOk WsaOk (ses wit_early)),
     pushed := [wit_buffer, wit_buffer]\<rparr>"

lemma wit_late_steps: "send_step\<^sup>*\<^sup>* wit_early wit_late"
proof -
  let ?s = "ProcessConnect True WsaOk WsaOk (ses wit_early)"
  have reg: "sendRegistered ?s"
    by (simp add: wit_early_def Send_def Send_locked_def RegisterSend_def RegisterSend_begin_def
        Session_new_def frame_simps)
  have "send_step wit_early (wit_early\<lparr>ses := ?s\<rparr>)" by (rule send_step.connect)
  moreover have "send_step (wit_early\<lparr>ses := ?s\<rparr>) wit_late"
    using send_step.push [of wit_buffer "wit_early\<lparr>ses := ?s\<rparr>" False "snd (Send_locked wit_buffer ?s)"] reg
    by (simp add: wit_late_def Send_def Send_locked_def)
      (simp add: wit_early_def send_init_def)
  ultimately show ?thesis by (meson converse_rtranclp_into_rtranclp r_into_rtranclp)
qed

theorem send_before_connect_blocks_the_session_witness:
  "connected (ses wit_late) \<and> wsa_sends (calls (ses wit_late)) = []
    \<and> sendQueue (ses wit_late) = [wit_buffer, wit_buffer]"
proof -
  have "connected (ses wit_late)"
    by (simp add: wit_late_def wit_early_def Send_def Send_locked_def RegisterSend_def
        RegisterSend_begin_def Session_new_def ProcessConnect_def RegisterRecv_def Let_def
        wsa_failed_def call_def)
  then show ?thesis
    using send_before_connect_blocks_the_session
      [OF send_reachable.start _ _ _ wit_late_steps, of wit_buffer WsaOk WsaOk]
    by (simp add: wit_early_def send_init_def Session_new_def) (auto simp: wit_late_def)
qed

end
