(* ===== verification/Tilemap.thy ===== *)
theory Tilemap
  imports Prelude
begin

text \<open>
  \<open>Tilemap\<close>: the walls of a room, read from a text file with its size and one word of digits per
  row. The file's text is an argument; what the formatted extractions \<open>>> int\<close> and \<open>>> word\<close>
  consume is written out.
\<close>

section \<open>Formatted extraction\<close>

definition is_space :: "char \<Rightarrow> bool" where
  "is_space c \<longleftrightarrow> c \<in> {CHR 0x20, CHR 0x09, CHR 0x0A, CHR 0x0B, CHR 0x0C, CHR 0x0D}"

definition char_code :: "char \<Rightarrow> int" where
  "char_code c = int (of_char c :: nat)"

definition is_digit :: "char \<Rightarrow> bool" where
  "is_digit c \<longleftrightarrow> 48 \<le> char_code c \<and> char_code c \<le> 57"

fun digits_value :: "int \<Rightarrow> string \<Rightarrow> int" where
  "digits_value acc [] = acc"
| "digits_value acc (c # cs) = digits_value (acc * 10 + (char_code c - 48)) cs"

text \<open>
  An input stream: the text left, and \<open>good()\<close>: no extraction has failed or reached the end.
\<close>

record istream =
  text_left :: string
  good :: bool

text \<open>
  \<open>>> int32\<close>: skips white space, takes an optional sign and the digits. No digits: the value is 0 and the
  stream fails; a number beyond the type: the nearest bound and the stream fails. A stream that
  has failed before, or that has nothing but white space left, leaves the variable as it was.
\<close>

definition read_int :: "int32 \<Rightarrow> istream \<Rightarrow> int32 \<times> istream" where
  "read_int old i =
     (if \<not> good i then (old, i)
      else case dropWhile is_space (text_left i) of
        [] \<Rightarrow> (old, \<lparr>text_left = [], good = False\<rparr>)
      | c # cs \<Rightarrow>
          let (neg, t) = (if c = CHR ''-'' then (True, cs) else if c = CHR ''+'' then (False, cs) else (False, c # cs));
              ds = takeWhile is_digit t;
              rest = dropWhile is_digit t;
              v = (if neg then - digits_value 0 ds else digits_value 0 ds)
          in if ds = [] then (0, \<lparr>text_left = rest, good = False\<rparr>)
             else if v < -2147483648 then (-2147483648, \<lparr>text_left = rest, good = False\<rparr>)
             else if v > 2147483647 then (2147483647, \<lparr>text_left = rest, good = False\<rparr>)
             else (v, \<lparr>text_left = rest, good = (rest \<noteq> [])\<rparr>))"

text \<open>\<open>>> wstring\<close> on a fresh variable: empty when there is no word left.\<close>

definition read_word :: "istream \<Rightarrow> string \<times> istream" where
  "read_word i =
     (if \<not> good i then ([], i)
      else let t = dropWhile is_space (text_left i);
               rest = dropWhile (\<lambda>c. \<not> is_space c) t
           in (takeWhile (\<lambda>c. \<not> is_space c) t, \<lparr>text_left = rest, good = (rest \<noteq> [])\<rparr>))"

section \<open>The map\<close>

record Tilemap =
  mapSize :: Vec2Int
  tileSize :: int32
  tiles :: "int32 list list"

definition Tilemap_new :: Tilemap where
  "Tilemap_new = \<lparr>mapSize = Vec 0 0, tileSize = 0, tiles = []\<rparr>"

text \<open>\<open>None\<close>: a negative size, for which the vector constructor throws.\<close>

definition SetMapSize :: "Vec2Int \<Rightarrow> Tilemap \<Rightarrow> Tilemap option" where
  "SetMapSize sz m =
     (if vx sz < 0 \<or> vy sz < 0 then None
      else Some (m\<lparr>mapSize := sz, tiles := replicate (nat (vy sz)) (replicate (nat (vx sz)) 0)\<rparr>))"

definition SetTileSize :: "int32 \<Rightarrow> Tilemap \<Rightarrow> Tilemap" where
  "SetTileSize n m = m\<lparr>tileSize := n\<rparr>"

definition GetTileAt :: "Vec2Int \<Rightarrow> Tilemap \<Rightarrow> int32 option" where
  "GetTileAt pos m =
     (if vx pos < 0 \<or> vx pos \<ge> vx (mapSize m) \<or> vy pos < 0 \<or> vy pos \<ge> vy (mapSize m) then None
      else Some (tiles m ! nat (vy pos) ! nat (vx pos)))"

text \<open>
  One row: character \<open>x\<close> of the word, where the character at the word's length is the terminator
  and one beyond it is undefined (\<open>None\<close>).
\<close>

definition row_tiles :: "nat \<Rightarrow> string \<Rightarrow> int32 list option" where
  "row_tiles width line =
     (if width > length line + 1 then None
      else Some (map (\<lambda>x. (if x < length line then char_code (line ! x) else 0) - 48) [0..<width]))"

fun read_rows :: "nat \<Rightarrow> nat \<Rightarrow> istream \<Rightarrow> int32 list list option" where
  "read_rows 0 width i = Some []"
| "read_rows (Suc n) width i =
     (case read_word i of (line, i') \<Rightarrow>
        (case row_tiles width line of
           None \<Rightarrow> None
         | Some row \<Rightarrow> map_option ((#) row) (read_rows n width i')))"

text \<open>A file that cannot be opened is a stream that has failed from the start: \<open>opened = False\<close>.\<close>

definition LoadFile :: "bool \<Rightarrow> string \<Rightarrow> Tilemap \<Rightarrow> Tilemap option" where
  "LoadFile opened content m =
     (let (x, i1) = read_int (vx (mapSize m)) \<lparr>text_left = content, good = opened\<rparr>;
          (y, i2) = read_int (vy (mapSize m)) i1
      in case SetMapSize (Vec x y) m of
           None \<Rightarrow> None
         | Some m1 \<Rightarrow>
             map_option (\<lambda>rows. m1\<lparr>tiles := rows\<rparr>) (read_rows (nat y) (nat x) i2))"

section \<open>Well-formed maps\<close>

definition tilemap_ok :: "Tilemap \<Rightarrow> bool" where
  "tilemap_ok m \<longleftrightarrow> 0 \<le> vx (mapSize m) \<and> 0 \<le> vy (mapSize m)
     \<and> length (tiles m) = nat (vy (mapSize m))
     \<and> (\<forall>row \<in> set (tiles m). length row = nat (vx (mapSize m)))"

lemma tilemap_ok_new [simp]: "tilemap_ok Tilemap_new"
  by (simp add: tilemap_ok_def Tilemap_new_def)

lemma SetMapSize_ok [inv_intros]: "SetMapSize sz m = Some m' \<Longrightarrow> tilemap_ok m'"
  by (auto simp: SetMapSize_def tilemap_ok_def split: if_splits)

lemma read_rows_shape:
  "read_rows n w i = Some rows \<Longrightarrow> length rows = n \<and> (\<forall>row \<in> set rows. length row = w)"
  by (induction n w i arbitrary: rows rule: read_rows.induct)
    (auto simp: row_tiles_def split: prod.splits option.splits if_splits)

lemma LoadFile_ok [inv_intros]:
  assumes "LoadFile opened content m = Some m'"
  shows "tilemap_ok m'"
proof -
  from assms obtain x y m1 i rows where "SetMapSize (Vec x y) m = Some m1"
    "read_rows (nat y) (nat x) i = Some rows" "m' = m1\<lparr>tiles := rows\<rparr>"
    by (auto simp: LoadFile_def Let_def split: prod.splits option.splits)
  with read_rows_shape [of "nat y" "nat x" i rows] show ?thesis
    by (auto simp: SetMapSize_def tilemap_ok_def split: if_splits)
qed

text \<open>Whatever position is asked for, the two vector accesses are in range.\<close>

lemma GetTileAt_in_range:
  assumes "tilemap_ok m" "GetTileAt pos m = Some t"
  shows "nat (vy pos) < length (tiles m) \<and> nat (vx pos) < length (tiles m ! nat (vy pos))"
proof -
  have "nat (vy pos) < length (tiles m)"
    using assms by (auto simp: tilemap_ok_def GetTileAt_def split: if_splits)
  then have "tiles m ! nat (vy pos) \<in> set (tiles m)" by simp
  with assms \<open>nat (vy pos) < length (tiles m)\<close> show ?thesis
    by (auto simp: tilemap_ok_def GetTileAt_def split: if_splits)
qed

text \<open>
  Every map the loader builds is rectangular and of the size it records, so for every
  position, inside the map or not, \<open>GetTileAt\<close> reads inside its vectors: the accesses are in
  range exactly when the bounds test passes.
\<close>

theorem loaded_map_is_safe:
  assumes "LoadFile opened content m = Some m'"
  shows "(GetTileAt pos m' \<noteq> None \<longleftrightarrow>
      0 \<le> vx pos \<and> vx pos < vx (mapSize m') \<and> 0 \<le> vy pos \<and> vy pos < vy (mapSize m'))
    \<and> (\<forall>t. GetTileAt pos m' = Some t \<longrightarrow>
      nat (vy pos) < length (tiles m') \<and> nat (vx pos) < length (tiles m' ! nat (vy pos)))"
  using GetTileAt_in_range [OF LoadFile_ok [OF assms]]
  by (auto simp: GetTileAt_def)

theorem loaded_map_is_safe_witness:
  "LoadFile True ''2 2 01 10'' Tilemap_new = Some \<lparr>mapSize = Vec 2 2, tileSize = 0, tiles = [[0, 1], [1, 0]]\<rparr>
   \<and> GetTileAt (Vec 2 0) \<lparr>mapSize = Vec 2 2, tileSize = 0, tiles = [[0, 1], [1, 0]]\<rparr> = None"
proof -
  have l: "LoadFile True ''2 2 01 10'' Tilemap_new
      = Some \<lparr>mapSize = Vec 2 2, tileSize = 0, tiles = [[0, 1], [1, 0]]\<rparr>"
    by (simp add: LoadFile_def read_int_def read_word_def is_space_def is_digit_def char_code_def
        Tilemap_new_def SetMapSize_def row_tiles_def numeral_2_eq_2)
  from loaded_map_is_safe [OF l, of "Vec 2 0"] l show ?thesis by simp
qed

end
