(* ===== verification/StdMap.thy ===== *)
theory StdMap
  imports Prelude
begin

text \<open>
  The three containers of the C++ library whose order the program observes: \<open>std::map\<close> (iterated
  in key order), its key set when the values live elsewhere, and \<open>std::priority_queue\<close>. Each
  has a contract, a locale, and one list implementation that the model computes with.
\<close>

section \<open>Ordered maps\<close>

fun om_set :: "'k::linorder \<Rightarrow> 'v \<Rightarrow> ('k \<times> 'v) list \<Rightarrow> ('k \<times> 'v) list" where
  "om_set k v [] = [(k, v)]"
| "om_set k v ((k', v') # m) =
     (if k < k' then (k, v) # (k', v') # m
      else if k = k' then (k, v) # m
      else (k', v') # om_set k v m)"

definition om_get :: "'k \<Rightarrow> ('k \<times> 'v) list \<Rightarrow> 'v option" where
  "om_get k m = map_of m k"

definition om_erase :: "'k \<Rightarrow> ('k \<times> 'v) list \<Rightarrow> ('k \<times> 'v) list" where
  "om_erase k m = filter (\<lambda>e. fst e \<noteq> k) m"

definition om_inv :: "('k::linorder \<times> 'v) list \<Rightarrow> bool" where
  "om_inv m \<longleftrightarrow> sorted_wrt (<) (map fst m)"

locale ordered_map =
  fixes inv :: "'m \<Rightarrow> bool"
    and empty :: 'm
    and get :: "'k::linorder \<Rightarrow> 'm \<Rightarrow> 'v option"
    and set_at :: "'k \<Rightarrow> 'v \<Rightarrow> 'm \<Rightarrow> 'm"
    and erase :: "'k \<Rightarrow> 'm \<Rightarrow> 'm"
    and entries :: "'m \<Rightarrow> ('k \<times> 'v) list"
  assumes inv_empty: "inv empty"
    and get_empty: "get k empty = None"
    and set_at: "inv m \<Longrightarrow> inv (set_at k v m) \<and> get k' (set_at k v m) = (if k' = k then Some v else get k' m)"
    and erase: "inv m \<Longrightarrow> inv (erase k m) \<and> get k' (erase k m) = (if k' = k then None else get k' m)"
    and entries: "inv m \<Longrightarrow> sorted_wrt (<) (map fst (entries m))
      \<and> (get k m = Some v \<longleftrightarrow> (k, v) \<in> set (entries m))"
begin

text \<open>Iterating visits every key once, in increasing order.\<close>

lemma keys_iterated:
  assumes "inv m"
  shows "set (map fst (entries m)) = {k. get k m \<noteq> None}"
proof -
  from assms have "k \<in> set (map fst (entries m)) \<longleftrightarrow> (\<exists>v. get k m = Some v)" for k
    using entries [of m k] by (auto intro: rev_image_eqI)
  then show ?thesis by auto
qed

lemma keys_distinct: "inv m \<Longrightarrow> distinct (map fst (entries m))"
  using entries [of m] strict_sorted_iff by blast

end

lemma om_set_keys: "set (map fst (om_set k v m)) = insert k (set (map fst m))"
  by (induction m rule: om_set.induct) auto

lemma om_set_inv: "om_inv m \<Longrightarrow> om_inv (om_set k v m)"
proof (induction k v m rule: om_set.induct)
  case (2 k v k' v' m)
  then have "om_inv m" "\<forall>x \<in> set (map fst m). k' < x" by (auto simp: om_inv_def)
  with 2 show ?case using om_set_keys [of k v m] by (auto simp: om_inv_def)
qed (simp add: om_inv_def)

lemma om_get_set: "om_get k' (om_set k v m) = (if k' = k then Some v else om_get k' m)"
  by (induction k v m rule: om_set.induct) (auto simp: om_get_def)

lemma om_get_erase: "om_get k' (om_erase k m) = (if k' = k then None else om_get k' m)"
  by (induction m) (auto simp: om_get_def om_erase_def)

lemma om_erase_inv: "om_inv m \<Longrightarrow> om_inv (om_erase k m)"
  by (induction m) (auto simp: om_inv_def om_erase_def)

lemma om_get_entries:
  assumes "om_inv m"
  shows "om_get k m = Some v \<longleftrightarrow> (k, v) \<in> set m"
proof -
  have "distinct (map fst m)" using assms strict_sorted_iff unfolding om_inv_def by blast
  then show ?thesis by (simp add: om_get_def)
qed

interpretation om: ordered_map om_inv "[]" om_get om_set om_erase "\<lambda>m. m"
proof
  show "om_inv []" by (simp add: om_inv_def)
  show "om_get k [] = None" for k by (simp add: om_get_def)
qed (auto simp: om_set_inv om_erase_inv om_get_set om_get_erase om_get_entries,
    simp_all add: om_inv_def)

section \<open>Ordered key sets\<close>

definition key_insert :: "'k::linorder \<Rightarrow> 'k list \<Rightarrow> 'k list" where
  "key_insert k ks = (if k \<in> set ks then ks else insort k ks)"

definition key_erase :: "'k \<Rightarrow> 'k list \<Rightarrow> 'k list" where
  "key_erase k ks = filter (\<lambda>x. x \<noteq> k) ks"

definition keys_ok :: "'k::linorder list \<Rightarrow> bool" where
  "keys_ok ks \<longleftrightarrow> sorted ks \<and> distinct ks"

lemma set_key_insert [simp]: "set (key_insert k ks) = insert k (set ks)"
  by (auto simp: key_insert_def set_insort_key)

lemma set_key_erase [simp]: "set (key_erase k ks) = set ks - {k}"
  by (auto simp: key_erase_def)

lemma keys_ok_empty [simp]: "keys_ok []"
  by (simp add: keys_ok_def)

lemma keys_ok_insert [inv_intros, simp]: "keys_ok ks \<Longrightarrow> keys_ok (key_insert k ks)"
  by (simp add: keys_ok_def key_insert_def sorted_insort distinct_insort)

lemma keys_ok_erase [inv_intros, simp]: "keys_ok ks \<Longrightarrow> keys_ok (key_erase k ks)"
  by (simp add: keys_ok_def key_erase_def sorted_filter [of "\<lambda>x. x", simplified])

section \<open>Priority queues\<close>

text \<open>
  \<open>priority_queue\<close> promises that \<open>top\<close> is a minimal element (the comparison is \<open>greater\<close>), and
  nothing about the order of equal elements; the implementation here takes the latest.
\<close>

locale priority_queue =
  fixes inv :: "'q \<Rightarrow> bool"
    and elems :: "'q \<Rightarrow> 'a multiset"
    and key :: "'a \<Rightarrow> int"
    and empty :: 'q
    and push :: "'a \<Rightarrow> 'q \<Rightarrow> 'q"
    and pop :: "'q \<Rightarrow> ('a \<times> 'q) option"
  assumes empty: "inv empty \<and> elems empty = {#}"
    and push: "inv q \<Longrightarrow> inv (push x q) \<and> elems (push x q) = add_mset x (elems q)"
    and pop_None: "inv q \<Longrightarrow> pop q = None \<longleftrightarrow> elems q = {#}"
    and pop_Some: "inv q \<Longrightarrow> pop q = Some (x, q') \<Longrightarrow>
      inv q' \<and> elems q = add_mset x (elems q') \<and> (\<forall>y \<in># elems q. key x \<le> key y)"
begin

text \<open>An element cheaper than all others is the next one out.\<close>

lemma pop_cheapest:
  assumes "inv q" "x \<in># elems q" "\<forall>y \<in># elems q. y = x \<or> key x < key y"
  shows "\<exists>q'. pop q = Some (x, q')"
proof (cases "pop q")
  case None
  with assms pop_None show ?thesis by auto
next
  case (Some r)
  obtain y q' where r: "r = (y, q')" by (cases r)
  from pop_Some [OF assms(1), of y q'] Some r have "y \<in># elems q" "key y \<le> key x"
    using assms(2) by auto
  with assms(3) have "y = x" by force
  with Some r show ?thesis by simp
qed

end

fun pq_push :: "('a \<Rightarrow> int) \<Rightarrow> 'a \<Rightarrow> 'a list \<Rightarrow> 'a list" where
  "pq_push f x [] = [x]"
| "pq_push f x (y # ys) = (if f x \<le> f y then x # y # ys else y # pq_push f x ys)"

fun pq_pop :: "'a list \<Rightarrow> ('a \<times> 'a list) option" where
  "pq_pop [] = None"
| "pq_pop (x # xs) = Some (x, xs)"

lemma mset_pq_push [simp]: "mset (pq_push f x q) = add_mset x (mset q)"
  by (induction f x q rule: pq_push.induct) auto

lemma set_pq_push [simp]: "set (pq_push f x q) = insert x (set q)"
  by (induction f x q rule: pq_push.induct) auto

lemma length_pq_push [simp]: "length (pq_push f x q) = Suc (length q)"
  by (induction f x q rule: pq_push.induct) auto

lemma sorted_pq_push: "sorted (map f q) \<Longrightarrow> sorted (map f (pq_push f x q))"
proof (induction f x q rule: pq_push.induct)
qed (auto split: if_splits)

interpretation pq: priority_queue "\<lambda>q. sorted (map f q)" mset f "[]" "pq_push f" pq_pop
  for f :: "'a \<Rightarrow> int"
proof
  fix q :: "'a list" and x q'
  show "sorted (map f q) \<Longrightarrow> sorted (map f (pq_push f x q)) \<and> mset (pq_push f x q) = add_mset x (mset q)"
    by (simp add: sorted_pq_push)
  show "pq_pop q = None \<longleftrightarrow> mset q = {#}" by (cases q) simp_all
  show "sorted (map f q) \<Longrightarrow> pq_pop q = Some (x, q') \<Longrightarrow>
      sorted (map f q') \<and> mset q = add_mset x (mset q') \<and> (\<forall>y \<in># mset q. f x \<le> f y)"
    by (cases q) auto
qed simp

end
