(* ===== verification/PathFinding.thy ===== *)
theory PathFinding
  imports StdMap
begin

text \<open>
  \<open>GameRoom::FindPath\<close>: a best-first search over the cells of a room, guided by the distance to the
  destination and bounded by the distance from the source. Which cells may be entered is the
  argument \<open>cg\<close>, the room's \<open>CanGo\<close>, which the search does not change. The search and the walk
  back over \<open>parent\<close> are loops with fuel; the theorem says the fuel given is always enough, which
  path comes out, and that a reachable destination is always found.
\<close>

section \<open>The search\<close>

record PQNode =
  pq_cost :: int32
  pq_pos :: Vec2Int

record search =
  s_pq :: "PQNode list"
  s_best :: "(Vec2Int \<times> int32) list"
  s_parent :: "(Vec2Int \<times> Vec2Int) list"

definition cell_dist :: "Vec2Int \<Rightarrow> Vec2Int \<Rightarrow> int32" where
  "cell_dist a b = \<bar>vy b - vy a\<bar> + \<bar>vx b - vx a\<bar>"

definition fronts :: "Vec2Int list" where
  "fronts = [Vec 0 (-1), Vec 0 1, Vec (-1) 0, Vec 1 0]"

text \<open>\<open>map::operator[]\<close> on a missing key: the value-initialized element.\<close>

definition best_at :: "Vec2Int \<Rightarrow> (Vec2Int \<times> int32) list \<Rightarrow> int32" where
  "best_at p m = (case om_get p m of Some v \<Rightarrow> v | None \<Rightarrow> 0)"

definition parent_at :: "Vec2Int \<Rightarrow> (Vec2Int \<times> Vec2Int) list \<Rightarrow> Vec2Int" where
  "parent_at p m = (case om_get p m of Some v \<Rightarrow> v | None \<Rightarrow> Vec 0 0)"

definition search_start :: "Vec2Int \<Rightarrow> Vec2Int \<Rightarrow> search" where
  "search_start src dest =
     (let c = cell_dist src dest
      in \<lparr>s_pq = pq_push pq_cost \<lparr>pq_cost = c, pq_pos = src\<rparr> [], s_best = om_set src c [],
          s_parent = om_set src src []\<rparr>)"

definition relax :: "(Vec2Int \<Rightarrow> bool) \<Rightarrow> Vec2Int \<Rightarrow> Vec2Int \<Rightarrow> int32 \<Rightarrow> Vec2Int \<Rightarrow> Vec2Int \<Rightarrow> search \<Rightarrow> search" where
  "relax cg src dest maxDepth node_pos d s =
     (let nextPos = node_pos + d
      in if \<not> cg nextPos then s
         else if cell_dist src nextPos \<ge> maxDepth then s
         else let c = cell_dist nextPos dest; bestValue = best_at nextPos (s_best s)
              in if bestValue \<noteq> 0 \<and> bestValue \<le> c then s
                 else \<lparr>s_pq = pq_push pq_cost \<lparr>pq_cost = c, pq_pos = nextPos\<rparr> (s_pq s),
                       s_best = om_set nextPos c (s_best s),
                       s_parent = om_set nextPos node_pos (s_parent s)\<rparr>)"

fun FindPath_loop :: "(Vec2Int \<Rightarrow> bool) \<Rightarrow> Vec2Int \<Rightarrow> Vec2Int \<Rightarrow> int32 \<Rightarrow> nat \<Rightarrow> search \<Rightarrow> (bool \<times> search) option" where
  "FindPath_loop cg src dest maxDepth 0 s = None"
| "FindPath_loop cg src dest maxDepth (Suc fuel) s =
     (case pq_pop (s_pq s) of
        None \<Rightarrow> Some (False, s)
      | Some (node, q) \<Rightarrow>
          let s1 = s\<lparr>s_pq := q\<rparr>
          in if best_at (pq_pos node) (s_best s1) < pq_cost node
             then FindPath_loop cg src dest maxDepth fuel s1
             else if pq_pos node = dest then Some (True, s1)
             else FindPath_loop cg src dest maxDepth fuel
                    (fold (relax cg src dest maxDepth (pq_pos node)) fronts s1))"

text \<open>
  Not found: the cell seen that is closest to the destination, and among those the closest to the
  source. \<open>bestScore\<close> is a \<open>float\<close>, \<open>FLT_MAX\<close> (\<open>None\<close>) at first.
\<close>

definition nearest_step :: "Vec2Int \<Rightarrow> Vec2Int \<times> int32 \<Rightarrow> int option \<times> Vec2Int \<Rightarrow> int option \<times> Vec2Int" where
  "nearest_step src item st =
     (case (item, st) of ((pos, score), (bestScore, dest)) \<Rightarrow>
        (case bestScore of
           None \<Rightarrow> (Some (float_of_int32 score), pos)
         | Some b \<Rightarrow>
             if b = float_of_int32 score then
               (if cell_dist src dest > cell_dist src pos then (Some b, pos) else (Some b, dest))
             else if b > float_of_int32 score then (Some (float_of_int32 score), pos)
             else (Some b, dest)))"

definition nearest_seen :: "Vec2Int \<Rightarrow> Vec2Int \<Rightarrow> (Vec2Int \<times> int32) list \<Rightarrow> Vec2Int" where
  "nearest_seen src dest best = snd (fold (nearest_step src) best (None, dest))"

fun unwind :: "(Vec2Int \<times> Vec2Int) list \<Rightarrow> nat \<Rightarrow> Vec2Int \<Rightarrow> Vec2Int list option" where
  "unwind parent 0 pos = None"
| "unwind parent (Suc fuel) pos =
     (if pos = parent_at pos parent then Some [pos]
      else map_option ((#) pos) (unwind parent fuel (parent_at pos parent)))"

definition FindPath :: "(Vec2Int \<Rightarrow> bool) \<Rightarrow> Vec2Int \<Rightarrow> Vec2Int \<Rightarrow> int32 \<Rightarrow> (bool \<times> Vec2Int list) option" where
  "FindPath cg src dest maxDepth =
     (if cell_dist dest src \<ge> maxDepth then Some (False, [])
      else case FindPath_loop cg src dest maxDepth (nat ((2 * maxDepth + 1) * (2 * maxDepth + 1)) + 1)
                  (search_start src dest) of
             None \<Rightarrow> None
           | Some (found, s) \<Rightarrow>
               let dest' = (if found then dest else nearest_seen src dest (s_best s))
               in map_option (\<lambda>p. (True, rev p)) (unwind (s_parent s) (length (s_parent s)) dest'))"

section \<open>Reachable cells and walks\<close>

definition adj :: "Vec2Int \<Rightarrow> Vec2Int \<Rightarrow> bool" where
  "adj p q \<longleftrightarrow> cell_dist p q = 1"

lemma cell_dist_simps [simp]: "0 \<le> cell_dist a b" "cell_dist a b = 0 \<longleftrightarrow> a = b" "cell_dist a a = 0"
  by (auto simp: cell_dist_def intro: VectorInt.expand)

lemma cell_dist_triangle: "cell_dist a c \<le> cell_dist a b + cell_dist b c"
  by (simp add: cell_dist_def)

lemma cell_dist_sym: "cell_dist a b = cell_dist b a"
  by (simp add: cell_dist_def)

lemma adj_fronts: "adj p q \<longleftrightarrow> (\<exists>d \<in> set fronts. q = p + d)"
proof -
  obtain a b where p: "p = Vec a b" by (cases p)
  obtain c d where q: "q = Vec c d" by (cases q)
  have "\<bar>d - b\<bar> + \<bar>c - a\<bar> = 1 \<longleftrightarrow> (c = a \<and> d = b - 1) \<or> (c = a \<and> d = b + 1) \<or> (c = a - 1 \<and> d = b) \<or> (c = a + 1 \<and> d = b)"
    by arith
  then show ?thesis by (auto simp: adj_def cell_dist_def fronts_def p q)
qed

inductive reach :: "(Vec2Int \<Rightarrow> bool) \<Rightarrow> Vec2Int \<Rightarrow> int32 \<Rightarrow> Vec2Int \<Rightarrow> bool"
  for cg src m where
  here: "reach cg src m src"
| go: "reach cg src m p \<Longrightarrow> adj p q \<Longrightarrow> cg q \<Longrightarrow> cell_dist src q < m \<Longrightarrow> reach cg src m q"

lemma reach_range: "reach cg src m p \<Longrightarrow> 0 < m \<Longrightarrow> cell_dist src p < m"
  by (induction rule: reach.induct) auto

text \<open>A route, from its end back to the source.\<close>

fun route :: "(Vec2Int \<Rightarrow> bool) \<Rightarrow> Vec2Int \<Rightarrow> int32 \<Rightarrow> Vec2Int list \<Rightarrow> bool" where
  "route cg src m [] \<longleftrightarrow> False"
| "route cg src m [p] \<longleftrightarrow> p = src"
| "route cg src m (p # q # rest) \<longleftrightarrow> adj q p \<and> cg p \<and> cell_dist src p < m \<and> route cg src m (q # rest)"

inductive walk :: "(Vec2Int \<times> Vec2Int) list \<Rightarrow> Vec2Int \<Rightarrow> Vec2Int \<Rightarrow> Vec2Int list \<Rightarrow> bool"
  for parent src where
  here: "om_get src parent = Some src \<Longrightarrow> walk parent src src [src]"
| link: "p \<noteq> q \<Longrightarrow> om_get p parent = Some q \<Longrightarrow> walk parent src q path \<Longrightarrow> walk parent src p (p # path)"

lemma walk_unwind: "walk parent src p path \<Longrightarrow> length path \<le> n \<Longrightarrow> unwind parent n p = Some path"
proof (induction arbitrary: n rule: walk.induct)
  case here
  then show ?case by (cases n) (simp_all add: parent_at_def)
next
  case (link p q path)
  then show ?case by (cases n) (simp_all add: parent_at_def)
qed

lemma walk_mono:
  "walk parent src p path \<Longrightarrow> (\<forall>p q. om_get p parent = Some q \<longrightarrow> om_get p parent' = Some q) \<Longrightarrow>
    walk parent' src p path"
  by (induction rule: walk.induct) (auto intro: walk.intros)

lemma walk_hd: "walk parent src p path \<Longrightarrow> \<exists>rest. path = p # rest"
  by (induction rule: walk.induct) auto

lemma walk_route:
  assumes "walk parent src p path"
    and "\<forall>p q. om_get p parent = Some q \<longrightarrow> p \<noteq> q \<longrightarrow> adj q p \<and> cg p \<and> cell_dist src p < m"
  shows "route cg src m path"
  using assms(1)
proof (induction rule: walk.induct)
  case (link p q path)
  then obtain rest where "path = q # rest" using walk_hd by blast
  with link assms(2) show ?case by auto
qed simp

section \<open>The invariant of the search\<close>

definition keys_of :: "search \<Rightarrow> Vec2Int set" where
  "keys_of s = {p. om_get p (s_best s) \<noteq> None}"

definition queued :: "search \<Rightarrow> Vec2Int set" where
  "queued s = pq_pos ` set (s_pq s)"

definition search_inv :: "(Vec2Int \<Rightarrow> bool) \<Rightarrow> Vec2Int \<Rightarrow> Vec2Int \<Rightarrow> int32 \<Rightarrow> search \<Rightarrow> bool" where
  "search_inv cg src dest m s \<longleftrightarrow>
     om_inv (s_best s) \<and> om_inv (s_parent s) \<and> sorted (map pq_cost (s_pq s))
     \<and> (\<forall>p v. om_get p (s_best s) = Some v \<longrightarrow> v = cell_dist p dest \<and> reach cg src m p
          \<and> (\<exists>path. walk (s_parent s) src p path \<and> length path \<le> length (s_parent s)))
     \<and> (\<forall>p q. om_get p (s_parent s) = Some q \<longrightarrow> p \<in> keys_of s
          \<and> (p \<noteq> q \<longrightarrow> adj q p \<and> cg p \<and> cell_dist src p < m))
     \<and> (\<forall>n \<in> set (s_pq s). om_get (pq_pos n) (s_best s) = Some (pq_cost n))
     \<and> distinct (map pq_pos (s_pq s)) \<and> src \<in> keys_of s"

text \<open>Every cell that has left the queue, the ones in \<open>X\<close> apart, has all its neighbours seen.\<close>

definition closed_but :: "(Vec2Int \<Rightarrow> bool) \<Rightarrow> Vec2Int \<Rightarrow> Vec2Int \<Rightarrow> int32 \<Rightarrow> Vec2Int set \<Rightarrow> search \<Rightarrow> bool" where
  "closed_but cg src dest m X s \<longleftrightarrow>
     (\<forall>p \<in> keys_of s - queued s - X. p \<noteq> dest \<and>
        (\<forall>q. adj p q \<longrightarrow> cg q \<longrightarrow> cell_dist src q < m \<longrightarrow> q \<in> keys_of s))"

lemma search_inv_seen:
  assumes "search_inv cg src dest m s" "p \<in> keys_of s"
  shows "om_get p (s_best s) = Some (cell_dist p dest) \<and> reach cg src m p
    \<and> (\<exists>path. walk (s_parent s) src p path \<and> length path \<le> length (s_parent s))"
proof -
  from assms(2) obtain v where "om_get p (s_best s) = Some v" by (auto simp: keys_of_def)
  with assms(1) show ?thesis unfolding search_inv_def by blast
qed

lemma length_om_set: "om_get k m = None \<Longrightarrow> length (om_set k v m) = Suc (length m)"
  by (induction k v m rule: om_set.induct) (auto simp: om_get_def split: if_splits)

lemma relax_skip:
  assumes "search_inv cg src dest m s" "u + d = dest \<longrightarrow> dest \<notin> keys_of s"
    and "\<not> cg (u + d) \<or> m \<le> cell_dist src (u + d) \<or> u + d \<in> keys_of s"
  shows "relax cg src dest m u d s = s"
proof (cases "cg (u + d) \<and> cell_dist src (u + d) < m")
  case True
  with assms(3) obtain v where v: "om_get (u + d) (s_best s) = Some v" "u + d \<in> keys_of s"
    by (auto simp: keys_of_def)
  with assms have "v = cell_dist (u + d) dest" "u + d \<noteq> dest" by (auto simp: search_inv_def)
  with v show ?thesis by (simp add: relax_def Let_def best_at_def)
qed (auto simp: relax_def Let_def)

lemma relax_push:
  assumes "search_inv cg src dest m s" "u \<in> keys_of s" "d \<in> set fronts"
    and "cg (u + d)" "cell_dist src (u + d) < m" "u + d \<notin> keys_of s"
  defines "s' \<equiv> relax cg src dest m u d s"
  shows "search_inv cg src dest m s' \<and> keys_of s' = insert (u + d) (keys_of s)
    \<and> queued s' = insert (u + d) (queued s) \<and> length (s_pq s') = Suc (length (s_pq s))"
proof -
  let ?n = "u + d" let ?c = "cell_dist (u + d) dest"
  have none: "om_get ?n (s_best s) = None" using assms(6) by (simp add: keys_of_def)
  then have s': "s' = \<lparr>s_pq = pq_push pq_cost \<lparr>pq_cost = ?c, pq_pos = ?n\<rparr> (s_pq s),
      s_best = om_set ?n ?c (s_best s), s_parent = om_set ?n u (s_parent s)\<rparr>"
    using assms(4,5) by (simp add: s'_def relax_def Let_def best_at_def)
  have pnone: "om_get ?n (s_parent s) = None"
    using assms(1,6) by (cases "om_get ?n (s_parent s)") (auto simp: search_inv_def)
  have keys: "keys_of s' = insert ?n (keys_of s)" by (auto simp: keys_of_def s' om_get_set)
  have pq: "set (s_pq s') = insert \<lparr>pq_cost = ?c, pq_pos = ?n\<rparr> (set (s_pq s))"
    by (simp add: s')
  have qpos: "queued s' = insert ?n (queued s)" by (simp add: queued_def pq)
  have "mset (map pq_pos (s_pq s')) = add_mset ?n (mset (map pq_pos (s_pq s)))"
    by (simp add: s')
  moreover have nq: "?n \<notin> pq_pos ` set (s_pq s)"
    using assms(1,6) by (auto simp: search_inv_def keys_of_def)
  ultimately have dist: "distinct (map pq_pos (s_pq s'))"
    using assms(1) by (metis distinct.simps(2) list.set_map mset.simps(2) mset_eq_imp_distinct_iff search_inv_def)
  have len: "length (s_pq s') = Suc (length (s_pq s))"
    by (simp add: s')
  have adj: "adj u ?n" using assms(3) by (auto simp: adj_fronts)
  have mono: "\<forall>p q. om_get p (s_parent s) = Some q \<longrightarrow> om_get p (s_parent s') = Some q"
    using pnone by (auto simp: s' om_get_set)
  have plen: "length (s_parent s') = Suc (length (s_parent s))"
    using length_om_set [OF pnone] by (simp add: s')
  from search_inv_seen [OF assms(1,2)] obtain upath where "walk (s_parent s) src u upath"
      "length upath \<le> length (s_parent s)"
    and ru: "reach cg src m u" by blast
  then have up: "walk (s_parent s') src u upath" "length upath \<le> length (s_parent s)"
    using walk_mono mono by blast+
  have "walk (s_parent s') src ?n (?n # upath)"
    by (rule walk.link [OF _ _ up(1)]) (use assms(2,6) in \<open>auto simp: s' om_get_set\<close>)
  with up plen have nw: "\<exists>path. walk (s_parent s') src ?n path \<and> length path \<le> length (s_parent s')"
    by (intro exI [of _ "?n # upath"]) simp
  have nr: "reach cg src m ?n" by (rule reach.go [OF ru adj assms(4,5)])
  have "v = cell_dist p dest \<and> reach cg src m p
      \<and> (\<exists>path. walk (s_parent s') src p path \<and> length path \<le> length (s_parent s'))"
    if g: "om_get p (s_best s') = Some v" for p v
  proof (cases "p = ?n")
    case True
    with g nw nr show ?thesis by (simp add: s' om_get_set)
  next
    case False
    with g have g': "om_get p (s_best s) = Some v" by (simp add: s' om_get_set)
    then have "p \<in> keys_of s" by (simp add: keys_of_def)
    from search_inv_seen [OF assms(1) this] g' obtain path where "v = cell_dist p dest" "reach cg src m p"
      "walk (s_parent s) src p path" "length path \<le> length (s_parent s)" by auto
    moreover have "walk (s_parent s') src p path" using walk_mono [OF _ mono] calculation by blast
    ultimately show ?thesis using plen by (auto intro!: exI [of _ path])
  qed
  moreover have "p \<in> keys_of s' \<and> (p \<noteq> q \<longrightarrow> adj q p \<and> cg p \<and> cell_dist src p < m)"
    if "om_get p (s_parent s') = Some q" for p q
    using that assms(1,4,5) adj keys by (auto simp: s' om_get_set search_inv_def split: if_splits)
  moreover have "om_get (pq_pos n) (s_best s') = Some (pq_cost n)" if "n \<in> set (s_pq s')" for n
  proof (cases "n = \<lparr>pq_cost = ?c, pq_pos = ?n\<rparr>")
    case False
    with that pq have "n \<in> set (s_pq s)" by simp
    with assms(1) nq show ?thesis by (auto simp: s' om_get_set search_inv_def)
  qed (simp add: s' om_get_set)
  moreover have "om_inv (s_best s')" "om_inv (s_parent s')" "sorted (map pq_cost (s_pq s'))"
    using assms(1) by (simp_all add: s' search_inv_def om_set_inv sorted_pq_push)
  ultimately have "search_inv cg src dest m s'"
    using dist keys assms(1) unfolding search_inv_def by simp
  with keys qpos len show ?thesis by simp
qed

lemma add_cancel: "(u :: Vec2Int) + d = u + e \<Longrightarrow> d = e"
  by (cases u; cases d; cases e) simp

lemma finite_keys: "search_inv cg src dest m s \<Longrightarrow> finite (keys_of s)"
  using finite_surj [of "set (s_best s)" "keys_of s" fst]
  by (auto simp: keys_of_def om_get_def map_of_eq_None_iff)

lemma queued_keys: "search_inv cg src dest m s \<Longrightarrow> queued s \<subseteq> keys_of s"
  by (auto simp: search_inv_def queued_def keys_of_def)

lemma expand:
  assumes "search_inv cg src dest m s" "u \<in> keys_of s" "\<forall>d \<in> set ds. u + d = dest \<longrightarrow> dest \<notin> keys_of s"
    and "set ds \<subseteq> set fronts" "distinct ds"
  defines "s' \<equiv> fold (relax cg src dest m u) ds s"
  shows "search_inv cg src dest m s' \<and> keys_of s \<subseteq> keys_of s' \<and> keys_of s' - queued s' = keys_of s - queued s
    \<and> card (keys_of s') + length (s_pq s) = card (keys_of s) + length (s_pq s')
    \<and> (\<forall>d \<in> set ds. cg (u + d) \<longrightarrow> cell_dist src (u + d) < m \<longrightarrow> u + d \<in> keys_of s')"
  using assms(1-5) unfolding s'_def
proof (induction ds arbitrary: s)
  case (Cons d ds)
  show ?case
  proof (cases "cg (u + d) \<and> cell_dist src (u + d) < m \<and> u + d \<notin> keys_of s")
    case False
    then have "relax cg src dest m u d s = s"
      using Cons.prems by (intro relax_skip) auto
    with Cons False show ?thesis by auto
  next
    case True
    let ?s1 = "relax cg src dest m u d s"
    from relax_push [OF Cons.prems(1,2), of d] Cons.prems True
    have r: "search_inv cg src dest m ?s1" "keys_of ?s1 = insert (u + d) (keys_of s)"
      "queued ?s1 = insert (u + d) (queued s)" "length (s_pq ?s1) = Suc (length (s_pq s))" by auto
    have "\<forall>e \<in> set ds. u + e = dest \<longrightarrow> dest \<notin> keys_of ?s1"
      using Cons.prems r(2) add_cancel by auto
    from Cons.IH [OF r(1) _ this] Cons.prems r True finite_keys [OF Cons.prems(1)]
      queued_keys [OF Cons.prems(1)]
    show ?thesis by auto
  qed
qed auto

section \<open>The search ends\<close>

lemma range_finite:
  assumes "0 < m"
  shows "finite {p. cell_dist src p < m}" "card {p. cell_dist src p < m} \<le> nat ((2 * m + 1) * (2 * m + 1))"
proof -
  let ?B = "{vx src - m..vx src + m} \<times> {vy src - m..vy src + m}"
  let ?f = "\<lambda>(a, b). Vec a b"
  have "p \<in> ?f ` ?B" if "cell_dist src p < m" for p
    using that by (intro rev_image_eqI [of "(vx p, vy p)"]) (auto simp: cell_dist_def)
  then have sub: "{p. cell_dist src p < m} \<subseteq> ?f ` ?B" by auto
  then show "finite {p. cell_dist src p < m}" by (rule finite_subset) simp
  have "card {p. cell_dist src p < m} \<le> card (?f ` ?B)" by (rule card_mono [OF _ sub]) simp
  also have "\<dots> \<le> card ?B" by (rule card_image_le) simp
  also have "\<dots> = nat (2 * m + 1) * nat (2 * m + 1)" by (simp add: card_cartesian_product)
  also have "\<dots> = nat ((2 * m + 1) * (2 * m + 1))" using assms by (simp add: nat_mult_distrib)
  finally show "card {p. cell_dist src p < m} \<le> nat ((2 * m + 1) * (2 * m + 1))" .
qed

lemma card_keys:
  assumes "search_inv cg src dest m s" "0 < m"
  shows "card (keys_of s) \<le> card {p. cell_dist src p < m}"
proof (rule card_mono [OF range_finite(1) [OF assms(2)]])
  show "keys_of s \<subseteq> {p. cell_dist src p < m}"
    using assms reach_range by (fastforce simp: search_inv_def keys_of_def)
qed

lemma FindPath_loop_ends:
  assumes "search_inv cg src dest m s" "closed_but cg src dest m {} s" "0 < m"
    and "card {p. cell_dist src p < m} + length (s_pq s) < fuel + card (keys_of s)"
  shows "\<exists>r s'. FindPath_loop cg src dest m fuel s = Some (r, s') \<and> search_inv cg src dest m s'
    \<and> (if r then dest \<in> keys_of s' else queued s' = {} \<and> closed_but cg src dest m {} s')"
  using assms
proof (induction fuel arbitrary: s)
  case 0
  with card_keys [of cg src dest m s] show ?case by simp
next
  case (Suc fuel)
  show ?case
  proof (cases "s_pq s")
    case Nil
    with Suc.prems show ?thesis by (intro exI [of _ False] exI [of _ s]) (simp add: queued_def)
  next
    case (Cons node q)
    define u where "u = pq_pos node"
    define s1 where "s1 = s\<lparr>s_pq := q\<rparr>"
    have k1: "keys_of s1 = keys_of s" by (simp add: keys_of_def s1_def)
    have i1: "search_inv cg src dest m s1"
      using Suc.prems(1) Cons by (auto simp: search_inv_def s1_def keys_of_def)
    have u: "om_get u (s_best s) = Some (pq_cost node)" "pq_cost node = cell_dist u dest" "u \<in> keys_of s"
      using Suc.prems(1) Cons by (auto simp: search_inv_def u_def keys_of_def)
    have uq: "u \<notin> queued s1" "queued s = insert u (queued s1)"
      using Suc.prems(1) Cons by (auto simp: search_inv_def queued_def s1_def u_def)
    have nb: "\<not> best_at u (s_best s1) < pq_cost node" using u by (simp add: best_at_def s1_def)
    show ?thesis
    proof (cases "u = dest")
      case True
      with Cons nb i1 u k1 show ?thesis by (auto simp: u_def s1_def Let_def)
    next
      case False
      have dest: "dest \<notin> keys_of s"
      proof
        assume d: "dest \<in> keys_of s"
        with Suc.prems(2) have "dest \<in> queued s" by (auto simp: closed_but_def)
        with False uq Cons obtain n where n: "n \<in> set q" "pq_pos n = dest"
          by (auto simp: queued_def s1_def)
        with Suc.prems(1) Cons have "om_get dest (s_best s) = Some (pq_cost n)" "pq_cost node \<le> pq_cost n"
          by (auto simp: search_inv_def)
        with search_inv_seen [OF Suc.prems(1) d] have "pq_cost n = 0" "pq_cost node \<le> pq_cost n" by simp_all
        with u False show False using cell_dist_simps(1,2) [of u dest] by auto
      qed
      define s2 where "s2 = fold (relax cg src dest m u) fronts s1"
      have "distinct fronts" by (simp add: fronts_def)
      from expand [OF i1, of u fronts] dest k1 u(3) this
      have e: "search_inv cg src dest m s2" "keys_of s \<subseteq> keys_of s2"
        "keys_of s2 - queued s2 = keys_of s - queued s1"
        "card (keys_of s2) + length q = card (keys_of s) + length (s_pq s2)"
        "\<forall>d \<in> set fronts. cg (u + d) \<longrightarrow> cell_dist src (u + d) < m \<longrightarrow> u + d \<in> keys_of s2"
        by (auto simp: s2_def s1_def)
      have "closed_but cg src dest m {} s2"
        unfolding closed_but_def
      proof (intro ballI)
        fix p assume "p \<in> keys_of s2 - queued s2 - {}"
        with e(3) uq have "p = u \<or> p \<in> keys_of s - queued s" by auto
        then show "p \<noteq> dest \<and> (\<forall>q. adj p q \<longrightarrow> cg q \<longrightarrow> cell_dist src q < m \<longrightarrow> q \<in> keys_of s2)"
        proof
          assume "p = u"
          then show ?thesis using False e(5) by (auto simp: adj_fronts)
        next
          assume "p \<in> keys_of s - queued s"
          then show ?thesis using e(2) Suc.prems(2) by (auto simp: closed_but_def)
        qed
      qed
      moreover have "card {p. cell_dist src p < m} + length (s_pq s2) < fuel + card (keys_of s2)"
        using Suc.prems(4) e(4) Cons by simp
      ultimately show ?thesis
        using Suc.IH [OF e(1) _ Suc.prems(3)] Cons nb False
        by (simp add: u_def s1_def s2_def Let_def)
    qed
  qed
qed

section \<open>The nearest cell seen\<close>

lemma nearest_step_simps:
  "nearest_step src (p, v) (None, d) = (Some (float_of_int32 v), p)"
  "nearest_step src (p, v) (Some b, d)
    = (if b = float_of_int32 v then (if cell_dist src d > cell_dist src p then (Some b, p) else (Some b, d))
       else if b > float_of_int32 v then (Some (float_of_int32 v), p) else (Some b, d))"
  by (simp_all add: nearest_step_def)

lemma nearest_fold:
  assumes "\<forall>(p, v) \<in> set xs. \<bar>v\<bar> < 16777216" "fold (nearest_step src) xs (Some b, d) = (bs, e)"
  shows "\<exists>b'. bs = Some b' \<and> (e, b') \<in> insert (d, b) (set xs) \<and> (\<forall>(p, v) \<in> insert (d, b) (set xs). b' \<le> v)"
  using assms
proof (induction xs arbitrary: b d)
  case (Cons x xs)
  obtain p v where x: "x = (p, v)" by (cases x)
  have small: "\<forall>(p, v) \<in> set xs. \<bar>v\<bar> < 16777216" and v: "float_of_int32 v = v"
    using Cons.prems(1) by (simp_all add: x)
  consider (tie) "b = v" "cell_dist src d > cell_dist src p" | (better) "b > v"
    | (keep) "b \<le> v" "b = v \<longrightarrow> \<not> cell_dist src d > cell_dist src p" by linarith
  then show ?case
  proof cases
    case tie
    with Cons.prems(2) have "fold (nearest_step src) xs (Some b, p) = (bs, e)"
      by (simp add: x nearest_step_simps v)
    from Cons.IH [OF small this] tie show ?thesis by (auto simp: x)
  next
    case better
    with Cons.prems(2) have "fold (nearest_step src) xs (Some v, p) = (bs, e)"
      by (simp add: x nearest_step_simps v)
    from Cons.IH [OF small this] better show ?thesis by (force simp: x)
  next
    case keep
    with Cons.prems(2) have "fold (nearest_step src) xs (Some b, d) = (bs, e)"
      by (cases "b = v") (simp_all add: x nearest_step_simps v)
    from Cons.IH [OF small this] keep show ?thesis by (force simp: x)
  qed
qed simp

lemma nearest_seen_min:
  assumes "\<forall>(p, v) \<in> set best. \<bar>v\<bar> < 16777216" "best \<noteq> []"
  shows "\<exists>b. (nearest_seen src dest best, b) \<in> set best \<and> (\<forall>(p, v) \<in> set best. b \<le> v)"
proof -
  from assms(2) obtain p v xs where b: "best = (p, v) # xs" by (cases best) auto
  obtain bs e where f: "fold (nearest_step src) xs (Some v, p) = (bs, e)" by fastforce
  have "float_of_int32 v = v" using assms(1) by (simp add: b)
  with f have "nearest_seen src dest best = e"
    by (simp add: nearest_seen_def b nearest_step_simps)
  with nearest_fold [OF _ f] assms(1) show ?thesis by (auto simp: b)
qed

section \<open>The path\<close>

lemma search_start_inv:
  assumes "0 < m"
  shows "search_inv cg src dest m (search_start src dest)" "closed_but cg src dest m {} (search_start src dest)"
    "keys_of (search_start src dest) = {src}" "length (s_pq (search_start src dest)) = 1"
proof -
  have w: "walk [(src, src)] src src [src]" by (rule walk.here) (simp add: om_get_def)
  then have "\<exists>path. walk [(src, src)] src src path \<and> length path \<le> Suc 0"
    by (intro exI [of _ "[src]"]) simp
  then show "search_inv cg src dest m (search_start src dest)"
    by (auto simp: search_inv_def search_start_def Let_def om_inv_def om_get_def keys_of_def
        intro: reach.here split: if_splits)
  show "keys_of (search_start src dest) = {src}"
    by (auto simp: search_start_def keys_of_def Let_def om_get_def split: if_splits)
  then show "closed_but cg src dest m {} (search_start src dest)"
    by (simp add: closed_but_def queued_def search_start_def Let_def)
  show "length (s_pq (search_start src dest)) = 1" by (simp add: search_start_def Let_def)
qed

lemma closed_reach:
  assumes "closed_but cg src dest m {} s" "queued s = {}" "src \<in> keys_of s" "reach cg src m p"
  shows "p \<in> keys_of s \<and> p \<noteq> dest"
  using assms(4)
proof (induction rule: reach.induct)
  case here
  with assms show ?case by (auto simp: closed_but_def)
next
  case (go p q)
  with assms have "q \<in> keys_of s" by (auto simp: closed_but_def)
  with assms show ?case by (auto simp: closed_but_def)
qed

lemma route_last: "route cg src m path \<Longrightarrow> path \<noteq> [] \<and> last path = src"
  by (induction cg src m path rule: route.induct) auto

lemma seen_path:
  assumes "search_inv cg src dest m s" "e \<in> keys_of s"
  shows "\<exists>path. unwind (s_parent s) (length (s_parent s)) e = Some path \<and> route cg src m path \<and> hd path = e"
proof -
  from search_inv_seen [OF assms] obtain path where
    w: "walk (s_parent s) src e path" "length path \<le> length (s_parent s)" by blast
  have "route cg src m path"
    using assms(1) by (intro walk_route [OF w(1)]) (auto simp: search_inv_def)
  with walk_unwind [OF w] walk_hd [OF w(1)] show ?thesis by (metis list.sel(1))
qed

lemma FindPath_result:
  assumes "m \<le> 1000000"
  shows "if m \<le> cell_dist dest src then FindPath cg src dest m = Some (False, [])
    else \<exists>path. FindPath cg src dest m = Some (True, path) \<and> path \<noteq> [] \<and> hd path = src
      \<and> route cg src m (rev path)
      \<and> (if reach cg src m dest then last path = dest
         else reach cg src m (last path)
           \<and> (\<forall>p. reach cg src m p \<longrightarrow> cell_dist (last path) dest \<le> cell_dist p dest))"
proof (cases "m \<le> cell_dist dest src")
  case False
  then have m: "0 < m" using cell_dist_simps(1) [of dest src] by linarith
  let ?s0 = "search_start src dest" let ?fuel = "nat ((2 * m + 1) * (2 * m + 1)) + 1"
  have "card {p. cell_dist src p < m} + length (s_pq ?s0) < ?fuel + card (keys_of ?s0)"
    using range_finite(2) [OF m, of src] search_start_inv(3,4) [OF m] by simp
  from FindPath_loop_ends [OF search_start_inv(1,2) [OF m] m this, of cg]
  obtain r s where r: "FindPath_loop cg src dest m ?fuel ?s0 = Some (r, s)" and i: "search_inv cg src dest m s"
    and e: "if r then dest \<in> keys_of s else queued s = {} \<and> closed_but cg src dest m {} s" by blast
  have srck: "src \<in> keys_of s" using i by (simp add: search_inv_def)
  define e' where "e' = (if r then dest else nearest_seen src dest (s_best s))"
  have goal: "e' \<in> keys_of s \<and> (if reach cg src m dest then e' = dest
      else \<forall>p. reach cg src m p \<longrightarrow> cell_dist e' dest \<le> cell_dist p dest)"
  proof (cases r)
    case True
    with e search_inv_seen [OF i, of dest] show ?thesis by (simp add: e'_def)
  next
    case False
    with e have q: "queued s = {}" "closed_but cg src dest m {} s" by simp_all
    have best: "om_get p (s_best s) = Some v \<longleftrightarrow> (p, v) \<in> set (s_best s)" for p v
      using i by (intro om_get_entries) (simp add: search_inv_def)
    have val: "v = cell_dist p dest \<and> p \<in> keys_of s" if "(p, v) \<in> set (s_best s)" for p v
      using that best [of p v] i by (auto simp: search_inv_def keys_of_def)
    have small: "\<bar>v\<bar> < 16777216" if b: "(p, v) \<in> set (s_best s)" for p v
    proof -
      have v: "v = cell_dist p dest" "reach cg src m p"
        using val [OF b] search_inv_seen [OF i] by auto
      have "cell_dist p dest \<le> cell_dist p src + cell_dist src dest" by (rule cell_dist_triangle)
      then show ?thesis
        using v reach_range [OF v(2) m] \<open>\<not> m \<le> cell_dist dest src\<close> assms
          cell_dist_sym [of p src] cell_dist_sym [of src dest] cell_dist_simps(1) [of p dest] by linarith
    qed
    have "s_best s \<noteq> []" using srck by (auto simp: keys_of_def om_get_def)
    with nearest_seen_min [of "s_best s" src dest] small obtain b where
      b: "(nearest_seen src dest (s_best s), b) \<in> set (s_best s)" "\<forall>(p, v) \<in> set (s_best s). b \<le> v" by auto
    have "cell_dist (nearest_seen src dest (s_best s)) dest \<le> cell_dist p dest" if rp: "reach cg src m p" for p
    proof -
      from closed_reach [OF q(2,1) srck rp] have "p \<in> keys_of s" by simp
      with search_inv_seen [OF i] best have "(p, cell_dist p dest) \<in> set (s_best s)" by blast
      with b(2) have "b \<le> cell_dist p dest" by blast
      then show ?thesis using val [OF b(1)] by simp
    qed
    moreover have "\<not> reach cg src m dest" using closed_reach [OF q(2,1) srck] by blast
    ultimately show ?thesis using False val [OF b(1)] by (simp add: e'_def)
  qed
  then have ek: "e' \<in> keys_of s" by simp
  from seen_path [OF i ek] obtain path where
    p: "unwind (s_parent s) (length (s_parent s)) e' = Some path" "route cg src m path" "hd path = e'" by blast
  have "FindPath cg src dest m = Some (True, rev path)"
    using False r p by (simp add: FindPath_def e'_def Let_def)
  moreover have "path \<noteq> []" "last path = src" using route_last [OF p(2)] by simp_all
  ultimately have "FindPath cg src dest m = Some (True, rev path) \<and> rev path \<noteq> [] \<and> hd (rev path) = src
      \<and> route cg src m (rev (rev path))" and l: "last (rev path) = e'"
    using p by (simp_all add: hd_rev last_rev)
  moreover have "if reach cg src m dest then last (rev path) = dest
      else reach cg src m (last (rev path))
        \<and> (\<forall>p. reach cg src m p \<longrightarrow> cell_dist (last (rev path)) dest \<le> cell_dist p dest)"
    unfolding l using goal search_inv_seen [OF i ek] by presburger
  ultimately show ?thesis unfolding if_not_P [OF False] by blast
qed (simp add: FindPath_def)

text \<open>The first step of a path is a free neighbour, and a source one can always return.\<close>

lemma route_first: "route cg src m (xs @ [b, src]) \<Longrightarrow> cg b \<and> adj src b"
proof (induction xs)
  case (Cons x xs)
  then show ?case by (cases xs) simp_all
qed simp

lemma FindPath_step:
  assumes "FindPath cg src dest m = Some (True, path)" "1 < length path" "m \<le> 1000000"
  shows "cg (path ! 1)" "manhattan (path ! 1 - src) = 1"
proof -
  have "hd path = src" "route cg src m (rev path)"
    using FindPath_result [OF assms(3), of dest src cg] assms(1) by (auto split: if_splits)
  moreover obtain a b rest where p: "path = a # b # rest"
    using assms(2) by (cases path; cases "tl path") auto
  ultimately have "route cg src m (rev rest @ [b, src])" by simp
  then have "cg b \<and> adj src b" by (rule route_first)
  then show "cg (path ! 1)" "manhattan (path ! 1 - src) = 1" by (simp_all add: p adj_def cell_dist_def manhattan_def)
qed

lemma FindPath_returns: "m \<le> 1000000 \<Longrightarrow> FindPath cg src dest m \<noteq> None"
  using FindPath_result [of m dest src cg] by (auto split: if_splits)

text \<open>
  C8. \<open>FindPath\<close> always returns. When the destination is within \<open>maxDepth\<close> it returns a path that
  starts at the source and moves one cell at a time over cells that may be entered and lie within
  \<open>maxDepth\<close>; it ends at the destination if any such path exists, and otherwise at a reachable
  cell none is closer to the destination than. Further away it refuses.
\<close>

theorem FindPath_correct:
  assumes "m \<le> 1000000"
  shows "if m \<le> cell_dist dest src then FindPath cg src dest m = Some (False, [])
    else \<exists>path. FindPath cg src dest m = Some (True, path) \<and> path \<noteq> [] \<and> hd path = src
      \<and> route cg src m (rev path)
      \<and> (if reach cg src m dest then last path = dest
         else reach cg src m (last path)
           \<and> (\<forall>p. reach cg src m p \<longrightarrow> cell_dist (last path) dest \<le> cell_dist p dest))"
  by (rule FindPath_result [OF assms])

theorem FindPath_correct_witness:
  "\<exists>path. FindPath (\<lambda>p. vy p = 0) (Vec 0 0) (Vec 2 0) 20 = Some (True, path)
    \<and> hd path = Vec 0 0 \<and> last path = Vec 2 0"
proof -
  have "reach (\<lambda>p. vy p = 0) (Vec 0 0) 20 (Vec 1 0)"
    by (rule reach.go [OF reach.here]) (simp_all add: adj_def cell_dist_def)
  then have "reach (\<lambda>p. vy p = 0) (Vec 0 0) 20 (Vec 2 0)"
    by (rule reach.go) (simp_all add: adj_def cell_dist_def)
  moreover have "\<not> 20 \<le> cell_dist (Vec 2 0) (Vec 0 0)" by (simp add: cell_dist_def)
  ultimately show ?thesis
    using FindPath_correct [of 20 "Vec 2 0" "Vec 0 0" "\<lambda>p. vy p = 0"] by auto
qed

end
