(* ===== verification/Party.thy ===== *)
theory Party
  imports StdMap
begin

text \<open>
  \<open>PartyManager\<close>: the parties and, for every player in one, its party. Both tables are
  \<open>unordered_map\<close>s that are only looked up, so they are functions here. Every operation runs under
  the manager's lock and is one transition.
\<close>

section \<open>Operations\<close>

record Party =
  partyId :: uint64
  leaderId :: uint64
  memberIds :: "uint64 list"
  memberNames :: "uint64 \<rightharpoonup> string"

record PartyManager =
  parties :: "uint64 \<rightharpoonup> Party"
  playerToParty :: "uint64 \<rightharpoonup> uint64"
  partyIdGen :: uint64

definition MAX_PARTY_SIZE :: int32 where
  "MAX_PARTY_SIZE = 4"

definition PartyManager_new :: PartyManager where
  "PartyManager_new = \<lparr>parties = Map.empty, playerToParty = Map.empty, partyIdGen = 1\<rparr>"

definition CreateParty :: "uint64 \<Rightarrow> PartyManager \<Rightarrow> uint64 \<times> PartyManager" where
  "CreateParty leader pm =
     (if playerToParty pm leader \<noteq> None then (0, pm)
      else let pid = partyIdGen pm;
               party = \<lparr>partyId = pid, leaderId = leader, memberIds = [leader], memberNames = Map.empty\<rparr>
           in (pid, pm\<lparr>partyIdGen := pid + 1, parties := (parties pm)(pid \<mapsto> party),
                      playerToParty := (playerToParty pm)(leader \<mapsto> pid)\<rparr>))"

definition AddMember :: "uint64 \<Rightarrow> uint64 \<Rightarrow> PartyManager \<Rightarrow> bool \<times> PartyManager" where
  "AddMember pid playerId pm =
     (case parties pm pid of
        None \<Rightarrow> (False, pm)
      | Some party \<Rightarrow>
          if int (length (memberIds party)) \<ge> MAX_PARTY_SIZE then (False, pm)
          else if playerToParty pm playerId \<noteq> None then (False, pm)
          else (True, pm\<lparr>parties := (parties pm)(pid \<mapsto> party\<lparr>memberIds := memberIds party @ [playerId]\<rparr>),
                       playerToParty := (playerToParty pm)(playerId \<mapsto> pid)\<rparr>))"

definition DisbandParty :: "uint64 \<Rightarrow> PartyManager \<Rightarrow> PartyManager" where
  "DisbandParty pid pm =
     (case parties pm pid of
        None \<Rightarrow> pm
      | Some party \<Rightarrow>
          pm\<lparr>playerToParty := fold (\<lambda>m f. f(m := None)) (memberIds party) (playerToParty pm),
             parties := (parties pm)(pid := None)\<rparr>)"

definition RemoveMember :: "uint64 \<Rightarrow> uint64 \<Rightarrow> PartyManager \<Rightarrow> PartyManager" where
  "RemoveMember pid playerId pm =
     (case parties pm pid of
        None \<Rightarrow> pm
      | Some party \<Rightarrow>
          let members = filter (\<lambda>m. m \<noteq> playerId) (memberIds party);
              party1 = party\<lparr>memberIds := members, memberNames := (memberNames party)(playerId := None)\<rparr>;
              pm1 = pm\<lparr>parties := (parties pm)(pid \<mapsto> party1),
                       playerToParty := (playerToParty pm)(playerId := None)\<rparr>
          in if length members \<le> 1 then DisbandParty pid pm1
             else if leaderId party1 = playerId
             then pm1\<lparr>parties := (parties pm1)(pid \<mapsto> party1\<lparr>leaderId := members ! 0\<rparr>)\<rparr>
             else pm1)"

definition GetParty :: "uint64 \<Rightarrow> PartyManager \<Rightarrow> Party option" where
  "GetParty pid pm = parties pm pid"

definition GetPartyIdByPlayer :: "uint64 \<Rightarrow> PartyManager \<Rightarrow> uint64" where
  "GetPartyIdByPlayer playerId pm = (case playerToParty pm playerId of Some pid \<Rightarrow> pid | None \<Rightarrow> 0)"

definition IsInParty :: "uint64 \<Rightarrow> PartyManager \<Rightarrow> bool" where
  "IsInParty playerId pm \<longleftrightarrow> playerToParty pm playerId \<noteq> None"

definition IsLeader :: "uint64 \<Rightarrow> PartyManager \<Rightarrow> bool" where
  "IsLeader playerId pm =
     (case playerToParty pm playerId of
        None \<Rightarrow> False
      | Some pid \<Rightarrow> (case parties pm pid of None \<Rightarrow> False | Some party \<Rightarrow> leaderId party = playerId))"

text \<open>The callers also write a member's name through the pointer \<open>GetParty\<close> returns.\<close>

definition set_member_name :: "uint64 \<Rightarrow> uint64 \<Rightarrow> string \<Rightarrow> PartyManager \<Rightarrow> PartyManager" where
  "set_member_name pid playerId name pm =
     (case parties pm pid of
        None \<Rightarrow> pm
      | Some party \<Rightarrow> pm\<lparr>parties := (parties pm)(pid \<mapsto>
          party\<lparr>memberNames := (memberNames party)(playerId \<mapsto> name)\<rparr>)\<rparr>)"

section \<open>The invariant\<close>

text \<open>
  A party has 1 to 4 distinct members, its leader among them, and is filed under its id; a player
  is in the party the table says, and in no other. Ids below the counter are used up.
\<close>

definition party_ok :: "Party \<Rightarrow> bool" where
  "party_ok p \<longleftrightarrow> distinct (memberIds p) \<and> leaderId p \<in> set (memberIds p)
     \<and> int (length (memberIds p)) \<le> MAX_PARTY_SIZE"

definition pm_inv :: "PartyManager \<Rightarrow> bool" where
  "pm_inv pm \<longleftrightarrow>
     (\<forall>pid p. parties pm pid = Some p \<longrightarrow> party_ok p \<and> partyId p = pid \<and> pid < partyIdGen pm \<and> pid \<noteq> 0)
     \<and> (\<forall>m pid. playerToParty pm m = Some pid \<longleftrightarrow>
          (\<exists>p. parties pm pid = Some p \<and> m \<in> set (memberIds p)))"

lemma pm_invI:
  assumes "\<And>pid p. parties pm pid = Some p \<Longrightarrow> party_ok p \<and> partyId p = pid \<and> pid < partyIdGen pm \<and> pid \<noteq> 0"
    and "\<And>m pid p. parties pm pid = Some p \<Longrightarrow> m \<in> set (memberIds p) \<Longrightarrow> playerToParty pm m = Some pid"
    and "\<And>m pid. playerToParty pm m = Some pid \<Longrightarrow> \<exists>p. parties pm pid = Some p \<and> m \<in> set (memberIds p)"
  shows "pm_inv pm"
proof -
  have "\<forall>pid p. parties pm pid = Some p \<longrightarrow> party_ok p \<and> partyId p = pid \<and> pid < partyIdGen pm \<and> pid \<noteq> 0"
    using assms(1) by blast
  moreover have "\<forall>m pid. playerToParty pm m = Some pid \<longleftrightarrow> (\<exists>p. parties pm pid = Some p \<and> m \<in> set (memberIds p))"
    using assms(2,3) by blast
  ultimately show ?thesis unfolding pm_inv_def by (rule conjI)
qed

lemma pm_inv_new: "pm_inv PartyManager_new"
  by (simp add: pm_inv_def PartyManager_new_def)

lemma pm_invD:
  assumes "pm_inv pm" "parties pm pid = Some p"
  shows "party_ok p" "partyId p = pid" "pid < partyIdGen pm" "pid \<noteq> 0"
    "m \<in> set (memberIds p) \<Longrightarrow> playerToParty pm m = Some pid"
  using assms by (auto simp: pm_inv_def)

lemma pm_inv_party_of:
  assumes "pm_inv pm" "playerToParty pm m = Some pid"
  obtains p where "parties pm pid = Some p" "m \<in> set (memberIds p)"
  using assms by (auto simp: pm_inv_def)

text \<open>The counter is 64 bits wide; the lemma is for ids handed out before it wraps.\<close>

lemma CreateParty_inv [inv_intros]:
  assumes "pm_inv pm" "0 < partyIdGen pm" "partyIdGen pm \<noteq> - 1"
  shows "pm_inv (snd (CreateParty l pm))"
proof (cases "playerToParty pm l")
  case None
  have lt: "partyIdGen pm < partyIdGen pm + 1" using assms(3) by (rule word_less_succ)
  then have up: "\<And>q. q < partyIdGen pm \<Longrightarrow> q < partyIdGen pm + 1" by (meson order.strict_trans)
  have fresh: "parties pm (partyIdGen pm) = None"
    using pm_invD(3) [OF assms(1)] by (cases "parties pm (partyIdGen pm)") auto
  have nl: "parties pm q = Some p \<Longrightarrow> l \<notin> set (memberIds p)" for q p
    using pm_invD(5) [OF assms(1), of q p l] None by auto
  show ?thesis
    by (rule pm_invI)
      (use assms None lt up fresh nl in \<open>auto simp: CreateParty_def Let_def party_ok_def MAX_PARTY_SIZE_def
          dest: pm_invD elim: pm_inv_party_of split: if_splits\<close>)
qed (use assms in \<open>simp add: CreateParty_def\<close>)

lemma AddMember_inv [inv_intros]:
  assumes "pm_inv pm"
  shows "pm_inv (snd (AddMember pid m pm))"
proof (cases "parties pm pid")
  case (Some p)
  show ?thesis
  proof (cases "int (length (memberIds p)) \<ge> MAX_PARTY_SIZE \<or> playerToParty pm m \<noteq> None")
    case False
    have nm: "parties pm q = Some p' \<Longrightarrow> m \<notin> set (memberIds p')" for q p'
      using pm_invD(5) [OF assms, of q p' m] False by auto
    show ?thesis
      by (rule pm_invI)
        (use assms Some False nm in \<open>auto simp: AddMember_def party_ok_def dest: pm_invD
            elim: pm_inv_party_of split: if_splits\<close>)
  qed (use assms Some in \<open>auto simp: AddMember_def\<close>)
qed (use assms in \<open>simp add: AddMember_def\<close>)

lemma fold_unset: "fold (\<lambda>m f. f(m := None)) ms f x = (if x \<in> set ms then None else f x)"
  by (induction ms arbitrary: f) auto

text \<open>Leaving, on the tables: the member is filed nowhere, and a party of one is dissolved.\<close>

lemma RemoveMember_tables:
  assumes "pm_inv pm" "playerToParty pm m = Some pid" "parties pm pid = Some p"
  defines "rest \<equiv> filter (\<lambda>x. x \<noteq> m) (memberIds p)"
  defines "pm' \<equiv> RemoveMember pid m pm"
  shows "playerToParty pm' x = (if x = m \<or> length rest \<le> 1 \<and> x \<in> set rest then None else playerToParty pm x)"
    "parties pm' q = (if q = pid then
       (if length rest \<le> 1 then None
        else Some (p\<lparr>memberIds := rest, memberNames := (memberNames p)(m := None),
               leaderId := (if leaderId p = m then rest ! 0 else leaderId p)\<rparr>))
       else parties pm q)"
    "partyIdGen pm' = partyIdGen pm"
  using assms(2,3) unfolding pm'_def rest_def
  by (simp_all add: RemoveMember_def Let_def DisbandParty_def fold_unset)

lemma RemoveMember_inv [inv_intros]:
  assumes "pm_inv pm" "playerToParty pm m = Some pid"
  shows "pm_inv (RemoveMember pid m pm)"
proof -
  from assms obtain p where p: "parties pm pid = Some p" "m \<in> set (memberIds p)"
    by (rule pm_inv_party_of)
  define rest where "rest = filter (\<lambda>x. x \<noteq> m) (memberIds p)"
  note T = RemoveMember_tables [OF assms p(1), folded rest_def]
  have ok: "party_ok p" using pm_invD(1) [OF assms(1) p(1)] .
  have "length rest \<le> length (memberIds p)" by (simp add: rest_def)
  with ok have "int (length rest) \<le> MAX_PARTY_SIZE" unfolding party_ok_def by linarith
  moreover have "set rest = set (memberIds p) - {m}" "distinct rest"
    using ok by (auto simp: rest_def party_ok_def)
  ultimately have r: "set rest = set (memberIds p) - {m}" "distinct rest" "int (length rest) \<le> MAX_PARTY_SIZE"
    by simp_all
  have fst_in: "rest ! 0 \<in> set rest" if "\<not> length rest \<le> 1"
    using that by (intro nth_mem) linarith
  have other: "parties pm q = Some p' \<Longrightarrow> x \<in> set (memberIds p') \<Longrightarrow> x \<in> set (memberIds p) \<Longrightarrow> q = pid" for q p' x
    using pm_invD(5) [OF assms(1), of q p' x] pm_invD(5) [OF assms(1) p(1), of x] by simp
  show ?thesis
  proof (rule pm_invI)
    fix q p' assume "parties (RemoveMember pid m pm) q = Some p'"
    then show "party_ok p' \<and> partyId p' = q \<and> q < partyIdGen (RemoveMember pid m pm) \<and> q \<noteq> 0"
      using pm_invD(1-4) [OF assms(1)] p ok r fst_in
      by (auto simp: T party_ok_def split: if_splits)
  next
    fix x q p' assume a: "parties (RemoveMember pid m pm) q = Some p'" "x \<in> set (memberIds p')"
    show "playerToParty (RemoveMember pid m pm) x = Some q"
    proof (cases "q = pid")
      case True
      with a have "\<not> length rest \<le> 1" "x \<in> set rest" by (auto simp: T split: if_splits)
      with r True pm_invD(5) [OF assms(1) p(1), of x] show ?thesis by (simp add: T)
    next
      case False
      with a have q: "parties pm q = Some p'" by (simp add: T)
      from False other [OF q a(2)] have "x \<notin> set (memberIds p)" by blast
      with p r have "x \<noteq> m" "x \<notin> set rest" by auto
      with pm_invD(5) [OF assms(1) q a(2)] show ?thesis by (simp add: T)
    qed
  next
    fix x q assume "playerToParty (RemoveMember pid m pm) x = Some q"
    then have x: "x \<noteq> m" "\<not> (length rest \<le> 1 \<and> x \<in> set rest)" "playerToParty pm x = Some q"
      by (auto simp: T split: if_splits)
    from pm_inv_party_of [OF assms(1) x(3)] obtain p' where "parties pm q = Some p'" "x \<in> set (memberIds p')" .
    with x(1,2) p(1) r(1) show "\<exists>p'. parties (RemoveMember pid m pm) q = Some p' \<and> x \<in> set (memberIds p')"
      by (cases "q = pid") (simp_all add: T)
  qed
qed

lemma set_member_name_inv [inv_intros]:
  assumes "pm_inv pm"
  shows "pm_inv (set_member_name pid m n pm)"
proof (cases "parties pm pid")
  case (Some p)
  then show ?thesis
    using assms unfolding pm_inv_def set_member_name_def by (simp add: party_ok_def)
qed (use assms in \<open>simp add: set_member_name_def\<close>)

section \<open>What leaving does\<close>

text \<open>
  Leaving, for a player filed under \<open>pid\<close>, keeps the tables consistent and removes exactly that player; the
  party goes on under the old leader or else its oldest remaining member, or is dissolved when
  at most one member remains, who is then in no party either. No other player is affected.
\<close>

theorem leaving_a_party:
  assumes "pm_inv pm" "playerToParty pm m = Some pid"
  shows "pm_inv (RemoveMember pid m pm) \<and> \<not> IsInParty m (RemoveMember pid m pm)
    \<and> (\<forall>x. x \<noteq> m \<longrightarrow> playerToParty pm x \<noteq> Some pid \<longrightarrow>
          playerToParty (RemoveMember pid m pm) x = playerToParty pm x)
    \<and> (\<exists>p. GetParty pid pm = Some p \<and>
        (let rest = filter (\<lambda>x. x \<noteq> m) (memberIds p)
         in if length rest \<le> 1
            then GetParty pid (RemoveMember pid m pm) = None
              \<and> (\<forall>x \<in> set rest. \<not> IsInParty x (RemoveMember pid m pm))
            else \<exists>p'. GetParty pid (RemoveMember pid m pm) = Some p' \<and> memberIds p' = rest
              \<and> leaderId p' = (if leaderId p = m then hd rest else leaderId p)))"
proof -
  from assms obtain p where p: "parties pm pid = Some p" "m \<in> set (memberIds p)"
    by (rule pm_inv_party_of)
  note T = RemoveMember_tables [OF assms p(1)]
  have "\<not> length (filter (\<lambda>x. x \<noteq> m) (memberIds p)) \<le> 1 \<Longrightarrow>
      filter (\<lambda>x. x \<noteq> m) (memberIds p) ! 0 = hd (filter (\<lambda>x. x \<noteq> m) (memberIds p))"
    by (cases "filter (\<lambda>x. x \<noteq> m) (memberIds p)") simp_all
  moreover have "playerToParty (RemoveMember pid m pm) x = playerToParty pm x"
    if "x \<noteq> m" "playerToParty pm x \<noteq> Some pid" for x
    using that pm_invD(5) [OF assms(1) p(1), of x] by (auto simp: T)
  ultimately show ?thesis
    using RemoveMember_inv [OF assms] p
    by (simp add: T IsInParty_def GetParty_def Let_def)
qed

section \<open>Every history\<close>

text \<open>The operations as the server calls them: a player is only removed from the party it is filed under.\<close>

datatype party_op = PCreate uint64 | PAdd uint64 uint64 | PRemove uint64 | PName uint64 uint64 string

definition op_party :: "party_op \<Rightarrow> PartyManager \<Rightarrow> PartyManager" where
  "op_party op pm = (case op of
     PCreate l \<Rightarrow> snd (CreateParty l pm)
   | PAdd pid m \<Rightarrow> snd (AddMember pid m pm)
   | PRemove m \<Rightarrow> if GetPartyIdByPlayer m pm = 0 then pm else RemoveMember (GetPartyIdByPlayer m pm) m pm
   | PName pid m n \<Rightarrow> set_member_name pid m n pm)"

lemma op_party_inv:
  assumes "pm_inv pm" "0 < partyIdGen pm" "partyIdGen pm \<noteq> - 1"
  shows "pm_inv (op_party op pm)"
proof (cases op)
  case (PRemove m)
  with assms show ?thesis
    by (cases "playerToParty pm m") (simp_all add: op_party_def GetPartyIdByPlayer_def RemoveMember_inv)
qed (use assms in \<open>auto simp: op_party_def intro: inv_intros\<close>)

lemma op_party_gen: "partyIdGen (op_party op pm) = partyIdGen pm \<or> partyIdGen (op_party op pm) = partyIdGen pm + 1"
  by (cases op)
    (auto simp: op_party_def CreateParty_def Let_def AddMember_def RemoveMember_def DisbandParty_def
      set_member_name_def split: option.split)

lemma op_parties_inv:
  assumes "pm_inv pm" "0 < partyIdGen pm" "unat (partyIdGen pm) + length ops < 18446744073709551615"
  shows "pm_inv (fold op_party ops pm)"
  using assms
proof (induction ops arbitrary: pm)
  case (Cons op ops)
  have "unat (- 1 :: 64 word) = 18446744073709551615"
    by (simp add: unsigned_minus_1_eq_mask mask_eq_exp_minus_1)
  then have ne: "partyIdGen pm \<noteq> - 1" using Cons.prems(3) by auto
  have i: "pm_inv (op_party op pm)" by (rule op_party_inv [OF Cons.prems(1,2) ne])
  have "partyIdGen pm < partyIdGen pm + 1" by (rule word_less_succ [OF ne])
  then have "unat (partyIdGen pm) < unat (partyIdGen pm + 1)" by (simp add: word_less_nat_alt)
  moreover have "unat (partyIdGen pm + 1) \<le> unat (partyIdGen pm) + 1"
    by (simp add: unat_word_ariths)
  ultimately have g: "unat (partyIdGen (op_party op pm)) \<le> unat (partyIdGen pm) + 1"
    "unat (partyIdGen pm) \<le> unat (partyIdGen (op_party op pm))"
    using op_party_gen [of op pm] by auto
  have "0 < partyIdGen (op_party op pm)"
    using Cons.prems(2) g(2) by (simp add: word_less_nat_alt)
  moreover have "unat (partyIdGen (op_party op pm)) + length ops < 18446744073709551615"
    using Cons.prems(3) g(1) by simp
  ultimately show ?case using Cons.IH [OF i] by simp
qed simp

text \<open>
  C12. In every history of the manager shorter than the 64-bit id space, a party has at most four
  members, all distinct, its leader among them, and a player is filed under a party exactly when
  that party lists it: nobody is in two parties, and no table entry dangles.
\<close>

theorem party_tables_consistent:
  assumes "length ops < 18446744073709551614"
  shows "pm_inv (fold op_party ops PartyManager_new)"
  by (rule op_parties_inv [OF pm_inv_new]) (use assms in \<open>simp_all add: PartyManager_new_def\<close>)

section \<open>On concrete parties\<close>

definition sample_party :: PartyManager where
  "sample_party = fold op_party [PCreate 7, PAdd 1 8, PAdd 1 9] PartyManager_new"

theorem party_tables_consistent_witness: "pm_inv sample_party"
  unfolding sample_party_def by (rule party_tables_consistent) simp

lemma sample_party_simps:
  "playerToParty sample_party 7 = Some 1"
  "parties sample_party 1 = Some \<lparr>partyId = 1, leaderId = 7, memberIds = [7, 8, 9], memberNames = Map.empty\<rparr>"
  by (simp_all add: sample_party_def op_party_def CreateParty_def AddMember_def PartyManager_new_def
      MAX_PARTY_SIZE_def)

lemma sample_party_inv: "pm_inv sample_party"
  unfolding sample_party_def
  by (rule op_parties_inv [OF pm_inv_new]) (simp_all add: PartyManager_new_def)

theorem leaving_a_party_witness:
  "\<exists>p. GetParty 1 (RemoveMember 1 7 sample_party) = Some p \<and> memberIds p = [8, 9] \<and> leaderId p = 8"
  using leaving_a_party [OF sample_party_inv sample_party_simps(1)]
  by (auto simp: GetParty_def sample_party_simps)

end
