(* ===== verification/Protocol.thy ===== *)
theory Protocol
  imports Framing
begin

text \<open>
  The messages of the game protocol, as the server code sees them after parsing and before
  serialization. A proto3 enum is open: a value that comes from a client is an arbitrary
  \<open>int32\<close>, so directions, weapon types, map ids and chat types are integers with named
  constants; object types and object states are only ever written by the server and are
  datatypes. \<open>spacket\<close> has a constructor per message the server sends.
\<close>

section \<open>Enumerations\<close>

definition DIR_UP :: int32 where [simp]: "DIR_UP = 0"
definition DIR_DOWN :: int32 where [simp]: "DIR_DOWN = 1"
definition DIR_LEFT :: int32 where [simp]: "DIR_LEFT = 2"
definition DIR_RIGHT :: int32 where [simp]: "DIR_RIGHT = 3"

definition DIR_TYPE_IsValid :: "int32 \<Rightarrow> bool" where
  "DIR_TYPE_IsValid d \<longleftrightarrow> d \<in> {DIR_UP, DIR_DOWN, DIR_LEFT, DIR_RIGHT}"

definition WEAPON_TYPE_SWORD :: int32 where [simp]: "WEAPON_TYPE_SWORD = 0"
definition WEAPON_TYPE_BOW :: int32 where [simp]: "WEAPON_TYPE_BOW = 1"
definition WEAPON_TYPE_STAFF :: int32 where [simp]: "WEAPON_TYPE_STAFF = 2"

definition MAP_ID_TOWN :: int32 where [simp]: "MAP_ID_TOWN = 1"
definition MAP_ID_DUNGEON :: int32 where [simp]: "MAP_ID_DUNGEON = 2"

definition CHAT_TYPE_GLOBAL :: int32 where [simp]: "CHAT_TYPE_GLOBAL = 0"
definition CHAT_TYPE_PARTY :: int32 where [simp]: "CHAT_TYPE_PARTY = 1"
definition CHAT_TYPE_WHISPER :: int32 where [simp]: "CHAT_TYPE_WHISPER = 2"

datatype ObjectState = IDLE | MOVE | SKILL

datatype ObjectType = OBJECT_TYPE_NONE | OBJECT_TYPE_PLAYER | OBJECT_TYPE_MONSTER | OBJECT_TYPE_PROJECTILE

datatype FieldId = Town | Dungeon

section \<open>ObjectInfo\<close>

record PlayerExtra =
  pe_level :: int32
  pe_exp :: int32
  pe_maxexp :: int32

datatype ObjectExtra = NoExtra | ExtraPlayer PlayerExtra | ExtraMonster int32

record ObjectInfo =
  i_objectid :: uint64
  i_objecttype :: ObjectType
  i_state :: ObjectState
  i_dir :: int32
  i_name :: string
  i_hp :: int32
  i_maxhp :: int32
  i_attack :: int32
  i_defence :: int32
  i_posx :: int32
  i_posy :: int32
  i_extra :: ObjectExtra

text \<open>Every field of a fresh message has its proto3 default.\<close>

definition ObjectInfo_default :: ObjectInfo where
  "ObjectInfo_default =
     \<lparr>i_objectid = 0, i_objecttype = OBJECT_TYPE_NONE, i_state = IDLE, i_dir = DIR_UP, i_name = '''',
      i_hp = 0, i_maxhp = 0, i_attack = 0, i_defence = 0, i_posx = 0, i_posy = 0, i_extra = NoExtra\<rparr>"

section \<open>Messages to the client\<close>

record ItemInfo =
  ii_itemid :: int32
  ii_count :: int32
  ii_slot :: int32

record PartyMemberInfo =
  pm_playerid :: uint64
  pm_name :: string
  pm_level :: int32
  pm_hp :: int32
  pm_maxhp :: int32
  pm_isleader :: bool

datatype spacket =
    S_EnterGame bool int
  | S_MyPlayer ObjectInfo
  | S_AddObject "ObjectInfo list"
  | S_RemoveObject "uint64 list"
  | S_Move ObjectInfo
  | S_Turn ObjectInfo
  | S_Attack (atk_attacker: uint64) (atk_dir: int32) (atk_weapon: int32)
  | S_Damaged (dmg_attacker: uint64) (dmg_target: uint64) (dmg_damage: int32) (dmg_newhp: int32)
  | S_ChangeMap (cm_success: bool) (cm_mapid: int32) (cm_channel: int32) (cm_instance: uint64)
  | S_GainExp (ge_player: uint64) (ge_gained: int32) (ge_current: int32) (ge_max: int32)
  | S_LevelUp (lu_player: uint64) (lu_level: int32) (lu_maxhp: int32) (lu_attack: int32)
      (lu_defence: int32) (lu_maxexp: int32)
  | S_InventoryData "ItemInfo list" ItemInfo ItemInfo ItemInfo
  | S_AddItem (ai_item: int32) (ai_slot: int32) (ai_count: int32)
  | S_EquipItem (eq_type: int32) (eq_slot: int32) (eq_storageitem: int32) (eq_storagecount: int32)
      (eq_item: int32) (eq_count: int32) (eq_attack: int32) (eq_defence: int32)
  | S_UnequipItem (ue_type: int32) (ue_slot: int32) (ue_attack: int32) (ue_defence: int32)
  | S_UseItem (us_type: int32) (us_remain: int32) (us_newhp: int32)
  | S_PartyInvite uint64 string
  | S_PartyUpdate "PartyMemberInfo list"
  | S_PartyLeave
  | S_Chat (ch_sender: string) (ch_type: int32) (ch_msg: string)
  | S_Ranking "(string \<times> int32) list"

fun packet_id :: "spacket \<Rightarrow> uint16" where
  "packet_id (S_EnterGame _ _) = 202"
| "packet_id (S_MyPlayer _) = 203"
| "packet_id (S_AddObject _) = 204"
| "packet_id (S_RemoveObject _) = 205"
| "packet_id (S_Move _) = 206"
| "packet_id (S_Attack _ _ _) = 207"
| "packet_id (S_Damaged _ _ _ _) = 208"
| "packet_id (S_ChangeMap _ _ _ _) = 209"
| "packet_id (S_GainExp _ _ _ _) = 210"
| "packet_id (S_LevelUp _ _ _ _ _ _) = 211"
| "packet_id (S_Turn _) = 212"
| "packet_id (S_InventoryData _ _ _ _) = 213"
| "packet_id (S_AddItem _ _ _) = 214"
| "packet_id (S_EquipItem _ _ _ _ _ _ _ _) = 215"
| "packet_id (S_UnequipItem _ _ _ _) = 216"
| "packet_id (S_UseItem _ _ _) = 217"
| "packet_id (S_PartyInvite _ _) = 218"
| "packet_id (S_PartyUpdate _) = 219"
| "packet_id S_PartyLeave = 220"
| "packet_id (S_Chat _ _ _) = 221"
| "packet_id (S_Ranking _) = 222"

text \<open>
  The \<open>Make_S_...\<close> functions: \<open>ser\<close> is protobuf's serializer, a parameter.
\<close>

definition Make_packet :: "bool \<Rightarrow> (spacket \<Rightarrow> byte list) \<Rightarrow> spacket \<Rightarrow> SendBuffer option" where
  "Make_packet debug ser p = MakeSendBuffer debug (ser p) (packet_id p)"

section \<open>Messages from the client\<close>

datatype cpacket =
    C_Move int32
  | C_Attack (ca_dir: int32) (ca_weapon: int32)
  | C_ChangeMap (cc_mapid: int32) (cc_channel: int32)
  | C_Turn int32
  | C_EquipItem int32
  | C_UnequipItem int32
  | C_UseItem int32
  | C_PartyInvite uint64
  | C_PartyAnswer (pa_inviter: uint64) (pa_accept: bool)
  | C_PartyLeave
  | C_Login string
  | C_Chat (cch_type: int32) (cch_msg: string) (cch_target: string)
  | C_GetRanking

section \<open>Messages between the game server and the chat server\<close>

text \<open>\<open>SS_RelayChat\<close> and \<open>SS_BroadcastChat\<close> have the same fields.\<close>

record RelayChat =
  rl_sender :: string
  rl_type :: int32
  rl_msg :: string
  rl_target :: string
  rl_partyid :: uint64

section \<open>Effects\<close>

text \<open>
  What an operation on objects does to the outside: packets to one session or to everybody in a
  room, writes to Redis, and faults, the places where the code has undefined behaviour or an
  exception nobody catches.
\<close>

type_synonym SessionId = nat

datatype RoomRef = StaticRoom FieldId int32 | DungeonRoom uint64

datatype fault = RedisException | IndexOutOfBounds | NullDereference | BadCast | DivisionByZero
  | BadMapFile | UninitializedRead | IteratorInvalidated | Nontermination

datatype effect =
    ToSession SessionId spacket
  | ToRoom RoomRef spacket
  | RedisZadd string string int
  | RedisSet string string
  | RedisDel string
  | Fault fault

end
