(* ===== verification/GameData.thy ===== *)
theory GameData
  imports Prelude
begin

text \<open>
  The tables of \<open>RoomDataManager\<close> and the records of \<^verbatim>\<open>RoomConfig.h\<close>. The tables are
  \<open>unordered_map\<close>s, read by key only; the loaders that fill them are in \<open>RoomData\<close>.
\<close>

section \<open>Records\<close>

record RoomConfigData =
  rc_roomId :: string
  rc_roomName :: string
  rc_skillEnabled :: bool
  rc_monsterSpawnEnabled :: bool
  rc_respawnTimeMs :: uint32
  rc_tilemapPath :: string
  rc_maxPlayers :: int32
  rc_isInstance :: bool

record MonsterInfo =
  mi_templateId :: int32
  mi_count :: int32
  mi_level :: int32
  mi_aggroRange :: int32
  mi_leashRange :: int32

record MonsterSpawnData =
  sp_groupId :: string
  sp_anchor :: Vec2Int
  sp_offsets :: "Vec2Int list"
  sp_monsters :: "MonsterInfo list"

record RoomSpawnConfig =
  rs_roomId :: string
  rs_spawns :: "MonsterSpawnData list"

record MonsterTemplateData =
  mt_templateId :: int32
  mt_name :: string
  mt_maxHp :: int32
  mt_attack :: int32
  mt_defence :: int32
  mt_exp :: int32

record LevelData =
  ld_level :: int32
  ld_requiredExp :: int32
  ld_maxHp :: int32
  ld_attack :: int32
  ld_defence :: int32

record ItemTemplateData =
  it_itemId :: int32
  it_name :: string
  it_type :: string
  it_value :: int32
  it_maxStack :: int32

record MonsterDropData =
  md_templateId :: int32
  md_itemId :: int32
  md_dropRate :: int32

section \<open>The manager\<close>

record RoomDataManager =
  roomConfigs :: "string \<rightharpoonup> RoomConfigData"
  spawnConfigs :: "string \<rightharpoonup> RoomSpawnConfig"
  monsterTemplates :: "int32 \<rightharpoonup> MonsterTemplateData"
  levelData :: "int32 \<rightharpoonup> LevelData"
  itemTemplates :: "int32 \<rightharpoonup> ItemTemplateData"
  monsterDrops :: "int32 \<rightharpoonup> MonsterDropData list"

definition RoomDataManager_empty :: RoomDataManager where
  "RoomDataManager_empty = \<lparr>roomConfigs = Map.empty, spawnConfigs = Map.empty,
     monsterTemplates = Map.empty, levelData = Map.empty, itemTemplates = Map.empty,
     monsterDrops = Map.empty\<rparr>"

definition GetRoomConfig :: "RoomDataManager \<Rightarrow> string \<Rightarrow> RoomConfigData option" where
  "GetRoomConfig D roomId = roomConfigs D roomId"

definition GetSpawnConfig :: "RoomDataManager \<Rightarrow> string \<Rightarrow> RoomSpawnConfig option" where
  "GetSpawnConfig D roomId = spawnConfigs D roomId"

definition GetMonsterTemplate :: "RoomDataManager \<Rightarrow> int32 \<Rightarrow> MonsterTemplateData option" where
  "GetMonsterTemplate D templateId = monsterTemplates D templateId"

definition GetLevelData :: "RoomDataManager \<Rightarrow> int32 \<Rightarrow> LevelData option" where
  "GetLevelData D level = levelData D level"

definition GetItemTemplate :: "RoomDataManager \<Rightarrow> int32 \<Rightarrow> ItemTemplateData option" where
  "GetItemTemplate D itemId = itemTemplates D itemId"

definition GetMonsterDrops :: "RoomDataManager \<Rightarrow> int32 \<Rightarrow> MonsterDropData list option" where
  "GetMonsterDrops D templateId = monsterDrops D templateId"

end
