(* ===== verification/Objects.thy ===== *)
theory Objects
  imports Protocol GameData
begin

text \<open>
  \<open>GameObject\<close> and its subclasses as extensible records, mirroring the C++ inheritance:
  an operation of \<open>GameObject\<close> takes any extension. A reference to an object is its object id:
  ids come from one atomic counter and an object never changes its id. An operation returns the
  updated object and the effects it has, in order.
\<close>

section \<open>GameObject\<close>

record GameObject =
  info :: ObjectInfo
  in_room :: "RoomRef option"
  moveEndTick :: uint64

definition GetCellPos :: "'a GameObject_scheme \<Rightarrow> Vec2Int" where
  "GetCellPos obj = Vec (i_posx (info obj)) (i_posy (info obj))"

definition BroadcastMove :: "'a GameObject_scheme \<Rightarrow> effect list" where
  "BroadcastMove obj = (case in_room obj of None \<Rightarrow> [] | Some r \<Rightarrow> [ToRoom r (S_Move (info obj))])"

definition IsMoving :: "'a GameObject_scheme \<Rightarrow> bool" where
  "IsMoving obj \<longleftrightarrow> moveEndTick obj \<noteq> 0"

definition StartMove :: "uint64 \<Rightarrow> uint64 \<Rightarrow> 'a GameObject_scheme \<Rightarrow> 'a GameObject_scheme" where
  "StartMove now durationMs obj = obj\<lparr>moveEndTick := now + durationMs\<rparr>"

definition StopMove :: "'a GameObject_scheme \<Rightarrow> 'a GameObject_scheme" where
  "StopMove obj = obj\<lparr>moveEndTick := 0\<rparr>"

definition set_state :: "ObjectState \<Rightarrow> 'a GameObject_scheme \<Rightarrow> 'a GameObject_scheme" where
  "set_state st obj = obj\<lparr>info := (info obj)\<lparr>i_state := st\<rparr>\<rparr>"

definition set_dir :: "int32 \<Rightarrow> 'a GameObject_scheme \<Rightarrow> 'a GameObject_scheme" where
  "set_dir d obj = obj\<lparr>info := (info obj)\<lparr>i_dir := d\<rparr>\<rparr>"

definition set_pos :: "Vec2Int \<Rightarrow> 'a GameObject_scheme \<Rightarrow> 'a GameObject_scheme" where
  "set_pos p obj = obj\<lparr>info := (info obj)\<lparr>i_posx := vx p, i_posy := vy p\<rparr>\<rparr>"

definition GameObject_Update :: "uint64 \<Rightarrow> 'a GameObject_scheme \<Rightarrow> 'a GameObject_scheme \<times> effect list" where
  "GameObject_Update now obj =
     (if i_state (info obj) = MOVE \<and> moveEndTick obj \<noteq> 0 then
        (if now \<ge> moveEndTick obj then
           (let obj' = set_state IDLE (obj\<lparr>moveEndTick := 0\<rparr>) in (obj', BroadcastMove obj'))
         else (obj, []))
      else (obj, []))"

definition SetState :: "ObjectState \<Rightarrow> bool \<Rightarrow> 'a GameObject_scheme \<Rightarrow> 'a GameObject_scheme \<times> effect list" where
  "SetState st broadcast obj =
     (if i_state (info obj) = st then (obj, [])
      else let obj' = set_state st obj in (obj', if broadcast then BroadcastMove obj' else []))"

definition SetDir :: "int32 \<Rightarrow> bool \<Rightarrow> 'a GameObject_scheme \<Rightarrow> 'a GameObject_scheme \<times> effect list" where
  "SetDir d broadcast obj =
     (let obj' = set_dir d obj in (obj', if broadcast then BroadcastMove obj' else []))"

definition SetCellPos :: "Vec2Int \<Rightarrow> bool \<Rightarrow> 'a GameObject_scheme \<Rightarrow> 'a GameObject_scheme \<times> effect list" where
  "SetCellPos p broadcast obj =
     (let obj' = set_pos p obj in (obj', if broadcast then BroadcastMove obj' else []))"

definition GetLookAtDir :: "Vec2Int \<Rightarrow> 'a GameObject_scheme \<Rightarrow> int32" where
  "GetLookAtDir cellPos obj =
     (let d = cellPos - GetCellPos obj
      in if vx d > 0 then DIR_RIGHT
         else if vx d < 0 then DIR_LEFT
         else if vy d > 0 then DIR_DOWN
         else DIR_UP)"

definition GetFrontCellPos :: "'a GameObject_scheme \<Rightarrow> Vec2Int" where
  "GetFrontCellPos obj =
     (let pos = GetCellPos obj; d = i_dir (info obj)
      in if d = DIR_DOWN then pos + Vec 0 1
         else if d = DIR_LEFT then pos + Vec (-1) 0
         else if d = DIR_RIGHT then pos + Vec 1 0
         else if d = DIR_UP then pos + Vec 0 (-1)
         else pos)"

lemma info_simps [simp]:
  "info (set_state st obj) = (info obj)\<lparr>i_state := st\<rparr>"
  "info (set_dir d obj) = (info obj)\<lparr>i_dir := d\<rparr>"
  "info (set_pos p obj) = (info obj)\<lparr>i_posx := vx p, i_posy := vy p\<rparr>"
  "in_room (set_state st obj) = in_room obj" "in_room (set_dir d obj) = in_room obj"
  "in_room (set_pos p obj) = in_room obj"
  "moveEndTick (set_state st obj) = moveEndTick obj" "moveEndTick (set_dir d obj) = moveEndTick obj"
  "moveEndTick (set_pos p obj) = moveEndTick obj"
  by (simp_all add: set_state_def set_dir_def set_pos_def)

lemma GetCellPos_simps [simp]:
  "GetCellPos (set_state st obj) = GetCellPos obj" "GetCellPos (set_dir d obj) = GetCellPos obj"
  "GetCellPos (set_pos p obj) = p"
  by (simp_all add: GetCellPos_def)

text \<open>Turning towards a neighbour makes it the front cell.\<close>

lemma front_of_look_at:
  assumes "manhattan (p - GetCellPos obj) = 1"
  shows "GetFrontCellPos (set_dir (GetLookAtDir p obj) obj) = p"
proof -
  obtain a b where p: "p = Vec a b" by (cases p)
  obtain x y where q: "GetCellPos obj = Vec x y" by (cases "GetCellPos obj")
  from assms have "\<bar>a - x\<bar> + \<bar>b - y\<bar> = 1" by (simp add: manhattan_def p q)
  then show ?thesis
    by (auto simp: GetFrontCellPos_def GetLookAtDir_def Let_def p q)
qed

lemma front_is_adjacent:
  "DIR_TYPE_IsValid (i_dir (info obj)) \<Longrightarrow> manhattan (GetFrontCellPos obj - GetCellPos obj) = 1"
  by (cases "GetCellPos obj")
    (auto simp: GetFrontCellPos_def Let_def DIR_TYPE_IsValid_def manhattan_def)

section \<open>Creature\<close>

definition OnDamaged :: "int32 \<Rightarrow> 'a GameObject_scheme \<Rightarrow> bool \<times> 'a GameObject_scheme" where
  "OnDamaged damage obj =
     (if damage \<le> 0 then (False, obj)
      else (True, obj\<lparr>info := (info obj)\<lparr>i_hp := max 0 (wrap32 (i_hp (info obj) - damage))\<rparr>\<rparr>))"

definition hit_damage :: "int32 \<Rightarrow> int32 \<Rightarrow> int32" where
  "hit_damage attack defence = max 1 (wrap32 (attack - defence))"

lemma hit_damage_pos [simp]: "1 \<le> hit_damage a d" "0 < hit_damage a d"
  by (simp_all add: hit_damage_def)

lemma OnDamaged_hp:
  assumes "0 \<le> i_hp (info obj)" "in32 (i_hp (info obj))" "in32 d" "0 < d"
  shows "i_hp (info (snd (OnDamaged d obj))) = max 0 (i_hp (info obj) - d)"
  using assms in32_diff_nonneg [of "i_hp (info obj)" d] by (simp add: OnDamaged_def)

section \<open>Subclasses\<close>

record InventorySlot =
  itemId :: int32
  count :: int32

definition empty_slot :: InventorySlot where
  "empty_slot = \<lparr>itemId = 0, count = 0\<rparr>"

definition INVENTORY_SIZE :: nat where
  "INVENTORY_SIZE = 27"

record Player = GameObject +
  level :: int32
  exp :: int32
  storage :: "InventorySlot list"
  equipWeapon :: InventorySlot
  equipArmor :: InventorySlot
  equipPotion :: InventorySlot
  psession :: "SessionId option"

record Monster = GameObject +
  waitUntil :: uint64
  target :: "uint64 option"
  homePos :: Vec2Int
  aggroRange :: int32
  leashRange :: int32
  templateId :: int32

record Arrow = GameObject +
  ownerId :: uint64
  expireTick :: uint64
  pwaitUntil :: uint64
  moveIntervalMs :: uint64
  lifeTimeMs :: uint64
  spawned :: bool

definition Monster_new :: "uint64 \<Rightarrow> Monster" where
  "Monster_new oid =
     \<lparr>info = ObjectInfo_default\<lparr>i_objectid := oid, i_objecttype := OBJECT_TYPE_MONSTER,
        i_name := ''MonsterName'', i_hp := 50, i_maxhp := 50, i_attack := 7, i_defence := 0\<rparr>,
      in_room = None, moveEndTick = 0,
      waitUntil = 0, target = None, homePos = Vec (-1) (-1),
      aggroRange = 8, leashRange = 10, templateId = 1001\<rparr>"

definition SetTemplateId :: "int32 \<Rightarrow> Monster \<Rightarrow> Monster" where
  "SetTemplateId tid m =
     m\<lparr>templateId := tid, info := (info m)\<lparr>i_extra := ExtraMonster tid\<rparr>\<rparr>"

definition Arrow_new :: "uint64 \<Rightarrow> Arrow" where
  "Arrow_new oid =
     \<lparr>info = ObjectInfo_default\<lparr>i_objectid := oid, i_objecttype := OBJECT_TYPE_PROJECTILE,
        i_state := IDLE\<rparr>,
      in_room = None, moveEndTick = 0,
      ownerId = 0, expireTick = 0, pwaitUntil = 0, moveIntervalMs = 80, lifeTimeMs = 1500,
      spawned = False\<rparr>"

end
