(* ===== verification/PlayerData.thy ===== *)
theory PlayerData
  imports Objects
begin

text \<open>
  \<open>Player\<close>: experience and levels, the inventory of 27 slots with its three equipment slots, and
  the conversion to and from \<open>PlayerSaveData\<close>. Every operation takes the game data tables and
  returns the player and its effects in the order the code has them.
\<close>

section \<open>Levels and statistics\<close>

definition MAX_LEVEL :: int32 where
  "MAX_LEVEL = 30"

definition GetMaxExp :: "RoomDataManager \<Rightarrow> Player \<Rightarrow> int32" where
  "GetMaxExp D p = (case GetLevelData D (wrap32 (level p + 1)) of
     Some data \<Rightarrow> ld_requiredExp data | None \<Rightarrow> 0)"

definition set_extra :: "RoomDataManager \<Rightarrow> Player \<Rightarrow> Player" where
  "set_extra D p = p\<lparr>info := (info p)\<lparr>i_extra :=
     ExtraPlayer \<lparr>pe_level = level p, pe_exp = exp p, pe_maxexp = GetMaxExp D p\<rparr>\<rparr>\<rparr>"

definition Player_new :: "RoomDataManager \<Rightarrow> uint64 \<Rightarrow> Player" where
  "Player_new D oid =
     (let (h, a, d) = (case GetLevelData D 1 of
            Some data \<Rightarrow> (ld_maxHp data, ld_attack data, ld_defence data)
          | None \<Rightarrow> (100, 20, 5))
      in set_extra D
        \<lparr>info = ObjectInfo_default\<lparr>i_objectid := oid, i_objecttype := OBJECT_TYPE_PLAYER,
            i_hp := h, i_maxhp := h, i_attack := a, i_defence := d\<rparr>,
         in_room = None, moveEndTick = 0,
         level = 1, exp = 0, storage = replicate INVENTORY_SIZE empty_slot,
         equipWeapon = empty_slot, equipArmor = empty_slot, equipPotion = empty_slot,
         psession = None\<rparr>)"

definition item_value :: "RoomDataManager \<Rightarrow> InventorySlot \<Rightarrow> int32" where
  "item_value D sl =
     (if itemId sl > 0 then (case GetItemTemplate D (itemId sl) of Some it \<Rightarrow> it_value it | None \<Rightarrow> 0)
      else 0)"

definition RecalcStats :: "RoomDataManager \<Rightarrow> Player \<Rightarrow> Player" where
  "RecalcStats D p =
     (case GetLevelData D (level p) of
        None \<Rightarrow> p
      | Some data \<Rightarrow>
          p\<lparr>info := (info p)
              \<lparr>i_attack := wrap32 (ld_attack data + item_value D (equipWeapon p)),
               i_defence := wrap32 (ld_defence data + item_value D (equipArmor p))\<rparr>\<rparr>)"

definition ApplyLevelStats :: "RoomDataManager \<Rightarrow> LevelData \<Rightarrow> Player \<Rightarrow> Player" where
  "ApplyLevelStats D data p = RecalcStats D (p\<lparr>info := (info p)\<lparr>i_maxhp := ld_maxHp data\<rparr>\<rparr>)"

text \<open>
  The increment runs below level 30 only, so it does not wrap. The \<open>zadd\<close> is not guarded by
  \<open>IsConnected()\<close>, unlike the other uses of Redis.
\<close>

definition ProcessLevelUp :: "RoomDataManager \<Rightarrow> Player \<Rightarrow> Player \<times> effect list" where
  "ProcessLevelUp D p0 =
     (let p1 = p0\<lparr>level := level p0 + 1\<rparr>;
          p2 = (case GetLevelData D (level p1) of Some data \<Rightarrow> ApplyLevelStats D data p1 | None \<Rightarrow> p1);
          p3 = p2\<lparr>info := (info p2)\<lparr>i_hp := i_maxhp (info p2)\<rparr>\<rparr>;
          p = set_extra D p3
      in (p, RedisZadd ''rank:level'' (i_name (info p)) (level p) #
             (case in_room p of None \<Rightarrow> []
              | Some r \<Rightarrow> [ToRoom r (S_LevelUp (i_objectid (info p)) (level p) (i_maxhp (info p))
                   (i_attack (info p)) (i_defence (info p)) (GetMaxExp D p))])))"

text \<open>The \<open>while (_level < 30)\<close> loop of \<open>GainExp\<close>.\<close>

lemma level_ProcessLevelUp [simp]: "level (fst (ProcessLevelUp D p)) = level p + 1"
  by (simp add: ProcessLevelUp_def Let_def set_extra_def ApplyLevelStats_def RecalcStats_def
      split: option.split)

function LevelUp_loop :: "RoomDataManager \<Rightarrow> Player \<Rightarrow> effect list \<Rightarrow> Player \<times> effect list" where
  "LevelUp_loop D p effs =
     (if \<not> level p < MAX_LEVEL then (p, effs)
      else let requiredExp = GetMaxExp D p
           in if requiredExp \<le> 0 \<or> exp p < requiredExp then (p, effs)
              else let up = ProcessLevelUp D (p\<lparr>exp := exp p - requiredExp\<rparr>)
                   in LevelUp_loop D (fst up) (effs @ snd up))"
  by pat_completeness auto
termination
  by (relation "measure (\<lambda>(D, p, effs). nat (MAX_LEVEL - level p))") auto

declare LevelUp_loop.simps [simp del]

definition send :: "Player \<Rightarrow> spacket \<Rightarrow> effect list" where
  "send p pkt = (case psession p of None \<Rightarrow> [] | Some s \<Rightarrow> [ToSession s pkt])"

definition GainExp :: "RoomDataManager \<Rightarrow> int32 \<Rightarrow> Player \<Rightarrow> Player \<times> effect list" where
  "GainExp D amount p0 =
     (if amount \<le> 0 then (p0, [])
      else if level p0 \<ge> MAX_LEVEL then (p0, [])
      else let (p, effs) = LevelUp_loop D (p0\<lparr>exp := wrap32 (exp p0 + amount)\<rparr>) [];
               p' = p\<lparr>info := (info p)\<lparr>i_extra := ExtraPlayer
                      \<lparr>pe_level = (case i_extra (info p) of ExtraPlayer e \<Rightarrow> pe_level e | _ \<Rightarrow> 0),
                       pe_exp = exp p, pe_maxexp = GetMaxExp D p\<rparr>\<rparr>\<rparr>
           in (p', effs @ send p (S_GainExp (i_objectid (info p)) amount (exp p) (GetMaxExp D p))))"

section \<open>Inventory\<close>

fun find_slot :: "(InventorySlot \<Rightarrow> bool) \<Rightarrow> InventorySlot list \<Rightarrow> nat option" where
  "find_slot P [] = None"
| "find_slot P (x # xs) = (if P x then Some 0 else map_option Suc (find_slot P xs))"

definition FindEmptySlot :: "Player \<Rightarrow> int32" where
  "FindEmptySlot p = (case find_slot (\<lambda>sl. itemId sl = 0) (storage p) of Some i \<Rightarrow> int i | None \<Rightarrow> -1)"

definition AddItem :: "RoomDataManager \<Rightarrow> int32 \<Rightarrow> int32 \<Rightarrow> Player \<Rightarrow> bool \<times> Player \<times> effect list" where
  "AddItem D iid cnt p =
     (case GetItemTemplate D iid of
        None \<Rightarrow> (False, p, [])
      | Some tmpl \<Rightarrow>
         (case (if it_maxStack tmpl > 1
                then find_slot (\<lambda>sl. itemId sl = iid \<and> count sl < it_maxStack tmpl) (storage p)
                else None) of
            Some i \<Rightarrow>
              let c = min (wrap32 (count (storage p ! i) + cnt)) (it_maxStack tmpl);
                  p' = p\<lparr>storage := (storage p)[i := (storage p ! i)\<lparr>count := c\<rparr>]\<rparr>
              in (True, p', send p (S_AddItem iid (int i) c))
          | None \<Rightarrow>
              let slot = FindEmptySlot p
              in if slot < 0 then (False, p, [])
                 else (True, p\<lparr>storage := (storage p)[nat slot := \<lparr>itemId = iid, count = cnt\<rparr>]\<rparr>,
                       send p (S_AddItem iid slot cnt))))"

text \<open>The equipment slot a pointer in the code points to.\<close>

datatype EquipSlot = WeaponSlot | ArmorSlot | PotionSlot

fun get_equip :: "EquipSlot \<Rightarrow> Player \<Rightarrow> InventorySlot" where
  "get_equip WeaponSlot p = equipWeapon p"
| "get_equip ArmorSlot p = equipArmor p"
| "get_equip PotionSlot p = equipPotion p"

fun set_equip :: "EquipSlot \<Rightarrow> InventorySlot \<Rightarrow> Player \<Rightarrow> Player" where
  "set_equip WeaponSlot sl p = p\<lparr>equipWeapon := sl\<rparr>"
| "set_equip ArmorSlot sl p = p\<lparr>equipArmor := sl\<rparr>"
| "set_equip PotionSlot sl p = p\<lparr>equipPotion := sl\<rparr>"

fun equip_type :: "EquipSlot \<Rightarrow> int32" where
  "equip_type WeaponSlot = 0"
| "equip_type ArmorSlot = 1"
| "equip_type PotionSlot = 2"

definition equip_of_item :: "string \<Rightarrow> EquipSlot option" where
  "equip_of_item ty =
     (if ty = ''weapon'' then Some WeaponSlot
      else if ty = ''armor'' then Some ArmorSlot
      else if ty = ''consumable'' then Some PotionSlot
      else None)"

definition equip_of_type :: "int32 \<Rightarrow> EquipSlot option" where
  "equip_of_type t =
     (if t = 0 then Some WeaponSlot else if t = 1 then Some ArmorSlot
      else if t = 2 then Some PotionSlot else None)"

definition EquipItem :: "RoomDataManager \<Rightarrow> int32 \<Rightarrow> Player \<Rightarrow> Player \<times> effect list" where
  "EquipItem D slot p =
     (if slot < 0 \<or> slot \<ge> int INVENTORY_SIZE then (p, [])
      else if itemId (storage p ! nat slot) = 0 then (p, [])
      else case GetItemTemplate D (itemId (storage p ! nat slot)) of
        None \<Rightarrow> (p, [])
      | Some tmpl \<Rightarrow>
          (case equip_of_item (it_type tmpl) of
             None \<Rightarrow> (p, [])
           | Some e \<Rightarrow>
               let old = get_equip e p;
                   p1 = set_equip e (storage p ! nat slot) p;
                   p2 = p1\<lparr>storage := (storage p1)[nat slot := old]\<rparr>;
                   p3 = RecalcStats D p2;
                   st = storage p3 ! nat slot; eq = get_equip e p3
               in (p3, send p3 (S_EquipItem (equip_type e) slot (itemId st) (count st)
                      (itemId eq) (count eq) (i_attack (info p3)) (i_defence (info p3))))))"

definition UnequipItem :: "RoomDataManager \<Rightarrow> int32 \<Rightarrow> Player \<Rightarrow> Player \<times> effect list" where
  "UnequipItem D t p =
     (case equip_of_type t of
        None \<Rightarrow> (p, [])
      | Some e \<Rightarrow>
          if itemId (get_equip e p) = 0 then (p, [])
          else let slot = FindEmptySlot p
               in if slot < 0 then (p, [])
                  else let p1 = p\<lparr>storage := (storage p)[nat slot := get_equip e p]\<rparr>;
                           p2 = RecalcStats D (set_equip e empty_slot p1)
                       in (p2, send p2 (S_UnequipItem t slot (i_attack (info p2)) (i_defence (info p2)))))"

text \<open>\<open>UseItem(-1)\<close> uses the equipped potion, \<open>UseItem(i)\<close> a storage slot.\<close>

definition slot_at :: "int32 \<Rightarrow> Player \<Rightarrow> InventorySlot" where
  "slot_at i p = (if i = -1 then equipPotion p else storage p ! nat i)"

definition put_slot :: "int32 \<Rightarrow> InventorySlot \<Rightarrow> Player \<Rightarrow> Player" where
  "put_slot i sl p = (if i = -1 then p\<lparr>equipPotion := sl\<rparr> else p\<lparr>storage := (storage p)[nat i := sl]\<rparr>)"

definition UseItem :: "RoomDataManager \<Rightarrow> int32 \<Rightarrow> Player \<Rightarrow> Player \<times> effect list" where
  "UseItem D slot p =
     (if \<not> (slot = -1 \<or> 0 \<le> slot \<and> slot < int INVENTORY_SIZE) then (p, [])
      else let equipType = (if slot = -1 then 2 else -1); sl = slot_at slot p
           in if itemId sl = 0 then (p, [])
              else case GetItemTemplate D (itemId sl) of
                None \<Rightarrow> (p, [])
              | Some tmpl \<Rightarrow>
                  if it_type tmpl \<noteq> ''consumable'' then (p, [])
                  else let newHp = min (wrap32 (i_hp (info p) + it_value tmpl)) (i_maxhp (info p));
                           p1 = p\<lparr>info := (info p)\<lparr>i_hp := newHp\<rparr>\<rparr>;
                           c = wrap32 (count sl - 1);
                           sl' = (if c \<le> 0 then empty_slot else sl\<lparr>count := c\<rparr>);
                           p2 = put_slot slot sl' p1
                       in (p2, send p2 (S_UseItem equipType (count sl') newHp)))"

fun item_infos :: "int32 \<Rightarrow> InventorySlot list \<Rightarrow> ItemInfo list" where
  "item_infos i [] = []"
| "item_infos i (sl # sls) =
     (if itemId sl = 0 then item_infos (i + 1) sls
      else \<lparr>ii_itemid = itemId sl, ii_count = count sl, ii_slot = i\<rparr> # item_infos (i + 1) sls)"

definition equip_info :: "InventorySlot \<Rightarrow> ItemInfo" where
  "equip_info sl = \<lparr>ii_itemid = itemId sl, ii_count = count sl, ii_slot = 0\<rparr>"

definition SendInventoryData :: "Player \<Rightarrow> effect list" where
  "SendInventoryData p =
     send p (S_InventoryData (item_infos 0 (storage p)) (equip_info (equipWeapon p))
        (equip_info (equipArmor p)) (equip_info (equipPotion p)))"

section \<open>Save data\<close>

record PlayerSaveData =
  sd_name :: string
  sd_level :: int32
  sd_exp :: int32
  sd_hp :: int32
  sd_storage :: "InventorySlot list"
  sd_equipWeapon :: InventorySlot
  sd_equipArmor :: InventorySlot
  sd_equipPotion :: InventorySlot

definition PlayerSaveData_default :: PlayerSaveData where
  "PlayerSaveData_default = \<lparr>sd_name = '''', sd_level = 1, sd_exp = 0, sd_hp = 100,
     sd_storage = replicate INVENTORY_SIZE empty_slot, sd_equipWeapon = empty_slot,
     sd_equipArmor = empty_slot, sd_equipPotion = empty_slot\<rparr>"

definition ApplyFromSaveData :: "RoomDataManager \<Rightarrow> PlayerSaveData \<Rightarrow> Player \<Rightarrow> Player" where
  "ApplyFromSaveData D data p =
     (let p1 = p\<lparr>info := (info p)\<lparr>i_name := sd_name data\<rparr>, level := sd_level data, exp := sd_exp data\<rparr>;
          p2 = (case GetLevelData D (level p1) of
                  None \<Rightarrow> p1
                | Some ld \<Rightarrow> p1\<lparr>info := (info p1)\<lparr>i_maxhp := ld_maxHp ld, i_attack := ld_attack ld,
                      i_defence := ld_defence ld\<rparr>\<rparr>);
          p3 = p2\<lparr>info := (info p2)\<lparr>i_hp := min (sd_hp data) (i_maxhp (info p2))\<rparr>,
                  storage := sd_storage data, equipWeapon := sd_equipWeapon data,
                  equipArmor := sd_equipArmor data, equipPotion := sd_equipPotion data\<rparr>
      in set_extra D (RecalcStats D p3))"

definition ToSaveData :: "Player \<Rightarrow> PlayerSaveData" where
  "ToSaveData p = \<lparr>sd_name = i_name (info p), sd_level = level p, sd_exp = exp p,
     sd_hp = i_hp (info p), sd_storage = storage p, sd_equipWeapon = equipWeapon p,
     sd_equipArmor = equipArmor p, sd_equipPotion = equipPotion p\<rparr>"

end
