(* ===== verification/World.thy ===== *)
theory World
  imports Tilemap PathFinding Party PlayerData
begin

text \<open>
  The state of the game server: the rooms, the objects they refer to, the sessions, the parties
  and what the process has sent so far. Objects live in one table per class and are referred to by id;
  a \<open>weak_ptr\<close> to a player is its id together with the test that somebody still owns the player.
  \<open>GetTickCount64()\<close> and \<open>rand()\<close> are arbitrary sequences that the state reads through. A fault
  is a state the C++ program has no defined behaviour in: the model records the first one and
  sends nothing afterwards.
\<close>

section \<open>State\<close>

record RespawnRequest =
  rq_when :: uint64
  rq_homePos :: Vec2Int
  rq_templateId :: int32
  rq_level :: int32
  rq_aggroRange :: int32
  rq_leashRange :: int32

text \<open>The closures pushed to a room's queue, with what they capture.\<close>

datatype job =
    JobEnter SessionId uint64
  | JobLeave SessionId
  | JobPacket SessionId cpacket

text \<open>\<open>running\<close> is the local queue \<open>Update\<close> swaps the jobs into while it runs them.\<close>

record GameRoom =
  players :: "uint64 list"
  monsters :: "uint64 list"
  projectiles :: "uint64 list"
  tilemap :: Tilemap
  fieldId :: FieldId
  channel :: int32
  instanceId :: uint64
  jobs :: "job list"
  running :: "job list"
  config :: "RoomConfigData option"
  spawnConfig :: "RoomSpawnConfig option"
  respawnQueue :: "RespawnRequest list"
  nextTick :: uint64

definition GameRoom_new :: GameRoom where
  "GameRoom_new = \<lparr>players = [], monsters = [], projectiles = [], tilemap = Tilemap_new, fieldId = Town,
     channel = 0, instanceId = 0, jobs = [], running = [], config = None, spawnConfig = None,
     respawnQueue = [], nextTick = 0\<rparr>"

record GameSession =
  gs_room :: "RoomRef option"
  gs_player :: "uint64 option"
  gs_account :: int

definition GameSession_new :: GameSession where
  "GameSession_new = \<lparr>gs_room = None, gs_player = None, gs_account = 0\<rparr>"

datatype out_item =
    Packet SessionId spacket
  | RedisOut effect
  | ChatOut RelayChat

record World =
  gdata :: RoomDataManager
  mapFiles :: "string \<Rightarrow> string option"
  rooms :: "RoomRef \<rightharpoonup> GameRoom"
  roomRefs :: "RoomRef list"
  staticRooms :: "RoomRef list"
  dungeonInstances :: "uint64 list"
  pendingRemoveDungeon :: "uint64 list"
  instanceIdGen :: uint64
  iteratingDungeons :: bool
  rehashes :: "nat \<Rightarrow> bool"
  wplayers :: "uint64 \<rightharpoonup> Player"
  wmonsters :: "uint64 \<rightharpoonup> Monster"
  warrows :: "uint64 \<rightharpoonup> Arrow"
  idGenerator :: uint64
  wsessions :: "SessionId \<rightharpoonup> GameSession"
  party :: PartyManager
  clock :: "nat \<Rightarrow> uint64"
  clockPos :: nat
  dice :: "nat \<Rightarrow> int32"
  dicePos :: nat
  redisConnected :: bool
  out :: "out_item list"
  faulted :: "fault option"

section \<open>Reading and writing\<close>

definition the_room :: "RoomRef \<Rightarrow> World \<Rightarrow> GameRoom" where
  "the_room r w = (case rooms w r of Some g \<Rightarrow> g | None \<Rightarrow> GameRoom_new)"

definition upd_room :: "RoomRef \<Rightarrow> (GameRoom \<Rightarrow> GameRoom) \<Rightarrow> World \<Rightarrow> World" where
  "upd_room r f w = w\<lparr>rooms := (rooms w)(r \<mapsto> f (the_room r w))\<rparr>"

definition the_player :: "uint64 \<Rightarrow> World \<Rightarrow> Player" where
  "the_player pid w = the (wplayers w pid)"

definition the_monster :: "uint64 \<Rightarrow> World \<Rightarrow> Monster" where
  "the_monster mid w = the (wmonsters w mid)"

definition the_arrow :: "uint64 \<Rightarrow> World \<Rightarrow> Arrow" where
  "the_arrow aid w = the (warrows w aid)"

definition put_player :: "uint64 \<Rightarrow> Player \<Rightarrow> World \<Rightarrow> World" where
  "put_player pid p w = w\<lparr>wplayers := (wplayers w)(pid \<mapsto> p)\<rparr>"

definition put_monster :: "uint64 \<Rightarrow> Monster \<Rightarrow> World \<Rightarrow> World" where
  "put_monster mid m w = w\<lparr>wmonsters := (wmonsters w)(mid \<mapsto> m)\<rparr>"

definition put_arrow :: "uint64 \<Rightarrow> Arrow \<Rightarrow> World \<Rightarrow> World" where
  "put_arrow aid a w = w\<lparr>warrows := (warrows w)(aid \<mapsto> a)\<rparr>"

definition the_session :: "SessionId \<Rightarrow> World \<Rightarrow> GameSession" where
  "the_session s w = (case wsessions w s of Some g \<Rightarrow> g | None \<Rightarrow> GameSession_new)"

definition put_session :: "SessionId \<Rightarrow> GameSession \<Rightarrow> World \<Rightarrow> World" where
  "put_session s g w = w\<lparr>wsessions := (wsessions w)(s \<mapsto> g)\<rparr>"

definition raise :: "fault \<Rightarrow> World \<Rightarrow> World" where
  "raise f w = (if faulted w = None then w\<lparr>faulted := Some f\<rparr> else w)"

definition tick :: "World \<Rightarrow> uint64 \<times> World" where
  "tick w = (clock w (clockPos w), w\<lparr>clockPos := clockPos w + 1\<rparr>)"

definition roll :: "World \<Rightarrow> int32 \<times> World" where
  "roll w = (dice w (dicePos w), w\<lparr>dicePos := dicePos w + 1\<rparr>)"

section \<open>Output\<close>

definition send_packet :: "SessionId \<Rightarrow> spacket \<Rightarrow> World \<Rightarrow> World" where
  "send_packet s p w = (if faulted w = None then w\<lparr>out := out w @ [Packet s p]\<rparr> else w)"

text \<open>\<open>GameRoom::Broadcast\<close>: the session pointer of every player in the room is dereferenced.\<close>

definition Broadcast :: "RoomRef \<Rightarrow> spacket \<Rightarrow> World \<Rightarrow> World" where
  "Broadcast r pkt w =
     fold (\<lambda>pid w. case psession (the_player pid w) of
              None \<Rightarrow> raise NullDereference w
            | Some s \<Rightarrow> send_packet s pkt w) (players (the_room r w)) w"

definition redis :: "effect \<Rightarrow> World \<Rightarrow> World" where
  "redis e w =
     (if \<not> redisConnected w then raise RedisException w
      else if faulted w = None then w\<lparr>out := out w @ [RedisOut e]\<rparr> else w)"

fun emit1 :: "effect \<Rightarrow> World \<Rightarrow> World" where
  "emit1 (ToSession s p) w = send_packet s p w"
| "emit1 (ToRoom r p) w = Broadcast r p w"
| "emit1 (RedisZadd k n v) w = redis (RedisZadd k n v) w"
| "emit1 (RedisSet k v) w = redis (RedisSet k v) w"
| "emit1 (RedisDel k) w = redis (RedisDel k) w"
| "emit1 (Fault f) w = raise f w"

definition emit :: "effect list \<Rightarrow> World \<Rightarrow> World" where
  "emit effs w = fold emit1 effs w"

definition run_player :: "uint64 \<Rightarrow> (Player \<Rightarrow> Player \<times> effect list) \<Rightarrow> World \<Rightarrow> World" where
  "run_player pid f w = (case f (the_player pid w) of (p, effs) \<Rightarrow> emit effs (put_player pid p w))"

definition run_monster :: "uint64 \<Rightarrow> (Monster \<Rightarrow> Monster \<times> effect list) \<Rightarrow> World \<Rightarrow> World" where
  "run_monster mid f w = (case f (the_monster mid w) of (m, effs) \<Rightarrow> emit effs (put_monster mid m w))"

definition run_arrow :: "uint64 \<Rightarrow> (Arrow \<Rightarrow> Arrow \<times> effect list) \<Rightarrow> World \<Rightarrow> World" where
  "run_arrow aid f w = (case f (the_arrow aid w) of (a, effs) \<Rightarrow> emit effs (put_arrow aid a w))"

section \<open>Weak references\<close>

text \<open>Everything that owns a player: the rooms' maps and the queued closures.\<close>

definition entering :: "job list \<Rightarrow> uint64 list" where
  "entering js = concat (map (\<lambda>j. case j of JobEnter s p \<Rightarrow> [p] | _ \<Rightarrow> []) js)"

definition owned_players :: "GameRoom \<Rightarrow> uint64 list" where
  "owned_players g = players g @ entering (running g @ jobs g)"

definition alive_players :: "World \<Rightarrow> uint64 list" where
  "alive_players w = concat (map (\<lambda>r. owned_players (the_room r w)) (roomRefs w))"

definition player_alive :: "uint64 \<Rightarrow> World \<Rightarrow> bool" where
  "player_alive pid w \<longleftrightarrow> pid \<in> set (alive_players w)"

text \<open>
  A room is owned by the manager, by the players whose \<open>room\<close> it is, and by the closures in its own
  queue that capture it; those of the three item packets do not.
\<close>

fun captures_room :: "job \<Rightarrow> bool" where
  "captures_room (JobPacket s (C_EquipItem i)) = False"
| "captures_room (JobPacket s (C_UnequipItem i)) = False"
| "captures_room (JobPacket s (C_UseItem i)) = False"
| "captures_room j = True"

definition room_alive :: "RoomRef \<Rightarrow> World \<Rightarrow> bool" where
  "room_alive r w \<longleftrightarrow> r \<in> set (staticRooms w) \<or> (case r of DungeonRoom i \<Rightarrow> i \<in> set (dungeonInstances w) | _ \<Rightarrow> False)
     \<or> list_ex captures_room (running (the_room r w) @ jobs (the_room r w))
     \<or> list_ex (\<lambda>pid. in_room (the_player pid w) = Some r) (alive_players w)"

text \<open>\<open>session->player.lock()\<close>\<close>

definition session_player :: "SessionId \<Rightarrow> World \<Rightarrow> uint64 option" where
  "session_player s w =
     (case gs_player (the_session s w) of
        None \<Rightarrow> None
      | Some pid \<Rightarrow> if player_alive pid w then Some pid else None)"

text \<open>\<open>session->gameRoom.lock()\<close>\<close>

definition session_room :: "SessionId \<Rightarrow> World \<Rightarrow> RoomRef option" where
  "session_room s w =
     (case gs_room (the_session s w) of
        None \<Rightarrow> None
      | Some r \<Rightarrow> if room_alive r w then Some r else None)"

section \<open>What sending leaves alone\<close>

text \<open>Sending and raising change the trace and the fault flag and nothing else.\<close>

definition say :: "out_item list \<Rightarrow> fault option \<Rightarrow> World \<Rightarrow> World" where
  "say os f w = w\<lparr>out := out w @ os, faulted := f\<rparr>"

definition sends_only :: "World \<Rightarrow> World \<Rightarrow> bool" where
  "sends_only w w' \<longleftrightarrow> w' = w \<or> (faulted w = None \<and> (\<exists>os f. w' = say os f w))"

lemma say_say: "say os' f' (say os f w) = say (os @ os') f' w"
  by (simp add: say_def)

lemma sends_only_refl [simp, intro]: "sends_only w w"
  by (simp add: sends_only_def)

lemma sends_only_say: "faulted w = None \<Longrightarrow> sends_only w (say os f w)"
  by (auto simp: sends_only_def)

lemma sends_only_trans: "sends_only w w' \<Longrightarrow> sends_only w' w'' \<Longrightarrow> sends_only w w''"
  unfolding sends_only_def using say_say by metis

lemma say_out: "faulted w = None \<Longrightarrow> w\<lparr>out := out w @ os\<rparr> = say os None w"
  by (cases w) (simp add: say_def)

lemma say_fault: "w\<lparr>faulted := f\<rparr> = say [] f w"
  by (cases w) (simp add: say_def)

lemma sends_only_send_packet [intro]: "sends_only w (send_packet s p w)"
  by (simp add: send_packet_def say_out sends_only_say)

lemma sends_only_raise [intro]: "sends_only w (raise f w)"
  by (simp add: raise_def say_fault sends_only_say)

lemma sends_only_redis [intro]: "sends_only w (redis e w)"
  using sends_only_raise by (simp add: redis_def say_out sends_only_say)

lemma sends_only_fold:
  "(\<And>x w. sends_only w (f x w)) \<Longrightarrow> sends_only w (fold f xs w)"
  by (induction xs arbitrary: w) (auto intro: sends_only_trans)

lemma sends_only_Broadcast [intro]: "sends_only w (Broadcast r p w)"
  unfolding Broadcast_def by (rule sends_only_fold) (auto split: option.split)

lemma sends_only_emit1 [intro]: "sends_only w (emit1 e w)"
  by (cases e) auto

lemma sends_only_emit [intro]: "sends_only w (emit effs w)"
  unfolding emit_def by (rule sends_only_fold) blast

lemma sends_only_frame:
  assumes "sends_only w w'"
  shows "rooms w' = rooms w" "wplayers w' = wplayers w" "wmonsters w' = wmonsters w" "warrows w' = warrows w"
    "wsessions w' = wsessions w" "roomRefs w' = roomRefs w" "party w' = party w" "gdata w' = gdata w"
    "mapFiles w' = mapFiles w" "staticRooms w' = staticRooms w" "dungeonInstances w' = dungeonInstances w"
    "pendingRemoveDungeon w' = pendingRemoveDungeon w" "instanceIdGen w' = instanceIdGen w"
    "idGenerator w' = idGenerator w" "clockPos w' = clockPos w" "dicePos w' = dicePos w"
    "clock w' = clock w" "dice w' = dice w" "iteratingDungeons w' = iteratingDungeons w"
    "rehashes w' = rehashes w" "redisConnected w' = redisConnected w"
    "the_room r w' = the_room r w" "the_player i w' = the_player i w"
    "the_monster i w' = the_monster i w" "the_arrow i w' = the_arrow i w" "the_session s w' = the_session s w"
    "faulted w \<noteq> None \<Longrightarrow> faulted w' = faulted w"
  using assms
  by (auto simp: sends_only_def say_def the_room_def the_player_def the_monster_def the_arrow_def the_session_def)

lemmas send_packet_frame [simp, frame_simps] = sends_only_frame(1-26) [OF sends_only_send_packet]
lemmas raise_frame [simp, frame_simps] = sends_only_frame(1-26) [OF sends_only_raise]
lemmas Broadcast_frame [simp, frame_simps] = sends_only_frame(1-26) [OF sends_only_Broadcast]
lemmas emit_frame [simp, frame_simps] = sends_only_frame(1-26) [OF sends_only_emit]

lemma send_packet_faulted [simp]: "faulted (send_packet s p w) = faulted w"
  by (simp add: send_packet_def)

lemma raise_faulted [simp]: "faulted (raise f w) = (if faulted w = None then Some f else faulted w)"
  by (simp add: raise_def)

text \<open>Reading back what was written.\<close>

lemma put_get [simp]:
  "the_player i (put_player j p w) = (if i = j then p else the_player i w)"
  "the_monster i (put_monster j m w) = (if i = j then m else the_monster i w)"
  "the_arrow i (put_arrow j a w) = (if i = j then a else the_arrow i w)"
  "the_session s (put_session t g w) = (if s = t then g else the_session s w)"
  "the_room r (upd_room q f w) = (if r = q then f (the_room q w) else the_room r w)"
  by (simp_all add: the_player_def put_player_def the_monster_def put_monster_def the_arrow_def
      put_arrow_def the_session_def put_session_def the_room_def upd_room_def)

lemma put_other [simp]:
  "the_room r (put_player i p w) = the_room r w" "the_room r (put_monster i m w) = the_room r w"
  "the_room r (put_arrow i a w) = the_room r w" "the_room r (put_session s g w) = the_room r w"
  "the_player i (put_monster j m w) = the_player i w" "the_player i (put_arrow j a w) = the_player i w"
  "the_player i (put_session s g w) = the_player i w" "the_player i (upd_room r f w) = the_player i w"
  "the_monster i (put_player j p w) = the_monster i w" "the_monster i (put_arrow j a w) = the_monster i w"
  "the_monster i (put_session s g w) = the_monster i w" "the_monster i (upd_room r f w) = the_monster i w"
  "the_arrow i (put_player j p w) = the_arrow i w" "the_arrow i (put_monster j m w) = the_arrow i w"
  "the_arrow i (put_session s g w) = the_arrow i w" "the_arrow i (upd_room r f w) = the_arrow i w"
  by (simp_all add: the_player_def put_player_def the_monster_def put_monster_def the_arrow_def
      put_arrow_def put_session_def the_room_def upd_room_def)

end
