(* ===== verification/Rooms.thy ===== *)
theory Rooms
  imports World
begin

text \<open>
  \<open>GameRoom\<close>: the objects of a room, what stands on a cell, entering and leaving. Every operation is
  a function of the world, named and ordered as in \<^verbatim>\<open>GameRoom.cpp\<close>; the room is its first argument.
\<close>

section \<open>Objects of a room\<close>

datatype ObjRef = RefPlayer (ref_id: uint64) | RefMonster (ref_id: uint64) | RefArrow (ref_id: uint64)

fun obj_info :: "ObjRef \<Rightarrow> World \<Rightarrow> ObjectInfo" where
  "obj_info (RefPlayer i) w = info (the_player i w)"
| "obj_info (RefMonster i) w = info (the_monster i w)"
| "obj_info (RefArrow i) w = info (the_arrow i w)"

definition obj_pos :: "ObjRef \<Rightarrow> World \<Rightarrow> Vec2Int" where
  "obj_pos ref w = Vec (i_posx (obj_info ref w)) (i_posy (obj_info ref w))"

fun set_obj_room :: "ObjRef \<Rightarrow> RoomRef option \<Rightarrow> World \<Rightarrow> World" where
  "set_obj_room (RefPlayer i) r w = put_player i ((the_player i w)\<lparr>in_room := r\<rparr>) w"
| "set_obj_room (RefMonster i) r w = put_monster i ((the_monster i w)\<lparr>in_room := r\<rparr>) w"
| "set_obj_room (RefArrow i) r w = put_arrow i ((the_arrow i w)\<lparr>in_room := r\<rparr>) w"

definition FindObject :: "RoomRef \<Rightarrow> uint64 \<Rightarrow> World \<Rightarrow> ObjRef option" where
  "FindObject r i w =
     (let g = the_room r w
      in if i \<in> set (players g) then Some (RefPlayer i)
         else if i \<in> set (monsters g) then Some (RefMonster i)
         else if i \<in> set (projectiles g) then Some (RefArrow i)
         else None)"

definition first_at :: "Vec2Int \<Rightarrow> World \<Rightarrow> ObjRef list \<Rightarrow> ObjRef option" where
  "first_at pos w refs = find (\<lambda>ref. obj_pos ref w = pos) refs"

definition GetGameObjectAt :: "RoomRef \<Rightarrow> Vec2Int \<Rightarrow> World \<Rightarrow> ObjRef option" where
  "GetGameObjectAt r pos w =
     (let g = the_room r w
      in first_at pos w (map RefPlayer (players g) @ map RefMonster (monsters g) @ map RefArrow (projectiles g)))"

definition GetCreatureAt :: "RoomRef \<Rightarrow> Vec2Int \<Rightarrow> World \<Rightarrow> ObjRef option" where
  "GetCreatureAt r pos w =
     (let g = the_room r w in first_at pos w (map RefPlayer (players g) @ map RefMonster (monsters g)))"

definition GetMonsterAt :: "RoomRef \<Rightarrow> Vec2Int \<Rightarrow> World \<Rightarrow> uint64 option" where
  "GetMonsterAt r pos w =
     map_option ref_id (first_at pos w (map RefMonster (monsters (the_room r w))))"

section \<open>Cells\<close>

definition CanGo :: "RoomRef \<Rightarrow> Vec2Int \<Rightarrow> World \<Rightarrow> bool" where
  "CanGo r pos w =
     (case GetTileAt pos (tilemap (the_room r w)) of
        None \<Rightarrow> False
      | Some v \<Rightarrow> if GetCreatureAt r pos w \<noteq> None then False else v \<noteq> 1)"

definition IsBlockedByWall :: "RoomRef \<Rightarrow> Vec2Int \<Rightarrow> World \<Rightarrow> bool" where
  "IsBlockedByWall r pos w =
     (case GetTileAt pos (tilemap (the_room r w)) of None \<Rightarrow> True | Some v \<Rightarrow> v = 1)"

definition CanUseSkill :: "RoomRef \<Rightarrow> World \<Rightarrow> bool" where
  "CanUseSkill r w = (case config (the_room r w) of None \<Rightarrow> False | Some c \<Rightarrow> rc_skillEnabled c)"

text \<open>
  The loop of \<open>GetRandomEmptyCellPos\<close> draws until a cell is free; with no free cell, or a generator
  that never hits one, it does not return (\<open>None\<close>).
\<close>

partial_function (option) draw_cell :: "(nat \<Rightarrow> int32) \<Rightarrow> Vec2Int \<Rightarrow> (Vec2Int \<Rightarrow> bool) \<Rightarrow> nat \<Rightarrow> (Vec2Int \<times> nat) option" where
  "draw_cell rnd sz cg i =
     (if cg (Vec (rnd i mod vx sz) (rnd (i + 1) mod vy sz))
      then Some (Vec (rnd i mod vx sz) (rnd (i + 1) mod vy sz), i + 2)
      else draw_cell rnd sz cg (i + 2))"

definition GetRandomEmptyCellPos :: "RoomRef \<Rightarrow> World \<Rightarrow> Vec2Int \<times> World" where
  "GetRandomEmptyCellPos r w =
     (let sz = mapSize (tilemap (the_room r w))
      in if vx sz = 0 \<or> vy sz = 0 then (Vec (-1) (-1), raise DivisionByZero w)
         else case draw_cell (dice w) sz (\<lambda>p. CanGo r p w) (dicePos w) of
                None \<Rightarrow> (Vec (-1) (-1), raise Nontermination w)
              | Some (p, i) \<Rightarrow> (p, w\<lparr>dicePos := i\<rparr>))"

text \<open>\<open>dist\<close> is a \<open>float\<close>; \<open>best\<close> starts at \<open>FLT_MAX\<close>, above any of them.\<close>

definition closer_player :: "Vec2Int \<Rightarrow> World \<Rightarrow> uint64 \<Rightarrow> (int \<times> uint64) option \<Rightarrow> (int \<times> uint64) option" where
  "closer_player pos w pid best =
     (let dist = float_of_int32 (LengthSquared (pos - GetCellPos (the_player pid w)))
      in case best of
           None \<Rightarrow> Some (dist, pid)
         | Some (b, i) \<Rightarrow> if dist < b then Some (dist, pid) else Some (b, i))"

definition FindClosestPlayer :: "RoomRef \<Rightarrow> Vec2Int \<Rightarrow> World \<Rightarrow> uint64 option" where
  "FindClosestPlayer r pos w =
     map_option snd (fold (closer_player pos w) (players (the_room r w)) None)"

definition Room_FindPath :: "RoomRef \<Rightarrow> Vec2Int \<Rightarrow> Vec2Int \<Rightarrow> int32 \<Rightarrow> World \<Rightarrow> (bool \<times> Vec2Int list) option" where
  "Room_FindPath r src dest maxDepth w = FindPath (\<lambda>p. CanGo r p w) src dest maxDepth"

section \<open>Adding and removing\<close>

definition PushJob :: "RoomRef \<Rightarrow> job \<Rightarrow> World \<Rightarrow> World" where
  "PushJob r j = upd_room r (\<lambda>g. g\<lparr>jobs := jobs g @ [j]\<rparr>)"

definition AddObject :: "RoomRef \<Rightarrow> ObjRef \<Rightarrow> World \<Rightarrow> World" where
  "AddObject r ref w =
     (let w1 = upd_room r (\<lambda>g. case ref of
                 RefPlayer i \<Rightarrow> g\<lparr>players := key_insert i (players g)\<rparr>
               | RefMonster i \<Rightarrow> g\<lparr>monsters := key_insert i (monsters g)\<rparr>
               | RefArrow i \<Rightarrow> g\<lparr>projectiles := key_insert i (projectiles g)\<rparr>) w;
          w2 = set_obj_room ref (Some r) w1
      in Broadcast r (S_AddObject [obj_info ref w2]) w2)"

definition ShouldSpawn :: "RoomRef \<Rightarrow> World \<Rightarrow> bool" where
  "ShouldSpawn r w =
     (case config (the_room r w) of None \<Rightarrow> False | Some c \<Rightarrow> rc_monsterSpawnEnabled c)"

definition TryReserve :: "RoomRef \<Rightarrow> uint64 \<Rightarrow> World \<Rightarrow> World" where
  "TryReserve r mid w =
     (if \<not> ShouldSpawn r w then w
      else let respawnTimeMs = (case config (the_room r w) of Some c \<Rightarrow> rc_respawnTimeMs c | None \<Rightarrow> 10000);
               (now, w1) = tick w;
               m = the_monster mid w1;
               req = \<lparr>rq_when = now + ucast respawnTimeMs, rq_homePos = homePos m, rq_templateId = templateId m,
                      rq_level = 1, rq_aggroRange = aggroRange m, rq_leashRange = leashRange m\<rparr>
           in upd_room r (\<lambda>g. g\<lparr>respawnQueue := respawnQueue g @ [req]\<rparr>) w1)"

definition RemoveObject :: "RoomRef \<Rightarrow> uint64 \<Rightarrow> World \<Rightarrow> World" where
  "RemoveObject r i w =
     (case FindObject r i w of
        None \<Rightarrow> w
      | Some ref \<Rightarrow>
          let w1 = (case ref of RefMonster m \<Rightarrow> TryReserve r m w | _ \<Rightarrow> w);
              w2 = upd_room r (\<lambda>g. case ref of
                     RefPlayer i \<Rightarrow> g\<lparr>players := key_erase i (players g)\<rparr>
                   | RefMonster i \<Rightarrow> g\<lparr>monsters := key_erase i (monsters g)\<rparr>
                   | RefArrow i \<Rightarrow> g\<lparr>projectiles := key_erase i (projectiles g)\<rparr>) w1
          in Broadcast r (S_RemoveObject [i]) (set_obj_room ref None w2))"

section \<open>Entering and leaving\<close>

text \<open>
  The party message of \<open>EnterRoom\<close>. A member found in the room is cast with \<open>static_pointer_cast\<close>,
  undefined when it is not a player.
\<close>

definition away_name :: "Party \<Rightarrow> uint64 \<Rightarrow> string" where
  "away_name p m = (case memberNames p m of Some n \<Rightarrow> n | None \<Rightarrow> ''Unknown'') @ ''(Away)''"

definition member_info :: "Party \<Rightarrow> uint64 \<Rightarrow> World \<Rightarrow> ObjRef option \<Rightarrow> PartyMemberInfo" where
  "member_info p m w ref =
     (let blank = \<lparr>pm_playerid = m, pm_name = '''', pm_level = 0, pm_hp = 0, pm_maxhp = 0,
                   pm_isleader = (m = leaderId p)\<rparr>
      in case ref of
           None \<Rightarrow> blank\<lparr>pm_name := away_name p m\<rparr>
         | Some (RefPlayer i) \<Rightarrow>
             (let pl = the_player i w
              in blank\<lparr>pm_name := i_name (info pl), pm_level := level pl, pm_hp := i_hp (info pl),
                       pm_maxhp := i_maxhp (info pl)\<rparr>)
         | Some _ \<Rightarrow> blank)"

definition not_player :: "ObjRef option \<Rightarrow> bool" where
  "not_player ref = (case ref of None \<Rightarrow> False | Some (RefPlayer i) \<Rightarrow> False | Some _ \<Rightarrow> True)"

definition send_to_member :: "RoomRef \<Rightarrow> spacket \<Rightarrow> uint64 \<Rightarrow> World \<Rightarrow> World" where
  "send_to_member r pkt m w =
     (if m \<in> set (players (the_room r w)) then
        (case psession (the_player m w) of None \<Rightarrow> w | Some s \<Rightarrow> send_packet s pkt w)
      else w)"

definition announce_party :: "RoomRef \<Rightarrow> uint64 \<Rightarrow> World \<Rightarrow> World" where
  "announce_party r pid w =
     (let partyId = GetPartyIdByPlayer pid (party w)
      in if partyId = 0 then w
         else case GetParty partyId (party w) of
                None \<Rightarrow> w
              | Some p \<Rightarrow>
                  if list_ex (\<lambda>m. not_player (FindObject r m w)) (memberIds p) then raise BadCast w
                  else fold (send_to_member r
                         (S_PartyUpdate (map (\<lambda>m. member_info p m w (FindObject r m w)) (memberIds p))))
                         (memberIds p) w)"

definition EnterRoom :: "RoomRef \<Rightarrow> SessionId \<Rightarrow> uint64 \<Rightarrow> World \<Rightarrow> World" where
  "EnterRoom r s pid w0 =
     (let w1 = put_session s ((the_session s w0)\<lparr>gs_room := Some r, gs_player := Some pid\<rparr>) w0;
          p = StopMove (set_state IDLE (set_pos (Vec 5 5) ((the_player pid w1)\<lparr>psession := Some s\<rparr>)));
          w2 = put_player pid p w1;
          w3 = send_packet s (S_MyPlayer (info p)) w2;
          w4 = emit (SendInventoryData p) w3;
          g = the_room r w4;
          infos = map (\<lambda>i. info (the_player i w4)) (players g) @ map (\<lambda>i. info (the_monster i w4)) (monsters g)
                  @ map (\<lambda>i. info (the_arrow i w4)) (projectiles g);
          w5 = send_packet s (S_AddObject infos) w4;
          w6 = AddObject r (RefPlayer pid) w5
      in announce_party r pid w6)"

definition LeaveRoom :: "RoomRef \<Rightarrow> SessionId \<Rightarrow> World \<Rightarrow> World" where
  "LeaveRoom r s w =
     (case session_player s w of
        None \<Rightarrow> w
      | Some pid \<Rightarrow>
          let w1 = RemoveObject r (i_objectid (info (the_player pid w))) w; g = the_room r w1
          in if fieldId g = Dungeon \<and> players g = [] \<and> instanceId g \<noteq> 0
             then w1\<lparr>pendingRemoveDungeon := pendingRemoveDungeon w1 @ [instanceId g]\<rparr>
             else w1)"

end
