(* ===== verification/Spawn.thy ===== *)
theory Spawn
  imports Rooms
begin

text \<open>
  \<open>SpawnSystem\<close>: the monsters a room starts with and their respawn after \<open>TryReserve\<close> (which is in
  \<open>Rooms\<close>, where \<open>RemoveObject\<close> calls it).
\<close>

section \<open>Making a monster\<close>

text \<open>\<open>GameObject::CreateMonster\<close> with the shared id counter.\<close>

definition CreateMonster :: "World \<Rightarrow> uint64 \<times> World" where
  "CreateMonster w =
     (let i = idGenerator w in (i, put_monster i (Monster_new i) (w\<lparr>idGenerator := i + 1\<rparr>)))"

definition CreatePlayer :: "World \<Rightarrow> uint64 \<times> World" where
  "CreatePlayer w =
     (let i = idGenerator w in (i, put_player i (Player_new (gdata w) i) (w\<lparr>idGenerator := i + 1\<rparr>)))"

definition CreateArrow :: "World \<Rightarrow> uint64 \<times> World" where
  "CreateArrow w =
     (let i = idGenerator w in (i, put_arrow i (Arrow_new i) (w\<lparr>idGenerator := i + 1\<rparr>)))"

definition apply_template :: "MonsterTemplateData option \<Rightarrow> Monster \<Rightarrow> Monster" where
  "apply_template t m = (case t of
     None \<Rightarrow> m
   | Some d \<Rightarrow> m\<lparr>info := (info m)\<lparr>i_name := mt_name d, i_maxhp := mt_maxHp d, i_hp := mt_maxHp d,
        i_attack := mt_attack d, i_defence := mt_defence d\<rparr>\<rparr>)"

text \<open>
  The body the two spawning loops share: a place, a new monster with its home, ranges and
  template, and \<open>AddObject\<close>.
\<close>

definition spawn_monster :: "RoomRef \<Rightarrow> Vec2Int \<Rightarrow> int32 \<Rightarrow> int32 \<Rightarrow> int32 \<Rightarrow> MonsterTemplateData option \<Rightarrow> World \<Rightarrow> World" where
  "spawn_monster r pos0 aggro leash tid tmpl w =
     (let (pos, w1) = (if \<not> CanGo r pos0 w then GetRandomEmptyCellPos r w else (pos0, w));
          (i, w2) = CreateMonster w1;
          m = set_pos pos ((the_monster i w2)\<lparr>homePos := pos\<rparr>);
          m1 = SetTemplateId tid (m\<lparr>aggroRange := aggro, leashRange := leash\<rparr>)
      in AddObject r (RefMonster i) (put_monster i (apply_template tmpl m1) w2))"

section \<open>Initial spawn\<close>

text \<open>The \<open>for\<close> over the count of one monster type: it ends early when the offsets run out.\<close>

fun spawn_count :: "RoomRef \<Rightarrow> MonsterSpawnData \<Rightarrow> MonsterInfo \<Rightarrow> MonsterTemplateData \<Rightarrow> nat \<Rightarrow> nat \<times> World \<Rightarrow> nat \<times> World" where
  "spawn_count r grp mi t 0 (k, w) = (k, w)"
| "spawn_count r grp mi t (Suc n) (k, w) =
     (if k \<ge> length (sp_offsets grp) then (k, w)
      else spawn_count r grp mi t n
             (k + 1, spawn_monster r (sp_anchor grp + sp_offsets grp ! k) (mi_aggroRange mi)
                       (mi_leashRange mi) (mi_templateId mi) (Some t) w))"

definition spawn_type :: "RoomRef \<Rightarrow> MonsterSpawnData \<Rightarrow> MonsterInfo \<Rightarrow> nat \<times> World \<Rightarrow> nat \<times> World" where
  "spawn_type r grp mi kw =
     (case GetMonsterTemplate (gdata (snd kw)) (mi_templateId mi) of
        None \<Rightarrow> kw
      | Some t \<Rightarrow> spawn_count r grp mi t (nat (mi_count mi)) kw)"

definition spawn_group :: "RoomRef \<Rightarrow> MonsterSpawnData \<Rightarrow> World \<Rightarrow> World" where
  "spawn_group r grp w = snd (fold (spawn_type r grp) (sp_monsters grp) (0, w))"

definition SpawnMonstersFromData :: "RoomRef \<Rightarrow> World \<Rightarrow> World" where
  "SpawnMonstersFromData r w =
     (case spawnConfig (the_room r w) of
        None \<Rightarrow> w
      | Some c \<Rightarrow> fold (spawn_group r) (rs_spawns c) w)"

definition Spawn_Init :: "RoomRef \<Rightarrow> RoomConfigData option \<Rightarrow> RoomSpawnConfig option \<Rightarrow> World \<Rightarrow> World" where
  "Spawn_Init r c sc w =
     (let w1 = upd_room r (\<lambda>g. g\<lparr>spawnConfig := sc\<rparr>) w
      in if (case c of None \<Rightarrow> False | Some c \<Rightarrow> rc_monsterSpawnEnabled c) \<and> sc \<noteq> None
         then SpawnMonstersFromData r w1 else w1)"

section \<open>Respawn\<close>

text \<open>
  \<open>ProcessRespawn\<close>: one pass over the queue with one reading of the clock; due requests spawn and are
  erased, the others stay in order. Spawning adds to no queue, so the pass sees the queue it
  started with.
\<close>

fun respawn_pass :: "RoomRef \<Rightarrow> uint64 \<Rightarrow> RespawnRequest list \<Rightarrow> World \<Rightarrow> RespawnRequest list \<times> World" where
  "respawn_pass r now [] w = ([], w)"
| "respawn_pass r now (q # qs) w =
     (if now < rq_when q then (case respawn_pass r now qs w of (rest, w') \<Rightarrow> (q # rest, w'))
      else respawn_pass r now qs
             (spawn_monster r (rq_homePos q) (rq_aggroRange q) (rq_leashRange q) (rq_templateId q)
               (GetMonsterTemplate (gdata w) (rq_templateId q)) w))"

definition ProcessRespawn :: "RoomRef \<Rightarrow> World \<Rightarrow> World" where
  "ProcessRespawn r w =
     (let (now, w1) = tick w;
          (rest, w2) = respawn_pass r now (respawnQueue (the_room r w1)) w1
      in upd_room r (\<lambda>g. g\<lparr>respawnQueue := rest\<rparr>) w2)"

definition Spawn_Tick :: "RoomRef \<Rightarrow> World \<Rightarrow> World" where
  "Spawn_Tick r w = (if ShouldSpawn r w then ProcessRespawn r w else w)"

end
