(* ===== verification/Combat.thy ===== *)
theory Combat
  imports Spawn
begin

text \<open>
  \<open>CombatSystem\<close>: the three weapons, the experience a kill is worth and the items it drops.
\<close>

section \<open>Hitting\<close>

definition DistributeExp :: "RoomRef \<Rightarrow> uint64 \<Rightarrow> uint64 \<Rightarrow> World \<Rightarrow> World" where
  "DistributeExp r killer mid w =
     (case GetMonsterTemplate (gdata w) (templateId (the_monster mid w)) of
        None \<Rightarrow> w
      | Some t \<Rightarrow>
          if mt_exp t \<le> 0 then w
          else let partyId = GetPartyIdByPlayer killer (party w)
               in case (if partyId = 0 then None else GetParty partyId (party w)) of
                    None \<Rightarrow> run_player killer (GainExp (gdata w) (mt_exp t)) w
                  | Some p \<Rightarrow>
                      let nearby = filter (\<lambda>m. m \<in> set (players (the_room r w))) (memberIds p)
                      in if nearby = [] then w
                         else let share = max 1 (mt_exp t div int (length nearby))
                              in fold (\<lambda>m w. run_player m (GainExp (gdata w) share) w) nearby w)"

definition drop_item :: "uint64 \<Rightarrow> MonsterDropData \<Rightarrow> World \<Rightarrow> World" where
  "drop_item killer d w =
     (let (n, w1) = roll w
      in if n mod 100 < md_dropRate d
         then run_player killer (\<lambda>p. snd (AddItem (gdata w1) (md_itemId d) 1 p)) w1
         else w1)"

definition ProcessMonsterDrop :: "uint64 \<Rightarrow> uint64 \<Rightarrow> World \<Rightarrow> World" where
  "ProcessMonsterDrop killer mid w =
     (case GetMonsterDrops (gdata w) (templateId (the_monster mid w)) of
        None \<Rightarrow> w
      | Some ds \<Rightarrow> fold (drop_item killer) ds w)"

definition BroadcastAttack :: "RoomRef \<Rightarrow> uint64 \<Rightarrow> int32 \<Rightarrow> int32 \<Rightarrow> World \<Rightarrow> World" where
  "BroadcastAttack r attacker dir weapon w =
     Broadcast r (S_Attack (i_objectid (info (the_player attacker w))) dir weapon) w"

text \<open>\<open>OnDamaged\<close> on whatever the reference points to.\<close>

fun damage_obj :: "ObjRef \<Rightarrow> int32 \<Rightarrow> World \<Rightarrow> World" where
  "damage_obj (RefPlayer i) n w = put_player i (snd (OnDamaged n (the_player i w))) w"
| "damage_obj (RefMonster i) n w = put_monster i (snd (OnDamaged n (the_monster i w))) w"
| "damage_obj (RefArrow i) n w = w"

definition BroadcastDamaged :: "RoomRef \<Rightarrow> uint64 \<Rightarrow> ObjRef \<Rightarrow> int32 \<Rightarrow> World \<Rightarrow> World" where
  "BroadcastDamaged r attackerId tgt damage w =
     Broadcast r (S_Damaged attackerId (i_objectid (obj_info tgt w)) damage (i_hp (obj_info tgt w))) w"

section \<open>Weapons\<close>

text \<open>The cell in front may hold another player: there is no friend check, and no reward.\<close>

definition HandleSwordAttack :: "RoomRef \<Rightarrow> uint64 \<Rightarrow> World \<Rightarrow> World" where
  "HandleSwordAttack r attacker w =
     (let a = the_player attacker w
      in case GetGameObjectAt r (GetFrontCellPos a) w of
           None \<Rightarrow> w
         | Some (RefArrow i) \<Rightarrow> w
         | Some tgt \<Rightarrow>
             let damage = hit_damage (i_attack (info a)) (i_defence (obj_info tgt w));
                 w1 = damage_obj tgt damage w;
                 w2 = BroadcastDamaged r (i_objectid (info a)) tgt damage w1
             in if i_hp (obj_info tgt w2) \<noteq> 0 then w2
                else let w3 = (case tgt of
                                 RefMonster m \<Rightarrow> ProcessMonsterDrop attacker m (DistributeExp r attacker m w2)
                               | _ \<Rightarrow> w2)
                     in RemoveObject r (i_objectid (obj_info tgt w3)) w3)"

text \<open>The direction comes from the packet and is not checked.\<close>

definition HandleBowAttack :: "RoomRef \<Rightarrow> uint64 \<Rightarrow> int32 \<Rightarrow> World \<Rightarrow> World" where
  "HandleBowAttack r attacker dir w =
     (let (i, w1) = CreateArrow w;
          a = the_player attacker w1;
          arrow = (set_pos (GetCellPos a) (set_dir dir (the_arrow i w1)))\<lparr>ownerId := i_objectid (info a)\<rparr>
      in AddObject r (RefArrow i) (put_arrow i arrow w1))"

definition staff_forward :: "int32 \<Rightarrow> Vec2Int" where
  "staff_forward dir =
     (if dir = DIR_UP then Vec 0 (-2) else if dir = DIR_DOWN then Vec 0 2
      else if dir = DIR_LEFT then Vec (-2) 0 else if dir = DIR_RIGHT then Vec 2 0 else Vec 0 0)"

text \<open>The nine cells around a center, in the order of the two loops.\<close>

definition splash :: "Vec2Int \<Rightarrow> Vec2Int list" where
  "splash c = concat (map (\<lambda>dy. map (\<lambda>dx. Vec (vx c + dx) (vy c + dy)) [-1, 0, 1]) [-1, 0, 1])"

text \<open>One cell of the staff: a monster there is hit for half the difference, and remembered if it died.\<close>

definition staff_hit :: "RoomRef \<Rightarrow> uint64 \<Rightarrow> Vec2Int \<Rightarrow> uint64 list \<times> World \<Rightarrow> uint64 list \<times> World" where
  "staff_hit r attacker cell st =
     (case st of (dead, w) \<Rightarrow>
        (case GetMonsterAt r cell w of
           None \<Rightarrow> (dead, w)
         | Some m \<Rightarrow>
             let a = info (the_player attacker w);
                 damage = max 1 (half_trunc (wrap32 (i_attack a - i_defence (info (the_monster m w)))));
                 w1 = damage_obj (RefMonster m) damage w;
                 w2 = BroadcastDamaged r (i_objectid a) (RefMonster m) damage w1
             in (if i_hp (info (the_monster m w2)) = 0 then dead @ [m] else dead, w2)))"

definition staff_kill :: "RoomRef \<Rightarrow> uint64 \<Rightarrow> uint64 \<Rightarrow> World \<Rightarrow> World" where
  "staff_kill r attacker m w =
     RemoveObject r m (ProcessMonsterDrop attacker m (DistributeExp r attacker m w))"

definition HandleStaffAttack :: "RoomRef \<Rightarrow> uint64 \<Rightarrow> int32 \<Rightarrow> World \<Rightarrow> World" where
  "HandleStaffAttack r attacker dir w =
     (let center = GetCellPos (the_player attacker w) + staff_forward dir;
          (dead, w1) = fold (staff_hit r attacker) (splash center) ([], w)
      in fold (staff_kill r attacker) dead w1)"

definition HandleAttack :: "RoomRef \<Rightarrow> uint64 \<Rightarrow> int32 \<Rightarrow> int32 \<Rightarrow> World \<Rightarrow> World" where
  "HandleAttack r attacker dir weapon w0 =
     (let w = BroadcastAttack r attacker dir weapon w0
      in if weapon = WEAPON_TYPE_SWORD then HandleSwordAttack r attacker w
         else if weapon = WEAPON_TYPE_BOW then HandleBowAttack r attacker dir w
         else if weapon = WEAPON_TYPE_STAFF then HandleStaffAttack r attacker dir w
         else w)"

end
