(* ===== verification/Creatures.thy ===== *)
theory Creatures
  imports Combat
begin

text \<open>
  What moves by itself: \<open>Monster::Update\<close> with its idle, move and skill states, and
  \<open>Arrow::Update\<close>. \<open>SetState(..., true)\<close> and \<open>SetCellPos(..., true)\<close> broadcast through the
  room the object is in.
\<close>

section \<open>Monster\<close>

text \<open>The step every pursuit ends with: turn to the cell, take it, wait, broadcast \<open>MOVE\<close>.\<close>

definition monster_step :: "RoomRef \<Rightarrow> uint64 \<Rightarrow> Vec2Int \<Rightarrow> uint64 \<Rightarrow> World \<Rightarrow> World" where
  "monster_step r mid nextPos delay w =
     (if CanGo r nextPos w then
        (let m = the_monster mid w;
             m1 = fst (SetDir (GetLookAtDir nextPos m) False m);
             m2 = fst (SetCellPos nextPos False m1);
             (now, w1) = tick w
         in run_monster mid (SetState MOVE True) (put_monster mid (m2\<lparr>waitUntil := now + delay\<rparr>) w1))
      else w)"

text \<open>
  \<open>FindPath(myPos, dest, path, 20)\<close> and one step along it, when there is one. \<open>FindPath\<close> always
  returns a value, so the first branch is never taken.
\<close>

definition monster_follow :: "RoomRef \<Rightarrow> uint64 \<Rightarrow> Vec2Int \<Rightarrow> uint64 \<Rightarrow> World \<Rightarrow> World" where
  "monster_follow r mid dest delay w =
     (case Room_FindPath r (GetCellPos (the_monster mid w)) dest 20 w of
        None \<Rightarrow> raise Nontermination w
      | Some (found, path) \<Rightarrow>
          if found \<and> length path > 1 then monster_step r mid (path ! 1) delay w else w)"

definition set_target :: "uint64 \<Rightarrow> uint64 option \<Rightarrow> World \<Rightarrow> World" where
  "set_target mid t w = put_monster mid ((the_monster mid w)\<lparr>target := t\<rparr>) w"

text \<open>The target after looking at the nearest player: kept unless the nearest is clearly closer.\<close>

definition choose_target :: "Vec2Int \<Rightarrow> uint64 option \<Rightarrow> uint64 option \<Rightarrow> World \<Rightarrow> uint64 option" where
  "choose_target myPos tgt nearest w =
     (case nearest of
        None \<Rightarrow> tgt
      | Some n \<Rightarrow>
          (case tgt of
             None \<Rightarrow> Some n
           | Some t \<Rightarrow>
               if manhattan (GetCellPos (the_player n w) - myPos) + 1
                    < manhattan (GetCellPos (the_player t w) - myPos)
               then Some n else Some t))"

definition monster_hit :: "RoomRef \<Rightarrow> uint64 \<Rightarrow> uint64 \<Rightarrow> World \<Rightarrow> World" where
  "monster_hit r mid t w0 =
     (let m0 = the_monster mid w0;
          w1 = put_monster mid (fst (SetDir (GetLookAtDir (GetCellPos (the_player t w0)) m0) False m0)) w0;
          w2 = run_monster mid (SetState SKILL True) w1;
          (now, w3) = tick w2;
          w4 = put_monster mid ((the_monster mid w3)\<lparr>waitUntil := now + 1000\<rparr>) w3;
          damage = hit_damage (i_attack (info (the_monster mid w4))) (i_defence (info (the_player t w4)));
          w5 = damage_obj (RefPlayer t) damage w4
      in Broadcast r (S_Damaged (i_objectid (info (the_monster mid w5))) (i_objectid (info (the_player t w5)))
           damage (i_hp (info (the_player t w5)))) w5)"

text \<open>
  The chase: one step along the path to the target, unless that step would leave the leash, where
  the monster gives up instead.
\<close>

definition monster_chase :: "RoomRef \<Rightarrow> uint64 \<Rightarrow> uint64 \<Rightarrow> World \<Rightarrow> World" where
  "monster_chase r mid t w =
     (case Room_FindPath r (GetCellPos (the_monster mid w)) (GetCellPos (the_player t w)) 20 w of
        None \<Rightarrow> raise Nontermination w
      | Some (found, path) \<Rightarrow>
          if found \<and> length path > 1 then
            (if manhattan (path ! 1 - homePos (the_monster mid w)) > leashRange (the_monster mid w)
             then set_target mid None w
             else monster_step r mid (path ! 1) 1000 w)
          else w)"

definition UpdateIdle :: "uint64 \<Rightarrow> World \<Rightarrow> World" where
  "UpdateIdle mid w0 =
     (case in_room (the_monster mid w0) of
        None \<Rightarrow> w0
      | Some r \<Rightarrow>
          let w = (if homePos (the_monster mid w0) = Vec (-1) (-1)
                   then put_monster mid ((the_monster mid w0)\<lparr>homePos := GetCellPos (the_monster mid w0)\<rparr>) w0
                   else w0);
              m = the_monster mid w;
              myPos = GetCellPos m
          in if manhattan (myPos - homePos m) > leashRange m
             then monster_follow r mid (homePos m) 300 (set_target mid None w)
             else
               let tgt = (case target m of None \<Rightarrow> None
                          | Some t \<Rightarrow> if player_alive t w then Some t else None);
                   tgt' = choose_target myPos tgt (FindClosestPlayer r myPos w) w;
                   w1 = (if tgt' = tgt then w else set_target mid tgt' w)
               in case tgt' of
                    None \<Rightarrow> if myPos \<noteq> homePos m then monster_follow r mid (homePos m) 300 w1 else w1
                  | Some t \<Rightarrow>
                      let distTarget = manhattan (GetCellPos (the_player t w1) - myPos)
                      in if distTarget > aggroRange m then
                           (let w2 = set_target mid None w1
                            in if myPos \<noteq> homePos m then monster_follow r mid (homePos m) 300 w2 else w2)
                         else if distTarget = 1 then monster_hit r mid t w1
                         else monster_chase r mid t w1)"

text \<open>\<open>UpdateMove\<close> and \<open>UpdateSkill\<close> are the same code.\<close>

definition UpdateMove :: "uint64 \<Rightarrow> World \<Rightarrow> World" where
  "UpdateMove mid w =
     (let (now, w1) = tick w
      in if waitUntil (the_monster mid w1) > now then w1 else run_monster mid (SetState IDLE False) w1)"

definition Monster_Update :: "uint64 \<Rightarrow> World \<Rightarrow> World" where
  "Monster_Update mid w =
     (case i_state (info (the_monster mid w)) of
        IDLE \<Rightarrow> UpdateIdle mid w
      | MOVE \<Rightarrow> UpdateMove mid w
      | SKILL \<Rightarrow> UpdateMove mid w)"

section \<open>Player\<close>

text \<open>\<open>Player::Update\<close> is \<open>GameObject::Update\<close>; the clock is only read while a move is under way.\<close>

definition Player_Update :: "uint64 \<Rightarrow> World \<Rightarrow> World" where
  "Player_Update pid w =
     (if i_state (info (the_player pid w)) = MOVE \<and> moveEndTick (the_player pid w) \<noteq> 0
      then (let (now, w1) = tick w in run_player pid (GameObject_Update now) w1)
      else w)"

section \<open>Arrow\<close>

definition deltaXY :: "Vec2Int list" where
  "deltaXY = [Vec 0 (-1), Vec 0 1, Vec (-1) 0, Vec 1 0]"

text \<open>A hit: the owner, if still in the room, damages the monster and is rewarded for a kill.\<close>

definition arrow_hit :: "RoomRef \<Rightarrow> uint64 \<Rightarrow> uint64 \<Rightarrow> World \<Rightarrow> World" where
  "arrow_hit r aid mid w =
     (case FindObject r (ownerId (the_arrow aid w)) w of
        None \<Rightarrow> w
      | Some ow \<Rightarrow>
          let damage = hit_damage (i_attack (obj_info ow w)) (i_defence (info (the_monster mid w)));
              w1 = damage_obj (RefMonster mid) damage w;
              w2 = BroadcastDamaged r (i_objectid (obj_info ow w1)) (RefMonster mid) damage w1
          in if i_hp (info (the_monster mid w2)) \<noteq> 0 then w2
             else let w3 = (case ow of
                              RefPlayer k \<Rightarrow> ProcessMonsterDrop k mid (DistributeExp r k mid w2)
                            | _ \<Rightarrow> w2)
                  in RemoveObject r (i_objectid (info (the_monster mid w3))) w3)"

text \<open>The direction indexes a table of four; any other value reads outside it.\<close>

definition Arrow_UpdateIdle :: "uint64 \<Rightarrow> World \<Rightarrow> World" where
  "Arrow_UpdateIdle aid w0 =
     (case in_room (the_arrow aid w0) of
        None \<Rightarrow> w0
      | Some r \<Rightarrow>
          let (now, w) = tick w0; a = the_arrow aid w; dir = i_dir (info a)
          in if pwaitUntil a > now then w
             else if dir < 0 \<or> dir > 3 then raise IndexOutOfBounds w
             else
               let nextPos = GetCellPos a + deltaXY ! nat dir
               in if IsBlockedByWall r nextPos w then RemoveObject r (i_objectid (info a)) w
                  else case GetMonsterAt r nextPos w of
                    Some mid \<Rightarrow> RemoveObject r (i_objectid (info a)) (arrow_hit r aid mid w)
                  | None \<Rightarrow>
                      let w1 = run_arrow aid (SetCellPos nextPos True) w;
                          w2 = run_arrow aid (SetState MOVE True) w1;
                          w3 = run_arrow aid (\<lambda>a. (a, BroadcastMove a)) w2
                      in put_arrow aid ((the_arrow aid w3)\<lparr>pwaitUntil := now + moveIntervalMs (the_arrow aid w3)\<rparr>) w3)"

definition Arrow_UpdateMove :: "uint64 \<Rightarrow> World \<Rightarrow> World" where
  "Arrow_UpdateMove aid w0 =
     (let (now, w) = tick w0
      in if pwaitUntil (the_arrow aid w) > now then w
         else run_arrow aid (\<lambda>a. (a, BroadcastMove a)) (run_arrow aid (SetState IDLE True) w))"

definition Arrow_Update :: "uint64 \<Rightarrow> World \<Rightarrow> World" where
  "Arrow_Update aid w0 =
     (case in_room (the_arrow aid w0) of
        None \<Rightarrow> w0
      | Some r \<Rightarrow>
          let (now, w1) = tick w0; a0 = the_arrow aid w1;
              fresh = \<not> spawned a0;
              a = (if fresh then a0\<lparr>spawned := True, expireTick := now + lifeTimeMs a0, pwaitUntil := now\<rparr> else a0);
              w = put_arrow aid a w1
          in if fresh \<and> IsBlockedByWall r (GetCellPos a) w then RemoveObject r (i_objectid (info a)) w
             else if now \<ge> expireTick a then RemoveObject r (i_objectid (info a)) w
             else case i_state (info a) of
                    IDLE \<Rightarrow> Arrow_UpdateIdle aid w
                  | MOVE \<Rightarrow> Arrow_UpdateMove aid w
                  | SKILL \<Rightarrow> run_arrow aid (\<lambda>a. (a, BroadcastMove a)) (run_arrow aid (\<lambda>a. (set_state IDLE a, [])) w))"

end
