(* ===== verification/RoomManager.thy ===== *)
theory RoomManager
  imports Creatures
begin

text \<open>
  \<open>GameRoomManager\<close>, and the part of \<open>GameRoom\<close> that depends on it: loading a room from its configuration,
  the handlers that run inside a room, the job queue and the fixed-step update.
\<close>

section \<open>Making rooms\<close>

definition InitFromConfig :: "RoomRef \<Rightarrow> string \<Rightarrow> World \<Rightarrow> World" where
  "InitFromConfig r roomId w =
     (let c = GetRoomConfig (gdata w) roomId; sc = GetSpawnConfig (gdata w) roomId;
          w1 = upd_room r (\<lambda>g. g\<lparr>config := c\<rparr>) w
      in case c of
           None \<Rightarrow> w1
         | Some cfg \<Rightarrow>
             let file = mapFiles w1 (rc_tilemapPath cfg)
             in case LoadFile (file \<noteq> None) (case file of None \<Rightarrow> '''' | Some t \<Rightarrow> t) (tilemap (the_room r w1)) of
                  None \<Rightarrow> raise BadMapFile w1
                | Some m \<Rightarrow> Spawn_Init r c sc (upd_room r (\<lambda>g. g\<lparr>tilemap := m\<rparr>) w1))"

definition make_room :: "RoomRef \<Rightarrow> FieldId \<Rightarrow> int32 \<Rightarrow> uint64 \<Rightarrow> World \<Rightarrow> World" where
  "make_room r field ch inst w =
     w\<lparr>rooms := (rooms w)(r \<mapsto> GameRoom_new\<lparr>fieldId := field, channel := ch, instanceId := inst\<rparr>),
       roomRefs := roomRefs w @ [r]\<rparr>"

definition add_static_room :: "FieldId \<Rightarrow> int32 \<Rightarrow> string \<Rightarrow> World \<Rightarrow> World" where
  "add_static_room field ch roomId w =
     (let r = StaticRoom field ch; w1 = InitFromConfig r roomId (make_room r field ch 0 w)
      in w1\<lparr>staticRooms := staticRooms w1 @ [r]\<rparr>)"

text \<open>\<open>Init\<close>: \<open>loaded\<close> is what \<open>LoadAllData\<close> returns; the tables are those of the world.\<close>

definition Manager_Init :: "bool \<Rightarrow> World \<Rightarrow> World" where
  "Manager_Init loaded w =
     (if \<not> loaded then w
      else add_static_room Town 2 ''town_2'' (add_static_room Town 1 ''town_1'' w))"

definition GetStaticRoom :: "FieldId \<Rightarrow> int32 \<Rightarrow> World \<Rightarrow> RoomRef option" where
  "GetStaticRoom field ch w =
     (if StaticRoom field ch \<in> set (staticRooms w) then Some (StaticRoom field ch) else None)"

definition GetDungeonInstance :: "uint64 \<Rightarrow> World \<Rightarrow> RoomRef option" where
  "GetDungeonInstance i w = (if i \<in> set (dungeonInstances w) then Some (DungeonRoom i) else None)"

text \<open>
  The insertion into \<open>_dungeonInstances\<close> invalidates its iterators when it rehashes; \<open>Update\<close> is iterating when a room
  of the table runs the job that creates another.
\<close>

definition CreateDungeonInstance :: "World \<Rightarrow> uint64 \<times> World" where
  "CreateDungeonInstance w =
     (let i = instanceIdGen w; r = DungeonRoom i;
          w1 = InitFromConfig r ''dungeon_forest'' (make_room r Dungeon 0 i (w\<lparr>instanceIdGen := i + 1\<rparr>));
          w2 = (if iteratingDungeons w1 \<and> rehashes w1 (length (dungeonInstances w1))
                then raise IteratorInvalidated w1 else w1)
      in (i, w2\<lparr>dungeonInstances := dungeonInstances w2 @ [i]\<rparr>))"

definition RemoveDungeonInstance :: "uint64 \<Rightarrow> World \<Rightarrow> World" where
  "RemoveDungeonInstance i w = w\<lparr>dungeonInstances := filter (\<lambda>j. j \<noteq> i) (dungeonInstances w)\<rparr>"

section \<open>Packet handlers of a room\<close>

definition Handle_C_Move :: "RoomRef \<Rightarrow> SessionId \<Rightarrow> int32 \<Rightarrow> World \<Rightarrow> World" where
  "Handle_C_Move r s dir w =
     (case session_player s w of
        None \<Rightarrow> w
      | Some pid \<Rightarrow>
          let p = the_player pid w
          in if i_state (info p) = MOVE then w
             else if \<not> DIR_TYPE_IsValid dir then w
             else if i_dir (info p) \<noteq> dir then
               (let p1 = set_state IDLE (set_dir dir p)
                in Broadcast r (S_Turn (info p1)) (put_player pid p1 w))
             else if \<not> CanGo r (GetFrontCellPos p) w then
               (let p1 = set_state IDLE p in Broadcast r (S_Move (info p1)) (put_player pid p1 w))
             else
               (let nextPos = GetFrontCellPos p; (now, w1) = tick w;
                    p1 = StartMove now 75 (set_pos nextPos (set_state MOVE p))
                in Broadcast r (S_Move (info p1)) (put_player pid p1 w1)))"

definition Handle_C_Turn :: "RoomRef \<Rightarrow> SessionId \<Rightarrow> int32 \<Rightarrow> World \<Rightarrow> World" where
  "Handle_C_Turn r s dir w =
     (case session_player s w of
        None \<Rightarrow> w
      | Some pid \<Rightarrow>
          let p = the_player pid w
          in if \<not> DIR_TYPE_IsValid dir then w
             else if i_dir (info p) = dir then w
             else (let p1 = set_state IDLE (set_dir dir p)
                   in Broadcast r (S_Turn (info p1)) (put_player pid p1 w)))"

definition Handle_C_Attack :: "RoomRef \<Rightarrow> SessionId \<Rightarrow> int32 \<Rightarrow> int32 \<Rightarrow> World \<Rightarrow> World" where
  "Handle_C_Attack r s dir weapon w =
     (case session_player s w of None \<Rightarrow> w | Some pid \<Rightarrow> HandleAttack r pid dir weapon w)"

definition refuse_change :: "SessionId \<Rightarrow> int32 \<Rightarrow> int32 \<Rightarrow> World \<Rightarrow> World" where
  "refuse_change s mapid ch w = send_packet s (S_ChangeMap False mapid ch 0) w"

text \<open>One player leaves for \<open>dest\<close>: told so, taken out of the room, and queued there.\<close>

definition move_out :: "RoomRef \<Rightarrow> RoomRef \<Rightarrow> int32 \<Rightarrow> int32 \<Rightarrow> uint64 \<Rightarrow> SessionId \<times> uint64 \<Rightarrow> World \<Rightarrow> World" where
  "move_out from dest mapid ch inst sp w =
     (case sp of (s, p) \<Rightarrow>
        PushJob dest (JobEnter s p) (LeaveRoom from s (send_packet s (S_ChangeMap True mapid ch inst) w)))"

definition party_to_move :: "RoomRef \<Rightarrow> Party \<Rightarrow> World \<Rightarrow> (SessionId \<times> uint64) list" where
  "party_to_move from p w =
     concat (map (\<lambda>m. case FindObject from m w of
        Some (RefPlayer i) \<Rightarrow> (case psession (the_player i w) of None \<Rightarrow> [] | Some s \<Rightarrow> [(s, i)])
      | _ \<Rightarrow> []) (memberIds p))"

definition Handle_C_ChangeMap :: "RoomRef \<Rightarrow> SessionId \<Rightarrow> int32 \<Rightarrow> int32 \<Rightarrow> World \<Rightarrow> World" where
  "Handle_C_ChangeMap from s mapid ch w =
     (case session_player s w of
        None \<Rightarrow> w
      | Some pid \<Rightarrow>
          let requesterId = i_objectid (info (the_player pid w))
          in if mapid = MAP_ID_DUNGEON \<and> IsInParty requesterId (party w) \<and> \<not> IsLeader requesterId (party w)
             then refuse_change s mapid ch w
             else
               let (inst, dest, w1) =
                     (if mapid = MAP_ID_TOWN then (0, GetStaticRoom Town ch w, w)
                      else if mapid = MAP_ID_DUNGEON then
                        (case CreateDungeonInstance w of (i, w') \<Rightarrow> (i, GetDungeonInstance i w', w'))
                      else (0, None, w))
               in case dest of
                    None \<Rightarrow> refuse_change s mapid ch w1
                  | Some dest \<Rightarrow>
                      (case (if mapid = MAP_ID_DUNGEON \<and> IsLeader requesterId (party w1)
                             then GetParty (GetPartyIdByPlayer requesterId (party w1)) (party w1) else None) of
                         Some p \<Rightarrow> fold (move_out from dest mapid ch inst) (party_to_move from p w1) w1
                       | None \<Rightarrow> move_out from dest mapid ch inst (s, pid) w1))"

section \<open>Parties\<close>

definition SendPartyUpdateFromRoom :: "RoomRef \<Rightarrow> uint64 \<Rightarrow> World \<Rightarrow> World" where
  "SendPartyUpdateFromRoom r gid w =
     (case GetParty gid (party w) of
        None \<Rightarrow> w
      | Some p \<Rightarrow>
          let pkt = S_PartyUpdate (map (\<lambda>m. member_info p m w (FindObject r m w)) (memberIds p))
          in fold (\<lambda>m w. case FindObject r m w of
                 Some (RefPlayer i) \<Rightarrow> (case psession (the_player i w) of None \<Rightarrow> w | Some s \<Rightarrow> send_packet s pkt w)
               | _ \<Rightarrow> w) (memberIds p) w)"

definition Job_PartyInvite :: "RoomRef \<Rightarrow> SessionId \<Rightarrow> uint64 \<Rightarrow> World \<Rightarrow> World" where
  "Job_PartyInvite r s targetId w =
     (case session_player s w of
        None \<Rightarrow> w
      | Some pid \<Rightarrow>
          let inviter = info (the_player pid w); inviterId = i_objectid inviter
          in if inviterId = targetId then w
             else if IsInParty inviterId (party w) \<and> \<not> IsLeader inviterId (party w) then w
             else if IsInParty targetId (party w) then w
             else if IsInParty inviterId (party w)
               \<and> (case GetParty (GetPartyIdByPlayer inviterId (party w)) (party w) of
                    None \<Rightarrow> False | Some p \<Rightarrow> int (length (memberIds p)) \<ge> MAX_PARTY_SIZE) then w
             else case FindObject r targetId w of
                    Some (RefPlayer t) \<Rightarrow>
                      (case psession (the_player t w) of
                         None \<Rightarrow> w | Some ts \<Rightarrow> send_packet ts (S_PartyInvite inviterId (i_name inviter)) w)
                  | _ \<Rightarrow> w)"

definition Job_PartyAnswer :: "RoomRef \<Rightarrow> SessionId \<Rightarrow> uint64 \<Rightarrow> bool \<Rightarrow> World \<Rightarrow> World" where
  "Job_PartyAnswer r s inviterId accept w =
     (case session_player s w of
        None \<Rightarrow> w
      | Some pid \<Rightarrow>
          let acceptor = info (the_player pid w); acceptorId = i_objectid acceptor
          in if \<not> accept then w
             else if IsInParty acceptorId (party w) then w
             else
               let known = GetPartyIdByPlayer inviterId (party w);
                   (gid, w1) =
                     (if known \<noteq> 0 then (known, w)
                      else case CreateParty inviterId (party w) of (i, pm) \<Rightarrow>
                        (if i = 0 then (0, w)
                         else (i, w\<lparr>party := (case FindObject r inviterId w of
                                  None \<Rightarrow> pm
                                | Some ref \<Rightarrow> set_member_name i inviterId (i_name (obj_info ref w)) pm)\<rparr>)))
               in if gid = 0 then w
                  else case AddMember gid acceptorId (party w1) of (ok, pm) \<Rightarrow>
                    (if \<not> ok then w1
                     else SendPartyUpdateFromRoom r gid
                            (w1\<lparr>party := set_member_name gid acceptorId (i_name acceptor) pm\<rparr>)))"

definition Job_PartyLeave :: "RoomRef \<Rightarrow> SessionId \<Rightarrow> World \<Rightarrow> World" where
  "Job_PartyLeave r s w =
     (case session_player s w of
        None \<Rightarrow> w
      | Some pid \<Rightarrow>
          let playerId = i_objectid (info (the_player pid w));
              gid = GetPartyIdByPlayer playerId (party w)
          in if gid = 0 then w
             else case GetParty gid (party w) of
                    None \<Rightarrow> w
                  | Some p \<Rightarrow>
                      let w1 = send_packet s S_PartyLeave (w\<lparr>party := RemoveMember gid playerId (party w)\<rparr>)
                      in if GetParty gid (party w1) \<noteq> None then SendPartyUpdateFromRoom r gid w1
                         else fold (\<lambda>m w. if m = playerId then w
                                else case FindObject r m w of
                                  Some (RefPlayer i) \<Rightarrow> (case psession (the_player i w) of
                                      None \<Rightarrow> w | Some t \<Rightarrow> send_packet t S_PartyLeave w)
                                | _ \<Rightarrow> w) (memberIds p) w1)"

section \<open>Jobs\<close>

fun run_packet :: "RoomRef \<Rightarrow> SessionId \<Rightarrow> cpacket \<Rightarrow> World \<Rightarrow> World" where
  "run_packet r s (C_Move dir) w = Handle_C_Move r s dir w"
| "run_packet r s (C_Turn dir) w = Handle_C_Turn r s dir w"
| "run_packet r s (C_Attack dir weapon) w = Handle_C_Attack r s dir weapon w"
| "run_packet r s (C_ChangeMap mapid ch) w = Handle_C_ChangeMap r s mapid ch w"
| "run_packet r s (C_EquipItem slot) w =
     (case session_player s w of None \<Rightarrow> w | Some pid \<Rightarrow> run_player pid (EquipItem (gdata w) slot) w)"
| "run_packet r s (C_UnequipItem t) w =
     (case session_player s w of None \<Rightarrow> w | Some pid \<Rightarrow> run_player pid (UnequipItem (gdata w) t) w)"
| "run_packet r s (C_UseItem slot) w =
     (case session_player s w of None \<Rightarrow> w | Some pid \<Rightarrow> run_player pid (UseItem (gdata w) slot) w)"
| "run_packet r s (C_PartyInvite t) w = Job_PartyInvite r s t w"
| "run_packet r s (C_PartyAnswer i a) w = Job_PartyAnswer r s i a w"
| "run_packet r s C_PartyLeave w = Job_PartyLeave r s w"
| "run_packet r s (C_Login n) w = w"
| "run_packet r s (C_Chat t m n) w = w"
| "run_packet r s C_GetRanking w = w"

fun run_job :: "RoomRef \<Rightarrow> job \<Rightarrow> World \<Rightarrow> World" where
  "run_job r (JobEnter s pid) w = EnterRoom r s pid w"
| "run_job r (JobLeave s) w = LeaveRoom r s w"
| "run_job r (JobPacket s c) w = run_packet r s c w"

definition pop_job :: "RoomRef \<Rightarrow> World \<Rightarrow> World" where
  "pop_job r = upd_room r (\<lambda>g. g\<lparr>running := tl (running g)\<rparr>)"

definition run_jobs :: "RoomRef \<Rightarrow> World \<Rightarrow> World" where
  "run_jobs r w =
     (let js = jobs (the_room r w)
      in fold (\<lambda>j w. pop_job r (run_job r j w)) js (upd_room r (\<lambda>g. g\<lparr>running := js, jobs := []\<rparr>) w))"

section \<open>The fixed-step update\<close>

definition kTickMs :: uint64 where "kTickMs = 50"
definition kMaxCatchUp :: nat where "kMaxCatchUp = 5"

text \<open>
  The three loops iterate over the maps as they are when the loop starts: no player or monster update
  changes a map, and an arrow's update removes at most that arrow and a monster.
\<close>

definition Step :: "RoomRef \<Rightarrow> World \<Rightarrow> World" where
  "Step r w =
     (let w1 = fold Player_Update (players (the_room r w)) w;
          w2 = fold Monster_Update (monsters (the_room r w1)) w1;
          w3 = fold Arrow_Update (projectiles (the_room r w2)) w2
      in Spawn_Tick r w3)"

fun catch_up :: "RoomRef \<Rightarrow> uint64 \<Rightarrow> nat \<Rightarrow> World \<Rightarrow> World" where
  "catch_up r now 0 w = w"
| "catch_up r now (Suc n) w =
     (if now \<ge> nextTick (the_room r w)
      then catch_up r now n (upd_room r (\<lambda>g. g\<lparr>nextTick := nextTick g + kTickMs\<rparr>) (Step r w))
      else w)"

definition Room_Update :: "uint64 \<Rightarrow> RoomRef \<Rightarrow> World \<Rightarrow> World" where
  "Room_Update now r w =
     (let w1 = run_jobs r w;
          w2 = upd_room r (\<lambda>g. if nextTick g = 0 then g\<lparr>nextTick := now + kTickMs\<rparr> else g) w1;
          w3 = catch_up r now kMaxCatchUp w2
      in upd_room r (\<lambda>g. if now \<ge> nextTick g then g\<lparr>nextTick := now + kTickMs\<rparr> else g) w3)"

text \<open>
  The dungeons are visited in the order of the table, which is unspecified in C++: here the order they were made in, over the
  table as it was before the loop.
\<close>

definition Manager_Update :: "uint64 \<Rightarrow> World \<Rightarrow> World" where
  "Manager_Update now w =
     (let w1 = fold (Room_Update now) (staticRooms w) w;
          w2 = fold (\<lambda>i. Room_Update now (DungeonRoom i)) (dungeonInstances w1) (w1\<lparr>iteratingDungeons := True\<rparr>);
          w3 = w2\<lparr>iteratingDungeons := False\<rparr>
      in (fold RemoveDungeonInstance (pendingRemoveDungeon w3) w3)\<lparr>pendingRemoveDungeon := []\<rparr>)"

end
