(* ===== verification/Sample.thy ===== *)
theory Sample
  imports PlayerData
begin

text \<open>
  Concrete inputs for the witnesses: the first rows of the shipped data sheets and a player with
  a potion stack, a sword in storage and another one equipped.
\<close>

definition sample_data :: RoomDataManager where
  "sample_data = RoomDataManager_empty
    \<lparr>levelData := [1 \<mapsto> \<lparr>ld_level = 1, ld_requiredExp = 0, ld_maxHp = 100, ld_attack = 20, ld_defence = 5\<rparr>,
        2 \<mapsto> \<lparr>ld_level = 2, ld_requiredExp = 100, ld_maxHp = 115, ld_attack = 22, ld_defence = 6\<rparr>,
        3 \<mapsto> \<lparr>ld_level = 3, ld_requiredExp = 200, ld_maxHp = 130, ld_attack = 24, ld_defence = 7\<rparr>],
     itemTemplates := [2001 \<mapsto> \<lparr>it_itemId = 2001, it_name = ''Potion_A'', it_type = ''consumable'',
          it_value = 50, it_maxStack = 99\<rparr>,
        3001 \<mapsto> \<lparr>it_itemId = 3001, it_name = ''Sword_A'', it_type = ''weapon'', it_value = 5, it_maxStack = 1\<rparr>,
        3002 \<mapsto> \<lparr>it_itemId = 3002, it_name = ''Sword_B'', it_type = ''weapon'', it_value = 10, it_maxStack = 1\<rparr>]\<rparr>"

definition sample_player :: Player where
  "sample_player = RecalcStats sample_data ((Player_new sample_data 1)
     \<lparr>storage := \<lparr>itemId = 2001, count = 3\<rparr> # \<lparr>itemId = 3002, count = 1\<rparr> # replicate 25 empty_slot,
      equipWeapon := \<lparr>itemId = 3001, count = 1\<rparr>, psession := Some 0\<rparr>)"

lemma sample_data_simps [simp]:
  "GetLevelData sample_data 1 = Some \<lparr>ld_level = 1, ld_requiredExp = 0, ld_maxHp = 100, ld_attack = 20, ld_defence = 5\<rparr>"
  "GetLevelData sample_data 2 = Some \<lparr>ld_level = 2, ld_requiredExp = 100, ld_maxHp = 115, ld_attack = 22, ld_defence = 6\<rparr>"
  "GetLevelData sample_data 3 = Some \<lparr>ld_level = 3, ld_requiredExp = 200, ld_maxHp = 130, ld_attack = 24, ld_defence = 7\<rparr>"
  "GetLevelData sample_data 4 = None"
  "GetItemTemplate sample_data 2001 = Some \<lparr>it_itemId = 2001, it_name = ''Potion_A'', it_type = ''consumable'',
     it_value = 50, it_maxStack = 99\<rparr>"
  "GetItemTemplate sample_data 3001 = Some \<lparr>it_itemId = 3001, it_name = ''Sword_A'', it_type = ''weapon'',
     it_value = 5, it_maxStack = 1\<rparr>"
  "GetItemTemplate sample_data 3002 = Some \<lparr>it_itemId = 3002, it_name = ''Sword_B'', it_type = ''weapon'',
     it_value = 10, it_maxStack = 1\<rparr>"
  by (simp_all add: sample_data_def GetLevelData_def GetItemTemplate_def RoomDataManager_empty_def)

lemma sample_player_simps [simp]:
  "storage sample_player = \<lparr>itemId = 2001, count = 3\<rparr> # \<lparr>itemId = 3002, count = 1\<rparr> # replicate 25 empty_slot"
  "equipWeapon sample_player = \<lparr>itemId = 3001, count = 1\<rparr>"
  "equipArmor sample_player = empty_slot" "equipPotion sample_player = empty_slot"
  "level sample_player = 1" "exp sample_player = 0" "psession sample_player = Some 0"
  "i_hp (info sample_player) = 100" "i_maxhp (info sample_player) = 100"
  "i_attack (info sample_player) = 25" "i_defence (info sample_player) = 5"
  "length (storage sample_player) = INVENTORY_SIZE"
  by (simp_all add: sample_player_def RecalcStats_def Player_new_def set_extra_def item_value_def
      INVENTORY_SIZE_def empty_slot_def in32_def)

end
