(* ===== verification/Player_Items.thy ===== *)
theory Player_Items
  imports Sample
begin

text \<open>
  What the inventory operations of \<open>Player\<close> promise: equipping and unequipping move items without
  creating or destroying any and leave the statistics consistent with the equipment, adding one
  item adds exactly one or changes nothing, and using one consumes exactly one. The save record
  carries everything that is needed to rebuild the player.
\<close>

section \<open>Slots\<close>

lemma find_slot_Some:
  "find_slot P xs = Some i \<Longrightarrow> i < length xs \<and> P (xs ! i) \<and> (\<forall>j < i. \<not> P (xs ! j))"
proof (induction xs arbitrary: i)
  case (Cons x xs)
  then show ?case by (auto split: if_splits simp: nth_Cons split: nat.split)
qed simp

lemma find_slot_None: "find_slot P xs = None \<longleftrightarrow> (\<forall>x \<in> set xs. \<not> P x)"
  by (induction xs) auto

lemma FindEmptySlot_cases:
  obtains (full) "FindEmptySlot p = -1" "\<forall>sl \<in> set (storage p). itemId sl \<noteq> 0"
  | (free) i where "FindEmptySlot p = int i" "i < length (storage p)" "itemId (storage p ! i) = 0"
proof (cases "find_slot (\<lambda>sl. itemId sl = 0) (storage p)")
  case None
  then have "FindEmptySlot p = -1" by (simp add: FindEmptySlot_def)
  moreover from None have "\<forall>sl \<in> set (storage p). itemId sl \<noteq> 0" by (simp add: find_slot_None)
  ultimately show ?thesis by (rule full)
next
  case (Some i)
  then show ?thesis using free [of i] find_slot_Some [OF Some] by (simp add: FindEmptySlot_def)
qed

definition slots :: "Player \<Rightarrow> InventorySlot list" where
  "slots p = equipWeapon p # equipArmor p # equipPotion p # storage p"

definition items :: "Player \<Rightarrow> InventorySlot multiset" where
  "items p = filter_mset (\<lambda>sl. itemId sl \<noteq> 0) (mset (slots p))"

definition amount_of :: "int32 \<Rightarrow> InventorySlot \<Rightarrow> int" where
  "amount_of iid sl = (if itemId sl = iid then count sl else 0)"

definition total :: "int32 \<Rightarrow> Player \<Rightarrow> int" where
  "total iid p = sum_list (map (amount_of iid) (slots p))"

lemma RecalcStats_frame [simp, frame_simps]:
  "storage (RecalcStats D p) = storage p" "equipWeapon (RecalcStats D p) = equipWeapon p"
  "equipArmor (RecalcStats D p) = equipArmor p" "equipPotion (RecalcStats D p) = equipPotion p"
  "level (RecalcStats D p) = level p" "exp (RecalcStats D p) = exp p"
  "psession (RecalcStats D p) = psession p" "in_room (RecalcStats D p) = in_room p"
  "i_hp (info (RecalcStats D p)) = i_hp (info p)"
  "i_maxhp (info (RecalcStats D p)) = i_maxhp (info p)"
  "i_name (info (RecalcStats D p)) = i_name (info p)"
  "i_extra (info (RecalcStats D p)) = i_extra (info p)"
  "i_objectid (info (RecalcStats D p)) = i_objectid (info p)"
  by (simp_all add: RecalcStats_def split: option.split)

lemma items_RecalcStats [simp]: "items (RecalcStats D p) = items p"
  by (simp add: items_def slots_def)

lemma mset_swap: "i < length xs \<Longrightarrow> add_mset (xs ! i) (mset (xs[i := y])) = add_mset y (mset xs)"
  by (simp add: mset_update)

lemma items_swap_slot:
  assumes "i < length (storage p)"
  shows "items ((set_equip e (storage p ! i) p)\<lparr>storage := (storage p)[i := get_equip e p]\<rparr>) = items p"
proof -
  have "mset (slots ((set_equip e (storage p ! i) p)\<lparr>storage := (storage p)[i := get_equip e p]\<rparr>))
    = mset (slots p)"
    using mset_swap [OF assms, of "get_equip e p"]
    by (cases e) (simp_all add: slots_def add_mset_commute [of "storage p ! i"] add_mset_commute [of "equipPotion p"]
        add_mset_commute [of "equipWeapon p" "equipArmor p"])
  then show ?thesis by (simp add: items_def)
qed

lemma items_move_slot:
  assumes "i < length (storage p)" "itemId (storage p ! i) = 0"
  shows "items (set_equip e empty_slot (p\<lparr>storage := (storage p)[i := get_equip e p]\<rparr>)) = items p"
proof -
  let ?f = "filter_mset (\<lambda>sl. itemId sl \<noteq> 0)"
  have "?f (add_mset (storage p ! i) (mset ((storage p)[i := get_equip e p])))
      = ?f (add_mset (get_equip e p) (mset (storage p)))"
    using mset_swap [OF assms(1)] by simp
  then have "?f (mset ((storage p)[i := get_equip e p]))
      = (if itemId (get_equip e p) = 0 then {#} else {#get_equip e p#}) + ?f (mset (storage p))"
    using assms(2) by simp
  then show ?thesis
    by (cases e) (simp_all add: items_def slots_def empty_slot_def add_mset_commute)
qed

section \<open>Equipment\<close>

definition stats_ok :: "RoomDataManager \<Rightarrow> Player \<Rightarrow> bool" where
  "stats_ok D p = (case GetLevelData D (level p) of
     None \<Rightarrow> True
   | Some ld \<Rightarrow> i_attack (info p) = wrap32 (ld_attack ld + item_value D (equipWeapon p))
       \<and> i_defence (info p) = wrap32 (ld_defence ld + item_value D (equipArmor p)))"

lemma stats_ok_RecalcStats [simp]: "stats_ok D (RecalcStats D p)"
  by (simp add: stats_ok_def RecalcStats_def split: option.split)

lemma EquipItem_cases:
  obtains (none) "EquipItem D slot p = (p, [])"
  | (equip) i e tmpl where "slot = int i" "i < INVENTORY_SIZE" "itemId (storage p ! i) \<noteq> 0"
      "GetItemTemplate D (itemId (storage p ! i)) = Some tmpl" "equip_of_item (it_type tmpl) = Some e"
      "fst (EquipItem D slot p)
        = RecalcStats D ((set_equip e (storage p ! i) p)\<lparr>storage := (storage p)[i := get_equip e p]\<rparr>)"
proof (cases "EquipItem D slot p = (p, [])")
  case False
  have st: "storage (set_equip e sl p) = storage p" for e sl by (cases e) simp_all
  from False have s: "0 \<le> slot" "slot < int INVENTORY_SIZE" "itemId (storage p ! nat slot) \<noteq> 0"
    by (auto simp: EquipItem_def split: if_splits)
  with False obtain tmpl where t: "GetItemTemplate D (itemId (storage p ! nat slot)) = Some tmpl"
    by (cases "GetItemTemplate D (itemId (storage p ! nat slot))") (simp_all add: EquipItem_def)
  with False s obtain e where e: "equip_of_item (it_type tmpl) = Some e"
    by (cases "equip_of_item (it_type tmpl)") (simp_all add: EquipItem_def)
  show ?thesis
    by (rule equip [of "nat slot" tmpl e]) (use s t e in \<open>simp_all add: EquipItem_def Let_def st\<close>)
qed simp

lemma UnequipItem_cases:
  obtains (none) "UnequipItem D t p = (p, [])"
  | (unequip) i e where "equip_of_type t = Some e" "itemId (get_equip e p) \<noteq> 0"
      "i < length (storage p)" "itemId (storage p ! i) = 0"
      "fst (UnequipItem D t p)
        = RecalcStats D (set_equip e empty_slot (p\<lparr>storage := (storage p)[i := get_equip e p]\<rparr>))"
proof (cases "UnequipItem D t p = (p, [])")
  case False
  then obtain e where e: "equip_of_type t = Some e" "itemId (get_equip e p) \<noteq> 0"
    by (auto simp: UnequipItem_def split: option.splits if_splits)
  show ?thesis
  proof (cases rule: FindEmptySlot_cases [of p])
    case full
    with e False show ?thesis by (simp add: UnequipItem_def)
  next
    case (free i)
    with e show ?thesis by (intro unequip [of e i]) (simp_all add: UnequipItem_def Let_def)
  qed
qed simp

lemma length_storage_equip:
  "length (storage (fst (EquipItem D s p))) = length (storage p)"
  "length (storage (fst (UnequipItem D t p))) = length (storage p)"
proof -
  have st: "storage (set_equip e sl p) = storage p" for e sl and p :: Player by (cases e) simp_all
  show "length (storage (fst (EquipItem D s p))) = length (storage p)"
    by (cases rule: EquipItem_cases [of D s p]) (simp_all add: st)
  show "length (storage (fst (UnequipItem D t p))) = length (storage p)"
    by (cases rule: UnequipItem_cases [of D t p]) (simp_all add: st)
qed

text \<open>
  C19. Equipping and unequipping conserve the items a player holds: whatever slot or equipment
  type a client names, the multiset of occupied slots over storage and equipment is unchanged,
  and if the statistics matched the equipment before they match it afterwards.
\<close>

theorem equipment_conserves_items:
  assumes "length (storage p) = INVENTORY_SIZE"
  shows "items (fst (EquipItem D slot p)) = items p \<and> items (fst (UnequipItem D t p)) = items p
    \<and> (stats_ok D p \<longrightarrow> stats_ok D (fst (EquipItem D slot p)) \<and> stats_ok D (fst (UnequipItem D t p)))"
proof -
  have "items (fst (EquipItem D slot p)) = items p \<and> (stats_ok D p \<longrightarrow> stats_ok D (fst (EquipItem D slot p)))"
    using items_swap_slot assms by (cases rule: EquipItem_cases [of D slot p]) simp_all
  moreover have "items (fst (UnequipItem D t p)) = items p
      \<and> (stats_ok D p \<longrightarrow> stats_ok D (fst (UnequipItem D t p)))"
    using items_move_slot by (cases rule: UnequipItem_cases [of D t p]) simp_all
  ultimately show ?thesis by blast
qed

section \<open>Adding and using items\<close>

lemma sum_list_map_update:
  fixes f :: "'a \<Rightarrow> int"
  assumes "i < length xs"
  shows "sum_list (map f (xs[i := y])) = sum_list (map f xs) - f (xs ! i) + f y"
  using assms
proof (induction xs arbitrary: i)
  case (Cons x xs)
  then show ?case by (cases i) simp_all
qed simp

lemma total_storage_update:
  "i < length (storage p) \<Longrightarrow>
    total j (p\<lparr>storage := (storage p)[i := y]\<rparr>) = total j p - amount_of j (storage p ! i) + amount_of j y"
  by (simp add: total_def slots_def sum_list_map_update)

definition stack_with_room :: "ItemTemplateData \<Rightarrow> int32 \<Rightarrow> InventorySlot \<Rightarrow> bool" where
  "stack_with_room tmpl iid sl \<longleftrightarrow> it_maxStack tmpl > 1 \<and> itemId sl = iid \<and> count sl < it_maxStack tmpl"

definition has_room :: "RoomDataManager \<Rightarrow> int32 \<Rightarrow> Player \<Rightarrow> bool" where
  "has_room D iid p = (case GetItemTemplate D iid of
     None \<Rightarrow> False
   | Some tmpl \<Rightarrow> (\<exists>sl \<in> set (storage p). itemId sl = 0 \<or> stack_with_room tmpl iid sl))"

lemma stack_search:
  "(if it_maxStack tmpl > 1
    then find_slot (\<lambda>sl. itemId sl = iid \<and> count sl < it_maxStack tmpl) xs else None)
   = find_slot (stack_with_room tmpl iid) xs"
  by (induction xs) (auto simp: stack_with_room_def)

lemma AddItem_cases:
  obtains (refused) "AddItem D iid n p = (False, p, [])" "\<not> has_room D iid p"
  | (stacked) tmpl i where "GetItemTemplate D iid = Some tmpl" "i < length (storage p)" "has_room D iid p"
      "stack_with_room tmpl iid (storage p ! i)"
      "fst (AddItem D iid n p)" "fst (snd (AddItem D iid n p)) = p\<lparr>storage := (storage p)
         [i := (storage p ! i)\<lparr>count := min (wrap32 (count (storage p ! i) + n)) (it_maxStack tmpl)\<rparr>]\<rparr>"
  | (fresh) i where "i < length (storage p)" "has_room D iid p" "itemId (storage p ! i) = 0"
      "fst (AddItem D iid n p)"
      "fst (snd (AddItem D iid n p)) = p\<lparr>storage := (storage p)[i := \<lparr>itemId = iid, count = n\<rparr>]\<rparr>"
proof (cases "GetItemTemplate D iid")
  case None
  then show ?thesis by (intro refused) (simp_all add: AddItem_def has_room_def)
next
  case (Some tmpl)
  show ?thesis
  proof (cases "find_slot (stack_with_room tmpl iid) (storage p)")
    case (Some i)
    note f = find_slot_Some [OF this]
    have "has_room D iid p"
      using f \<open>GetItemTemplate D iid = Some tmpl\<close> by (auto simp: has_room_def intro: nth_mem)
    then show ?thesis
      using f Some \<open>GetItemTemplate D iid = Some tmpl\<close>
      by (intro stacked [of tmpl i]) (simp_all add: AddItem_def stack_search Let_def)
  next
    case None
    note n = None [unfolded find_slot_None]
    show ?thesis
    proof (cases rule: FindEmptySlot_cases [of p])
      case full
      with n None Some show ?thesis
        by (intro refused) (auto simp: AddItem_def stack_search has_room_def)
    next
      case (free i)
      then have "has_room D iid p" using Some by (auto simp: has_room_def intro: nth_mem)
      with free None Some show ?thesis
        by (intro fresh [of i]) (simp_all add: AddItem_def stack_search Let_def)
    qed
  qed
qed

text \<open>
  Picking up one item adds exactly one or changes nothing: \<open>AddItem\<close> of a single item succeeds
  iff its template is known and a stack below its limit or an empty slot exists; then the total
  of that item over all slots grows by one and every other total is unchanged, and otherwise the
  player is unchanged and nothing is sent.
\<close>

theorem AddItem_one:
  assumes "\<forall>sl \<in> set (storage p). in32 (count sl)" "\<forall>tmpl. GetItemTemplate D iid = Some tmpl \<longrightarrow> in32 (it_maxStack tmpl)"
    and "iid \<noteq> 0" "AddItem D iid 1 p = (ok, p', effs)"
  shows "(ok \<longleftrightarrow> has_room D iid p)
    \<and> (\<forall>j. j \<noteq> 0 \<longrightarrow> total j p' = total j p + of_bool (ok \<and> j = iid))
    \<and> (\<not> ok \<longrightarrow> p' = p \<and> effs = [])"
proof (cases rule: AddItem_cases [of D iid 1 p])
  case refused
  with assms show ?thesis by simp
next
  case (stacked tmpl i)
  let ?c = "count (storage p ! i)"
  have c: "in32 ?c" "?c < it_maxStack tmpl" "in32 (it_maxStack tmpl)" "itemId (storage p ! i) = iid"
    using stacked assms by (simp_all add: stack_with_room_def)
  then have "in32 (?c + 1)" by (auto simp: in32_def)
  with c have m: "min (wrap32 (?c + 1)) (it_maxStack tmpl) = ?c + 1" by simp
  from stacked(5) assms(4) have ok: "ok" by simp
  from stacked(6) assms(4) have p': "p' = p\<lparr>storage := (storage p)[i := (storage p ! i)\<lparr>count := ?c + 1\<rparr>]\<rparr>"
    unfolding m by simp
  have "total j p' = total j p + of_bool (j = iid)" for j
    unfolding p' total_storage_update [OF stacked(2)] using c by (simp add: amount_of_def)
  with ok stacked show ?thesis by simp
next
  case (fresh i)
  with assms(4) have ok: "ok" and p': "p' = p\<lparr>storage := (storage p)[i := \<lparr>itemId = iid, count = 1\<rparr>]\<rparr>"
    by simp_all
  have "total j p' = total j p + of_bool (j = iid)" if "j \<noteq> 0" for j
    unfolding p' total_storage_update [OF fresh(1)] using fresh that by (simp add: amount_of_def)
  with ok fresh show ?thesis by simp
qed

text \<open>When \<open>UseItem\<close> does something.\<close>

definition usable :: "RoomDataManager \<Rightarrow> int32 \<Rightarrow> Player \<Rightarrow> bool" where
  "usable D slot p \<longleftrightarrow> (slot = -1 \<or> 0 \<le> slot \<and> slot < int INVENTORY_SIZE)
     \<and> itemId (slot_at slot p) \<noteq> 0
     \<and> (case GetItemTemplate D (itemId (slot_at slot p)) of
          None \<Rightarrow> False | Some tmpl \<Rightarrow> it_type tmpl = ''consumable'')"

lemma UseItem_unusable: "\<not> usable D slot p \<Longrightarrow> UseItem D slot p = (p, [])"
  by (auto simp: usable_def UseItem_def Let_def split: option.split)

definition used_slot :: "InventorySlot \<Rightarrow> InventorySlot" where
  "used_slot sl = (if wrap32 (count sl - 1) \<le> 0 then empty_slot else sl\<lparr>count := wrap32 (count sl - 1)\<rparr>)"

lemma UseItem_usable:
  assumes "usable D slot p"
  obtains tmpl where "GetItemTemplate D (itemId (slot_at slot p)) = Some tmpl"
    "fst (UseItem D slot p) = put_slot slot (used_slot (slot_at slot p))
      (p\<lparr>info := (info p)\<lparr>i_hp := min (wrap32 (i_hp (info p) + it_value tmpl)) (i_maxhp (info p))\<rparr>\<rparr>)"
proof -
  from assms obtain tmpl where "GetItemTemplate D (itemId (slot_at slot p)) = Some tmpl"
    by (auto simp: usable_def split: option.splits)
  with assms show ?thesis
    by (intro that [of tmpl]) (auto simp: usable_def UseItem_def Let_def used_slot_def)
qed

lemma total_put_slot:
  assumes "length (storage p) = INVENTORY_SIZE" "slot = -1 \<or> 0 \<le> slot \<and> slot < int INVENTORY_SIZE"
  shows "total j (put_slot slot y p) = total j p - amount_of j (slot_at slot p) + amount_of j y"
proof (cases "slot = -1")
  case True
  then show ?thesis by (simp add: put_slot_def slot_at_def total_def slots_def)
next
  case False
  with assms show ?thesis
    by (simp add: put_slot_def slot_at_def total_storage_update nat_less_iff)
qed

lemma slots_slot_at:
  "length (storage p) = INVENTORY_SIZE \<Longrightarrow> slot = -1 \<or> 0 \<le> slot \<and> slot < int INVENTORY_SIZE \<Longrightarrow>
    slot_at slot p \<in> set (slots p)"
  by (auto simp: slot_at_def slots_def intro!: nth_mem)

lemma total_info [simp]: "total j (p\<lparr>info := i\<rparr>) = total j p"
  by (simp add: total_def slots_def)

lemma slot_at_info [simp]: "slot_at slot (p\<lparr>info := i\<rparr>) = slot_at slot p"
  by (simp add: slot_at_def)

text \<open>
  Using an item consumes exactly one of it: for a usable slot the total of its item drops by
  one, every other total is unchanged, and the health becomes the healed one, never above the
  maximum. Any other slot number, an empty slot or an item that is not a consumable leaves the
  player as it is and sends nothing.
\<close>

lemma UseItem_consumes_one:
  assumes "length (storage p) = INVENTORY_SIZE"
    and "\<forall>sl \<in> set (slots p). itemId sl \<noteq> 0 \<longrightarrow> 1 \<le> count sl \<and> in32 (count sl)"
  shows "if usable D slot p
    then (\<forall>j. j \<noteq> 0 \<longrightarrow> total j (fst (UseItem D slot p)) = total j p - of_bool (j = itemId (slot_at slot p)))
      \<and> (\<exists>tmpl. GetItemTemplate D (itemId (slot_at slot p)) = Some tmpl
          \<and> i_hp (info (fst (UseItem D slot p)))
            = min (wrap32 (i_hp (info p) + it_value tmpl)) (i_maxhp (info p)))
    else UseItem D slot p = (p, [])"
proof (cases "usable D slot p")
  case True
  then have u: "slot = -1 \<or> 0 \<le> slot \<and> slot < int INVENTORY_SIZE" "itemId (slot_at slot p) \<noteq> 0"
    by (simp_all add: usable_def)
  from assms(2) slots_slot_at [OF assms(1) u(1)] u(2)
  have c: "1 \<le> count (slot_at slot p)" "in32 (count (slot_at slot p))" by blast+
  then have "in32 (count (slot_at slot p) - 1)" by (simp add: in32_def)
  then have a: "amount_of j (used_slot (slot_at slot p))
      = amount_of j (slot_at slot p) - of_bool (j = itemId (slot_at slot p))" if "j \<noteq> 0" for j
    using c that by (simp add: used_slot_def amount_of_def empty_slot_def)
  from UseItem_usable [OF True] obtain tmpl where t: "GetItemTemplate D (itemId (slot_at slot p)) = Some tmpl"
    and U: "fst (UseItem D slot p) = put_slot slot (used_slot (slot_at slot p))
      (p\<lparr>info := (info p)\<lparr>i_hp := min (wrap32 (i_hp (info p) + it_value tmpl)) (i_maxhp (info p))\<rparr>\<rparr>)" .
  have "total j (fst (UseItem D slot p)) = total j p - of_bool (j = itemId (slot_at slot p))" if "j \<noteq> 0" for j
    unfolding U using a [OF that] assms(1) u(1) by (simp add: total_put_slot)
  moreover have "i_hp (info (fst (UseItem D slot p)))
      = min (wrap32 (i_hp (info p) + it_value tmpl)) (i_maxhp (info p))"
    unfolding U by (simp add: put_slot_def)
  ultimately show ?thesis using True t by simp
qed (simp add: UseItem_unusable)

section \<open>Saving and loading\<close>

text \<open>
  A save record restores the player: loading a record whose health does not exceed its level's
  maximum and saving again gives the same record, and the loaded player's maximum health,
  statistics and level display follow from the level table and its equipment.
\<close>

lemma save_roundtrip:
  assumes "GetLevelData D (sd_level data) = Some ld" "sd_hp data \<le> ld_maxHp ld"
  shows "ToSaveData (ApplyFromSaveData D data p) = data
    \<and> i_maxhp (info (ApplyFromSaveData D data p)) = ld_maxHp ld
    \<and> stats_ok D (ApplyFromSaveData D data p)
    \<and> i_extra (info (ApplyFromSaveData D data p)) = ExtraPlayer \<lparr>pe_level = sd_level data,
        pe_exp = sd_exp data, pe_maxexp = GetMaxExp D (ApplyFromSaveData D data p)\<rparr>"
  using assms
  by (simp add: ApplyFromSaveData_def ToSaveData_def set_extra_def stats_ok_def RecalcStats_def
      Let_def GetMaxExp_def)

section \<open>On the sample player\<close>

theorem equipment_conserves_items_witness:
  "items (fst (EquipItem sample_data 1 sample_player)) = items sample_player
    \<and> equipWeapon (fst (EquipItem sample_data 1 sample_player)) = \<lparr>itemId = 3002, count = 1\<rparr>"
  using equipment_conserves_items [of sample_player sample_data 1]
  by (simp add: EquipItem_def INVENTORY_SIZE_def equip_of_item_def Let_def)

theorem AddItem_one_witness:
  "total 2001 (fst (snd (AddItem sample_data 2001 1 sample_player))) = total 2001 sample_player + 1"
proof -
  obtain ok p' effs where a: "AddItem sample_data 2001 1 sample_player = (ok, p', effs)"
    by (metis prod_cases3)
  have "has_room sample_data 2001 sample_player" by (simp add: has_room_def stack_with_room_def)
  with AddItem_one [OF _ _ _ a] show ?thesis by (simp add: a in32_def empty_slot_def)
qed

lemma UseItem_at_sample:
  "total 2001 (fst (UseItem sample_data 0 sample_player)) = total 2001 sample_player - 1"
proof -
  have "usable sample_data 0 sample_player"
    by (simp add: usable_def slot_at_def INVENTORY_SIZE_def)
  with UseItem_consumes_one [of sample_player sample_data 0]
  show ?thesis by (simp add: slots_def in32_def empty_slot_def slot_at_def INVENTORY_SIZE_def)
qed

lemma save_at_sample:
  "ToSaveData (ApplyFromSaveData sample_data (PlayerSaveData_default\<lparr>sd_level := 2\<rparr>) sample_player)
    = PlayerSaveData_default\<lparr>sd_level := 2\<rparr>"
  using save_roundtrip [of sample_data "PlayerSaveData_default\<lparr>sd_level := 2\<rparr>"]
  by (simp add: PlayerSaveData_default_def)

end
