(* ===== verification/Player_Progress.thy ===== *)
theory Player_Progress
  imports Player_Items
begin

text \<open>
  Experience and levels: \<open>GainExp\<close> trades experience for levels without losing any, stops below
  the next threshold and never passes level 30, and every operation on a player keeps the
  invariant a fresh player starts with.
\<close>

section \<open>Thresholds\<close>

text \<open>The experience \<open>GetMaxExp\<close> asks for at a level, and what the levels in between cost.\<close>

definition required :: "RoomDataManager \<Rightarrow> int \<Rightarrow> int" where
  "required D l = (case GetLevelData D (l + 1) of Some ld \<Rightarrow> ld_requiredExp ld | None \<Rightarrow> 0)"

definition spent :: "RoomDataManager \<Rightarrow> int \<Rightarrow> int \<Rightarrow> int" where
  "spent D l m = sum_list (map (required D) [l..m - 1])"

lemma spent_same [simp]: "spent D l l = 0"
  by (simp add: spent_def)

lemma spent_step: "l < m \<Longrightarrow> spent D l m = required D l + spent D (l + 1) m"
  using upto.simps [of l "m - 1"] by (simp add: spent_def)

lemma GetMaxExp_required: "in32 (level p + 1) \<Longrightarrow> GetMaxExp D p = required D (level p)"
  by (simp add: GetMaxExp_def required_def)

section \<open>Levelling up\<close>

lemma ApplyLevelStats_frame [simp]:
  "storage (ApplyLevelStats D d p) = storage p" "equipWeapon (ApplyLevelStats D d p) = equipWeapon p"
  "equipArmor (ApplyLevelStats D d p) = equipArmor p" "equipPotion (ApplyLevelStats D d p) = equipPotion p"
  "level (ApplyLevelStats D d p) = level p" "exp (ApplyLevelStats D d p) = exp p"
  "i_maxhp (info (ApplyLevelStats D d p)) = ld_maxHp d"
  by (simp_all add: ApplyLevelStats_def)

lemma set_extra_frame [simp]:
  "storage (set_extra D p) = storage p" "equipWeapon (set_extra D p) = equipWeapon p"
  "equipArmor (set_extra D p) = equipArmor p" "equipPotion (set_extra D p) = equipPotion p"
  "level (set_extra D p) = level p" "exp (set_extra D p) = exp p"
  "i_maxhp (info (set_extra D p)) = i_maxhp (info p)" "i_hp (info (set_extra D p)) = i_hp (info p)"
  "i_attack (info (set_extra D p)) = i_attack (info p)"
  "i_defence (info (set_extra D p)) = i_defence (info p)"
  by (simp_all add: set_extra_def)

lemma ProcessLevelUp_frame [simp, frame_simps]:
  "exp (fst (ProcessLevelUp D p)) = exp p" "storage (fst (ProcessLevelUp D p)) = storage p"
  "equipWeapon (fst (ProcessLevelUp D p)) = equipWeapon p"
  "equipArmor (fst (ProcessLevelUp D p)) = equipArmor p"
  "equipPotion (fst (ProcessLevelUp D p)) = equipPotion p"
  "i_hp (info (fst (ProcessLevelUp D p))) = i_maxhp (info (fst (ProcessLevelUp D p)))"
  by (simp_all add: ProcessLevelUp_def Let_def split: option.split)

lemma LevelUp_loop_levels:
  assumes "LevelUp_loop D p effs = (p', effs')" "1 \<le> level p" "level p \<le> MAX_LEVEL" "0 \<le> exp p"
  shows "level p \<le> level p' \<and> level p' \<le> MAX_LEVEL \<and> 0 \<le> exp p'
    \<and> exp p' + spent D (level p) (level p') = exp p
    \<and> (level p' < MAX_LEVEL \<longrightarrow> required D (level p') \<le> 0 \<or> exp p' < required D (level p'))
    \<and> storage p' = storage p \<and> equipWeapon p' = equipWeapon p \<and> equipArmor p' = equipArmor p
    \<and> equipPotion p' = equipPotion p"
  using assms
proof (induction D p effs rule: LevelUp_loop.induct)
  case (1 D p effs)
  have m: "GetMaxExp D p = required D (level p)"
    using "1.prems" by (intro GetMaxExp_required) (simp add: in32_def MAX_LEVEL_def)
  show ?case
  proof (cases "level p < MAX_LEVEL \<and> \<not> (required D (level p) \<le> 0 \<or> exp p < required D (level p))")
    case False
    with "1.prems" show ?thesis by (subst (asm) LevelUp_loop.simps) (auto simp: m split: if_splits)
  next
    case True
    define up where "up = ProcessLevelUp D (p\<lparr>exp := exp p - required D (level p)\<rparr>)"
    have l: "level (fst up) = level p + 1" "exp (fst up) = exp p - required D (level p)"
      "storage (fst up) = storage p" "equipWeapon (fst up) = equipWeapon p"
      "equipArmor (fst up) = equipArmor p" "equipPotion (fst up) = equipPotion p"
      by (simp_all add: up_def)
    from True "1.prems"(1) have "LevelUp_loop D (fst up) (effs @ snd up) = (p', effs')"
      by (subst (asm) LevelUp_loop.simps) (simp add: m up_def Let_def)
    with "1.IH" [of "required D (level p)" up] True "1.prems" l
    show ?thesis using spent_step [of "level p" "level p'" D] by (simp add: m up_def)
  qed
qed

text \<open>
  C17. Experience is conserved: below level 30, where the code ignores gains, and without overflow, a gain of \<open>amount\<close> ends at a level between the old one and 30, with
  the experience left over plus the cost of every level gained equal to the experience before
  plus the gain, and below the next threshold unless the top level or the end of the level table
  is reached. Nothing in the inventory changes, and the client is told the final experience.
\<close>

theorem GainExp_conserves_exp:
  assumes "1 \<le> level p" "level p < MAX_LEVEL" "0 \<le> exp p" "0 < amount" "in32 (exp p + amount)"
    and "GainExp D amount p = (p', effs)"
  shows "level p \<le> level p' \<and> level p' \<le> MAX_LEVEL
    \<and> exp p' + spent D (level p) (level p') = exp p + amount \<and> 0 \<le> exp p'
    \<and> (level p' < MAX_LEVEL \<longrightarrow> required D (level p') \<le> 0 \<or> exp p' < required D (level p'))
    \<and> slots p' = slots p
    \<and> (\<forall>s. psession p' = Some s \<longrightarrow>
         last effs = ToSession s (S_GainExp (i_objectid (info p')) amount (exp p') (GetMaxExp D p')))"
proof -
  obtain q effs1 where q: "LevelUp_loop D (p\<lparr>exp := exp p + amount\<rparr>) [] = (q, effs1)" by fastforce
  from LevelUp_loop_levels [OF q] assms
  have loop: "level p \<le> level q \<and> level q \<le> MAX_LEVEL \<and> 0 \<le> exp q
    \<and> exp q + spent D (level p) (level q) = exp p + amount
    \<and> (level q < MAX_LEVEL \<longrightarrow> required D (level q) \<le> 0 \<or> exp q < required D (level q))
    \<and> storage q = storage p \<and> equipWeapon q = equipWeapon p \<and> equipArmor q = equipArmor p
    \<and> equipPotion q = equipPotion p"
    by simp
  from assms q have p': "level p' = level q" "exp p' = exp q" "storage p' = storage q"
      "equipWeapon p' = equipWeapon q" "equipArmor p' = equipArmor q" "equipPotion p' = equipPotion q"
      "psession p' = psession q" "i_objectid (info p') = i_objectid (info q)" "GetMaxExp D p' = GetMaxExp D q"
    and e: "effs = effs1 @ send q (S_GainExp (i_objectid (info q)) amount (exp q) (GetMaxExp D q))"
    by (auto simp: GainExp_def GetMaxExp_def)
  show ?thesis using loop by (simp add: p' e slots_def send_def)
qed

section \<open>The invariant of a player\<close>

text \<open>What the game tables must give: levels 1 to 30 with sensible rows, items that do not harm.\<close>

definition level_row_ok :: "LevelData \<Rightarrow> bool" where
  "level_row_ok ld \<longleftrightarrow> 0 < ld_maxHp ld \<and> ld_maxHp ld \<le> 1000000
     \<and> in32 (ld_attack ld) \<and> in32 (ld_defence ld)"

definition tables_ok :: "RoomDataManager \<Rightarrow> bool" where
  "tables_ok D \<longleftrightarrow> (\<forall>l ld. GetLevelData D l = Some ld \<longrightarrow> level_row_ok ld)
     \<and> (\<forall>i it. GetItemTemplate D i = Some it \<longrightarrow> 0 \<le> it_value it \<and> it_value it \<le> 1000000)"

definition player_inv :: "RoomDataManager \<Rightarrow> Player \<Rightarrow> bool" where
  "player_inv D p \<longleftrightarrow> 1 \<le> level p \<and> level p \<le> MAX_LEVEL
     \<and> 0 \<le> i_hp (info p) \<and> i_hp (info p) \<le> i_maxhp (info p) \<and> i_maxhp (info p) \<le> 1000000
     \<and> length (storage p) = INVENTORY_SIZE \<and> stats_ok D p"

datatype player_op =
    OpGainExp int32
  | OpAddItem int32 int32
  | OpEquip int32
  | OpUnequip int32
  | OpUse int32
  | OpDamaged int32
  | OpRevive
  | OpLoad PlayerSaveData

definition op_player :: "RoomDataManager \<Rightarrow> player_op \<Rightarrow> Player \<Rightarrow> Player" where
  "op_player D op p = (case op of
     OpGainExp n \<Rightarrow> fst (GainExp D n p)
   | OpAddItem i n \<Rightarrow> fst (snd (AddItem D i n p))
   | OpEquip s \<Rightarrow> fst (EquipItem D s p)
   | OpUnequip t \<Rightarrow> fst (UnequipItem D t p)
   | OpUse s \<Rightarrow> fst (UseItem D s p)
   | OpDamaged n \<Rightarrow> snd (OnDamaged n p)
   | OpRevive \<Rightarrow> p\<lparr>info := (info p)\<lparr>i_hp := i_maxhp (info p)\<rparr>\<rparr>
   | OpLoad d \<Rightarrow> ApplyFromSaveData D d p)"

text \<open>The arguments an operation may get: machine integers, and a save record of an existing level.\<close>

definition op_ok :: "RoomDataManager \<Rightarrow> player_op \<Rightarrow> bool" where
  "op_ok D op = (case op of
     OpDamaged n \<Rightarrow> in32 n
   | OpLoad d \<Rightarrow> 1 \<le> sd_level d \<and> sd_level d \<le> MAX_LEVEL \<and> GetLevelData D (sd_level d) \<noteq> None
       \<and> 0 \<le> sd_hp d \<and> length (sd_storage d) = INVENTORY_SIZE
   | _ \<Rightarrow> True)"

lemma stats_ok_cong:
  "stats_ok D p \<Longrightarrow> level q = level p \<Longrightarrow> equipWeapon q = equipWeapon p \<Longrightarrow> equipArmor q = equipArmor p \<Longrightarrow>
    i_attack (info q) = i_attack (info p) \<Longrightarrow> i_defence (info q) = i_defence (info p) \<Longrightarrow> stats_ok D q"
  by (simp add: stats_ok_def split: option.splits)

lemma ProcessLevelUp_inv:
  assumes "tables_ok D" "player_inv D p" "level p < MAX_LEVEL"
  shows "player_inv D (fst (ProcessLevelUp D p))"
proof (cases "GetLevelData D (level p + 1)")
  case None
  with assms show ?thesis
    by (simp add: player_inv_def ProcessLevelUp_def Let_def stats_ok_def)
next
  case (Some ld)
  let ?q = "ApplyLevelStats D ld (p\<lparr>level := level p + 1\<rparr>)"
  have s: "stats_ok D ?q" by (simp add: ApplyLevelStats_def)
  have q: "fst (ProcessLevelUp D p) = set_extra D (?q\<lparr>info := (info ?q)\<lparr>i_hp := i_maxhp (info ?q)\<rparr>\<rparr>)"
    using Some by (simp add: ProcessLevelUp_def Let_def)
  have "stats_ok D (fst (ProcessLevelUp D p))"
    unfolding q by (rule stats_ok_cong [OF s]) simp_all
  moreover have "level_row_ok ld" using assms(1) Some by (auto simp: tables_ok_def)
  ultimately show ?thesis using assms(2,3)
    by (simp add: player_inv_def level_row_ok_def q)
qed

lemma player_inv_exp [simp]: "player_inv D (p\<lparr>exp := n\<rparr>) = player_inv D p"
  by (simp add: player_inv_def stats_ok_def split: option.split)

lemma LevelUp_loop_inv:
  "tables_ok D \<Longrightarrow> player_inv D p \<Longrightarrow> player_inv D (fst (LevelUp_loop D p effs))"
proof (induction D p effs rule: LevelUp_loop.induct)
  case (1 D p effs)
  show ?case
  proof (cases "level p < MAX_LEVEL \<and> \<not> (GetMaxExp D p \<le> 0 \<or> exp p < GetMaxExp D p)")
    case False
    with "1.prems" show ?thesis by (subst LevelUp_loop.simps) (auto simp: Let_def)
  next
    case True
    with "1.prems" ProcessLevelUp_inv [of D "p\<lparr>exp := exp p - GetMaxExp D p\<rparr>"]
    have "player_inv D (fst (ProcessLevelUp D (p\<lparr>exp := exp p - GetMaxExp D p\<rparr>)))" by simp
    with True "1.IH" [OF _ refl _ refl] "1.prems" show ?thesis
      by (subst LevelUp_loop.simps) (simp add: Let_def)
  qed
qed

lemma GainExp_inv [inv_intros]:
  assumes "tables_ok D" "player_inv D p"
  shows "player_inv D (fst (GainExp D n p))"
proof (cases "n \<le> 0 \<or> level p \<ge> MAX_LEVEL")
  case True
  with assms show ?thesis by (auto simp: GainExp_def)
next
  case False
  let ?q = "fst (LevelUp_loop D (p\<lparr>exp := wrap32 (exp p + n)\<rparr>) [])"
  have q: "player_inv D ?q" using assms by (simp add: LevelUp_loop_inv)
  from False have "\<exists>e. fst (GainExp D n p) = ?q\<lparr>info := (info ?q)\<lparr>i_extra := e\<rparr>\<rparr>"
    by (auto simp: GainExp_def split: prod.split)
  with q show ?thesis by (auto simp: player_inv_def intro: stats_ok_cong)
qed

lemma AddItem_inv [inv_intros]: "player_inv D p \<Longrightarrow> player_inv D (fst (snd (AddItem D i n p)))"
  by (cases rule: AddItem_cases [of D i n p])
    (auto simp: player_inv_def intro: stats_ok_cong)

lemma equip_hp:
  "level (set_equip e sl p) = level p" "info (set_equip e sl p) = info p"
  by (cases e; simp)+

lemma EquipItem_inv [inv_intros]:
  assumes "player_inv D p"
  shows "player_inv D (fst (EquipItem D s p))"
proof -
  have "level (fst (EquipItem D s p)) = level p \<and> i_hp (info (fst (EquipItem D s p))) = i_hp (info p)
      \<and> i_maxhp (info (fst (EquipItem D s p))) = i_maxhp (info p)"
    by (cases rule: EquipItem_cases [of D s p]) (simp_all add: equip_hp)
  moreover have "stats_ok D (fst (EquipItem D s p))"
    using assms by (cases rule: EquipItem_cases [of D s p]) (simp_all add: player_inv_def)
  ultimately show ?thesis using assms by (simp add: player_inv_def length_storage_equip)
qed

lemma UnequipItem_inv [inv_intros]:
  assumes "player_inv D p"
  shows "player_inv D (fst (UnequipItem D t p))"
proof -
  have "level (fst (UnequipItem D t p)) = level p \<and> i_hp (info (fst (UnequipItem D t p))) = i_hp (info p)
      \<and> i_maxhp (info (fst (UnequipItem D t p))) = i_maxhp (info p)"
    by (cases rule: UnequipItem_cases [of D t p]) (simp_all add: equip_hp)
  moreover have "stats_ok D (fst (UnequipItem D t p))"
    using assms by (cases rule: UnequipItem_cases [of D t p]) (simp_all add: player_inv_def)
  ultimately show ?thesis using assms by (simp add: player_inv_def length_storage_equip)
qed

lemma put_slot_frame:
  "level (put_slot s sl p) = level p" "info (put_slot s sl p) = info p"
  "equipWeapon (put_slot s sl p) = equipWeapon p" "equipArmor (put_slot s sl p) = equipArmor p"
  "length (storage (put_slot s sl p)) = length (storage p)"
  by (simp_all add: put_slot_def)

lemma UseItem_inv [inv_intros]:
  assumes "tables_ok D" "player_inv D p"
  shows "player_inv D (fst (UseItem D s p))"
proof (cases "usable D s p")
  case True
  then obtain tmpl where t: "GetItemTemplate D (itemId (slot_at s p)) = Some tmpl"
    and U: "fst (UseItem D s p) = put_slot s (used_slot (slot_at s p))
      (p\<lparr>info := (info p)\<lparr>i_hp := min (wrap32 (i_hp (info p) + it_value tmpl)) (i_maxhp (info p))\<rparr>\<rparr>)"
    by (rule UseItem_usable)
  from assms(1) t have "0 \<le> it_value tmpl \<and> it_value tmpl \<le> 1000000" by (auto simp: tables_ok_def)
  with assms(2) have "wrap32 (i_hp (info p) + it_value tmpl) = i_hp (info p) + it_value tmpl"
    "0 \<le> i_hp (info p) + it_value tmpl"
    by (simp_all add: player_inv_def in32_def)
  with assms(2) show ?thesis unfolding U
    by (auto simp: player_inv_def put_slot_frame intro: stats_ok_cong)
qed (use assms in \<open>simp add: UseItem_unusable\<close>)

lemma OnDamaged_inv [inv_intros]:
  assumes "player_inv D p" "in32 n"
  shows "player_inv D (snd (OnDamaged n p))"
proof (cases "n \<le> 0")
  case False
  with assms have "in32 (i_hp (info p) - n)" by (simp add: player_inv_def in32_def)
  with assms False show ?thesis
    by (auto simp: OnDamaged_def player_inv_def intro: stats_ok_cong)
qed (use assms in \<open>simp add: OnDamaged_def\<close>)

lemma ApplyFromSaveData_inv [inv_intros]:
  assumes "tables_ok D" "1 \<le> sd_level d" "sd_level d \<le> MAX_LEVEL" "GetLevelData D (sd_level d) = Some ld"
    and "0 \<le> sd_hp d" "length (sd_storage d) = INVENTORY_SIZE"
  shows "player_inv D (ApplyFromSaveData D d p)"
proof -
  have "level_row_ok ld" using assms(1,4) by (auto simp: tables_ok_def)
  then show ?thesis using assms(2-)
    by (simp add: player_inv_def ApplyFromSaveData_def Let_def stats_ok_def RecalcStats_def
        level_row_ok_def)
qed

lemma Player_new_inv [inv_intros]:
  assumes "tables_ok D"
  shows "player_inv D (Player_new D oid)"
proof (cases "GetLevelData D 1")
  case (Some ld)
  then have "level_row_ok ld" using assms by (auto simp: tables_ok_def)
  with Some show ?thesis
    by (simp add: player_inv_def Player_new_def level_row_ok_def MAX_LEVEL_def stats_ok_def
        item_value_def empty_slot_def)
qed (simp add: player_inv_def Player_new_def MAX_LEVEL_def stats_ok_def)

lemma op_player_inv:
  assumes "tables_ok D" "op_ok D op" "player_inv D p"
  shows "player_inv D (op_player D op p)"
proof (cases op)
  case OpRevive
  with assms show ?thesis
    by (auto simp: op_player_def player_inv_def intro: stats_ok_cong)
qed (use assms in \<open>auto simp: op_player_def op_ok_def intro: inv_intros\<close>)

text \<open>
  C18. A player stays well formed through its whole life: after any sequence of experience gains,
  pick-ups, equips, unequips, item uses, hits, revivals and loads, starting from a fresh player,
  the level is between 1 and 30, the health between 0 and the maximum, the inventory has its 27
  slots, and attack and defence are those of the level plus the equipment.
\<close>

theorem player_stays_well_formed:
  assumes "tables_ok D" "\<forall>op \<in> set ops. op_ok D op"
  shows "player_inv D (fold (op_player D) ops (Player_new D oid))"
proof -
  have "player_inv D p \<Longrightarrow> player_inv D (fold (op_player D) ops p)" for p
    using assms(2) by (induction ops arbitrary: p) (auto intro: op_player_inv [OF assms(1)])
  then show ?thesis using Player_new_inv [OF assms(1)] by blast
qed

section \<open>On the sample data\<close>

lemma sample_tables_ok: "tables_ok sample_data"
  by (auto simp: tables_ok_def level_row_ok_def sample_data_def GetLevelData_def GetItemTemplate_def
      RoomDataManager_empty_def in32_def split: if_splits)

theorem GainExp_conserves_exp_witness:
  "exp (fst (GainExp sample_data 350 sample_player))
     + spent sample_data 1 (level (fst (GainExp sample_data 350 sample_player))) = 350"
  using GainExp_conserves_exp [of sample_player 350 sample_data "fst (GainExp sample_data 350 sample_player)"
      "snd (GainExp sample_data 350 sample_player)"]
  by (simp add: MAX_LEVEL_def in32_def)

theorem player_stays_well_formed_witness:
  "player_inv sample_data (fold (op_player sample_data)
     [OpGainExp 350, OpAddItem 3001 1, OpEquip 0, OpDamaged 40, OpUnequip 0, OpUse 5] (Player_new sample_data 7))"
  by (rule player_stays_well_formed [OF sample_tables_ok]) (simp add: op_ok_def in32_def)

end
