(* ===== verification/World_Steps.thy ===== *)
theory World_Steps
  imports RoomManager Player_Progress
begin

text \<open>
  The server as a state machine. \<open>micro\<close> lists the elementary changes the operations of rooms make to
  the world, each with the condition it is made under; every operation is a sequence of them, so
  an invariant is checked once per elementary change. \<open>safe\<close> is the invariant: as long as nothing
  undefined has happened, the tables refer to objects that exist, players are well formed and have a session, and
  monsters stand on floor; and null is never dereferenced.
\<close>

section \<open>Well-formed worlds\<close>

definition player_ok :: "World \<Rightarrow> uint64 \<Rightarrow> bool" where
  "player_ok w pid \<longleftrightarrow> (\<exists>p. wplayers w pid = Some p \<and> i_objectid (info p) = pid \<and> player_inv (gdata w) p)"

definition in_session :: "World \<Rightarrow> uint64 \<Rightarrow> bool" where
  "in_session w pid \<longleftrightarrow> psession (the_player pid w) \<noteq> None"

definition monster_ok :: "World \<Rightarrow> RoomRef \<Rightarrow> uint64 \<Rightarrow> bool" where
  "monster_ok w r mid \<longleftrightarrow> (\<exists>m. wmonsters w mid = Some m \<and> i_objectid (info m) = mid
     \<and> (in_room m = Some r \<longrightarrow> \<not> IsBlockedByWall r (GetCellPos m) w))"

definition arrow_ok :: "World \<Rightarrow> uint64 \<Rightarrow> bool" where
  "arrow_ok w aid \<longleftrightarrow> (\<exists>a. warrows w aid = Some a \<and> i_objectid (info a) = aid)"

definition room_wf :: "World \<Rightarrow> RoomRef \<Rightarrow> bool" where
  "room_wf w r \<longleftrightarrow> (let g = the_room r w in
     keys_ok (players g) \<and> keys_ok (monsters g) \<and> keys_ok (projectiles g)
     \<and> (\<forall>pid \<in> set (players g). player_ok w pid \<and> in_session w pid)
     \<and> (\<forall>mid \<in> set (monsters g). monster_ok w r mid)
     \<and> (\<forall>aid \<in> set (projectiles g). arrow_ok w aid)
     \<and> (\<forall>pid \<in> set (entering (running g @ jobs g)). player_ok w pid))"

definition world_wf :: "World \<Rightarrow> bool" where
  "world_wf w \<longleftrightarrow> tables_ok (gdata w) \<and> (\<forall>r. room_wf w r)"

definition safe :: "World \<Rightarrow> bool" where
  "safe w \<longleftrightarrow> (case faulted w of None \<Rightarrow> world_wf w | Some f \<Rightarrow> f \<noteq> NullDereference)"

section \<open>Elementary changes\<close>

text \<open>A player keeps its id, its session and its invariant; it moves one free cell or enters at (5, 5).\<close>

definition player_change :: "World \<Rightarrow> uint64 \<Rightarrow> Player \<Rightarrow> bool" where
  "player_change w pid p \<longleftrightarrow> (let q = the_player pid w in
     i_objectid (info p) = i_objectid (info q) \<and> (psession q \<noteq> None \<longrightarrow> psession p \<noteq> None)
     \<and> (player_inv (gdata w) q \<longrightarrow> player_inv (gdata w) p)
     \<and> (GetCellPos p = GetCellPos q \<or> GetCellPos p = Vec 5 5
        \<or> manhattan (GetCellPos p - GetCellPos q) = 1 \<and> (\<exists>r. CanGo r (GetCellPos p) w)))"

text \<open>A monster keeps its id, and in a room it stays where it is or is on floor.\<close>

definition monster_change :: "World \<Rightarrow> uint64 \<Rightarrow> Monster \<Rightarrow> bool" where
  "monster_change w mid m \<longleftrightarrow> (let q = the_monster mid w in
     i_objectid (info m) = i_objectid (info q)
     \<and> (\<forall>r. in_room m = Some r \<longrightarrow>
          in_room q = Some r \<and> GetCellPos m = GetCellPos q \<or> \<not> IsBlockedByWall r (GetCellPos m) w))"

text \<open>
  \<open>ticking\<close> says whether the room's clock may move and its queue be served; what a job or a step does moves neither, and queues
  nothing but players on their way in.
\<close>

fun is_request :: "job \<Rightarrow> bool" where
  "is_request (JobEnter s pid) = False"
| "is_request j = True"

definition requests :: "job list \<Rightarrow> job list" where
  "requests js = filter is_request js"

definition room_change :: "bool \<Rightarrow> World \<Rightarrow> RoomRef \<Rightarrow> GameRoom \<Rightarrow> bool" where
  "room_change ticking w r g' \<longleftrightarrow> (let g = the_room r w in
     (keys_ok (players g) \<longrightarrow> keys_ok (players g')) \<and> (keys_ok (monsters g) \<longrightarrow> keys_ok (monsters g'))
     \<and> (keys_ok (projectiles g) \<longrightarrow> keys_ok (projectiles g'))
     \<and> set (players g') \<subseteq> set (players g) \<union> {pid. player_ok w pid \<and> in_session w pid}
     \<and> set (monsters g') \<subseteq> set (monsters g) \<union> {mid. monster_ok w r mid}
     \<and> set (projectiles g') \<subseteq> set (projectiles g) \<union> {aid. arrow_ok w aid}
     \<and> set (entering (running g' @ jobs g')) \<subseteq> set (entering (running g @ jobs g)) \<union> {pid. player_ok w pid}
     \<and> (tilemap g' = tilemap g \<or> monsters g' = [])
     \<and> (ticking \<or> nextTick g' = nextTick g \<and> running g' = running g \<and> requests (jobs g') = requests (jobs g)))"

inductive micro :: "bool \<Rightarrow> World \<Rightarrow> World \<Rightarrow> bool" for ticking where
  m_dead: "faulted w \<noteq> None \<Longrightarrow> faulted w' = faulted w \<Longrightarrow> gdata w' = gdata w \<Longrightarrow>
    (\<forall>r. ticking \<or> nextTick (the_room r w') = nextTick (the_room r w)) \<Longrightarrow> micro ticking w w'"
| m_send: "micro ticking w (send_packet s p w)"
| m_raise: "f \<noteq> NullDereference \<Longrightarrow> micro ticking w (raise f w)"
| m_redis: "micro ticking w (redis e w)"
| m_clock: "micro ticking w (w\<lparr>clockPos := n\<rparr>)"
| m_dice: "micro ticking w (w\<lparr>dicePos := n\<rparr>)"
| m_player: "player_change w pid p \<Longrightarrow> micro ticking w (put_player pid p w)"
| m_monster: "monster_change w mid m \<Longrightarrow> micro ticking w (put_monster mid m w)"
| m_arrow: "i_objectid (info a) = i_objectid (info (the_arrow aid w)) \<Longrightarrow> micro ticking w (put_arrow aid a w)"
| m_new_monster: "i_objectid (info m) = mid \<Longrightarrow> in_room m = None \<Longrightarrow> micro ticking w (put_monster mid m (w\<lparr>idGenerator := n\<rparr>))"
| m_new_arrow: "i_objectid (info a) = aid \<Longrightarrow> micro ticking w (put_arrow aid a (w\<lparr>idGenerator := n\<rparr>))"
| m_room: "room_change ticking w r (f (the_room r w)) \<Longrightarrow> micro ticking w (upd_room r f w)"
| m_make_room: "ticking \<or> rooms w r = None \<Longrightarrow> micro ticking w (make_room r fld ch inst w)"
| m_session: "micro ticking w (put_session s g w)"
| m_party: "micro ticking w (w\<lparr>party := op_party op (party w)\<rparr>)"
| m_admin: "micro ticking w (w\<lparr>staticRooms := a, dungeonInstances := b, pendingRemoveDungeon := c,
    instanceIdGen := d, iteratingDungeons := e\<rparr>)"

section \<open>What every change keeps\<close>

lemma field_frame [simp]:
  "the_room r (w\<lparr>idGenerator := n\<rparr>) = the_room r w" "the_player i (w\<lparr>idGenerator := n\<rparr>) = the_player i w"
  "the_monster i (w\<lparr>idGenerator := n\<rparr>) = the_monster i w" "the_arrow i (w\<lparr>idGenerator := n\<rparr>) = the_arrow i w"
  "the_session s (w\<lparr>idGenerator := n\<rparr>) = the_session s w" "the_room r (w\<lparr>clockPos := k\<rparr>) = the_room r w"
  "the_player i (w\<lparr>clockPos := k\<rparr>) = the_player i w" "the_monster i (w\<lparr>clockPos := k\<rparr>) = the_monster i w"
  "the_arrow i (w\<lparr>clockPos := k\<rparr>) = the_arrow i w" "the_session s (w\<lparr>clockPos := k\<rparr>) = the_session s w"
  "the_room r (w\<lparr>dicePos := k\<rparr>) = the_room r w" "the_player i (w\<lparr>dicePos := k\<rparr>) = the_player i w"
  "the_monster i (w\<lparr>dicePos := k\<rparr>) = the_monster i w" "the_arrow i (w\<lparr>dicePos := k\<rparr>) = the_arrow i w"
  "the_session s (w\<lparr>dicePos := k\<rparr>) = the_session s w" "the_room r (w\<lparr>party := pm\<rparr>) = the_room r w"
  "the_player i (w\<lparr>party := pm\<rparr>) = the_player i w" "the_monster i (w\<lparr>party := pm\<rparr>) = the_monster i w"
  "the_arrow i (w\<lparr>party := pm\<rparr>) = the_arrow i w" "the_session s (w\<lparr>party := pm\<rparr>) = the_session s w"
  "the_room r (w\<lparr>staticRooms := rs\<rparr>) = the_room r w" "the_player i (w\<lparr>staticRooms := rs\<rparr>) = the_player i w"
  "the_monster i (w\<lparr>staticRooms := rs\<rparr>) = the_monster i w" "the_arrow i (w\<lparr>staticRooms := rs\<rparr>) = the_arrow i w"
  "the_session s (w\<lparr>staticRooms := rs\<rparr>) = the_session s w" "the_room r (w\<lparr>dungeonInstances := is\<rparr>) = the_room r w"
  "the_player i (w\<lparr>dungeonInstances := is\<rparr>) = the_player i w" "the_monster i (w\<lparr>dungeonInstances := is\<rparr>) = the_monster i w"
  "the_arrow i (w\<lparr>dungeonInstances := is\<rparr>) = the_arrow i w" "the_session s (w\<lparr>dungeonInstances := is\<rparr>) = the_session s w"
  "the_room r (w\<lparr>pendingRemoveDungeon := is\<rparr>) = the_room r w" "the_player i (w\<lparr>pendingRemoveDungeon := is\<rparr>) = the_player i w"
  "the_monster i (w\<lparr>pendingRemoveDungeon := is\<rparr>) = the_monster i w" "the_arrow i (w\<lparr>pendingRemoveDungeon := is\<rparr>) = the_arrow i w"
  "the_session s (w\<lparr>pendingRemoveDungeon := is\<rparr>) = the_session s w" "the_room r (w\<lparr>instanceIdGen := n\<rparr>) = the_room r w"
  "the_player i (w\<lparr>instanceIdGen := n\<rparr>) = the_player i w" "the_monster i (w\<lparr>instanceIdGen := n\<rparr>) = the_monster i w"
  "the_arrow i (w\<lparr>instanceIdGen := n\<rparr>) = the_arrow i w" "the_session s (w\<lparr>instanceIdGen := n\<rparr>) = the_session s w"
  "the_room r (w\<lparr>iteratingDungeons := b\<rparr>) = the_room r w" "the_player i (w\<lparr>iteratingDungeons := b\<rparr>) = the_player i w"
  "the_monster i (w\<lparr>iteratingDungeons := b\<rparr>) = the_monster i w" "the_arrow i (w\<lparr>iteratingDungeons := b\<rparr>) = the_arrow i w"
  "the_session s (w\<lparr>iteratingDungeons := b\<rparr>) = the_session s w"
  by (simp_all add: the_room_def the_player_def the_monster_def the_arrow_def the_session_def)

lemma IsBlockedByWall_gen [simp]: "IsBlockedByWall r p (w\<lparr>idGenerator := n\<rparr>) = IsBlockedByWall r p w"
  by (simp add: IsBlockedByWall_def)

lemma micro_gdata: "micro b w w' \<Longrightarrow> gdata w' = gdata w"
  by (induction rule: micro.induct)
    (simp_all add: sends_only_frame [OF sends_only_redis] put_player_def put_monster_def put_arrow_def
      upd_room_def make_room_def put_session_def)

lemma micro_faulted: "micro b w w' \<Longrightarrow> faulted w \<noteq> None \<Longrightarrow> faulted w' = faulted w"
  by (induction rule: micro.induct)
    (auto simp: redis_def put_player_def put_monster_def put_arrow_def
      upd_room_def make_room_def put_session_def)

lemma the_room_make_room: "the_room q (make_room r fld ch inst w)
    = (if q = r then GameRoom_new\<lparr>fieldId := fld, channel := ch, instanceId := inst\<rparr> else the_room q w)"
  by (simp add: make_room_def the_room_def)

lemma the_room_none: "rooms w r = None \<Longrightarrow> the_room r w = GameRoom_new"
  by (simp add: the_room_def)

lemma micro_nextTick: "micro b w w' \<Longrightarrow> \<not> b \<Longrightarrow> nextTick (the_room r w') = nextTick (the_room r w)"
  by (induction rule: micro.induct)
    (auto simp: sends_only_frame [OF sends_only_redis] room_change_def Let_def the_room_make_room the_room_none)

lemma micro_queue:
  "micro b w w' \<Longrightarrow> \<not> b \<Longrightarrow> faulted w' = None \<Longrightarrow>
    running (the_room r w') = running (the_room r w) \<and> requests (jobs (the_room r w')) = requests (jobs (the_room r w))"
  by (induction rule: micro.induct)
    (auto simp: sends_only_frame [OF sends_only_redis] room_change_def Let_def the_room_make_room the_room_none)

lemma upd_room_frame [simp]:
  "faulted (upd_room r f w) = faulted w" "gdata (upd_room r f w) = gdata w"
  "wplayers (upd_room r f w) = wplayers w" "wmonsters (upd_room r f w) = wmonsters w"
  "warrows (upd_room r f w) = warrows w" "party (upd_room r f w) = party w"
  "clock (upd_room r f w) = clock w" "clockPos (upd_room r f w) = clockPos w"
  by (simp_all add: upd_room_def)

lemma put_frame [simp]:
  "faulted (put_player i p w) = faulted w" "faulted (put_monster i m w) = faulted w"
  "faulted (put_arrow i a w) = faulted w" "faulted (put_session s g w) = faulted w"
  "gdata (put_player i p w) = gdata w" "gdata (put_monster i m w) = gdata w"
  "gdata (put_arrow i a w) = gdata w" "gdata (put_session s g w) = gdata w"
  "wplayers (put_player i p w) = (wplayers w)(i \<mapsto> p)" "wplayers (put_monster i m w) = wplayers w"
  "wplayers (put_arrow i a w) = wplayers w" "wplayers (put_session s g w) = wplayers w"
  "wmonsters (put_player i p w) = wmonsters w" "wmonsters (put_monster i m w) = (wmonsters w)(i \<mapsto> m)"
  "wmonsters (put_arrow i a w) = wmonsters w" "wmonsters (put_session s g w) = wmonsters w"
  "warrows (put_player i p w) = warrows w" "warrows (put_monster i m w) = warrows w"
  "warrows (put_arrow i a w) = (warrows w)(i \<mapsto> a)" "warrows (put_session s g w) = warrows w"
  by (simp_all add: put_player_def put_monster_def put_arrow_def put_session_def)

lemma the_room_cong: "rooms w' = rooms w \<Longrightarrow> the_room r w' = the_room r w"
  by (simp add: the_room_def)

lemma room_wf_cong:
  assumes "rooms w' = rooms w" "wplayers w' = wplayers w" "wmonsters w' = wmonsters w" "warrows w' = warrows w"
    and "gdata w' = gdata w"
  shows "room_wf w' r = room_wf w r"
  using assms by (simp add: room_wf_def player_ok_def in_session_def monster_ok_def arrow_ok_def
      the_room_cong [OF assms(1)] the_player_def IsBlockedByWall_def)

lemma world_wf_cong:
  assumes "rooms w' = rooms w" "wplayers w' = wplayers w" "wmonsters w' = wmonsters w" "warrows w' = warrows w"
    and "gdata w' = gdata w"
  shows "world_wf w' = world_wf w"
  using room_wf_cong [OF assms] assms(5) by (simp add: world_wf_def)

lemma IsBlockedByWall_put [simp]:
  "IsBlockedByWall r p (put_player i x w) = IsBlockedByWall r p w"
  "IsBlockedByWall r p (put_monster j m w) = IsBlockedByWall r p w"
  "IsBlockedByWall r p (put_arrow j a w) = IsBlockedByWall r p w"
  by (simp_all add: IsBlockedByWall_def)

text \<open>A room keeps its well-formedness when what is known of its objects still is.\<close>

lemma room_wf_mono:
  assumes "room_wf w r" "the_room r w' = the_room r w"
    and "\<And>pid. player_ok w pid \<Longrightarrow> player_ok w' pid"
    and "\<And>pid. player_ok w pid \<Longrightarrow> in_session w pid \<Longrightarrow> in_session w' pid"
    and "\<And>mid. monster_ok w r mid \<Longrightarrow> monster_ok w' r mid"
    and "\<And>aid. arrow_ok w aid \<Longrightarrow> arrow_ok w' aid"
  shows "room_wf w' r"
  using assms unfolding room_wf_def Let_def by metis

lemma player_change_ok:
  assumes "player_change w pid p"
  shows "player_ok w i \<Longrightarrow> player_ok (put_player pid p w) i"
    "in_session w i \<Longrightarrow> in_session (put_player pid p w) i"
  using assms by (auto simp: player_change_def Let_def player_ok_def in_session_def the_player_def)

lemma monster_change_ok:
  "monster_change w mid m \<Longrightarrow> monster_ok w r i \<Longrightarrow> monster_ok (put_monster mid m w) r i"
  by (auto simp: monster_change_def Let_def monster_ok_def the_monster_def)

lemma room_change_wf:
  assumes "world_wf w" "room_change b w r (f (the_room r w))"
  shows "world_wf (upd_room r f w)"
proof -
  let ?w = "upd_room r f w"
  have pl: "player_ok ?w = player_ok w" "in_session ?w = in_session w" "arrow_ok ?w = arrow_ok w"
    by (auto simp: player_ok_def in_session_def arrow_ok_def fun_eq_iff)
  have mo: "monster_ok ?w q = monster_ok w q" if "tilemap (the_room q ?w) = tilemap (the_room q w)" for q
    using that by (auto simp: monster_ok_def IsBlockedByWall_def fun_eq_iff)
  have "room_wf ?w q" for q
  proof (cases "q = r")
    case False
    then show ?thesis using assms(1) by (simp add: world_wf_def room_wf_def pl mo)
  next
    case True
    with assms have "room_wf w r" by (simp add: world_wf_def)
    with assms(2) True mo [of r] show ?thesis
      by (auto simp: room_wf_def room_change_def Let_def pl subset_iff)
  qed
  with assms(1) show ?thesis by (simp add: world_wf_def)
qed

lemma make_room_wf: "world_wf w \<Longrightarrow> world_wf (make_room r fld ch inst w)"
proof -
  assume w: "world_wf w"
  let ?w = "make_room r fld ch inst w"
  have e: "wplayers ?w = wplayers w" "wmonsters ?w = wmonsters w" "warrows ?w = warrows w" "gdata ?w = gdata w"
    by (simp_all add: make_room_def)
  note o = the_room_make_room
  have "room_wf ?w q" for q
  proof (cases "q = r")
    case True
    then show ?thesis by (simp add: room_wf_def o GameRoom_new_def entering_def)
  next
    case False
    have "room_wf w q" using w by (simp add: world_wf_def)
    then show ?thesis
      by (rule room_wf_mono)
        (auto simp: o False player_ok_def in_session_def monster_ok_def arrow_ok_def the_player_def e IsBlockedByWall_def)
  qed
  with w show ?thesis by (simp add: world_wf_def e)
qed

lemma micro_wf:
  assumes "micro b w w'" "world_wf w" "faulted w = None"
  shows "world_wf w'"
  using assms
proof (induction rule: micro.induct)
  case (m_player w pid p)
  have "room_wf w r \<Longrightarrow> room_wf (put_player pid p w) r" for r
    by (erule room_wf_mono) (auto simp: monster_ok_def arrow_ok_def player_change_ok [OF m_player(1)])
  with m_player(2) show ?case by (simp add: world_wf_def)
next
  case (m_monster w mid m)
  have "room_wf w r \<Longrightarrow> room_wf (put_monster mid m w) r" for r
    by (erule room_wf_mono)
      (auto simp: player_ok_def in_session_def arrow_ok_def intro: monster_change_ok [OF m_monster(1)])
  with m_monster(2) show ?case by (simp add: world_wf_def)
next
  case (m_arrow a aid w)
  have "room_wf w r \<Longrightarrow> room_wf (put_arrow aid a w) r" for r
    using m_arrow(1) by (elim room_wf_mono)
      (auto simp: player_ok_def in_session_def monster_ok_def arrow_ok_def the_arrow_def)
  with m_arrow(2) show ?case by (simp add: world_wf_def)
next
  case (m_new_monster m mid w n)
  have "room_wf w r \<Longrightarrow> room_wf (put_monster mid m (w\<lparr>idGenerator := n\<rparr>)) r" for r
    using m_new_monster(1,2) by (elim room_wf_mono)
      (auto simp: player_ok_def in_session_def monster_ok_def arrow_ok_def the_player_def)
  with m_new_monster(3) show ?case by (simp add: world_wf_def)
next
  case (m_new_arrow a aid w n)
  have "room_wf w r \<Longrightarrow> room_wf (put_arrow aid a (w\<lparr>idGenerator := n\<rparr>)) r" for r
    using m_new_arrow(1) by (elim room_wf_mono)
      (auto simp: player_ok_def in_session_def monster_ok_def arrow_ok_def the_player_def)
  with m_new_arrow(2) show ?case by (simp add: world_wf_def)
next
  case (m_room w r f)
  then show ?case by (blast intro: room_change_wf)
next
  case (m_make_room r w fld ch inst)
  then show ?case by (blast intro: make_room_wf)
next
  case (m_session w s g)
  then show ?case by (subst world_wf_cong [of _ w]) (simp_all add: put_session_def)
next
  case (m_send w s p)
  then show ?case by (subst world_wf_cong [of _ w]) (simp_all add: sends_only_frame [OF sends_only_redis])
next
  case (m_raise f w)
  then show ?case by (subst world_wf_cong [of _ w]) (simp_all add: sends_only_frame [OF sends_only_redis])
next
  case (m_redis w e)
  then show ?case by (subst world_wf_cong [of _ w]) (simp_all add: sends_only_frame [OF sends_only_redis])
next
  case (m_clock w n)
  then show ?case by (subst world_wf_cong [of _ w]) (simp_all add: sends_only_frame [OF sends_only_redis])
next
  case (m_dice w n)
  then show ?case by (subst world_wf_cong [of _ w]) (simp_all add: sends_only_frame [OF sends_only_redis])
next
  case (m_party w op)
  then show ?case by (subst world_wf_cong [of _ w]) (simp_all add: sends_only_frame [OF sends_only_redis])
next
  case (m_admin w a c d e f)
  then show ?case by (subst world_wf_cong [of _ w]) (simp_all add: sends_only_frame [OF sends_only_redis])
qed simp

lemma safe_faulted: "faulted w = Some f \<Longrightarrow> safe w \<longleftrightarrow> f \<noteq> NullDereference"
  by (simp add: safe_def)

lemma micro_new_fault:
  "micro b w w' \<Longrightarrow> faulted w = None \<Longrightarrow> faulted w' \<noteq> Some NullDereference"
  by (induction rule: micro.induct) (auto simp: redis_def make_room_def)

lemma micro_safe: "micro b w w' \<Longrightarrow> safe w \<Longrightarrow> safe w'"
  using micro_wf [of b w w'] micro_faulted [of b w w'] micro_new_fault [of b w w']
  by (cases "faulted w"; cases "faulted w'") (auto simp: safe_def)

end
