(* ===== verification/Player_Body.thy ===== *)
theory Player_Body
  imports World_Steps
begin

text \<open>
  What the operations on one player leave alone: its id, its session, its room and its place; and that
  their effects are packets and writes to Redis, never a fault.
\<close>

definition body :: "Player \<Rightarrow> uint64 \<times> SessionId option \<times> RoomRef option \<times> Vec2Int" where
  "body p = (i_objectid (info p), psession p, in_room p, GetCellPos p)"

fun no_fault :: "effect \<Rightarrow> bool" where
  "no_fault (Fault f) = False"
| "no_fault e = True"

lemma body_frame [simp]:
  "body (RecalcStats D p) = body p" "body (set_extra D p) = body p"
  "body (set_equip e sl p) = body p" "body (put_slot s sl p) = body p"
  "body (p\<lparr>storage := st\<rparr>) = body p" "body (p\<lparr>exp := x\<rparr>) = body p" "body (p\<lparr>level := l\<rparr>) = body p"
  by (cases e; simp add: body_def GetCellPos_def RecalcStats_def set_extra_def put_slot_def split: option.split)+

lemma send_no_fault [simp]: "list_all no_fault (send p pkt)"
  by (simp add: send_def split: option.split)

lemma ProcessLevelUp_body [simp]:
  "body (fst (ProcessLevelUp D p)) = body p" "list_all no_fault (snd (ProcessLevelUp D p))"
proof -
  have "body (case x of Some data \<Rightarrow> ApplyLevelStats D data q | None \<Rightarrow> q) = body q" for x q
    by (cases x) (simp_all add: ApplyLevelStats_def, simp add: body_def GetCellPos_def)
  moreover have "body (q\<lparr>info := (info q)\<lparr>i_hp := h\<rparr>\<rparr>) = body q" for q h
    by (simp add: body_def GetCellPos_def)
  ultimately show "body (fst (ProcessLevelUp D p)) = body p"
    by (simp only: ProcessLevelUp_def Let_def fst_conv body_frame)
  show "list_all no_fault (snd (ProcessLevelUp D p))"
    by (simp add: ProcessLevelUp_def Let_def split: option.split)
qed

lemma LevelUp_loop_body:
  "list_all no_fault effs \<Longrightarrow>
    body (fst (LevelUp_loop D p effs)) = body p \<and> list_all no_fault (snd (LevelUp_loop D p effs))"
proof (induction D p effs rule: LevelUp_loop.induct)
  case (1 D p effs)
  let ?up = "ProcessLevelUp D (p\<lparr>exp := exp p - GetMaxExp D p\<rparr>)"
  show ?case
  proof (cases "level p < MAX_LEVEL \<and> \<not> (GetMaxExp D p \<le> 0 \<or> exp p < GetMaxExp D p)")
    case False
    then have "LevelUp_loop D p effs = (p, effs)" by (subst LevelUp_loop.simps) (auto simp: Let_def)
    with "1.prems" show ?thesis by simp
  next
    case True
    then have "LevelUp_loop D p effs = LevelUp_loop D (fst ?up) (effs @ snd ?up)"
      by (subst LevelUp_loop.simps) (simp add: Let_def)
    moreover have "list_all no_fault (effs @ snd ?up)" using "1.prems" by simp
    ultimately show ?thesis using "1.IH" [OF _ refl _ refl] True by simp
  qed
qed

definition gentle :: "(Player \<Rightarrow> Player \<times> effect list) \<Rightarrow> RoomDataManager \<Rightarrow> bool" where
  "gentle f D \<longleftrightarrow> (\<forall>p. body (fst (f p)) = body p \<and> list_all no_fault (snd (f p))
     \<and> (player_inv D p \<longrightarrow> player_inv D (fst (f p))))"

lemma GainExp_body: "body (fst (GainExp D n p)) = body p \<and> list_all no_fault (snd (GainExp D n p))"
proof (cases "n \<le> 0 \<or> level p \<ge> MAX_LEVEL")
  case False
  obtain q effs where q: "LevelUp_loop D (p\<lparr>exp := wrap32 (exp p + n)\<rparr>) [] = (q, effs)" by fastforce
  have "body q = body p" "list_all no_fault effs"
    using LevelUp_loop_body [of "[]" D "p\<lparr>exp := wrap32 (exp p + n)\<rparr>"] q by simp_all
  with False q show ?thesis by (simp add: GainExp_def body_def GetCellPos_def)
qed (auto simp: GainExp_def)

lemma AddItem_body: "body (fst (snd (AddItem D i n p))) = body p \<and> list_all no_fault (snd (snd (AddItem D i n p)))"
  by (simp add: AddItem_def Let_def split: option.split)

lemma EquipItem_body: "body (fst (EquipItem D s p)) = body p \<and> list_all no_fault (snd (EquipItem D s p))"
proof -
  have "body (fst (EquipItem D s p)) = body p"
    by (cases rule: EquipItem_cases [of D s p]) simp_all
  then show ?thesis by (simp add: EquipItem_def Let_def split: option.split)
qed

lemma UnequipItem_body: "body (fst (UnequipItem D t p)) = body p \<and> list_all no_fault (snd (UnequipItem D t p))"
proof -
  have "body (fst (UnequipItem D t p)) = body p"
    by (cases rule: UnequipItem_cases [of D t p]) simp_all
  then show ?thesis by (simp add: UnequipItem_def Let_def split: option.split)
qed

lemma UseItem_body: "body (fst (UseItem D s p)) = body p \<and> list_all no_fault (snd (UseItem D s p))"
proof -
  have "body (p\<lparr>info := (info p)\<lparr>i_hp := h\<rparr>\<rparr>) = body p" for h
    by (simp add: body_def GetCellPos_def)
  then have "body (fst (UseItem D s p)) = body p"
    by (simp add: UseItem_def Let_def split: option.split)
  then show ?thesis by (simp add: UseItem_def Let_def split: option.split)
qed

lemma gentle_ops [inv_intros]:
  assumes "tables_ok D"
  shows "gentle (GainExp D n) D" "gentle (\<lambda>p. snd (AddItem D i n p)) D" "gentle (EquipItem D s) D"
    "gentle (UnequipItem D s) D" "gentle (UseItem D s) D"
  using assms GainExp_body AddItem_body EquipItem_body UnequipItem_body UseItem_body GainExp_inv AddItem_inv
    EquipItem_inv UnequipItem_inv UseItem_inv
  by (simp_all add: gentle_def)

text \<open>Fields the invariant of a player does not read.\<close>

lemma player_inv_fields [simp]:
  "player_inv D (p\<lparr>in_room := r\<rparr>) = player_inv D p" "player_inv D (p\<lparr>psession := s\<rparr>) = player_inv D p"
  "player_inv D (p\<lparr>moveEndTick := t\<rparr>) = player_inv D p" "player_inv D (set_state st p) = player_inv D p"
  "player_inv D (set_dir d p) = player_inv D p" "player_inv D (set_pos q p) = player_inv D p"
  "player_inv D (StopMove p) = player_inv D p" "player_inv D (StartMove a b p) = player_inv D p"
  by (simp_all add: player_inv_def stats_ok_def set_state_def set_dir_def set_pos_def StopMove_def StartMove_def
      split: option.split)

lemma GameObject_Update_gentle [inv_intros]: "gentle (GameObject_Update now) D"
proof -
  have "body (fst (GameObject_Update now p)) = body p" "list_all no_fault (snd (GameObject_Update now p))" for p :: Player
    by (simp_all add: GameObject_Update_def Let_def body_def GetCellPos_def BroadcastMove_def set_state_def
        split: option.split)
  moreover have "player_inv D p \<Longrightarrow> player_inv D (fst (GameObject_Update now p))" for p
    by (simp add: GameObject_Update_def Let_def)
  ultimately show ?thesis by (simp add: gentle_def)
qed

end
