(* ===== verification/World_Safe.thy ===== *)
theory World_Safe
  imports Player_Body
begin

text \<open>
  Every operation of a room is a sequence of elementary changes: \<open>evolves\<close> relates the world before and
  after. An operation's lemma extends a run by one call of it, so that the proof for a
  composed operation is the list of the operations it calls.
\<close>

named_theorems evolves_intros \<open>operations extend runs\<close>

definition evolves :: "bool \<Rightarrow> World \<Rightarrow> World \<Rightarrow> bool" where
  "evolves b w w' \<longleftrightarrow> (safe w \<longrightarrow> (micro b)\<^sup>*\<^sup>* w w')"

lemma steps_safe: "(micro b)\<^sup>*\<^sup>* w w' \<Longrightarrow> safe w \<Longrightarrow> safe w'"
  by (induction rule: rtranclp_induct) (auto intro: micro_safe)

lemma steps_gdata: "(micro b)\<^sup>*\<^sup>* w w' \<Longrightarrow> gdata w' = gdata w"
  by (induction rule: rtranclp_induct) (auto dest: micro_gdata)

lemma steps_nextTick: "(micro False)\<^sup>*\<^sup>* w w' \<Longrightarrow> nextTick (the_room r w') = nextTick (the_room r w)"
  by (induction rule: rtranclp_induct) (simp_all add: micro_nextTick [of False])

lemma steps_queue:
  "(micro False)\<^sup>*\<^sup>* w w' \<Longrightarrow> faulted w' = None \<Longrightarrow>
    running (the_room r w') = running (the_room r w) \<and> requests (jobs (the_room r w')) = requests (jobs (the_room r w))"
proof (induction rule: rtranclp_induct)
  case (step y z)
  then have "faulted y = None" using micro_faulted by metis
  with step micro_queue [of False y z] show ?case by simp
qed simp

lemma steps_faulted: "(micro b)\<^sup>*\<^sup>* w w' \<Longrightarrow> faulted w \<noteq> None \<Longrightarrow> faulted w' = faulted w"
  by (induction rule: rtranclp_induct) (auto dest: micro_faulted)

lemma micro_player_ok:
  "micro b w w' \<Longrightarrow> faulted w' = None \<Longrightarrow> player_ok w pid \<Longrightarrow> player_ok w' pid"
proof (induction rule: micro.induct)
  case (m_player w i p)
  then show ?case using player_change_ok(1) by blast
next
  case (m_redis w e)
  then show ?case by (simp add: player_ok_def sends_only_frame [OF sends_only_redis])
qed (auto simp: player_ok_def make_room_def)

lemma steps_player_ok:
  "(micro b)\<^sup>*\<^sup>* w w' \<Longrightarrow> faulted w' = None \<Longrightarrow> player_ok w pid \<Longrightarrow> player_ok w' pid"
proof (induction rule: rtranclp_induct)
  case (step y z)
  from step.hyps(2) step.prems have "faulted y = None" using micro_faulted by metis
  with step micro_player_ok show ?case by blast
qed

lemma evolves_refl [simp, evolves_intros]: "evolves b w w"
  by (simp add: evolves_def)

lemma evolves_trans: "evolves b w w1 \<Longrightarrow> evolves b w1 w2 \<Longrightarrow> evolves b w w2"
  unfolding evolves_def by (meson steps_safe rtranclp_trans)

lemma evolves_safe: "evolves b w w' \<Longrightarrow> safe w \<Longrightarrow> safe w'"
  unfolding evolves_def by (meson steps_safe)

lemma evolves_if_safe: "(safe w \<Longrightarrow> evolves b w w') \<Longrightarrow> evolves b w w'"
  by (auto simp: evolves_def)

lemma evolves_micro: "micro b w w' \<Longrightarrow> evolves b w w'"
  by (auto simp: evolves_def)

lemma evolves_change:
  assumes "faulted w = None \<Longrightarrow> world_wf w \<Longrightarrow> micro b w w'"
    and "faulted w' = faulted w" "gdata w' = gdata w" "\<And>r. b \<or> nextTick (the_room r w') = nextTick (the_room r w)"
  shows "evolves b w w'"
proof (rule evolves_if_safe)
  assume s: "safe w"
  show "evolves b w w'"
  proof (cases "faulted w")
    case None
    with s assms(1) show ?thesis by (simp add: safe_def evolves_micro)
  next
    case (Some f)
    show ?thesis by (rule evolves_micro, rule m_dead) (use Some assms in auto)
  qed
qed

lemma evolves_fold:
  "(\<And>x w. x \<in> set xs \<Longrightarrow> evolves b w (f x w)) \<Longrightarrow> evolves b w (fold f xs w)"
proof (induction xs arbitrary: w)
  case (Cons x xs)
  then show ?case using evolves_trans [of b w "f x w"] by simp
qed simp

text \<open>A fold under a condition that runs keep.\<close>

lemma evolves_fold_keep:
  assumes "P w" "\<And>x w. x \<in> set xs \<Longrightarrow> P w \<Longrightarrow> evolves b w (f x w)"
    and "\<And>w w'. P w \<Longrightarrow> (micro b)\<^sup>*\<^sup>* w w' \<Longrightarrow> P w'"
  shows "evolves b w (fold f xs w)"
  using assms(1,2)
proof (induction xs arbitrary: w)
  case (Cons x xs)
  show ?case
  proof (rule evolves_if_safe)
    assume "safe w"
    have x: "evolves b w (f x w)" using Cons.prems by simp
    with \<open>safe w\<close> have "(micro b)\<^sup>*\<^sup>* w (f x w)" by (simp add: evolves_def)
    with Cons.prems have "P (f x w)" using assms(3) by blast
    with Cons have "evolves b (f x w) (fold f xs (f x w))" by simp
    with x show "evolves b w (fold f (x # xs) w)" by (simp add: evolves_trans)
  qed
qed simp

section \<open>Output and the clocks\<close>

lemma evolves_basic:
  "evolves b w (send_packet s p w)" "f \<noteq> NullDereference \<Longrightarrow> evolves b w (raise f w)" "evolves b w (redis e w)"
  "evolves b w (w\<lparr>clockPos := n\<rparr>)" "evolves b w (w\<lparr>dicePos := n\<rparr>)" "evolves b w (put_session s g w)"
  by (auto intro!: evolves_micro micro.intros)

lemmas evolves_basic_intros [evolves_intros] = evolves_basic [THEN evolves_trans [rotated]]

lemma fold_send:
  assumes "\<And>pid. pid \<in> set xs \<Longrightarrow> in_session w pid"
  shows "fold (\<lambda>pid w. case psession (the_player pid w) of None \<Rightarrow> raise NullDereference w | Some s \<Rightarrow> send_packet s p w) xs w
    = fold (\<lambda>s. send_packet s p) (map (\<lambda>pid. the (psession (the_player pid w))) xs) w"
  using assms
proof (induction xs arbitrary: w)
  case (Cons x xs)
  from Cons.prems [of x] obtain s where s: "psession (the_player x w) = Some s" by (auto simp: in_session_def)
  have "in_session (send_packet s p w) pid" if "pid \<in> set xs" for pid
    using Cons.prems that by (simp add: in_session_def)
  from Cons.IH [OF this] s show ?case by simp
qed simp

lemma evolves_Broadcast: "evolves b w (Broadcast r p w)"
proof (rule evolves_if_safe)
  assume s: "safe w"
  show "evolves b w (Broadcast r p w)"
  proof (cases "faulted w")
    case (Some f)
    have "fold (\<lambda>pid w. case psession (the_player pid w) of None \<Rightarrow> raise NullDereference w
        | Some s \<Rightarrow> send_packet s p w) xs w = w" for xs
      by (induction xs) (auto simp: Some raise_def send_packet_def split: option.split)
    then show ?thesis by (simp add: Broadcast_def)
  next
    case None
    with s have "in_session w pid" if "pid \<in> set (players (the_room r w))" for pid
      using that by (auto simp: safe_def world_wf_def room_wf_def Let_def)
    then show ?thesis unfolding Broadcast_def
      by (subst fold_send) (auto intro: evolves_fold evolves_basic)
  qed
qed

lemmas Broadcast_intro [evolves_intros] = evolves_trans [OF _ evolves_Broadcast]

lemma evolves_emit: "list_all no_fault effs \<Longrightarrow> evolves b w (emit effs w)"
proof -
  assume "list_all no_fault effs"
  moreover have "no_fault e \<Longrightarrow> evolves b w (emit1 e w)" for e w
    by (cases e) (simp_all add: evolves_basic evolves_Broadcast)
  ultimately show ?thesis
    unfolding emit_def by (intro evolves_fold) (simp add: list_all_iff)
qed

lemmas emit_intro [evolves_intros] = evolves_trans [OF _ evolves_emit]

section \<open>Objects\<close>

lemma evolves_put_player:
  "(faulted w = None \<Longrightarrow> world_wf w \<Longrightarrow> player_change w pid p) \<Longrightarrow> evolves b w (put_player pid p w)"
  by (rule evolves_change) (auto intro: micro.intros)

lemma evolves_put_monster:
  "(faulted w = None \<Longrightarrow> world_wf w \<Longrightarrow> monster_change w mid m) \<Longrightarrow> evolves b w (put_monster mid m w)"
  by (rule evolves_change) (auto intro: micro.intros)

lemma evolves_put_arrow:
  "i_objectid (info a) = i_objectid (info (the_arrow aid w)) \<Longrightarrow> evolves b w (put_arrow aid a w)"
  by (rule evolves_micro) (rule m_arrow)

lemma evolves_upd_room:
  assumes "faulted w = None \<Longrightarrow> world_wf w \<Longrightarrow> room_change b w r (f (the_room r w))"
    and "b \<or> nextTick (f (the_room r w)) = nextTick (the_room r w)"
  shows "evolves b w (upd_room r f w)"
  using assms by (intro evolves_change) (auto intro: m_room)

lemma room_change_simple:
  "players g' = players (the_room r w) \<Longrightarrow> monsters g' = monsters (the_room r w) \<Longrightarrow>
    projectiles g' = projectiles (the_room r w) \<Longrightarrow> running g' = running (the_room r w) \<Longrightarrow> jobs g' = jobs (the_room r w) \<Longrightarrow>
    tilemap g' = tilemap (the_room r w) \<Longrightarrow> b \<or> nextTick g' = nextTick (the_room r w) \<Longrightarrow> room_change b w r g'"
  by (simp add: room_change_def)

lemma player_change_body:
  assumes "body p = body (the_player pid w)" "player_inv (gdata w) (the_player pid w) \<longrightarrow> player_inv (gdata w) p"
  shows "player_change w pid p"
  using assms by (auto simp: player_change_def Let_def body_def)

lemma evolves_run_player:
  assumes "tables_ok (gdata w) \<Longrightarrow> gentle f (gdata w)" "\<And>p. list_all no_fault (snd (f p))"
  shows "evolves b w (run_player pid f w)"
proof -
  have "evolves b w (put_player pid (fst (f (the_player pid w))) w)"
    by (rule evolves_put_player, rule player_change_body) (use assms(1) in \<open>auto simp: gentle_def world_wf_def\<close>)
  then show ?thesis
    unfolding run_player_def split_beta by (intro evolves_intros) (use assms(2) in auto)
qed

lemma evolves_run_ops:
  "evolves b w (run_player pid (GainExp (gdata w) n) w)"
  "evolves b w (run_player pid (\<lambda>p. snd (AddItem (gdata w) i n p)) w)"
  "evolves b w (run_player pid (EquipItem (gdata w) s) w)"
  "evolves b w (run_player pid (UnequipItem (gdata w) s) w)"
  "evolves b w (run_player pid (UseItem (gdata w) s) w)"
  "evolves b w (run_player pid (GameObject_Update now) w)"
  by (rule evolves_run_player, (erule gentle_ops | rule GameObject_Update_gentle),
      insert GainExp_body AddItem_body EquipItem_body UnequipItem_body UseItem_body GameObject_Update_gentle,
      simp_all add: gentle_def)+

end
