(* ===== verification/Rooms_Safe.thy ===== *)
theory Rooms_Safe
  imports World_Safe
begin

text \<open>
  The operations inside one room, each a run of elementary changes: adding and removing objects,
  entering and leaving, spawning, the three weapons, and the updates of players, monsters and arrows.
\<close>

section \<open>What a well-formed world gives\<close>

lemma wf_room: "world_wf w \<Longrightarrow> room_wf w r"
  by (simp add: world_wf_def)

lemma wf_player: "world_wf w \<Longrightarrow> pid \<in> set (players (the_room r w)) \<Longrightarrow> player_ok w pid \<and> in_session w pid"
  using wf_room [of w r] by (auto simp: room_wf_def Let_def)

lemma wf_alive: "world_wf w \<Longrightarrow> player_alive pid w \<Longrightarrow> player_ok w pid"
  using wf_room by (fastforce simp: player_alive_def alive_players_def owned_players_def room_wf_def Let_def)

lemma wf_session_player: "world_wf w \<Longrightarrow> session_player s w = Some pid \<Longrightarrow> player_ok w pid"
  by (auto simp: session_player_def wf_alive split: option.splits if_splits)

lemma player_ok_the: "player_ok w pid \<Longrightarrow> i_objectid (info (the_player pid w)) = pid \<and> player_inv (gdata w) (the_player pid w)"
  by (auto simp: player_ok_def the_player_def)

lemma CanGo_floor: "CanGo r p w \<Longrightarrow> \<not> IsBlockedByWall r p w"
  by (auto simp: CanGo_def IsBlockedByWall_def split: option.splits if_splits)

section \<open>Adding and removing\<close>

definition job_ok :: "World \<Rightarrow> job \<Rightarrow> bool" where
  "job_ok w j = (case j of JobEnter s pid \<Rightarrow> player_ok w pid | _ \<Rightarrow> True)"

lemma evolves_PushJob:
  "(faulted w = None \<Longrightarrow> world_wf w \<Longrightarrow> job_ok w j) \<Longrightarrow> b \<or> \<not> is_request j \<Longrightarrow> evolves b w (PushJob r j w)"
  unfolding PushJob_def
  by (rule evolves_upd_room) (auto simp: room_change_def Let_def entering_def requests_def job_ok_def split: job.splits)

definition ref_ok :: "World \<Rightarrow> RoomRef \<Rightarrow> ObjRef \<Rightarrow> bool" where
  "ref_ok w r ref = (case ref of
     RefPlayer i \<Rightarrow> player_ok w i \<and> in_session w i
   | RefMonster i \<Rightarrow> (\<exists>m. wmonsters w i = Some m \<and> i_objectid (info m) = i \<and> in_room m = None
       \<and> \<not> IsBlockedByWall r (GetCellPos m) w)
   | RefArrow i \<Rightarrow> arrow_ok w i)"

lemma evolves_set_obj_room:
  assumes "\<And>m q. ref = RefMonster m \<Longrightarrow> ro = Some q \<Longrightarrow> faulted w = None \<Longrightarrow> \<not> IsBlockedByWall q (GetCellPos (the_monster m w)) w"
  shows "evolves b w (set_obj_room ref ro w)"
proof (cases ref)
  case (RefPlayer i)
  then show ?thesis
    by (simp, intro evolves_put_player) (simp add: player_change_def GetCellPos_def)
next
  case (RefMonster i)
  then show ?thesis using assms
    by (simp, intro evolves_put_monster) (auto simp: monster_change_def GetCellPos_def)
next
  case (RefArrow i)
  then show ?thesis by (simp, intro evolves_put_arrow) simp
qed

lemma evolves_AddObject:
  assumes "faulted w = None \<Longrightarrow> world_wf w \<Longrightarrow> ref_ok w r ref"
  shows "evolves b w (AddObject r ref w)"
proof -
  let ?f = "\<lambda>g. case ref of RefPlayer i \<Rightarrow> g\<lparr>players := key_insert i (players g)\<rparr>
     | RefMonster i \<Rightarrow> g\<lparr>monsters := key_insert i (monsters g)\<rparr>
     | RefArrow i \<Rightarrow> g\<lparr>projectiles := key_insert i (projectiles g)\<rparr>"
  have 1: "evolves b w (upd_room r ?f w)"
    by (rule evolves_upd_room)
      (use assms in \<open>auto simp: room_change_def Let_def ref_ok_def monster_ok_def split: ObjRef.splits\<close>)
  have "evolves b w (set_obj_room ref (Some r) (upd_room r ?f w))"
  proof (rule evolves_if_safe)
    assume s: "safe w"
    show ?thesis
    proof (rule evolves_trans [OF 1], rule evolves_set_obj_room)
      fix m q assume m: "ref = RefMonster m" "Some r = Some q" "faulted (upd_room r ?f w) = None"
      with s assms have "ref_ok w r ref" by (simp add: safe_def)
      with m show "\<not> IsBlockedByWall q (GetCellPos (the_monster m (upd_room r ?f w))) (upd_room r ?f w)"
        by (auto simp: ref_ok_def the_monster_def IsBlockedByWall_def)
    qed
  qed
  then show ?thesis unfolding AddObject_def Let_def by (intro evolves_intros)
qed

lemma evolves_tick: "evolves b w (snd (tick w))"
  by (simp add: tick_def evolves_basic)

lemma tick_eq: "tick w = (clock w (clockPos w), w\<lparr>clockPos := clockPos w + 1\<rparr>)"
  by (rule tick_def)

lemma evolves_TryReserve: "evolves b w (TryReserve r m w)"
proof -
  have "evolves b w (upd_room r (\<lambda>g. g\<lparr>respawnQueue := respawnQueue g @ [req]\<rparr>) w)" for req w
    by (rule evolves_upd_room) (auto intro: room_change_simple)
  then show ?thesis
    by (auto simp: TryReserve_def Let_def tick_eq intro: evolves_trans [OF evolves_basic(4)])
qed

lemma evolves_RemoveObject: "evolves b w (RemoveObject r i w)"
proof (cases "FindObject r i w")
  case (Some ref)
  have "evolves b w (upd_room r (\<lambda>g. case ref of
       RefPlayer i \<Rightarrow> g\<lparr>players := key_erase i (players g)\<rparr>
     | RefMonster i \<Rightarrow> g\<lparr>monsters := key_erase i (monsters g)\<rparr>
     | RefArrow i \<Rightarrow> g\<lparr>projectiles := key_erase i (projectiles g)\<rparr>) w)" for w
    by (rule evolves_upd_room) (auto simp: room_change_def Let_def split: ObjRef.splits)
  moreover have "evolves b w (case ref of RefMonster m \<Rightarrow> TryReserve r m w | _ \<Rightarrow> w)"
    by (auto intro: evolves_TryReserve split: ObjRef.splits)
  moreover have "evolves b w (set_obj_room ref None w)" for w
    by (rule evolves_set_obj_room) simp
  ultimately show ?thesis
    unfolding RemoveObject_def Some option.case Let_def
    by (intro evolves_intros) (blast intro: evolves_trans)
qed (simp add: RemoveObject_def)

lemmas room_intros [evolves_intros] =
  evolves_trans [OF _ evolves_TryReserve] evolves_trans [OF _ evolves_RemoveObject]

section \<open>Entering and leaving\<close>

lemma evolves_announce_party: "evolves b w (announce_party r pid w)"
proof -
  have "evolves b w (send_to_member r pkt m w)" for pkt m w
    by (auto simp: send_to_member_def evolves_basic split: option.split)
  then show ?thesis
    by (auto simp: announce_party_def Let_def intro: evolves_fold evolves_basic split: option.split)
qed

lemma evolves_EnterRoom:
  assumes "faulted w = None \<Longrightarrow> world_wf w \<Longrightarrow> player_ok w pid"
  shows "evolves b w (EnterRoom r s pid w)"
proof -
  let ?w1 = "put_session s ((the_session s w)\<lparr>gs_room := Some r, gs_player := Some pid\<rparr>) w"
  let ?p = "StopMove (set_state IDLE (set_pos (Vec 5 5) ((the_player pid ?w1)\<lparr>psession := Some s\<rparr>)))"
  let ?w2 = "put_player pid ?p ?w1"
  let ?w3 = "send_packet s (S_MyPlayer (info ?p)) ?w2"
  have p: "player_change ?w1 pid ?p"
    by (simp add: player_change_def GetCellPos_def StopMove_def set_state_def set_pos_def)
      (simp add: player_inv_def stats_ok_def split: option.split)
  have 1: "evolves b w ?w1" by (rule evolves_basic)
  have 2: "evolves b w ?w2" by (rule evolves_trans [OF 1], rule evolves_put_player, rule p)
  have sd: "list_all no_fault (SendInventoryData ?p)" by (simp add: SendInventoryData_def)
  define w4 where "w4 = emit (SendInventoryData ?p) ?w3"
  have 4: "evolves b w w4" unfolding w4_def by (intro evolves_intros 2 sd)
  have ok: "ref_ok (send_packet s pkt w4) r (RefPlayer pid)" if "faulted (send_packet s pkt w4) = None" "safe w" for pkt
  proof -
    have st: "(micro b)\<^sup>*\<^sup>* w (send_packet s pkt w4)"
      using that(2) evolves_trans [OF 4 evolves_basic(1)] by (simp add: evolves_def)
    with that have "faulted w = None" using steps_faulted by metis
    with that(2) assms have "player_ok w pid" by (simp add: safe_def)
    from steps_player_ok [OF st that(1) this] show ?thesis
      by (simp add: ref_ok_def in_session_def w4_def StopMove_def set_state_def set_pos_def)
  qed
  show ?thesis
  proof (rule evolves_if_safe)
    assume "safe w"
    have "evolves b w (AddObject r (RefPlayer pid) (send_packet s pkt w4))" for pkt
      by (rule evolves_trans [OF evolves_trans [OF 4 evolves_basic(1)]], rule evolves_AddObject)
        (use ok \<open>safe w\<close> in blast)
    then show ?thesis
      unfolding EnterRoom_def Let_def w4_def [symmetric]
      by (blast intro: evolves_trans [OF _ evolves_announce_party])
  qed
qed

lemma evolves_pending: "evolves b w (w\<lparr>pendingRemoveDungeon := ps\<rparr>)"
proof -
  have "w\<lparr>pendingRemoveDungeon := ps\<rparr> = w\<lparr>staticRooms := staticRooms w, dungeonInstances := dungeonInstances w,
      pendingRemoveDungeon := ps, instanceIdGen := instanceIdGen w, iteratingDungeons := iteratingDungeons w\<rparr>" by simp
  then show ?thesis by (metis evolves_micro m_admin)
qed

lemma evolves_LeaveRoom: "evolves b w (LeaveRoom r s w)"
  by (auto simp: LeaveRoom_def Let_def
      intro: evolves_intros evolves_trans [OF _ evolves_pending] split: option.split)

section \<open>Spawning\<close>

lemma draw_cell_free: "draw_cell rnd sz cg i = Some y \<Longrightarrow> cg (fst y)"
  by (erule draw_cell.raw_induct [of "\<lambda>rnd sz cg i y. cg (fst y)", rotated]) (auto split: if_splits)

lemma GetRandomEmptyCellPos_run:
  "evolves b w (snd (GetRandomEmptyCellPos r w))"
  "faulted (snd (GetRandomEmptyCellPos r w)) = None \<Longrightarrow>
    CanGo r (fst (GetRandomEmptyCellPos r w)) (snd (GetRandomEmptyCellPos r w))"
proof -
  show "evolves b w (snd (GetRandomEmptyCellPos r w))"
    by (auto simp: GetRandomEmptyCellPos_def Let_def intro: evolves_basic split: option.split)
  have d: "CanGo r p (w\<lparr>dicePos := i\<rparr>) = CanGo r p w" for p i
  proof -
    have "obj_pos ref (w\<lparr>dicePos := i\<rparr>) = obj_pos ref w" for ref by (cases ref) (simp_all add: obj_pos_def)
    then have "GetCreatureAt r p (w\<lparr>dicePos := i\<rparr>) = GetCreatureAt r p w"
      by (simp add: GetCreatureAt_def first_at_def)
    then show ?thesis by (simp add: CanGo_def split: option.split)
  qed
  assume "faulted (snd (GetRandomEmptyCellPos r w)) = None"
  then show "CanGo r (fst (GetRandomEmptyCellPos r w)) (snd (GetRandomEmptyCellPos r w))"
    by (auto simp: GetRandomEmptyCellPos_def Let_def d split: option.splits if_splits dest: draw_cell_free)
qed

lemma new_monster_simps:
  "i_objectid (info (apply_template t m)) = i_objectid (info m)" "in_room (apply_template t m) = in_room m"
  "i_objectid (info (SetTemplateId tid m)) = i_objectid (info m)" "in_room (SetTemplateId tid m) = in_room m"
  "GetCellPos (apply_template t m) = GetCellPos m" "GetCellPos (SetTemplateId tid m) = GetCellPos m"
  by (simp_all add: apply_template_def SetTemplateId_def GetCellPos_def split: option.split)

lemma evolves_spawn_monster: "evolves b w (spawn_monster r pos0 ag le tid tmpl w)"
proof -
  define st where "st = (if \<not> CanGo r pos0 w then GetRandomEmptyCellPos r w else (pos0, w))"
  obtain pos w1 where st1: "st = (pos, w1)" by (cases st)
  have 1: "evolves b w w1"
    using st1 GetRandomEmptyCellPos_run(1) [of b w r] by (auto simp: st_def split: if_splits)
  have fl: "faulted w1 = None \<Longrightarrow> \<not> IsBlockedByWall r pos w1"
    using st1 GetRandomEmptyCellPos_run(2) [of r w] by (auto simp: st_def split: if_splits dest: CanGo_floor)
  define i where "i = idGenerator w1"
  define m where "m = apply_template tmpl (SetTemplateId tid ((set_pos pos ((Monster_new i)\<lparr>homePos := pos\<rparr>))
    \<lparr>aggroRange := ag, leashRange := le\<rparr>))"
  have m: "i_objectid (info m) = i" "in_room m = None" "GetCellPos m = pos"
    by (simp_all add: m_def new_monster_simps set_pos_def Monster_new_def) (simp add: GetCellPos_def)
  define w2 where "w2 = put_monster i m (w1\<lparr>idGenerator := i + 1\<rparr>)"
  have 2: "evolves b w1 w2" unfolding w2_def by (rule evolves_micro, rule m_new_monster) (use m in auto)
  have "evolves b w2 (AddObject r (RefMonster i) w2)"
    by (rule evolves_AddObject) (use m fl in \<open>simp add: ref_ok_def w2_def\<close>)
  moreover have "spawn_monster r pos0 ag le tid tmpl w = AddObject r (RefMonster i) w2"
    unfolding spawn_monster_def st_def [symmetric] st1 Let_def prod.case CreateMonster_def i_def [symmetric]
    by (simp add: w2_def m_def) (simp add: put_monster_def)
  ultimately show ?thesis using 1 2 evolves_trans by metis
qed

lemma evolves_spawn_count: "evolves b w (snd (spawn_count r grp mi t n (k, w)))"
proof (induction n arbitrary: k w)
  case (Suc n)
  then show ?case by (auto intro: evolves_trans [OF evolves_spawn_monster])
qed simp

lemma evolves_SpawnMonstersFromData: "evolves b w (SpawnMonstersFromData r w)"
proof -
  have t: "evolves b (snd kw) (snd (spawn_type r grp mi kw))" for grp mi kw
    by (cases kw) (auto simp: spawn_type_def evolves_spawn_count split: option.split)
  have "evolves b (snd kw) (snd (fold (spawn_type r grp) ms kw))" for grp ms kw
  proof (induction ms arbitrary: kw)
    case (Cons mi ms)
    show ?case by simp (rule evolves_trans [OF t Cons.IH])
  qed simp
  then have "evolves b w (spawn_group r grp w)" for grp w
    unfolding spawn_group_def by (metis snd_conv)
  then show ?thesis
    by (auto simp: SpawnMonstersFromData_def intro: evolves_fold split: option.split)
qed

lemma evolves_Spawn_Init: "evolves b w (Spawn_Init r c sc w)"
proof -
  have "evolves b w (upd_room r (\<lambda>g. g\<lparr>spawnConfig := sc\<rparr>) w)"
    by (rule evolves_upd_room) (auto intro: room_change_simple)
  then show ?thesis
    using evolves_trans [OF _ evolves_SpawnMonstersFromData] by (simp add: Spawn_Init_def Let_def)
qed

lemma evolves_Spawn_Tick: "evolves b w (Spawn_Tick r w)"
proof -
  have pass: "evolves b w (snd (respawn_pass r now qs w))" for now qs w
  proof (induction qs arbitrary: w)
    case (Cons q qs)
    then show ?case by (auto simp: split_beta intro: evolves_trans [OF evolves_spawn_monster])
  qed simp
  have q: "evolves b w (upd_room r (\<lambda>g. g\<lparr>respawnQueue := rest\<rparr>) w)" for rest w
    by (rule evolves_upd_room) (auto intro: room_change_simple)
  show ?thesis
    unfolding Spawn_Tick_def ProcessRespawn_def Let_def tick_eq split_beta
    by (auto intro: evolves_trans [OF evolves_trans [OF evolves_basic(4) pass] q])
qed

end
