(* ===== verification/Combat_Safe.thy ===== *)
theory Combat_Safe
  imports Rooms_Safe
begin

text \<open>
  The weapons and the updates of players, monsters and arrows as runs of elementary changes.
\<close>

section \<open>Damage and rewards\<close>

lemma hit_damage_in32 [simp]: "in32 (hit_damage a d)"
  by (simp add: hit_damage_def in32_def) (use in32_wrap32 [of "a - d"] in \<open>simp add: in32_def\<close>)

lemma OnDamaged_body: "body (snd (OnDamaged n p)) = body p"
  by (simp add: OnDamaged_def body_def GetCellPos_def)

lemma evolves_damage_obj: "(case ref of RefPlayer i \<Rightarrow> in32 n | _ \<Rightarrow> True) \<Longrightarrow> evolves b w (damage_obj ref n w)"
proof (induction ref n w rule: damage_obj.induct)
  case (1 i n w)
  then show ?case
    by (simp, intro evolves_put_player player_change_body) (auto simp: OnDamaged_body intro: OnDamaged_inv)
next
  case (2 i n w)
  show ?case
    by (simp, intro evolves_put_monster) (simp add: monster_change_def OnDamaged_def GetCellPos_def)
qed simp

lemma evolves_rewards:
  "evolves b w (DistributeExp r k m w)" "evolves b w (ProcessMonsterDrop k m w)"
  "evolves b w (BroadcastAttack r k d wp w)" "evolves b w (BroadcastDamaged r a tgt n w)"
proof -
  show "evolves b w (DistributeExp r k m w)"
    by (auto simp: DistributeExp_def Let_def intro: evolves_fold evolves_run_ops split: option.split)
  have "evolves b w (drop_item k d w)" for d w
    by (auto simp: drop_item_def roll_def intro: evolves_basic evolves_trans [OF evolves_basic(5) evolves_run_ops(2), simplified])
  then show "evolves b w (ProcessMonsterDrop k m w)"
    by (auto simp: ProcessMonsterDrop_def intro: evolves_fold split: option.split)
qed (simp_all add: BroadcastAttack_def BroadcastDamaged_def evolves_Broadcast)

lemmas combat_intros [evolves_intros] =
  evolves_rewards(1) [THEN evolves_trans [rotated]] evolves_rewards(2) [THEN evolves_trans [rotated]]
  evolves_rewards(3) [THEN evolves_trans [rotated]] evolves_rewards(4) [THEN evolves_trans [rotated]]
  evolves_trans [OF _ evolves_damage_obj]

declare damage_obj.simps [simp del]

section \<open>Weapons\<close>

lemma evolves_HandleSwordAttack: "evolves b w (HandleSwordAttack r k w)"
  unfolding HandleSwordAttack_def Let_def
  by (auto intro!: evolves_intros split: option.split ObjRef.split)

lemma evolves_HandleBowAttack: "evolves b w (HandleBowAttack r k d w)"
proof -
  define i where "i = idGenerator w"
  define w1 where "w1 = put_arrow i (Arrow_new i) (w\<lparr>idGenerator := i + 1\<rparr>)"
  define a where "a = (set_pos (GetCellPos (the_player k w1)) (set_dir d (the_arrow i w1)))
    \<lparr>ownerId := i_objectid (info (the_player k w1))\<rparr>"
  have 1: "evolves b w w1" unfolding w1_def by (rule evolves_micro, rule m_new_arrow) (simp add: Arrow_new_def)
  have id: "i_objectid (info a) = i" by (simp add: a_def w1_def Arrow_new_def set_pos_def set_dir_def)
  have "evolves b w1 (put_arrow i a w1)"
    by (rule evolves_put_arrow) (simp add: id, simp add: w1_def Arrow_new_def)
  moreover have "evolves b (put_arrow i a w1) (AddObject r (RefArrow i) (put_arrow i a w1))"
    by (rule evolves_AddObject) (simp add: ref_ok_def arrow_ok_def id)
  moreover have "HandleBowAttack r k d w = AddObject r (RefArrow i) (put_arrow i a w1)"
    by (simp add: HandleBowAttack_def CreateArrow_def Let_def a_def w1_def i_def)
  ultimately show ?thesis using 1 by (metis evolves_trans)
qed

lemma evolves_HandleStaffAttack: "evolves b w (HandleStaffAttack r k d w)"
proof -
  have hit: "evolves b (snd st) (snd (staff_hit r k c st))" for c st
    by (cases st) (auto simp: staff_hit_def Let_def intro!: evolves_intros split: option.split)
  have "evolves b (snd st) (snd (fold (staff_hit r k) cs st))" for cs st
  proof (induction cs arbitrary: st)
    case (Cons c cs)
    show ?case by simp (rule evolves_trans [OF hit Cons.IH])
  qed simp
  from this [of "([], w)"] have hits: "evolves b w (snd (fold (staff_hit r k) cs ([], w)))" for cs by simp
  have kill: "evolves b w (staff_kill r k m w)" for m w
    unfolding staff_kill_def by (intro evolves_intros)
  show ?thesis
    unfolding HandleStaffAttack_def Let_def split_beta
    by (rule evolves_trans [OF hits evolves_fold]) (rule kill)
qed

lemma evolves_HandleAttack: "evolves b w (HandleAttack r k d wp w)"
  unfolding HandleAttack_def Let_def
  by (rule evolves_trans [OF evolves_rewards(3) [of b w r k d wp]])
    (simp add: evolves_HandleSwordAttack evolves_HandleBowAttack evolves_HandleStaffAttack)

section \<open>Monsters\<close>

lemma SetState_simps:
  "i_objectid (info (fst (SetState st bc m))) = i_objectid (info m)" "in_room (fst (SetState st bc m)) = in_room m"
  "GetCellPos (fst (SetState st bc m)) = GetCellPos m" "list_all no_fault (snd (SetState st bc m))"
  by (simp_all add: SetState_def Let_def BroadcastMove_def split: option.split)

lemma evolves_run_monster:
  "i_objectid (info (fst (f (the_monster mid w)))) = i_objectid (info (the_monster mid w)) \<Longrightarrow>
    in_room (fst (f (the_monster mid w))) = in_room (the_monster mid w) \<Longrightarrow>
    GetCellPos (fst (f (the_monster mid w))) = GetCellPos (the_monster mid w) \<Longrightarrow>
    list_all no_fault (snd (f (the_monster mid w))) \<Longrightarrow> evolves b w (run_monster mid f w)"
  unfolding run_monster_def split_beta
  by (intro evolves_intros evolves_put_monster) (simp_all add: monster_change_def)

lemma evolves_run_SetState: "evolves b w (run_monster mid (SetState st bc) w)"
  by (rule evolves_run_monster) (simp_all add: SetState_simps)

lemmas run_SetState_intro [evolves_intros] = evolves_trans [OF _ evolves_run_SetState]

lemma evolves_monster_step:
  assumes "in_room (the_monster mid w) = Some r"
  shows "evolves b w (monster_step r mid p delay w)"
proof -
  let ?m2 = "fst (SetCellPos p False (fst (SetDir (GetLookAtDir p (the_monster mid w)) False (the_monster mid w))))"
  have "evolves b w (put_monster mid (?m2\<lparr>waitUntil := t\<rparr>) (w\<lparr>clockPos := k\<rparr>))" if "CanGo r p w" for t k
    by (rule evolves_trans [OF evolves_basic(4) evolves_put_monster])
      (use that assms CanGo_floor [OF that] in \<open>auto simp: monster_change_def SetCellPos_def SetDir_def set_pos_def set_dir_def
          GetCellPos_def IsBlockedByWall_def\<close>)
  then show ?thesis
    by (auto simp: monster_step_def Let_def tick_eq intro!: evolves_intros)
qed

lemma evolves_monster_follow:
  "in_room (the_monster mid w) = Some r \<Longrightarrow> evolves b w (monster_follow r mid d delay w)"
  by (auto simp: monster_follow_def intro: evolves_basic evolves_monster_step split: option.split)

lemma evolves_set_target: "evolves b w (set_target mid t w)"
  unfolding set_target_def by (rule evolves_put_monster) (simp add: monster_change_def GetCellPos_def)

lemma set_target_room [simp]: "in_room (the_monster mid (set_target mid t w)) = in_room (the_monster mid w)"
  by (simp add: set_target_def)

lemma evolves_monster_chase:
  "in_room (the_monster mid w) = Some r \<Longrightarrow> evolves b w (monster_chase r mid t w)"
  by (auto simp: monster_chase_def intro: evolves_basic evolves_monster_step evolves_set_target split: option.split)

lemma evolves_monster_hit: "evolves b w (monster_hit r mid t w)"
proof -
  have 1: "evolves b w (put_monster mid (fst (SetDir d False (the_monster mid w))) w)" for d w
    by (rule evolves_put_monster) (simp add: monster_change_def SetDir_def set_dir_def GetCellPos_def)
  have 2: "evolves b w (put_monster mid ((the_monster mid w)\<lparr>waitUntil := x\<rparr>) w)" for x w
    by (rule evolves_put_monster) (simp add: monster_change_def GetCellPos_def)
  have 3: "evolves b w (put_monster mid ((the_monster mid w)\<lparr>waitUntil := x\<rparr>) (w\<lparr>clockPos := k\<rparr>))" for x w k
    using evolves_trans [OF evolves_basic(4) 2 [of "w\<lparr>clockPos := k\<rparr>"]] by simp
  show ?thesis
    unfolding monster_hit_def Let_def tick_eq prod.case
    by (auto intro!: evolves_intros evolves_trans [OF _ 3] 1)
qed

lemma evolves_UpdateIdle: "evolves b w (UpdateIdle mid w)"
proof (cases "in_room (the_monster mid w)")
  case (Some r)
  define w1 where "w1 = (if homePos (the_monster mid w) = Vec (-1) (-1)
    then put_monster mid ((the_monster mid w)\<lparr>homePos := GetCellPos (the_monster mid w)\<rparr>) w else w)"
  have 1: "evolves b w w1"
    unfolding w1_def by (auto intro!: evolves_put_monster simp: monster_change_def GetCellPos_def)
  have r: "in_room (the_monster mid w1) = Some r" by (simp add: w1_def Some)
  have f: "evolves b w1 (monster_follow r mid d dl (set_target mid t w1))"
    "evolves b w1 (monster_follow r mid d dl w1)"
    "evolves b w1 (monster_follow r mid d dl (set_target mid t' (set_target mid t w1)))" for d dl t t'
    using r evolves_trans [OF evolves_set_target evolves_monster_follow]
      evolves_trans [OF evolves_trans [OF evolves_set_target evolves_set_target] evolves_monster_follow]
    by (auto intro: evolves_monster_follow)
  have h: "evolves b w1 (monster_hit r mid t (set_target mid t' w1))" "evolves b w1 (monster_hit r mid t w1)"
    "evolves b w1 (monster_chase r mid t (set_target mid t' w1))" "evolves b w1 (monster_chase r mid t w1)" for t t'
    using r evolves_trans [OF evolves_set_target evolves_monster_chase]
    by (auto intro: evolves_monster_hit evolves_monster_chase evolves_trans [OF evolves_set_target])
  show ?thesis
    unfolding UpdateIdle_def Some option.case w1_def [symmetric] Let_def
    by (rule evolves_trans [OF 1])
      (simp add: f h evolves_set_target evolves_trans [OF evolves_set_target evolves_set_target] split: option.split)
qed (simp add: UpdateIdle_def)

lemma evolves_Monster_Update: "evolves b w (Monster_Update mid w)"
  by (auto simp: Monster_Update_def UpdateMove_def tick_eq
      intro: evolves_UpdateIdle evolves_basic evolves_trans [OF evolves_basic(4) evolves_run_SetState] split: ObjectState.split)

section \<open>Players and arrows\<close>

lemma evolves_Player_Update: "evolves b w (Player_Update pid w)"
  by (auto simp: Player_Update_def tick_eq intro: evolves_trans [OF evolves_basic(4) evolves_run_ops(6)])

lemma evolves_run_arrow:
  "i_objectid (info (fst (f (the_arrow aid w)))) = i_objectid (info (the_arrow aid w)) \<Longrightarrow>
    list_all no_fault (snd (f (the_arrow aid w))) \<Longrightarrow> evolves b w (run_arrow aid f w)"
  unfolding run_arrow_def split_beta
  by (intro evolves_intros evolves_put_arrow) simp_all

lemma arrow_runs:
  "evolves b w (run_arrow aid (SetState st bc) w)" "evolves b w (run_arrow aid (SetCellPos p bc) w)"
  "evolves b w (run_arrow aid (\<lambda>a. (a, BroadcastMove a)) w)" "evolves b w (run_arrow aid (\<lambda>a. (set_state st a, [])) w)"
  by (rule evolves_run_arrow; simp add: SetState_def SetCellPos_def Let_def BroadcastMove_def split: option.split)+

lemmas arrow_intros [evolves_intros] = arrow_runs [THEN evolves_trans [rotated]]

lemma evolves_arrow_hit: "evolves b w (arrow_hit r aid mid w)"
  unfolding arrow_hit_def Let_def
  by (auto intro!: evolves_intros split: option.split ObjRef.split)

lemmas arrow_hit_intro [evolves_intros] = evolves_trans [OF _ evolves_arrow_hit]

lemma evolves_Arrow_Update: "evolves b w (Arrow_Update aid w)"
proof -
  have put: "evolves b w (put_arrow aid ((the_arrow aid w)\<lparr>pwaitUntil := t\<rparr>) w)" for t w
    by (rule evolves_put_arrow) simp
  have idle: "evolves b w (Arrow_UpdateIdle aid w)" for w
    unfolding Arrow_UpdateIdle_def Let_def tick_eq prod.case
    by (auto intro!: evolves_intros evolves_trans [OF _ put] split: option.split)
  have move: "evolves b w (Arrow_UpdateMove aid w)" for w
    unfolding Arrow_UpdateMove_def Let_def tick_eq prod.case by (auto intro!: evolves_intros)
  show ?thesis
  proof (cases "in_room (the_arrow aid w)")
    case (Some r)
    define w1 where "w1 = w\<lparr>clockPos := clockPos w + 1\<rparr>"
    define a where "a = (if \<not> spawned (the_arrow aid w1) then (the_arrow aid w1)\<lparr>spawned := True,
      expireTick := clock w (clockPos w) + lifeTimeMs (the_arrow aid w1), pwaitUntil := clock w (clockPos w)\<rparr>
      else the_arrow aid w1)"
    have 1: "evolves b w (put_arrow aid a w1)"
      by (rule evolves_trans [OF evolves_basic(4) [of b w "clockPos w + 1"]], fold w1_def, rule evolves_put_arrow)
        (simp add: a_def)
    show ?thesis
      unfolding Arrow_Update_def Some option.case Let_def tick_eq prod.case w1_def [symmetric] a_def [symmetric]
      by (auto intro!: evolves_intros 1 evolves_trans [OF 1 idle] evolves_trans [OF 1 move] split: ObjectState.split)
  qed (simp add: Arrow_Update_def)
qed

section \<open>One fixed step\<close>

lemma evolves_Step: "evolves b w (Step r w)"
proof -
  have 1: "evolves b w (fold Player_Update ps w)" for ps w
    by (rule evolves_fold) (rule evolves_Player_Update)
  have 2: "evolves b w (fold Monster_Update ps w)" for ps w
    by (rule evolves_fold) (rule evolves_Monster_Update)
  have 3: "evolves b w (fold Arrow_Update ps w)" for ps w
    by (rule evolves_fold) (rule evolves_Arrow_Update)
  show ?thesis
    unfolding Step_def Let_def
    by (rule evolves_trans [OF evolves_trans [OF evolves_trans [OF 1 2] 3] evolves_Spawn_Tick])
qed

end
