(* ===== verification/Manager_Safe.thy ===== *)
theory Manager_Safe
  imports Combat_Safe
begin

text \<open>
  Room creation, the handlers queued in a room, its job queue and the update of all rooms as runs
  of elementary changes; and what follows for the server: its update never leaves the invariant.
\<close>

section \<open>Rooms and parties\<close>

lemma evolves_admin:
  "evolves b w (w\<lparr>staticRooms := rs\<rparr>)" "evolves b w (w\<lparr>dungeonInstances := ds\<rparr>)"
  "evolves b w (w\<lparr>instanceIdGen := n\<rparr>)" "evolves b w (w\<lparr>iteratingDungeons := t\<rparr>)"
  "evolves b w (w\<lparr>pendingRemoveDungeon := ps\<rparr>)"
proof -
  note m = evolves_micro [OF m_admin [of b w]]
  show "evolves b w (w\<lparr>staticRooms := rs\<rparr>)"
    using m [of "iteratingDungeons w" "instanceIdGen w" "pendingRemoveDungeon w" "dungeonInstances w" rs] by simp
  show "evolves b w (w\<lparr>dungeonInstances := ds\<rparr>)"
    using m [of "iteratingDungeons w" "instanceIdGen w" "pendingRemoveDungeon w" ds "staticRooms w"] by simp
  show "evolves b w (w\<lparr>instanceIdGen := n\<rparr>)"
    using m [of "iteratingDungeons w" n "pendingRemoveDungeon w" "dungeonInstances w" "staticRooms w"] by simp
  show "evolves b w (w\<lparr>iteratingDungeons := t\<rparr>)"
    using m [of t "instanceIdGen w" "pendingRemoveDungeon w" "dungeonInstances w" "staticRooms w"] by simp
  show "evolves b w (w\<lparr>pendingRemoveDungeon := ps\<rparr>)"
    using m [of "iteratingDungeons w" "instanceIdGen w" ps "dungeonInstances w" "staticRooms w"] by simp
qed

lemma evolves_party: "evolves b w (w\<lparr>party := op_party op (party w)\<rparr>)"
  by (rule evolves_micro) (rule m_party)

lemma evolves_InitFromConfig:
  assumes "monsters (the_room r w) = []"
  shows "evolves b w (InitFromConfig r rid w)"
proof -
  let ?c = "GetRoomConfig (gdata w) rid"
  let ?w1 = "upd_room r (\<lambda>g. g\<lparr>config := ?c\<rparr>) w"
  have 1: "evolves b w ?w1"
    by (rule evolves_upd_room) (auto intro: room_change_simple)
  have 2: "evolves b v (upd_room r (\<lambda>g. g\<lparr>tilemap := m\<rparr>) v)" if "monsters (the_room r v) = []" for m v
    by (rule evolves_upd_room) (use that in \<open>auto simp: room_change_def\<close>)
  show ?thesis
    unfolding InitFromConfig_def Let_def
    by (rule evolves_trans [OF 1])
      (auto simp: assms intro: evolves_basic evolves_trans [OF 2 evolves_Spawn_Init] split: option.split)
qed

lemma evolves_make_room_init:
  "b \<or> rooms w r = None \<Longrightarrow> evolves b w (InitFromConfig r rid (make_room r fld ch inst w))"
proof -
  assume "b \<or> rooms w r = None"
  then have "evolves b w (make_room r fld ch inst w)" by (intro evolves_micro m_make_room)
  moreover have "monsters (the_room r (make_room r fld ch inst w)) = []"
    by (simp add: the_room_make_room GameRoom_new_def)
  ultimately show ?thesis by (blast intro: evolves_trans evolves_InitFromConfig)
qed

lemma evolves_Manager_Init: "evolves True w (Manager_Init loaded w)"
proof -
  have "evolves True w (add_static_room f ch rid w)" for f ch rid w
    unfolding add_static_room_def Let_def by (rule evolves_trans [OF evolves_make_room_init evolves_admin(1)]) simp
  then show ?thesis by (simp add: Manager_Init_def evolves_trans [of True w "add_static_room Town 1 ''town_1'' w"])
qed

text \<open>The counter of instances has 64 bits; a room made under an id that is taken would lose the queue of the old one.\<close>

definition fresh_room :: "World \<Rightarrow> bool" where
  "fresh_room w \<longleftrightarrow> rooms w (DungeonRoom (instanceIdGen w)) = None"

lemma evolves_CreateDungeonInstance:
  assumes "b \<or> fresh_room w"
  shows "evolves b w (snd (CreateDungeonInstance w))"
proof -
  let ?r = "DungeonRoom (instanceIdGen w)"
  have 1: "evolves b w (InitFromConfig ?r rid (make_room ?r fld ch inst (w\<lparr>instanceIdGen := n\<rparr>)))" for rid fld ch inst n
    by (rule evolves_trans [OF evolves_admin(3) evolves_make_room_init]) (use assms in \<open>simp add: fresh_room_def\<close>)
  have 2: "evolves b w1 ((if c then raise IteratorInvalidated w1 else w1)\<lparr>dungeonInstances := ds\<rparr>)" for w1 c ds
    by (simp add: evolves_admin evolves_trans [OF evolves_basic(2) evolves_admin(2)])
  show ?thesis
    unfolding CreateDungeonInstance_def Let_def snd_conv by (rule evolves_trans [OF 1 2])
qed

section \<open>Handlers\<close>

lemma psession_simps [simp]:
  "psession (set_state st p) = psession p" "psession (set_dir d p) = psession p" "psession (set_pos q p) = psession p"
  by (simp_all add: set_state_def set_dir_def set_pos_def)

lemma evolves_Handle_C_Turn: "evolves b w (Handle_C_Turn r s d w)"
proof -
  have "player_change w pid (set_state st (set_dir d (the_player pid w)))" for pid st
    by (simp add: player_change_def)
  then show ?thesis
    unfolding Handle_C_Turn_def Let_def
    by (auto intro!: evolves_intros evolves_put_player split: option.split)
qed

lemma evolves_Handle_C_Move: "evolves b w (Handle_C_Move r s d w)"
proof (cases "session_player s w")
  case (Some pid)
  let ?p = "the_player pid w"
  have turn: "evolves b w (put_player pid (set_state st (set_dir d ?p)) w)" for st
    by (rule evolves_put_player) (simp add: player_change_def)
  have stay: "evolves b w (put_player pid (set_state st ?p) w)" for st
    by (rule evolves_put_player) (simp add: player_change_def)
  have go: "evolves b w (put_player pid (StartMove now t (set_pos (GetFrontCellPos ?p) (set_state MOVE ?p))) (w\<lparr>clockPos := k\<rparr>))"
    if "CanGo r (GetFrontCellPos ?p) w" "DIR_TYPE_IsValid (i_dir (info ?p))" for now t k
  proof (rule evolves_trans [OF evolves_basic(4) evolves_put_player])
    have c: "CanGo r q (w\<lparr>clockPos := k\<rparr>) = CanGo r q w" for q
    proof -
      have "obj_pos ref (w\<lparr>clockPos := k\<rparr>) = obj_pos ref w" for ref by (cases ref) (simp_all add: obj_pos_def)
      then have "GetCreatureAt r q (w\<lparr>clockPos := k\<rparr>) = GetCreatureAt r q w"
        by (simp add: GetCreatureAt_def first_at_def)
      then show ?thesis by (simp add: CanGo_def split: option.split)
    qed
    have "GetCellPos (StartMove now t q) = GetCellPos q" for q :: Player by (simp add: GetCellPos_def StartMove_def)
    moreover have "info (StartMove now t q) = info q" "psession (StartMove now t q) = psession q" for q :: Player
      by (simp_all add: StartMove_def)
    moreover have "CanGo r (GetFrontCellPos ?p) (w\<lparr>clockPos := k\<rparr>)" using that(1) by (simp only: c)
    ultimately show "player_change (w\<lparr>clockPos := k\<rparr>) pid (StartMove now t (set_pos (GetFrontCellPos ?p) (set_state MOVE ?p)))"
      using that front_is_adjacent [OF that(2)] by (auto simp: player_change_def Let_def)
  qed
  show ?thesis
    unfolding Handle_C_Move_def Some option.case Let_def tick_eq prod.case
    by (auto intro!: evolves_intros turn stay go)
qed (simp add: Handle_C_Move_def)

lemma evolves_Handle_C_Attack: "evolves b w (Handle_C_Attack r s d wp w)"
  by (auto simp: Handle_C_Attack_def intro: evolves_HandleAttack split: option.split)

lemma wf_FindObject: "world_wf w \<Longrightarrow> FindObject r i w = Some (RefPlayer j) \<Longrightarrow> player_ok w j"
  using wf_player [of w j r] by (auto simp: FindObject_def Let_def split: if_splits)

lemma evolves_move_out:
  assumes "faulted w = None \<Longrightarrow> player_ok w p"
  shows "evolves b w (move_out src dest mapid ch inst (s, p) w)"
proof (rule evolves_if_safe)
  assume "safe w"
  define w1 where "w1 = LeaveRoom src s (send_packet s (S_ChangeMap True mapid ch inst) w)"
  have 1: "evolves b w w1" unfolding w1_def by (rule evolves_trans [OF evolves_basic(1) evolves_LeaveRoom])
  have "evolves b w1 (PushJob dest (JobEnter s p) w1)"
  proof (rule evolves_PushJob)
    assume f: "faulted w1 = None"
    from 1 \<open>safe w\<close> have st: "(micro b)\<^sup>*\<^sup>* w w1" by (simp add: evolves_def)
    with f have "faulted w = None" using steps_faulted by metis
    with assms steps_player_ok [OF st f] show "job_ok w1 (JobEnter s p)" by (simp add: job_ok_def)
  qed simp
  with 1 show "evolves b w (move_out src dest mapid ch inst (s, p) w)"
    unfolding move_out_def prod.case w1_def [symmetric] by (rule evolves_trans)
qed

lemma evolves_move_party:
  assumes "faulted w = None \<Longrightarrow> \<forall>sp \<in> set sps. player_ok w (snd sp)"
  shows "evolves b w (fold (move_out src dest mapid ch inst) sps w)"
proof (rule evolves_fold_keep [where P = "\<lambda>w. faulted w = None \<longrightarrow> (\<forall>sp \<in> set sps. player_ok w (snd sp))"])
  show "faulted w = None \<longrightarrow> (\<forall>sp \<in> set sps. player_ok w (snd sp))" using assms by blast
  show "evolves b w (move_out src dest mapid ch inst sp w)"
    if "sp \<in> set sps" "faulted w = None \<longrightarrow> (\<forall>sp \<in> set sps. player_ok w (snd sp))" for sp w
  proof -
    obtain t p where "sp = (t, p)" by (cases sp)
    with that show ?thesis by (auto intro!: evolves_move_out)
  qed
qed (metis steps_faulted steps_player_ok)

lemma party_to_move_ok:
  assumes "world_wf w" "sp \<in> set (party_to_move src p w)"
  shows "player_ok w (snd sp)"
proof -
  from assms(2) obtain m where m: "sp \<in> set (case FindObject src m w of
      Some (RefPlayer i) \<Rightarrow> (case psession (the_player i w) of None \<Rightarrow> [] | Some s \<Rightarrow> [(s, i)]) | _ \<Rightarrow> [])"
    unfolding party_to_move_def set_concat set_map by blast
  then obtain i where i: "FindObject src m w = Some (RefPlayer i)"
    by (cases "FindObject src m w"; cases "the (FindObject src m w)") simp_all
  with m have "snd sp = i" by (cases "psession (the_player i w)") simp_all
  with wf_FindObject [OF assms(1) i] show ?thesis by simp
qed

lemma evolves_Handle_C_ChangeMap:
  assumes "b \<or> fresh_room w"
  shows "evolves b w (Handle_C_ChangeMap src s mapid ch w)"
proof (cases "session_player s w")
  case (Some pid)
  define c where "c = (if mapid = MAP_ID_TOWN then (0, GetStaticRoom Town ch w, w)
    else if mapid = MAP_ID_DUNGEON then
      (case CreateDungeonInstance w of (i, w') \<Rightarrow> (i, GetDungeonInstance i w', w')) else (0, None, w))"
  obtain inst dest w1 where c1: "c = (inst, dest, w1)" by (cases c)
  have 1: "evolves b w w1"
    using c1 evolves_CreateDungeonInstance [OF assms] by (auto simp: c_def split: if_splits prod.splits)
  have one: "evolves b w (move_out src d x ch inst (s, pid) w1)" for d x
  proof (rule evolves_if_safe)
    assume "safe w"
    have "evolves b w1 (move_out src d x ch inst (s, pid) w1)"
    proof (rule evolves_move_out)
      assume f: "faulted w1 = None"
      from 1 \<open>safe w\<close> have st: "(micro b)\<^sup>*\<^sup>* w w1" by (simp add: evolves_def)
      with f have "faulted w = None" using steps_faulted by metis
      with \<open>safe w\<close> Some have "player_ok w pid" by (simp add: safe_def wf_session_player)
      with steps_player_ok [OF st f] show "player_ok w1 pid" by blast
    qed
    with 1 show "evolves b w (move_out src d x ch inst (s, pid) w1)" by (rule evolves_trans)
  qed
  have many: "evolves b w (fold (move_out src d x ch inst) (party_to_move src p w1) w1)" for d p x
  proof (rule evolves_if_safe)
    assume "safe w"
    with 1 have "safe w1" by (rule evolves_safe)
    then have "faulted w1 = None \<Longrightarrow> \<forall>sp \<in> set (party_to_move src p w1). player_ok w1 (snd sp)"
      by (auto simp: safe_def party_to_move_ok)
    then have "evolves b w1 (fold (move_out src d x ch inst) (party_to_move src p w1) w1)"
      by (rule evolves_move_party)
    with 1 show "evolves b w (fold (move_out src d x ch inst) (party_to_move src p w1) w1)"
      by (rule evolves_trans)
  qed
  have no: "evolves b w (refuse_change s x ch w)" "evolves b w (refuse_change s x ch w1)" for x
    unfolding refuse_change_def by (rule evolves_basic, rule evolves_trans [OF 1 evolves_basic(1)])
  show ?thesis
    unfolding Handle_C_ChangeMap_def Some option.case Let_def c_def [symmetric] c1 prod.case
    by (simp add: no one many split: option.split)
qed (simp add: Handle_C_ChangeMap_def)

section \<open>Parties\<close>

lemma evolves_SendPartyUpdateFromRoom: "evolves b w (SendPartyUpdateFromRoom r gid w)"
proof -
  have "evolves b w (case FindObject r m w of Some (RefPlayer i) \<Rightarrow>
      (case psession (the_player i w) of None \<Rightarrow> w | Some s \<Rightarrow> send_packet s pkt w) | _ \<Rightarrow> w)" for m w pkt
    by (auto intro: evolves_basic split: option.split ObjRef.split)
  then show ?thesis
    by (auto simp: SendPartyUpdateFromRoom_def Let_def intro!: evolves_fold split: option.split)
qed

lemma evolves_Job_PartyInvite: "evolves b w (Job_PartyInvite r s t w)"
  by (auto simp: Job_PartyInvite_def Let_def intro: evolves_basic split: option.split ObjRef.split)

lemma party_steps:
  "evolves b w0 w \<Longrightarrow> evolves b w0 (w\<lparr>party := snd (CreateParty l (party w))\<rparr>)"
  "evolves b w0 w \<Longrightarrow> evolves b w0 (w\<lparr>party := snd (AddMember g m (party w))\<rparr>)"
  "evolves b w0 w \<Longrightarrow> evolves b w0 (w\<lparr>party := set_member_name g m n (party w)\<rparr>)"
  "evolves b w0 w \<Longrightarrow> evolves b w0 (w\<lparr>party := set_member_name g m n (snd (CreateParty l (party w)))\<rparr>)"
  "evolves b w0 w \<Longrightarrow> evolves b w0 (w\<lparr>party := set_member_name g m n (snd (AddMember g' m' (party w)))\<rparr>)"
  "evolves b w0 w \<Longrightarrow> GetPartyIdByPlayer m (party w) \<noteq> 0 \<Longrightarrow>
    evolves b w0 (w\<lparr>party := RemoveMember (GetPartyIdByPlayer m (party w)) m (party w)\<rparr>)"
proof -
  have c: "evolves b w (w\<lparr>party := snd (CreateParty l (party w))\<rparr>)" for w
    using evolves_party [of b w "PCreate l"] by (simp add: op_party_def)
  have a: "evolves b w (w\<lparr>party := snd (AddMember g m (party w))\<rparr>)" for w g m
    using evolves_party [of b w "PAdd g m"] by (simp add: op_party_def)
  have n: "evolves b w (w\<lparr>party := set_member_name g m n (party w)\<rparr>)" for w
    using evolves_party [of b w "PName g m n"] by (simp add: op_party_def)
  assume w: "evolves b w0 w"
  show "evolves b w0 (w\<lparr>party := snd (CreateParty l (party w))\<rparr>)" by (rule evolves_trans [OF w c])
  show "evolves b w0 (w\<lparr>party := snd (AddMember g m (party w))\<rparr>)" by (rule evolves_trans [OF w a])
  show "evolves b w0 (w\<lparr>party := set_member_name g m n (party w)\<rparr>)" by (rule evolves_trans [OF w n])
  show "evolves b w0 (w\<lparr>party := set_member_name g m n (snd (CreateParty l (party w)))\<rparr>)"
    using evolves_trans [OF w evolves_trans [OF c n]] by simp
  show "evolves b w0 (w\<lparr>party := set_member_name g m n (snd (AddMember g' m' (party w)))\<rparr>)"
    using evolves_trans [OF w evolves_trans [OF a n]] by simp
  assume "GetPartyIdByPlayer m (party w) \<noteq> 0"
  then have "evolves b w (w\<lparr>party := RemoveMember (GetPartyIdByPlayer m (party w)) m (party w)\<rparr>)"
    using evolves_party [of b w "PRemove m"] by (simp add: op_party_def)
  with w show "evolves b w0 (w\<lparr>party := RemoveMember (GetPartyIdByPlayer m (party w)) m (party w)\<rparr>)"
    by (rule evolves_trans)
qed

lemma evolves_Job_PartyAnswer: "evolves b w (Job_PartyAnswer r s iid ok w)"
proof (cases "session_player s w")
  case (Some pid)
  let ?acc = "info (the_player pid w)"
  define c where "c = (if GetPartyIdByPlayer iid (party w) \<noteq> 0 then (GetPartyIdByPlayer iid (party w), w)
    else case CreateParty iid (party w) of (i, pm) \<Rightarrow>
      (if i = 0 then (0, w)
       else (i, w\<lparr>party := (case FindObject r iid w of None \<Rightarrow> pm
              | Some ref \<Rightarrow> set_member_name i iid (i_name (obj_info ref w)) pm)\<rparr>)))"
  obtain gid w1 where c1: "c = (gid, w1)" by (cases c)
  have 1: "evolves b w w1"
  proof (cases "GetPartyIdByPlayer iid (party w) \<noteq> 0 \<or> fst (CreateParty iid (party w)) = 0")
    case True
    with c1 show ?thesis by (auto simp: c_def split: prod.splits if_splits)
  next
    case False
    with c1 have "w1 = (case FindObject r iid w of None \<Rightarrow> w\<lparr>party := snd (CreateParty iid (party w))\<rparr>
        | Some ref \<Rightarrow> w\<lparr>party := set_member_name gid iid (i_name (obj_info ref w)) (snd (CreateParty iid (party w)))\<rparr>)"
      by (auto simp: c_def split: prod.splits option.splits)
    then show ?thesis by (auto intro!: party_steps split: option.split)
  qed
  have "evolves b w1 (case AddMember gid (i_objectid ?acc) (party w1) of (ok, pm) \<Rightarrow>
      (if \<not> ok then w1 else SendPartyUpdateFromRoom r gid (w1\<lparr>party := set_member_name gid (i_objectid ?acc) (i_name ?acc) pm\<rparr>)))"
    using party_steps(5) [OF evolves_refl, of b w1 gid "i_objectid ?acc" "i_name ?acc" gid "i_objectid ?acc"]
    by (auto simp: split_beta intro: evolves_trans [OF _ evolves_SendPartyUpdateFromRoom])
  with 1 show ?thesis
    unfolding Job_PartyAnswer_def Some option.case Let_def c_def [symmetric] c1 prod.case
    by (auto intro: evolves_trans)
qed (simp add: Job_PartyAnswer_def)

lemma evolves_Job_PartyLeave: "evolves b w (Job_PartyLeave r s w)"
proof (cases "session_player s w")
  case (Some pid)
  let ?me = "i_objectid (info (the_player pid w))"
  let ?gid = "GetPartyIdByPlayer ?me (party w)"
  define w1 where "w1 = send_packet s S_PartyLeave (w\<lparr>party := RemoveMember ?gid ?me (party w)\<rparr>)"
  have 1: "evolves b w w1" if "?gid \<noteq> 0"
    unfolding w1_def using that by (intro evolves_intros party_steps evolves_refl)
  have "evolves b w (if m = ?me then w else case FindObject r m w of
      Some (RefPlayer i) \<Rightarrow> (case psession (the_player i w) of None \<Rightarrow> w | Some t \<Rightarrow> send_packet t S_PartyLeave w)
    | _ \<Rightarrow> w)" for m w
    by (auto intro: evolves_basic split: option.split ObjRef.split)
  then have 2: "evolves b w (fold (\<lambda>m w. if m = ?me then w else case FindObject r m w of
      Some (RefPlayer i) \<Rightarrow> (case psession (the_player i w) of None \<Rightarrow> w | Some t \<Rightarrow> send_packet t S_PartyLeave w)
    | _ \<Rightarrow> w) ms w)" for ms w
    by (rule evolves_fold)
  show ?thesis
    unfolding Job_PartyLeave_def Some option.case Let_def w1_def [symmetric]
    by (auto intro: evolves_trans [OF 1 2] evolves_trans [OF 1 evolves_SendPartyUpdateFromRoom] split: option.split)
qed (simp add: Job_PartyLeave_def)

section \<open>Jobs\<close>

lemma evolves_run_packet: "b \<or> fresh_room w \<Longrightarrow> evolves b w (run_packet r s c w)"
proof (cases c)
  case (C_EquipItem i)
  then show ?thesis by (auto intro: evolves_run_ops split: option.split)
next
  case (C_UnequipItem i)
  then show ?thesis by (auto intro: evolves_run_ops split: option.split)
next
  case (C_UseItem i)
  then show ?thesis by (auto intro: evolves_run_ops split: option.split)
qed (simp_all add: evolves_Handle_C_Move evolves_Handle_C_Turn evolves_Handle_C_Attack evolves_Handle_C_ChangeMap
    evolves_Job_PartyInvite evolves_Job_PartyAnswer evolves_Job_PartyLeave)

lemma evolves_run_job:
  "(faulted w = None \<Longrightarrow> world_wf w \<Longrightarrow> job_ok w j) \<Longrightarrow> b \<or> fresh_room w \<Longrightarrow> evolves b w (run_job r j w)"
  by (cases j) (auto simp: job_ok_def evolves_LeaveRoom evolves_run_packet intro: evolves_EnterRoom)

lemma evolves_swap_jobs: "evolves True w (upd_room r (\<lambda>g. g\<lparr>running := jobs (the_room r w), jobs := []\<rparr>) w)"
  by (rule evolves_upd_room) (auto simp: room_change_def Let_def entering_def)

lemma evolves_pop_job: "evolves True w (pop_job r w)"
  unfolding pop_job_def
  by (rule evolves_upd_room, cases "running (the_room r w)") (auto simp: room_change_def Let_def entering_def)

lemma evolves_run_jobs: "evolves True w (run_jobs r w)"
proof -
  define js where "js = jobs (the_room r w)"
  define w1 where "w1 = upd_room r (\<lambda>g. g\<lparr>running := js, jobs := []\<rparr>) w"
  have 1: "evolves True w w1" unfolding w1_def js_def by (rule evolves_swap_jobs)
  note pop = evolves_pop_job
  show ?thesis
  proof (rule evolves_if_safe)
    assume "safe w"
    have "evolves True w1 (fold (\<lambda>j w. pop_job r (run_job r j w)) js w1)"
    proof (rule evolves_fold_keep [where P = "\<lambda>w. faulted w = None \<longrightarrow> (\<forall>j \<in> set js. job_ok w j)"])
      have "job_ok w j" if "faulted w = None" "j \<in> set js" for j
        using that \<open>safe w\<close> wf_room [of w r]
        by (fastforce simp: safe_def room_wf_def Let_def js_def entering_def job_ok_def split: job.splits)
      moreover have "job_ok w1 j = job_ok w j" for j
        by (cases j) (simp_all add: job_ok_def player_ok_def w1_def)
      ultimately show "faulted w1 = None \<longrightarrow> (\<forall>j \<in> set js. job_ok w1 j)"
        by (simp add: w1_def)
    next
      fix j w assume "j \<in> set js" "faulted w = None \<longrightarrow> (\<forall>j \<in> set js. job_ok w j)"
      then show "evolves True w (pop_job r (run_job r j w))"
        by (intro evolves_trans [OF _ pop] evolves_run_job) blast+
    next
      fix w w' assume "faulted w = None \<longrightarrow> (\<forall>j \<in> set js. job_ok w j)" "(micro True)\<^sup>*\<^sup>* w w'"
      then show "faulted w' = None \<longrightarrow> (\<forall>j \<in> set js. job_ok w' j)"
        by (metis (no_types, lifting) job_ok_def job.exhaust job.simps(10-12) steps_faulted steps_player_ok)
    qed
    with 1 show "evolves True w (run_jobs r w)"
      unfolding run_jobs_def Let_def js_def [symmetric] w1_def [symmetric] by (rule evolves_trans)
  qed
qed

section \<open>The update\<close>

lemma evolves_tick_room:
  "(\<And>g. \<exists>t. f g = g\<lparr>nextTick := t\<rparr>) \<Longrightarrow> evolves True w (upd_room r f w)"
proof (rule evolves_upd_room)
  assume f: "\<And>g. \<exists>t. f g = g\<lparr>nextTick := t\<rparr>"
  obtain t where "f (the_room r w) = (the_room r w)\<lparr>nextTick := t\<rparr>" using f by blast
  then show "room_change True w r (f (the_room r w))" by (simp add: room_change_def)
qed simp

lemma evolves_timed_step: "evolves True w (upd_room r (\<lambda>g. g\<lparr>nextTick := nextTick g + kTickMs\<rparr>) (Step r w))"
  by (rule evolves_trans [OF evolves_Step evolves_tick_room]) blast

lemma evolves_when_due: "evolves True w (upd_room r (\<lambda>g. if c g then g\<lparr>nextTick := x\<rparr> else g) w)"
proof (rule evolves_tick_room)
  show "\<exists>t. (if c g then g\<lparr>nextTick := x\<rparr> else g) = g\<lparr>nextTick := t\<rparr>" for g
    by (cases "c g") (auto intro: exI [of _ "nextTick g"])
qed

lemma evolves_catch_up: "evolves True w (catch_up r now n w)"
  by (induction n arbitrary: w) (auto intro: evolves_trans evolves_timed_step)

lemma evolves_Room_Update: "evolves True w (Room_Update now r w)"
proof -
  note t = evolves_when_due
  show ?thesis unfolding Room_Update_def Let_def
    by (rule evolves_trans [OF evolves_trans [OF evolves_trans [OF evolves_run_jobs t] evolves_catch_up] t])
qed

lemma evolves_end_update:
  "evolves True w ((fold RemoveDungeonInstance ps (w\<lparr>iteratingDungeons := False\<rparr>))\<lparr>pendingRemoveDungeon := []\<rparr>)"
  by (rule evolves_trans [OF evolves_trans [OF evolves_admin(4) evolves_fold] evolves_admin(5)])
    (simp add: RemoveDungeonInstance_def evolves_admin)

lemma evolves_Manager_Update: "evolves True w (Manager_Update now w)"
proof -
  have 1: "evolves True w (fold (Room_Update now) rs w)" for rs w
    by (rule evolves_fold) (rule evolves_Room_Update)
  have 2: "evolves True w (fold (\<lambda>i. Room_Update now (DungeonRoom i)) is (w\<lparr>iteratingDungeons := True\<rparr>))" for "is" w
    by (rule evolves_trans [OF evolves_admin(4)], rule evolves_fold) (rule evolves_Room_Update)
  note 3 = evolves_end_update
  show ?thesis unfolding Manager_Update_def Let_def
    by (rule evolves_trans [OF evolves_trans [OF 1 2] 3])
qed

end
