(* ===== verification/Database.thy ===== *)
theory Database
  imports Sample
begin

text \<open>
  \<open>DBManager\<close>: the four tables and what its SQL statements do to them. SQLite itself is not under
  the sources; of it the model uses the documented meaning of \<open>SELECT ... WHERE\<close>, \<open>INSERT\<close>,
  \<open>INSERT OR REPLACE\<close>, \<open>DELETE\<close>, \<open>UNIQUE\<close>, \<open>PRIMARY KEY\<close> and \<open>AUTOINCREMENT\<close>, for statements that prepare and
  run. Text is bound as a C string: it ends at the first NUL.
\<close>

section \<open>Tables\<close>

record ItemRow =
  row_account :: int
  row_slot :: int32
  row_item :: int32
  row_count :: int32

record PlayerRow =
  prow_account :: int
  prow_name :: string
  prow_level :: int32
  prow_exp :: int32
  prow_hp :: int32

record DB =
  accounts :: "(string \<times> int) list"
  account_seq :: int
  players_table :: "PlayerRow list"
  inventory :: "ItemRow list"
  equipment :: "ItemRow list"

definition DB_empty :: DB where
  "DB_empty = \<lparr>accounts = [], account_seq = 0, players_table = [], inventory = [], equipment = []\<rparr>"

definition c_string :: "string \<Rightarrow> string" where
  "c_string s = takeWhile (\<lambda>c. c \<noteq> CHR 0x00) s"

text \<open>\<open>INSERT INTO\<close> with the primary key (account, slot): a duplicate is an error and changes nothing.\<close>

definition insert_item :: "ItemRow \<Rightarrow> ItemRow list \<Rightarrow> ItemRow list" where
  "insert_item row rows =
     (if list_ex (\<lambda>r. row_account r = row_account row \<and> row_slot r = row_slot row) rows then rows
      else rows @ [row])"

section \<open>Operations\<close>

definition FindOrCreateAccount :: "string \<Rightarrow> DB \<Rightarrow> int \<times> DB" where
  "FindOrCreateAccount username db =
     (let name = c_string username
      in case map_of (accounts db) name of
           Some i \<Rightarrow> (i, db)
         | None \<Rightarrow> (let i = account_seq db + 1
                   in (i, db\<lparr>account_seq := i, accounts := accounts db @ [(name, i)]\<rparr>)))"

definition HasPlayerData :: "int \<Rightarrow> DB \<Rightarrow> bool" where
  "HasPlayerData acc db = list_ex (\<lambda>r. prow_account r = acc) (players_table db)"

definition load_slot :: "ItemRow \<Rightarrow> PlayerSaveData \<Rightarrow> PlayerSaveData" where
  "load_slot r d =
     (if 0 \<le> row_slot r \<and> row_slot r < int INVENTORY_SIZE
      then d\<lparr>sd_storage := (sd_storage d)[nat (row_slot r) := \<lparr>itemId = row_item r, count = row_count r\<rparr>]\<rparr>
      else d)"

definition load_equip :: "ItemRow \<Rightarrow> PlayerSaveData \<Rightarrow> PlayerSaveData" where
  "load_equip r d =
     (let sl = \<lparr>itemId = row_item r, count = row_count r\<rparr>
      in if row_slot r = 0 then d\<lparr>sd_equipWeapon := sl\<rparr>
         else if row_slot r = 1 then d\<lparr>sd_equipArmor := sl\<rparr>
         else if row_slot r = 2 then d\<lparr>sd_equipPotion := sl\<rparr>
         else d)"

definition LoadPlayerData :: "int \<Rightarrow> PlayerSaveData \<Rightarrow> DB \<Rightarrow> bool \<times> PlayerSaveData" where
  "LoadPlayerData acc outData db =
     (case find (\<lambda>r. prow_account r = acc) (players_table db) of
        None \<Rightarrow> (False, outData)
      | Some r \<Rightarrow>
          let d1 = outData\<lparr>sd_name := prow_name r, sd_level := prow_level r, sd_exp := prow_exp r, sd_hp := prow_hp r\<rparr>;
              d2 = fold load_slot (filter (\<lambda>r. row_account r = acc) (inventory db)) d1
          in (True, fold load_equip (filter (\<lambda>r. row_account r = acc) (equipment db)) d2))"

definition save_slot :: "int \<Rightarrow> InventorySlot list \<Rightarrow> nat \<Rightarrow> ItemRow list \<Rightarrow> ItemRow list" where
  "save_slot acc sls i rows =
     (if itemId (sls ! i) = 0 then rows
      else insert_item \<lparr>row_account = acc, row_slot = int i, row_item = itemId (sls ! i),
             row_count = count (sls ! i)\<rparr> rows)"

definition save_slots :: "int \<Rightarrow> InventorySlot list \<Rightarrow> nat \<Rightarrow> ItemRow list \<Rightarrow> ItemRow list" where
  "save_slots acc sls n rows = fold (save_slot acc sls) [0..<n] (filter (\<lambda>r. row_account r \<noteq> acc) rows)"

definition SavePlayerData :: "int \<Rightarrow> PlayerSaveData \<Rightarrow> DB \<Rightarrow> DB" where
  "SavePlayerData acc d db =
     db\<lparr>players_table := filter (\<lambda>r. prow_account r \<noteq> acc) (players_table db) @
          [\<lparr>prow_account = acc, prow_name = c_string (sd_name d), prow_level = sd_level d,
            prow_exp = sd_exp d, prow_hp = sd_hp d\<rparr>],
        inventory := save_slots acc (sd_storage d) INVENTORY_SIZE (inventory db),
        equipment := save_slots acc [sd_equipWeapon d, sd_equipArmor d, sd_equipPotion d] 3 (equipment db)\<rparr>"

section \<open>Rows written\<close>

definition rows_of :: "int \<Rightarrow> InventorySlot list \<Rightarrow> nat \<Rightarrow> ItemRow list" where
  "rows_of acc sls n = concat (map (\<lambda>i. if itemId (sls ! i) = 0 then []
     else [\<lparr>row_account = acc, row_slot = int i, row_item = itemId (sls ! i), row_count = count (sls ! i)\<rparr>]) [0..<n])"

lemma rows_of_slots: "r \<in> set (rows_of acc sls n) \<Longrightarrow> row_account r = acc \<and> row_slot r < int n"
  by (auto simp: rows_of_def split: if_splits)

lemma fold_save_slot:
  assumes "\<forall>r \<in> set base. row_account r \<noteq> acc"
  shows "fold (save_slot acc sls) [0..<n] base = base @ rows_of acc sls n"
proof (induction n)
  case (Suc n)
  have "\<not> list_ex (\<lambda>r. row_account r = acc \<and> row_slot r = int n) (base @ rows_of acc sls n)"
  proof
    assume "list_ex (\<lambda>r. row_account r = acc \<and> row_slot r = int n) (base @ rows_of acc sls n)"
    then obtain r where r: "r \<in> set base \<or> r \<in> set (rows_of acc sls n)" "row_account r = acc" "row_slot r = int n"
      by (auto simp: list_ex_iff)
    with assms have "r \<in> set (rows_of acc sls n)" by blast
    from rows_of_slots [OF this] r(3) show False by simp
  qed
  then have "save_slot acc sls n (base @ rows_of acc sls n) = base @ rows_of acc sls (Suc n)"
    by (simp add: save_slot_def insert_item_def rows_of_def)
  with Suc show ?case by simp
qed (simp add: rows_of_def)

lemma save_slots_rows:
  "filter (\<lambda>r. row_account r = acc) (save_slots acc sls n rows) = rows_of acc sls n"
  "a \<noteq> acc \<Longrightarrow> filter (\<lambda>r. row_account r = a) (save_slots acc sls n rows) = filter (\<lambda>r. row_account r = a) rows"
proof -
  have s: "save_slots acc sls n rows = filter (\<lambda>r. row_account r \<noteq> acc) rows @ rows_of acc sls n"
    unfolding save_slots_def by (rule fold_save_slot) simp
  have "filter (\<lambda>r. row_account r = acc) (rows_of acc sls n) = rows_of acc sls n"
    using rows_of_slots by (simp add: filter_id_conv)
  then show "filter (\<lambda>r. row_account r = acc) (save_slots acc sls n rows) = rows_of acc sls n"
    by (simp add: s filter_empty_conv)
  assume a: "a \<noteq> acc"
  then have "filter (\<lambda>r. row_account r = a) (rows_of acc sls n) = []"
    using rows_of_slots by (auto simp: filter_empty_conv)
  moreover have "filter (\<lambda>r. row_account r = a) (filter (\<lambda>r. row_account r \<noteq> acc) rows)
      = filter (\<lambda>r. row_account r = a) rows"
    using a by (induction rows) auto
  ultimately show "filter (\<lambda>r. row_account r = a) (save_slots acc sls n rows) = filter (\<lambda>r. row_account r = a) rows"
    by (simp only: s filter_append append_Nil2)
qed

section \<open>Rows read back\<close>

lemma load_slots:
  assumes "n \<le> INVENTORY_SIZE" "length sls = INVENTORY_SIZE" "\<forall>sl \<in> set sls. itemId sl = 0 \<longrightarrow> sl = empty_slot"
    and "sd_storage d = replicate INVENTORY_SIZE empty_slot"
  shows "fold load_slot (rows_of acc sls n) d = d\<lparr>sd_storage := take n sls @ replicate (INVENTORY_SIZE - n) empty_slot\<rparr>"
  using assms(1)
proof (induction n)
  case 0
  then show ?case using assms(4) by (simp add: rows_of_def)
next
  case (Suc n)
  define st where "st = take n sls @ replicate (INVENTORY_SIZE - n) empty_slot"
  have n: "n < length sls" using Suc.prems assms(2) by simp
  have r: "replicate (INVENTORY_SIZE - n) empty_slot = empty_slot # replicate (INVENTORY_SIZE - Suc n) empty_slot"
    using Suc.prems by (simp flip: replicate_Suc add: Suc_diff_Suc)
  have step: "st[n := sls ! n] = take (Suc n) sls @ replicate (INVENTORY_SIZE - Suc n) empty_slot"
    using n by (simp add: st_def r list_update_append take_Suc_conv_app_nth)
  have same: "itemId (sls ! n) = 0 \<Longrightarrow> st[n := sls ! n] = st"
    using n assms(3) by (simp add: st_def r list_update_append)
  have rows: "rows_of acc sls (Suc n) = rows_of acc sls n @ (if itemId (sls ! n) = 0 then []
     else [\<lparr>row_account = acc, row_slot = int n, row_item = itemId (sls ! n), row_count = count (sls ! n)\<rparr>])"
    by (simp add: rows_of_def)
  show ?case
    using Suc same unfolding step [symmetric] rows
    by (cases "sls ! n") (auto simp: load_slot_def st_def)
qed

lemma load_equips:
  assumes "\<forall>sl \<in> {w, a, p}. itemId sl = 0 \<longrightarrow> sl = empty_slot"
    and "sd_equipWeapon d = empty_slot" "sd_equipArmor d = empty_slot" "sd_equipPotion d = empty_slot"
  shows "fold load_equip (rows_of acc [w, a, p] 3) d = d\<lparr>sd_equipWeapon := w, sd_equipArmor := a, sd_equipPotion := p\<rparr>"
  using assms by (cases d; cases w; cases a; cases p) (auto simp: rows_of_def load_equip_def numeral_3_eq_3 empty_slot_def)

text \<open>What a player of the game always satisfies: 27 slots, and a slot without an item is the empty one.\<close>

definition save_ok :: "PlayerSaveData \<Rightarrow> bool" where
  "save_ok d \<longleftrightarrow> length (sd_storage d) = INVENTORY_SIZE
     \<and> (\<forall>sl \<in> set (sd_storage d) \<union> {sd_equipWeapon d, sd_equipArmor d, sd_equipPotion d}.
          itemId sl = 0 \<longrightarrow> sl = empty_slot)
     \<and> c_string (sd_name d) = sd_name d"

lemma save_load:
  assumes "save_ok d"
  shows "LoadPlayerData acc PlayerSaveData_default (SavePlayerData acc d db) = (True, d)
    \<and> HasPlayerData acc (SavePlayerData acc d db)
    \<and> (\<forall>a. a \<noteq> acc \<longrightarrow> LoadPlayerData a out (SavePlayerData acc d db) = LoadPlayerData a out db)"
proof -
  let ?row = "\<lparr>prow_account = acc, prow_name = sd_name d, prow_level = sd_level d, prow_exp = sd_exp d, prow_hp = sd_hp d\<rparr>"
  let ?d1 = "PlayerSaveData_default\<lparr>sd_name := sd_name d, sd_level := sd_level d, sd_exp := sd_exp d, sd_hp := sd_hp d\<rparr>"
  have f: "find (\<lambda>r. prow_account r = acc) (filter (\<lambda>r. prow_account r \<noteq> acc) rs @ [?row]) = Some ?row" for rs
    by (induction rs) simp_all
  have g: "find (\<lambda>r. prow_account r = a) (filter (\<lambda>r. prow_account r \<noteq> acc) rs @ [?row])
      = find (\<lambda>r. prow_account r = a) rs" if "a \<noteq> acc" for a rs
    using that by (induction rs) auto
  have n: "c_string (sd_name d) = sd_name d" using assms by (simp add: save_ok_def)
  have inv: "fold load_slot (rows_of acc (sd_storage d) INVENTORY_SIZE) ?d1 = ?d1\<lparr>sd_storage := sd_storage d\<rparr>"
    using assms load_slots [of INVENTORY_SIZE "sd_storage d" ?d1 acc]
    by (simp add: save_ok_def PlayerSaveData_default_def)
  have "fold load_equip (rows_of acc [sd_equipWeapon d, sd_equipArmor d, sd_equipPotion d] 3)
      (?d1\<lparr>sd_storage := sd_storage d\<rparr>) = d"
    using assms by (subst load_equips) (auto simp: save_ok_def PlayerSaveData_default_def)
  with f n inv have "LoadPlayerData acc PlayerSaveData_default (SavePlayerData acc d db) = (True, d)"
    by (simp add: LoadPlayerData_def SavePlayerData_def save_slots_rows)
  moreover have "LoadPlayerData a out (SavePlayerData acc d db) = LoadPlayerData a out db" if a: "a \<noteq> acc" for a
  proof -
    have "find (\<lambda>r. prow_account r = a) (players_table (SavePlayerData acc d db))
        = find (\<lambda>r. prow_account r = a) (players_table db)"
      using g [OF a] n by (simp add: SavePlayerData_def)
    moreover have "filter (\<lambda>r. row_account r = a) (inventory (SavePlayerData acc d db))
        = filter (\<lambda>r. row_account r = a) (inventory db)"
      "filter (\<lambda>r. row_account r = a) (equipment (SavePlayerData acc d db))
        = filter (\<lambda>r. row_account r = a) (equipment db)"
      by (simp_all add: SavePlayerData_def save_slots_rows(2) [OF a])
    ultimately show ?thesis by (simp only: LoadPlayerData_def)
  qed
  ultimately show ?thesis by (auto simp: HasPlayerData_def SavePlayerData_def)
qed

text \<open>
  C10. Saving and loading a player is a round trip: what \<open>LoadPlayerData\<close> reads into a fresh record
  after \<open>SavePlayerData\<close> is the record that was saved, whatever was stored for the account before,
  and no other account's data changes.
\<close>

theorem save_load_roundtrip:
  assumes "save_ok d"
  shows "LoadPlayerData acc PlayerSaveData_default (SavePlayerData acc d db) = (True, d)
    \<and> HasPlayerData acc (SavePlayerData acc d db)
    \<and> (\<forall>a. a \<noteq> acc \<longrightarrow> LoadPlayerData a out (SavePlayerData acc d db) = LoadPlayerData a out db)"
  by (rule save_load [OF assms])

theorem save_load_roundtrip_witness:
  "LoadPlayerData 3 PlayerSaveData_default (SavePlayerData 3 (ToSaveData sample_player) DB_empty)
    = (True, ToSaveData sample_player)"
proof -
  have "save_ok (ToSaveData sample_player)"
    by (auto simp: save_ok_def ToSaveData_def INVENTORY_SIZE_def empty_slot_def c_string_def sample_player_def
        RecalcStats_def Player_new_def set_extra_def ObjectInfo_default_def)
  from save_load_roundtrip [OF this, of 3 DB_empty] show ?thesis by blast
qed

section \<open>Accounts\<close>

definition accounts_ok :: "DB \<Rightarrow> bool" where
  "accounts_ok db \<longleftrightarrow> distinct (map fst (accounts db)) \<and> distinct (map snd (accounts db))
     \<and> (\<forall>(n, i) \<in> set (accounts db). 1 \<le> i \<and> i \<le> account_seq db) \<and> 0 \<le> account_seq db"

lemma FindOrCreateAccount_ok [inv_intros]:
  "accounts_ok db \<Longrightarrow> accounts_ok (snd (FindOrCreateAccount n db))"
  by (fastforce simp: accounts_ok_def FindOrCreateAccount_def Let_def map_of_eq_None_iff split: option.split)

text \<open>
  Logging in names an account for good: \<open>FindOrCreateAccount\<close> returns a positive id, the
  same for the same name ever after, and different ids for names that differ as C strings.
\<close>

theorem account_per_name:
  assumes "accounts_ok db" "FindOrCreateAccount n db = (i, db1)" "FindOrCreateAccount m db1 = (j, db2)"
  shows "1 \<le> i \<and> 1 \<le> j \<and> (i = j \<longleftrightarrow> c_string n = c_string m) \<and> accounts_ok db2
    \<and> fst (FindOrCreateAccount n db2) = i"
proof -
  have 1: "accounts_ok db1" "accounts_ok db2"
    using FindOrCreateAccount_ok assms by (metis snd_conv)+
  have in1: "map_of (accounts db1) (c_string n) = Some i"
    using assms(1,2) by (auto simp: FindOrCreateAccount_def Let_def map_add_def split: option.splits)
  have in2: "map_of (accounts db2) (c_string m) = Some j" "map_of (accounts db2) (c_string n) = Some i"
    using assms(3) in1 by (auto simp: FindOrCreateAccount_def Let_def map_add_def split: option.splits)
  have m: "(c_string m, j) \<in> set (accounts db2)" "(c_string n, i) \<in> set (accounts db2)"
    using in2 by (simp_all add: map_of_SomeD)
  have "inj_on snd (set (accounts db2))" using 1(2) by (simp add: accounts_ok_def distinct_map)
  then have "c_string n = c_string m" if "i = j"
    using inj_onD [of snd "set (accounts db2)" "(c_string n, j)" "(c_string m, j)"] m that by simp
  moreover have "i = j" if "c_string n = c_string m" using in2 that by simp
  moreover have "1 \<le> i" "1 \<le> j" using m 1(2) by (auto simp: accounts_ok_def)
  moreover have "fst (FindOrCreateAccount n db2) = i" using in2 by (simp add: FindOrCreateAccount_def)
  ultimately show ?thesis using 1(2) by blast
qed

theorem account_per_name_witness:
  "fst (FindOrCreateAccount ''ann'' DB_empty) = 1
    \<and> fst (FindOrCreateAccount ''bob'' (snd (FindOrCreateAccount ''ann'' DB_empty))) \<noteq> 1"
proof -
  have "accounts_ok DB_empty" by (simp add: accounts_ok_def DB_empty_def)
  from account_per_name [OF this, of "''ann''" 1 "snd (FindOrCreateAccount ''ann'' DB_empty)" "''bob''"]
  show ?thesis
    by (cases "FindOrCreateAccount ''bob'' (snd (FindOrCreateAccount ''ann'' DB_empty))")
      (simp add: FindOrCreateAccount_def DB_empty_def c_string_def)
qed

end
