(* ===== verification/Handlers.thy ===== *)
theory Handlers
  imports Manager_Safe Database
begin

text \<open>
  Everything that runs when the network delivers something: \<open>ServerPacketHandler\<close>, \<open>GameSession\<close>,
  \<open>GameSessionManager\<close>, \<open>ChatConnector\<close> and the message callback of \<open>RedisSubscriber\<close>. The handlers of
  game packets only queue a job in the room of the session; logging in, chatting and asking for the
  ranking act at once. Each runs to its end before the next: in the server's \<open>single\<close> mode all of this and
  the update of the rooms share one thread.
\<close>

section \<open>State\<close>

text \<open>
  \<open>chat_session\<close>: whether the session to the chat server exists, and its \<open>IsConnected()\<close>;
  \<open>chat_starts\<close> counts the \<open>Start()\<close> calls of its service.
\<close>

record ChatConnector =
  chat_session :: "bool option"
  lastTryAt :: uint64
  chat_starts :: nat

record Server =
  world :: World
  db :: DB
  online :: "SessionId list"
  recvMove :: uint64
  recvAttack :: uint64
  recvTurn :: uint64
  serverAddr :: string
  chat :: ChatConnector

definition on_world :: "(World \<Rightarrow> World) \<Rightarrow> Server \<Rightarrow> Server" where
  "on_world f sv = sv\<lparr>world := f (world sv)\<rparr>"

text \<open>Protobuf's parsers, one per message, applied to the bytes after the header.\<close>

record Parsers =
  parse_Move :: "byte list \<Rightarrow> int32"
  parse_Attack :: "byte list \<Rightarrow> int32 \<times> int32"
  parse_ChangeMap :: "byte list \<Rightarrow> int32 \<times> int32"
  parse_Turn :: "byte list \<Rightarrow> int32"
  parse_EquipItem :: "byte list \<Rightarrow> int32"
  parse_UnequipItem :: "byte list \<Rightarrow> int32"
  parse_UseItem :: "byte list \<Rightarrow> int32"
  parse_PartyInvite :: "byte list \<Rightarrow> uint64"
  parse_PartyAnswer :: "byte list \<Rightarrow> uint64 \<times> bool"
  parse_Login :: "byte list \<Rightarrow> string"
  parse_Chat :: "byte list \<Rightarrow> int32 \<times> string \<times> string"
  parse_Broadcast :: "byte list \<Rightarrow> RelayChat"

section \<open>GameSessionManager\<close>

text \<open>
  The \<open>set\<close> of session pointers is ordered by address; the order of the ids stands for it.
\<close>

definition Add_session :: "SessionId \<Rightarrow> Server \<Rightarrow> Server" where
  "Add_session s sv = sv\<lparr>online := key_insert s (online sv)\<rparr>"

definition Remove_session :: "SessionId \<Rightarrow> Server \<Rightarrow> Server" where
  "Remove_session s sv = sv\<lparr>online := key_erase s (online sv)\<rparr>"

definition Broadcast_all :: "spacket \<Rightarrow> Server \<Rightarrow> Server" where
  "Broadcast_all pkt sv = on_world (fold (\<lambda>s. send_packet s pkt) (online sv)) sv"

definition SendToPlayerIds :: "uint64 list \<Rightarrow> spacket \<Rightarrow> Server \<Rightarrow> Server" where
  "SendToPlayerIds ids pkt sv =
     on_world (fold (\<lambda>s w. case session_player s w of
         None \<Rightarrow> w
       | Some pid \<Rightarrow> if i_objectid (info (the_player pid w)) \<in> set ids then send_packet s pkt w else w) (online sv)) sv"

definition FindByPlayerName :: "string \<Rightarrow> Server \<Rightarrow> SessionId option" where
  "FindByPlayerName name sv =
     find (\<lambda>s. case session_player s (world sv) of
         None \<Rightarrow> False | Some pid \<Rightarrow> i_name (info (the_player pid (world sv))) = name) (online sv)"

section \<open>ChatConnector\<close>

definition kReconnectIntervalMs :: uint64 where "kReconnectIntervalMs = 5000"

definition Chat_IsConnected :: "ChatConnector \<Rightarrow> bool" where
  "Chat_IsConnected c \<longleftrightarrow> chat_session c = Some True"

definition Chat_Connect :: "ChatConnector \<Rightarrow> ChatConnector" where
  "Chat_Connect c = c\<lparr>chat_session := Some False, chat_starts := chat_starts c + 1\<rparr>"

definition TryReconnect :: "uint64 \<Rightarrow> ChatConnector \<Rightarrow> ChatConnector" where
  "TryReconnect now c =
     (if now - lastTryAt c < kReconnectIntervalMs then c
      else Chat_Connect (c\<lparr>lastTryAt := now\<rparr>))"

definition Chat_Send :: "RelayChat \<Rightarrow> Server \<Rightarrow> Server" where
  "Chat_Send m sv =
     (if \<not> Chat_IsConnected (chat sv) then sv
      else on_world (\<lambda>w. if faulted w = None then w\<lparr>out := out w @ [ChatOut m]\<rparr> else w) sv)"

section \<open>Handlers of game packets\<close>

definition push_packet :: "SessionId \<Rightarrow> cpacket \<Rightarrow> Server \<Rightarrow> Server" where
  "push_packet s c sv =
     (case session_room s (world sv) of
        None \<Rightarrow> sv
      | Some r \<Rightarrow> on_world (PushJob r (JobPacket s c)) sv)"

text \<open>A packet whose header does not fit what was received reads outside it.\<close>

definition with_body :: "byte list \<Rightarrow> (byte list \<Rightarrow> Server \<Rightarrow> Server) \<Rightarrow> Server \<Rightarrow> Server" where
  "with_body buf f sv =
     (case ParsePacket buf of None \<Rightarrow> on_world (raise UninitializedRead) sv | Some payload \<Rightarrow> f payload sv)"

definition Recv_C_Move :: "Parsers \<Rightarrow> SessionId \<Rightarrow> byte list \<Rightarrow> Server \<Rightarrow> Server" where
  "Recv_C_Move ps s buf sv =
     with_body buf (\<lambda>b. push_packet s (C_Move (parse_Move ps b))) (sv\<lparr>recvMove := recvMove sv + 1\<rparr>)"

definition Recv_C_Attack :: "Parsers \<Rightarrow> SessionId \<Rightarrow> byte list \<Rightarrow> Server \<Rightarrow> Server" where
  "Recv_C_Attack ps s buf sv =
     with_body buf (\<lambda>b. push_packet s (case parse_Attack ps b of (d, wp) \<Rightarrow> C_Attack d wp))
       (sv\<lparr>recvAttack := recvAttack sv + 1\<rparr>)"

definition Recv_C_ChangeMap :: "Parsers \<Rightarrow> SessionId \<Rightarrow> byte list \<Rightarrow> Server \<Rightarrow> Server" where
  "Recv_C_ChangeMap ps s buf = with_body buf (\<lambda>b. push_packet s (case parse_ChangeMap ps b of (m, ch) \<Rightarrow> C_ChangeMap m ch))"

definition Recv_C_Turn :: "Parsers \<Rightarrow> SessionId \<Rightarrow> byte list \<Rightarrow> Server \<Rightarrow> Server" where
  "Recv_C_Turn ps s buf sv =
     with_body buf (\<lambda>b. push_packet s (C_Turn (parse_Turn ps b))) (sv\<lparr>recvTurn := recvTurn sv + 1\<rparr>)"

definition Recv_C_EquipItem :: "Parsers \<Rightarrow> SessionId \<Rightarrow> byte list \<Rightarrow> Server \<Rightarrow> Server" where
  "Recv_C_EquipItem ps s buf = with_body buf (\<lambda>b. push_packet s (C_EquipItem (parse_EquipItem ps b)))"

definition Recv_C_UnequipItem :: "Parsers \<Rightarrow> SessionId \<Rightarrow> byte list \<Rightarrow> Server \<Rightarrow> Server" where
  "Recv_C_UnequipItem ps s buf = with_body buf (\<lambda>b. push_packet s (C_UnequipItem (parse_UnequipItem ps b)))"

definition Recv_C_UseItem :: "Parsers \<Rightarrow> SessionId \<Rightarrow> byte list \<Rightarrow> Server \<Rightarrow> Server" where
  "Recv_C_UseItem ps s buf = with_body buf (\<lambda>b. push_packet s (C_UseItem (parse_UseItem ps b)))"

definition Recv_C_PartyInvite :: "Parsers \<Rightarrow> SessionId \<Rightarrow> byte list \<Rightarrow> Server \<Rightarrow> Server" where
  "Recv_C_PartyInvite ps s buf = with_body buf (\<lambda>b. push_packet s (C_PartyInvite (parse_PartyInvite ps b)))"

definition Recv_C_PartyAnswer :: "Parsers \<Rightarrow> SessionId \<Rightarrow> byte list \<Rightarrow> Server \<Rightarrow> Server" where
  "Recv_C_PartyAnswer ps s buf =
     with_body buf (\<lambda>b. push_packet s (case parse_PartyAnswer ps b of (i, a) \<Rightarrow> C_PartyAnswer i a))"

definition Recv_C_PartyLeave :: "SessionId \<Rightarrow> Server \<Rightarrow> Server" where
  "Recv_C_PartyLeave s = push_packet s C_PartyLeave"

section \<open>Login, chat and ranking\<close>

text \<open>The new player, loaded or saved for the first time.\<close>

definition login_player :: "int \<Rightarrow> string \<Rightarrow> uint64 \<Rightarrow> Server \<Rightarrow> Server" where
  "login_player acc username pid sv =
     (let p = the_player pid (world sv)
      in if HasPlayerData acc (db sv)
         then on_world (put_player pid (ApplyFromSaveData (gdata (world sv))
                (snd (LoadPlayerData acc PlayerSaveData_default (db sv))) p)) sv
         else let p1 = p\<lparr>info := (info p)\<lparr>i_name := username\<rparr>\<rparr>
              in (on_world (put_player pid p1) sv)\<lparr>db := SavePlayerData acc (ToSaveData p1) (db sv)\<rparr>)"

definition enter_town :: "SessionId \<Rightarrow> uint64 \<Rightarrow> World \<Rightarrow> World" where
  "enter_town s pid w = (case GetStaticRoom Town 1 w of None \<Rightarrow> w | Some r \<Rightarrow> PushJob r (JobEnter s pid) w)"

definition Recv_C_Login :: "Parsers \<Rightarrow> SessionId \<Rightarrow> byte list \<Rightarrow> Server \<Rightarrow> Server" where
  "Recv_C_Login ps s buf = with_body buf (\<lambda>b sv.
     let username = parse_Login ps b
     in if username = '''' then sv
        else
          let (acc, db1) = FindOrCreateAccount username (db sv); sv1 = sv\<lparr>db := db1\<rparr>
          in if acc = 0 then sv1
             else
               let sv2 = on_world (\<lambda>w. put_session s ((the_session s w)\<lparr>gs_account := acc\<rparr>) w) sv1;
                   (pid, w3) = CreatePlayer (world sv2);
                   sv4 = login_player acc username pid (sv2\<lparr>world := w3\<rparr>);
                   sv5 = on_world (send_packet s (S_EnterGame True acc)) sv4;
                   sv6 = on_world (enter_town s pid) sv5
               in on_world (\<lambda>w. if redisConnected w
                    then redis (RedisZadd ''rank:level'' username (level (the_player pid w)))
                           (redis (RedisSet (''player:loc:'' @ username) (serverAddr sv)) w)
                    else w) sv6)"

definition chat_message :: "string \<Rightarrow> int32 \<Rightarrow> string \<Rightarrow> RelayChat" where
  "chat_message sender t msg = \<lparr>rl_sender = sender, rl_type = t, rl_msg = msg, rl_target = '''', rl_partyid = 0\<rparr>"

definition Recv_C_Chat :: "Parsers \<Rightarrow> SessionId \<Rightarrow> byte list \<Rightarrow> Server \<Rightarrow> Server" where
  "Recv_C_Chat ps s buf = with_body buf (\<lambda>b sv.
     case parse_Chat ps b of (t, msg, dest) \<Rightarrow>
       (case session_player s (world sv) of
          None \<Rightarrow> sv
        | Some pid \<Rightarrow>
            let p = info (the_player pid (world sv)); m = chat_message (i_name p) t msg
            in if t = CHAT_TYPE_GLOBAL then Chat_Send m sv
               else if t = CHAT_TYPE_PARTY then
                 (let gid = GetPartyIdByPlayer (i_objectid p) (party (world sv))
                  in if gid = 0 then sv else Chat_Send (m\<lparr>rl_partyid := gid\<rparr>) sv)
               else if t = CHAT_TYPE_WHISPER then
                 (if dest = '''' then sv else Chat_Send (m\<lparr>rl_target := dest\<rparr>) sv)
               else sv))"

text \<open>
  The reply of \<open>ZREVRANGE rank:level 0 9 WITHSCORES\<close>: an array of elements, or no array. \<open>stod\<close> is the
  conversion of a score's text, truncated to \<open>int32\<close>.
\<close>

datatype redis_elem = RedisString string | RedisOther

fun ranking_entries :: "(string \<Rightarrow> int32) \<Rightarrow> redis_elem list \<Rightarrow> (string \<times> int32) list" where
  "ranking_entries stod (RedisString n # RedisString sc # rest) = (n, stod sc) # ranking_entries stod rest"
| "ranking_entries stod (_ # _ # rest) = ranking_entries stod rest"
| "ranking_entries stod _ = []"

definition Recv_C_GetRanking :: "(string \<Rightarrow> int32) \<Rightarrow> redis_elem list option \<Rightarrow> SessionId \<Rightarrow> Server \<Rightarrow> Server" where
  "Recv_C_GetRanking stod reply s sv =
     on_world (\<lambda>w. send_packet s (S_Ranking
       (if redisConnected w then (case reply of None \<Rightarrow> [] | Some es \<Rightarrow> ranking_entries stod es) else [])) w) sv"

section \<open>HandlePacket\<close>

text \<open>\<open>rank\<close> is what Redis answers when it is asked.\<close>

definition HandlePacket :: "Parsers \<Rightarrow> (string \<Rightarrow> int32) \<Rightarrow> redis_elem list option \<Rightarrow> SessionId \<Rightarrow> byte list \<Rightarrow> Server \<Rightarrow> Server" where
  "HandlePacket ps stod rank s buf sv =
     (if length buf < sizeof_PacketHeader then on_world (raise UninitializedRead) sv
      else let i = hid (header_at buf 0)
           in if i = 101 then Recv_C_Move ps s buf sv
              else if i = 102 then Recv_C_Attack ps s buf sv
              else if i = 103 then Recv_C_ChangeMap ps s buf sv
              else if i = 104 then Recv_C_Turn ps s buf sv
              else if i = 105 then Recv_C_EquipItem ps s buf sv
              else if i = 106 then Recv_C_UnequipItem ps s buf sv
              else if i = 107 then Recv_C_UseItem ps s buf sv
              else if i = 108 then Recv_C_PartyInvite ps s buf sv
              else if i = 109 then Recv_C_PartyAnswer ps s buf sv
              else if i = 110 then Recv_C_PartyLeave s sv
              else if i = 111 then Recv_C_Login ps s buf sv
              else if i = 112 then Recv_C_Chat ps s buf sv
              else if i = 113 then Recv_C_GetRanking stod rank s sv
              else sv)"

definition ConsumePerfSnapshot :: "Server \<Rightarrow> (uint64 \<times> uint64 \<times> uint64) \<times> Server" where
  "ConsumePerfSnapshot sv =
     ((recvMove sv, recvAttack sv, recvTurn sv), sv\<lparr>recvMove := 0, recvAttack := 0, recvTurn := 0\<rparr>)"

section \<open>GameSession\<close>

definition OnConnected :: "SessionId \<Rightarrow> Server \<Rightarrow> Server" where
  "OnConnected s sv = Add_session s (on_world (put_session s GameSession_new) sv)"

text \<open>The party update of a disconnect: ids and leadership only, once per member present in the room.\<close>

definition notify_party :: "RoomRef \<Rightarrow> Party \<Rightarrow> World \<Rightarrow> World" where
  "notify_party r p w =
     fold (\<lambda>m w. case FindObject r m w of
         Some (RefPlayer i) \<Rightarrow> (case psession (the_player i w) of
             None \<Rightarrow> w
           | Some t \<Rightarrow> send_packet t (S_PartyUpdate (map (\<lambda>k. \<lparr>pm_playerid = k, pm_name = '''', pm_level = 0,
                 pm_hp = 0, pm_maxhp = 0, pm_isleader = (k = leaderId p)\<rparr>) (memberIds p))) w)
       | _ \<Rightarrow> w) (memberIds p) w"

definition leave_party :: "SessionId \<Rightarrow> uint64 \<Rightarrow> World \<Rightarrow> World" where
  "leave_party s pid w =
     (let playerId = i_objectid (info (the_player pid w)); gid = GetPartyIdByPlayer playerId (party w)
      in if gid = 0 then w
         else let w1 = w\<lparr>party := RemoveMember gid playerId (party w)\<rparr>
              in case (GetParty gid (party w1), session_room s w1) of
                   (Some p, Some r) \<Rightarrow> notify_party r p w1
                 | _ \<Rightarrow> w1)"

definition OnDisconnected :: "SessionId \<Rightarrow> Server \<Rightarrow> Server" where
  "OnDisconnected s sv0 =
     (let sv = Remove_session s sv0; p = session_player s (world sv); acc = gs_account (the_session s (world sv));
          sv1 = (case p of
              None \<Rightarrow> sv
            | Some pid \<Rightarrow>
                let sv' = (if acc > 0 then sv\<lparr>db := SavePlayerData acc (ToSaveData (the_player pid (world sv))) (db sv)\<rparr> else sv)
                in on_world (\<lambda>w. let w' = leave_party s pid w
                      in if redisConnected w' then redis (RedisDel (''player:loc:'' @ i_name (info (the_player pid w')))) w'
                         else w') sv')
      in case session_room s (world sv1) of
           None \<Rightarrow> sv1
         | Some r \<Rightarrow> on_world (PushJob r (JobLeave s)) sv1)"

section \<open>Messages from the other servers\<close>

text \<open>
  \<open>ChatRelaySession::OnRecvPacket\<close>. \<open>sorry_text\<close> is the text sent back when nobody has the name: a literal
  outside ASCII, whose bytes depend on the compiler's character set.
\<close>

definition Relay_OnRecvPacket :: "Parsers \<Rightarrow> string \<Rightarrow> byte list \<Rightarrow> Server \<Rightarrow> Server" where
  "Relay_OnRecvPacket ps sorry_text buf sv =
     (if hid (header_at buf 0) \<noteq> 302 then sv
      else let m = parse_Broadcast ps (drop sizeof_PacketHeader buf);
               pkt = S_Chat (rl_sender m) (rl_type m) (rl_msg m)
           in if rl_type m = CHAT_TYPE_GLOBAL then Broadcast_all pkt sv
              else if rl_type m = CHAT_TYPE_PARTY then
                (case GetParty (rl_partyid m) (party (world sv)) of
                   None \<Rightarrow> sv | Some p \<Rightarrow> SendToPlayerIds (memberIds p) pkt sv)
              else if rl_type m = CHAT_TYPE_WHISPER then
                (case FindByPlayerName (rl_target m) sv of
                   Some t \<Rightarrow> on_world (send_packet t pkt) sv
                 | None \<Rightarrow>
                     (case FindByPlayerName (rl_sender m) sv of
                        None \<Rightarrow> sv
                      | Some t \<Rightarrow> on_world (send_packet t (S_Chat ''System'' CHAT_TYPE_WHISPER sorry_text)) sv))
              else sv)"

text \<open>The subscriber's callback: \<open>None\<close> is a payload that does not parse.\<close>

definition Subscriber_on_message :: "RelayChat option \<Rightarrow> Server \<Rightarrow> Server" where
  "Subscriber_on_message payload sv =
     (case payload of
        None \<Rightarrow> sv
      | Some m \<Rightarrow>
          let pkt = S_Chat (rl_sender m) (rl_type m) (rl_msg m)
          in if rl_type m = CHAT_TYPE_WHISPER then
               (case FindByPlayerName (rl_target m) sv of
                  None \<Rightarrow> sv | Some t \<Rightarrow> on_world (send_packet t pkt) sv)
             else Broadcast_all pkt sv)"

end
