(* ===== verification/Server.thy ===== *)
theory Server
  imports Handlers
begin

text \<open>
  The process: \<^verbatim>\<open>Server.cpp\<close>, its command line, its start and its main loop, as a machine that reacts to events;
  and the property of the whole game server, that no history of events takes it out of its
  invariant.
\<close>

section \<open>Command line\<close>

fun read_digits :: "int \<Rightarrow> string \<Rightarrow> int" where
  "read_digits acc [] = acc"
| "read_digits acc (c # cs) = (if is_digit c then read_digits (acc * 10 + (char_code c - 48)) cs else acc)"

text \<open>\<open>atoi\<close>, for values that fit an \<open>int\<close>; \<open>args\<close> starts with the program's name, as \<open>argv\<close> does.\<close>

definition atoi :: "string \<Rightarrow> int32" where
  "atoi s = (case dropWhile is_space s of
     [] \<Rightarrow> 0
   | c # cs \<Rightarrow> if c = CHR ''-'' then - read_digits 0 cs
               else if c = CHR ''+'' then read_digits 0 cs
               else read_digits 0 (c # cs))"

definition IsMultiMode :: "string list \<Rightarrow> bool" where
  "IsMultiMode args \<longleftrightarrow> (if length args < 2 then False else args ! 1 = ''multi'')"

definition ResolveWorkerCount :: "nat \<Rightarrow> string list \<Rightarrow> int32" where
  "ResolveWorkerCount hw args =
     (if length args \<ge> 3 \<and> atoi (args ! 2) > 0 then atoi (args ! 2) else int (max 1 hw))"

definition ResolvePort :: "string list \<Rightarrow> uint16" where
  "ResolvePort args =
     (if length args \<ge> 4 \<and> atoi (args ! 3) > 0 then word_of_int (atoi (args ! 3)) else 7777)"

section \<open>Start\<close>

text \<open>Before \<open>Init\<close>: the tables, the map files, the two sources of time and chance, whether Redis answered.\<close>

definition World_start :: "RoomDataManager \<Rightarrow> (string \<Rightarrow> string option) \<Rightarrow> (nat \<Rightarrow> uint64) \<Rightarrow> (nat \<Rightarrow> int32) \<Rightarrow>
    (nat \<Rightarrow> bool) \<Rightarrow> bool \<Rightarrow> World" where
  "World_start D files clk dc rh redis_up =
     \<lparr>gdata = D, mapFiles = files, rooms = Map.empty, roomRefs = [], staticRooms = [], dungeonInstances = [],
      pendingRemoveDungeon = [], instanceIdGen = 1, iteratingDungeons = False, rehashes = rh,
      wplayers = Map.empty, wmonsters = Map.empty, warrows = Map.empty, idGenerator = 1,
      wsessions = Map.empty, party = PartyManager_new, clock = clk, clockPos = 0, dice = dc, dicePos = 0,
      redisConnected = redis_up, out = [], faulted = None\<rparr>"

definition ChatConnector_new :: ChatConnector where
  "ChatConnector_new = \<lparr>chat_session = None, lastTryAt = 0, chat_starts = 0\<rparr>"

definition Server_boot :: "World \<Rightarrow> DB \<Rightarrow> string \<Rightarrow> Server" where
  "Server_boot w d addr =
     \<lparr>world = Manager_Init True w, db = d, online = [], recvMove = 0, recvAttack = 0, recvTurn = 0,
      serverAddr = addr, chat = Chat_Connect ChatConnector_new\<rparr>"

section \<open>The main loop\<close>

text \<open>\<open>reportPerfIfDue\<close>; the report itself is disabled in the source.\<close>

definition reportPerfIfDue :: "uint64 \<Rightarrow> uint64 \<Rightarrow> Server \<Rightarrow> uint64 \<times> Server" where
  "reportPerfIfDue now lastReportAt0 sv =
     (let lastReportAt = (if lastReportAt0 = 0 then now else lastReportAt0)
      in if now - lastReportAt < 1000 then (lastReportAt, sv)
         else (now, snd (ConsumePerfSnapshot sv)))"

text \<open>One turn of the \<open>single\<close> loop after \<open>Dispatch\<close>; \<open>lastReportAt\<close> is its local.\<close>

definition loop_turn :: "uint64 \<Rightarrow> uint64 \<Rightarrow> Server \<Rightarrow> uint64 \<times> Server" where
  "loop_turn now lastReportAt sv0 =
     (let sv1 = on_world (Manager_Update now) sv0;
          (lr, sv) = reportPerfIfDue now lastReportAt sv1
      in (lr, if \<not> Chat_IsConnected (chat sv) then sv\<lparr>chat := TryReconnect now (chat sv)\<rparr> else sv))"

text \<open>What \<open>Dispatch\<close> delivers, and the turns of the loop.\<close>

datatype event =
    EvConnect SessionId
  | EvDisconnect SessionId
  | EvPacket SessionId "byte list" "redis_elem list option"
  | EvChat "byte list"
  | EvChatUp bool
  | EvSubscriber "RelayChat option"
  | EvTurn uint64 uint64

record Env =
  env_parsers :: Parsers
  env_stod :: "string \<Rightarrow> int32"
  env_sorry :: string

fun handle :: "Env \<Rightarrow> event \<Rightarrow> Server \<Rightarrow> Server" where
  "handle E (EvConnect s) sv = OnConnected s sv"
| "handle E (EvDisconnect s) sv = OnDisconnected s sv"
| "handle E (EvPacket s b rk) sv = HandlePacket (env_parsers E) (env_stod E) rk s b sv"
| "handle E (EvChat b) sv = Relay_OnRecvPacket (env_parsers E) (env_sorry E) b sv"
| "handle E (EvChatUp up) sv = sv\<lparr>chat := (chat sv)\<lparr>chat_session := map_option (\<lambda>_. up) (chat_session (chat sv))\<rparr>\<rparr>"
| "handle E (EvSubscriber m) sv = Subscriber_on_message m sv"
| "handle E (EvTurn now lr) sv = snd (loop_turn now lr sv)"

section \<open>The invariant\<close>

text \<open>What is stored was once a player: a level that exists and a health that is not negative.\<close>

definition db_ok :: "DB \<Rightarrow> bool" where
  "db_ok d \<longleftrightarrow> (\<forall>r \<in> set (players_table d). 1 \<le> prow_level r \<and> prow_level r \<le> MAX_LEVEL \<and> 0 \<le> prow_hp r)"

definition server_ok :: "Server \<Rightarrow> bool" where
  "server_ok sv \<longleftrightarrow> safe (world sv) \<and> (faulted (world sv) = None \<longrightarrow> db_ok (db sv))"

text \<open>The 64-bit id counter, which starts at 1, has not come back to the id of a player.\<close>

definition fresh_id :: "Server \<Rightarrow> bool" where
  "fresh_id sv \<longleftrightarrow> wplayers (world sv) (idGenerator (world sv)) = None"

fun fresh_run :: "Env \<Rightarrow> event list \<Rightarrow> Server \<Rightarrow> bool" where
  "fresh_run E [] sv \<longleftrightarrow> True"
| "fresh_run E (e # es) sv \<longleftrightarrow> fresh_id sv \<and> fresh_run E es (handle E e sv)"

lemma on_world_simps [simp]:
  "world (on_world f sv) = f (world sv)" "db (on_world f sv) = db sv" "online (on_world f sv) = online sv"
  "chat (on_world f sv) = chat sv" "serverAddr (on_world f sv) = serverAddr sv"
  by (simp_all add: on_world_def)

lemma server_ok_cong: "world sv' = world sv \<Longrightarrow> db sv' = db sv \<Longrightarrow> server_ok sv' = server_ok sv"
  by (simp add: server_ok_def)

lemma server_ok_on_world:
  assumes "evolves b (world sv) (f (world sv))" "server_ok sv"
  shows "server_ok (on_world f sv)"
proof -
  have s: "(micro b)\<^sup>*\<^sup>* (world sv) (f (world sv))" using assms by (simp add: evolves_def server_ok_def)
  with assms(2) show ?thesis
    using steps_safe [OF s] steps_faulted [OF s] by (auto simp: server_ok_def)
qed

lemma server_ok_push:
  assumes "server_ok sv"
  shows "server_ok (push_packet s c sv)"
  unfolding push_packet_def
  by (auto simp: assms job_ok_def split: option.split intro!: server_ok_on_world [where b = True] evolves_PushJob)

lemma server_ok_with_body:
  assumes "server_ok sv" "\<And>payload. server_ok (f payload sv)"
  shows "server_ok (with_body buf f sv)"
  unfolding with_body_def
  by (auto simp: assms split: option.split intro!: server_ok_on_world [where b = True] evolves_basic)

section \<open>Saving and loading\<close>

lemma db_ok_Save:
  "db_ok d \<Longrightarrow> player_inv D p \<Longrightarrow> db_ok (SavePlayerData acc (ToSaveData p) d)"
  by (auto simp: db_ok_def SavePlayerData_def ToSaveData_def player_inv_def)

lemma db_ok_FindOrCreate: "db_ok d \<Longrightarrow> FindOrCreateAccount n d = (acc, d') \<Longrightarrow> db_ok d'"
  by (auto simp: db_ok_def FindOrCreateAccount_def Let_def split: option.splits)

lemma ApplyFromSaveData_keeps:
  assumes "tables_ok D" "1 \<le> sd_level d" "sd_level d \<le> MAX_LEVEL" "0 \<le> sd_hp d"
    and "length (sd_storage d) = INVENTORY_SIZE" "player_inv D p"
  shows "player_inv D (ApplyFromSaveData D d p)"
proof (cases "GetLevelData D (sd_level d)")
  case None
  with assms show ?thesis
    by (simp add: player_inv_def ApplyFromSaveData_def Let_def stats_ok_def RecalcStats_def)
next
  case (Some ld)
  with assms ApplyFromSaveData_inv show ?thesis by blast
qed

lemma fold_load_slot: "length (sd_storage d) = INVENTORY_SIZE \<Longrightarrow>
  length (sd_storage (fold load_slot rs d)) = INVENTORY_SIZE \<and> sd_level (fold load_slot rs d) = sd_level d
  \<and> sd_hp (fold load_slot rs d) = sd_hp d"
  by (induction rs arbitrary: d) (auto simp: load_slot_def)

lemma fold_load_equip: "length (sd_storage d) = INVENTORY_SIZE \<Longrightarrow>
  length (sd_storage (fold load_equip rs d)) = INVENTORY_SIZE \<and> sd_level (fold load_equip rs d) = sd_level d
  \<and> sd_hp (fold load_equip rs d) = sd_hp d"
  by (induction rs arbitrary: d) (auto simp: load_equip_def Let_def)

lemma LoadPlayerData_ok:
  assumes "db_ok d" "HasPlayerData acc d"
  shows "1 \<le> sd_level (snd (LoadPlayerData acc PlayerSaveData_default d))
    \<and> sd_level (snd (LoadPlayerData acc PlayerSaveData_default d)) \<le> MAX_LEVEL
    \<and> 0 \<le> sd_hp (snd (LoadPlayerData acc PlayerSaveData_default d))
    \<and> length (sd_storage (snd (LoadPlayerData acc PlayerSaveData_default d))) = INVENTORY_SIZE"
proof -
  from assms(2) obtain r where r: "find (\<lambda>r. prow_account r = acc) (players_table d) = Some r"
    by (cases "find (\<lambda>r. prow_account r = acc) (players_table d)")
      (auto simp: HasPlayerData_def find_None_iff list_ex_iff)
  then have "r \<in> set (players_table d)" by (auto simp: find_Some_iff)
  with assms(1) have "1 \<le> prow_level r \<and> prow_level r \<le> MAX_LEVEL \<and> 0 \<le> prow_hp r" by (simp add: db_ok_def)
  then show ?thesis
    using fold_load_slot fold_load_equip by (simp add: LoadPlayerData_def r Let_def PlayerSaveData_default_def)
qed

section \<open>Login\<close>

definition logged :: "uint64 \<Rightarrow> Server \<Rightarrow> bool" where
  "logged pid sv \<longleftrightarrow> server_ok sv \<and> (faulted (world sv) = None \<longrightarrow> player_ok (world sv) pid)"

lemma logged_on_world:
  assumes "evolves b (world sv) (f (world sv))" "logged pid sv"
  shows "logged pid (on_world f sv)"
proof -
  have s: "(micro b)\<^sup>*\<^sup>* (world sv) (f (world sv))" using assms by (simp add: evolves_def logged_def server_ok_def)
  with assms(2) server_ok_on_world [where f = f, OF assms(1)] show ?thesis
    using steps_player_ok [OF s] steps_faulted [OF s] by (auto simp: logged_def)
qed

lemma CreatePlayer_logged:
  assumes "server_ok sv" "fresh_id sv"
  shows "logged (fst (CreatePlayer (world sv))) (sv\<lparr>world := snd (CreatePlayer (world sv))\<rparr>)"
proof (cases "faulted (world sv)")
  case (Some f)
  with assms show ?thesis by (simp add: logged_def server_ok_def CreatePlayer_def Let_def safe_def)
next
  case None
  let ?w = "world sv" let ?i = "idGenerator ?w" let ?p = "Player_new (gdata ?w) ?i"
  let ?w' = "put_player ?i ?p (?w\<lparr>idGenerator := ?i + 1\<rparr>)"
  from assms None have wf: "world_wf ?w" and d: "db_ok (db sv)" by (simp_all add: server_ok_def safe_def)
  have ne: "player_ok ?w pid \<Longrightarrow> pid \<noteq> ?i" for pid
    using assms(2) by (auto simp: player_ok_def fresh_id_def)
  have "room_wf ?w r \<Longrightarrow> room_wf ?w' r" for r
    by (erule room_wf_mono)
      (use ne in \<open>auto simp: player_ok_def in_session_def monster_ok_def arrow_ok_def\<close>)
  with wf have "world_wf ?w'" by (simp add: world_wf_def)
  moreover have "player_ok ?w' ?i"
    using wf Player_new_inv by (simp add: player_ok_def world_wf_def Player_new_def set_extra_def split_beta)
  ultimately show ?thesis
    using None d by (simp add: logged_def server_ok_def CreatePlayer_def Let_def safe_def)
qed

lemma name_change:
  "player_inv D (p\<lparr>info := (info p)\<lparr>i_name := n\<rparr>\<rparr>) = player_inv D p"
  "body (p\<lparr>info := (info p)\<lparr>i_name := n\<rparr>\<rparr>) = body p"
  by (simp_all add: player_inv_def stats_ok_def body_def GetCellPos_def split: option.split)

lemma body_ApplyFromSaveData [simp]: "body (ApplyFromSaveData D d p) = body p"
  by (simp add: ApplyFromSaveData_def Let_def) (simp add: body_def GetCellPos_def split: option.split)

lemma evolves_login_player:
  assumes "logged pid sv"
  shows "evolves b (world sv) (world (login_player acc n pid sv))"
proof (cases "HasPlayerData acc (db sv)")
  case True
  have "evolves b (world sv) (put_player pid (ApplyFromSaveData (gdata (world sv))
      (snd (LoadPlayerData acc PlayerSaveData_default (db sv))) (the_player pid (world sv))) (world sv))"
  proof (rule evolves_put_player, rule player_change_body, simp, rule impI)
    assume a: "faulted (world sv) = None" "world_wf (world sv)"
      "player_inv (gdata (world sv)) (the_player pid (world sv))"
    with assms have d: "db_ok (db sv)" by (simp add: logged_def server_ok_def)
    show "player_inv (gdata (world sv)) (ApplyFromSaveData (gdata (world sv))
        (snd (LoadPlayerData acc PlayerSaveData_default (db sv))) (the_player pid (world sv)))"
      using LoadPlayerData_ok [OF d True] a by (intro ApplyFromSaveData_keeps) (auto simp: world_wf_def)
  qed
  with True show ?thesis by (simp add: login_player_def Let_def)
next
  case False
  have "evolves b (world sv) (put_player pid
      ((the_player pid (world sv))\<lparr>info := (info (the_player pid (world sv)))\<lparr>i_name := n\<rparr>\<rparr>) (world sv))"
    by (rule evolves_put_player, rule player_change_body) (simp_all add: name_change)
  with False show ?thesis by (simp add: login_player_def Let_def)
qed

lemma login_player_logged:
  assumes "logged pid sv"
  shows "logged pid (login_player acc n pid sv)"
proof -
  define sv' where "sv' = on_world (\<lambda>_. world (login_player acc n pid sv)) sv"
  have l: "logged pid sv'" unfolding sv'_def
    by (rule logged_on_world [where b = True, OF _ assms]) (rule evolves_login_player [OF assms])
  show ?thesis
  proof (cases "HasPlayerData acc (db sv)")
    case True
    then have "login_player acc n pid sv = sv'" by (simp add: sv'_def login_player_def Let_def on_world_def)
    with l show ?thesis by simp
  next
    case False
    let ?p = "(the_player pid (world sv))\<lparr>info := (info (the_player pid (world sv)))\<lparr>i_name := n\<rparr>\<rparr>"
    have e: "login_player acc n pid sv = sv'\<lparr>db := SavePlayerData acc (ToSaveData ?p) (db sv)\<rparr>"
      by (simp add: sv'_def False login_player_def Let_def on_world_def)
    have "faulted (world sv') = faulted (world sv)" by (simp add: sv'_def login_player_def Let_def False)
    moreover have "db_ok (SavePlayerData acc (ToSaveData ?p) (db sv))" if "faulted (world sv) = None"
    proof -
      from assms that have "db_ok (db sv)" "player_inv (gdata (world sv)) ?p"
        using player_ok_the by (auto simp: logged_def server_ok_def name_change)
      then show ?thesis by (rule db_ok_Save)
    qed
    ultimately show ?thesis using l by (simp add: e logged_def server_ok_def)
  qed
qed

lemma server_ok_login:
  assumes "server_ok sv" "fresh_id sv"
  shows "server_ok (Recv_C_Login ps s buf sv)"
  unfolding Recv_C_Login_def
proof (rule server_ok_with_body [OF assms(1)])
  fix payload
  define n where "n = parse_Login ps payload"
  obtain acc db1 where f: "FindOrCreateAccount n (db sv) = (acc, db1)" by fastforce
  have 1: "server_ok (sv\<lparr>db := db1\<rparr>)"
    using assms(1) db_ok_FindOrCreate [OF _ f] by (simp add: server_ok_def)
  define sv2 where "sv2 = on_world (\<lambda>w. put_session s ((the_session s w)\<lparr>gs_account := acc\<rparr>) w) (sv\<lparr>db := db1\<rparr>)"
  have 2: "server_ok sv2" unfolding sv2_def by (rule server_ok_on_world [where b = True, OF _ 1]) (rule evolves_basic)
  have fr: "fresh_id sv2" using assms(2) by (simp add: fresh_id_def sv2_def put_session_def)
  obtain pid w3 where c: "CreatePlayer (world sv2) = (pid, w3)" by fastforce
  define sv4 where "sv4 = login_player acc n pid (sv2\<lparr>world := w3\<rparr>)"
  define sv5 where "sv5 = on_world (send_packet s (S_EnterGame True acc)) sv4"
  have 4: "logged pid sv4" unfolding sv4_def
    by (rule login_player_logged) (use CreatePlayer_logged [OF 2 fr] c in simp)
  have 5: "logged pid sv5" unfolding sv5_def
    by (rule logged_on_world [where b = True, OF _ 4]) (rule evolves_basic)
  have "evolves True (world sv5) (enter_town s pid (world sv5))"
    using 5 by (auto simp: enter_town_def logged_def job_ok_def split: option.split intro: evolves_PushJob)
  with 5 have 6: "server_ok (on_world (enter_town s pid) sv5)"
    using logged_on_world [where f = "enter_town s pid"] by (auto simp: logged_def)
  have "server_ok (on_world (\<lambda>w. if redisConnected w
      then redis (RedisZadd ''rank:level'' n (level (the_player pid w)))
             (redis (RedisSet (''player:loc:'' @ n) (serverAddr sv)) w) else w) (on_world (enter_town s pid) sv5))"
    by (rule server_ok_on_world [where b = True, OF _ 6]) (auto intro!: evolves_intros)
  with 1 assms(1) show "server_ok (let username = parse_Login ps payload
     in if username = '''' then sv
        else
          let (acc, db1) = FindOrCreateAccount username (db sv); sv1 = sv\<lparr>db := db1\<rparr>
          in if acc = 0 then sv1
             else
               let sv2 = on_world (\<lambda>w. put_session s ((the_session s w)\<lparr>gs_account := acc\<rparr>) w) sv1;
                   (pid, w3) = CreatePlayer (world sv2);
                   sv4 = login_player acc username pid (sv2\<lparr>world := w3\<rparr>);
                   sv5 = on_world (send_packet s (S_EnterGame True acc)) sv4;
                   sv6 = on_world (enter_town s pid) sv5
               in on_world (\<lambda>w. if redisConnected w
                    then redis (RedisZadd ''rank:level'' username (level (the_player pid w)))
                           (redis (RedisSet (''player:loc:'' @ username) (serverAddr sv)) w)
                    else w) sv6)"
    unfolding Let_def n_def [symmetric] f prod.case sv2_def [symmetric] c sv4_def [symmetric] sv5_def [symmetric]
    by simp
qed

section \<open>Every event\<close>

lemma server_ok_OnConnected: "server_ok sv \<Longrightarrow> server_ok (OnConnected s sv)"
  using server_ok_on_world [where b = True and f = "put_session s GameSession_new" and sv = sv] evolves_basic(6)
  by (auto simp: OnConnected_def Add_session_def server_ok_def)

lemma evolves_notify_party: "evolves b w (notify_party r p w)"
  unfolding notify_party_def
  by (rule evolves_fold) (auto intro: evolves_basic split: option.split ObjRef.split)

lemma evolves_leave_party: "evolves b w (leave_party s pid w)"
  unfolding leave_party_def Let_def
  by (auto intro!: party_steps evolves_notify_party [THEN evolves_trans [rotated]] split: option.split)

lemma server_ok_save:
  assumes "server_ok sv" "session_player s (world sv) = Some pid"
  shows "server_ok (sv\<lparr>db := SavePlayerData acc (ToSaveData (the_player pid (world sv))) (db sv)\<rparr>)"
proof -
  have "db_ok (SavePlayerData acc (ToSaveData (the_player pid (world sv))) (db sv))" if "faulted (world sv) = None"
    using assms(1) that wf_session_player [OF _ assms(2)] player_ok_the
    by (auto simp: server_ok_def safe_def intro: db_ok_Save)
  with assms(1) show ?thesis by (simp add: server_ok_def)
qed

lemma server_ok_OnDisconnected:
  assumes "server_ok sv0"
  shows "server_ok (OnDisconnected s sv0)"
proof -
  define sv where "sv = Remove_session s sv0"
  have 1: "server_ok sv" using assms by (simp add: sv_def Remove_session_def server_ok_def)
  define sv1 where "sv1 = (case session_player s (world sv) of
      None \<Rightarrow> sv
    | Some pid \<Rightarrow>
        let sv' = (if gs_account (the_session s (world sv)) > 0
              then sv\<lparr>db := SavePlayerData (gs_account (the_session s (world sv))) (ToSaveData (the_player pid (world sv))) (db sv)\<rparr>
              else sv)
        in on_world (\<lambda>w. let w' = leave_party s pid w
              in if redisConnected w' then redis (RedisDel (''player:loc:'' @ i_name (info (the_player pid w')))) w'
                 else w') sv')"
  have "server_ok sv1"
  proof (cases "session_player s (world sv)")
    case (Some pid)
    note 2 = server_ok_save [OF 1 Some]
    show ?thesis unfolding sv1_def Some option.case Let_def
      by (auto intro!: server_ok_on_world [where b = True] evolves_intros evolves_leave_party 1 2)
  qed (simp add: sv1_def 1)
  then have "server_ok (case session_room s (world sv1) of None \<Rightarrow> sv1 | Some r \<Rightarrow> on_world (PushJob r (JobLeave s)) sv1)"
    by (auto simp: job_ok_def split: option.split intro!: server_ok_on_world [where b = True] evolves_PushJob)
  then show ?thesis unfolding OnDisconnected_def Let_def sv_def [symmetric] sv1_def [symmetric, unfolded Let_def] .
qed

lemma server_ok_sending:
  assumes "server_ok sv"
  shows "server_ok (Broadcast_all pkt sv)" "server_ok (SendToPlayerIds ids pkt sv)" "server_ok (Chat_Send m sv)"
    "server_ok (on_world (send_packet s pkt) sv)" "server_ok (on_world (raise UninitializedRead) sv)"
proof -
  show "server_ok (Broadcast_all pkt sv)" unfolding Broadcast_all_def
    by (rule server_ok_on_world [where b = True, OF _ assms], rule evolves_fold, rule evolves_basic)
  show "server_ok (SendToPlayerIds ids pkt sv)" unfolding SendToPlayerIds_def
    by (rule server_ok_on_world [where b = True, OF _ assms], rule evolves_fold)
      (auto intro: evolves_basic split: option.split)
  have "safe w \<Longrightarrow> safe (w\<lparr>out := os\<rparr>)" for w os
    by (simp add: safe_def world_wf_cong [of "w\<lparr>out := os\<rparr>" w] split: option.splits)
  with assms show "server_ok (Chat_Send m sv)" by (simp add: Chat_Send_def server_ok_def)
qed (auto intro!: server_ok_on_world [where b = True, OF _ assms] evolves_basic)

lemma server_ok_chat: "server_ok sv \<Longrightarrow> server_ok (Recv_C_Chat ps s buf sv)"
  unfolding Recv_C_Chat_def
  by (rule server_ok_with_body) (auto simp: Let_def server_ok_sending split: option.split prod.split)

lemma server_ok_HandlePacket:
  assumes "server_ok sv" "fresh_id sv"
  shows "server_ok (HandlePacket ps stod rk s buf sv)"
proof -
  have c: "server_ok (sv\<lparr>recvMove := n\<rparr>)" "server_ok (sv\<lparr>recvAttack := n\<rparr>)" "server_ok (sv\<lparr>recvTurn := n\<rparr>)" for n
    using assms(1) by (simp_all add: server_ok_def)
  note defs = Recv_C_Move_def Recv_C_Attack_def Recv_C_ChangeMap_def Recv_C_Turn_def Recv_C_EquipItem_def
    Recv_C_UnequipItem_def Recv_C_UseItem_def Recv_C_PartyInvite_def Recv_C_PartyAnswer_def Recv_C_PartyLeave_def
  show ?thesis
    unfolding HandlePacket_def Let_def
    by (simp add: defs server_ok_with_body server_ok_push c assms server_ok_login server_ok_chat server_ok_sending
        Recv_C_GetRanking_def) (auto intro!: server_ok_on_world [where b = True] evolves_basic assms)
qed

lemma server_ok_relay: "server_ok sv \<Longrightarrow> server_ok (Relay_OnRecvPacket ps txt buf sv)"
  by (auto simp: Relay_OnRecvPacket_def Let_def server_ok_sending split: option.split)

lemma server_ok_subscriber: "server_ok sv \<Longrightarrow> server_ok (Subscriber_on_message m sv)"
  by (auto simp: Subscriber_on_message_def Let_def server_ok_sending split: option.split)

lemma server_ok_turn:
  assumes "server_ok sv"
  shows "server_ok (snd (loop_turn now lr sv))"
proof -
  have "server_ok (on_world (Manager_Update now) sv)"
    by (rule server_ok_on_world [where b = True, OF _ assms]) (rule evolves_Manager_Update)
  then show ?thesis
    by (auto simp: loop_turn_def reportPerfIfDue_def ConsumePerfSnapshot_def Let_def server_ok_def split: prod.split)
qed

lemma server_ok_handle: "server_ok sv \<Longrightarrow> fresh_id sv \<Longrightarrow> server_ok (handle E e sv)"
  by (cases e) (simp_all add: server_ok_OnConnected server_ok_OnDisconnected server_ok_HandlePacket
      server_ok_relay server_ok_subscriber server_ok_turn server_ok_cong [of "sv\<lparr>chat := c\<rparr>" sv for c])

lemma server_ok_run: "server_ok sv \<Longrightarrow> fresh_run E es sv \<Longrightarrow> server_ok (fold (handle E) es sv)"
  by (induction es arbitrary: sv) (simp_all add: server_ok_handle)

lemma server_ok_boot:
  assumes "tables_ok D" "db_ok d"
  shows "server_ok (Server_boot (World_start D files clk dc rh up) d addr)"
proof -
  let ?w = "World_start D files clk dc rh up"
  have "room_wf ?w r" for r
    by (simp add: room_wf_def World_start_def the_room_def GameRoom_new_def entering_def)
  with assms(1) have "safe ?w" by (simp add: safe_def world_wf_def World_start_def)
  with evolves_safe [OF evolves_Manager_Init] assms(2) show ?thesis
    by (simp add: Server_boot_def server_ok_def)
qed

text \<open>
  C1. The game server stays well formed. From its start with sound tables and a sound database, through any
  history of connections, disconnections, packets of any content, chat messages and update turns, it
  never dereferences a null session; and as long as no other undefined behaviour has been met, every room's maps
  are sorted and refer to existing objects filed under their ids, every player in a room has a session, a
  level from 1 to 30, a health between 0 and its maximum, 27 slots and the statistics of its equipment, every monster
  stands on a cell that is not a wall, and what the database holds can be loaded.
\<close>

theorem server_stays_safe:
  assumes "tables_ok D" "db_ok d"
    and "fresh_run E es (Server_boot (World_start D files clk dc rh up) d addr)"
  shows "let sv = fold (handle E) es (Server_boot (World_start D files clk dc rh up) d addr)
    in faulted (world sv) \<noteq> Some NullDereference
      \<and> (faulted (world sv) = None \<longrightarrow> world_wf (world sv) \<and> db_ok (db sv))"
  using server_ok_run [OF server_ok_boot [OF assms(1,2)] assms(3)]
  by (simp add: server_ok_def safe_def Let_def split: option.splits)

section \<open>A short history\<close>

definition sample_parsers :: Parsers where
  "sample_parsers = \<lparr>parse_Move = (\<lambda>b. uint (b ! 0)), parse_Attack = (\<lambda>b. (uint (b ! 0), 0)), parse_ChangeMap = (\<lambda>b. (2, 0)),
     parse_Turn = (\<lambda>b. 0), parse_EquipItem = (\<lambda>b. 0), parse_UnequipItem = (\<lambda>b. 0), parse_UseItem = (\<lambda>b. 0),
     parse_PartyInvite = (\<lambda>b. 0), parse_PartyAnswer = (\<lambda>b. (0, True)), parse_Login = (\<lambda>b. ''ann''),
     parse_Chat = (\<lambda>b. (0, ''hi'', '''')),
     parse_Broadcast = (\<lambda>b. chat_message ''ann'' 0 ''hi'')\<rparr>"

definition sample_env :: Env where
  "sample_env = \<lparr>env_parsers = sample_parsers, env_stod = (\<lambda>s. 1), env_sorry = ''not found''\<rparr>"

definition sample_boot :: Server where
  "sample_boot = Server_boot (World_start sample_data (\<lambda>f. None) of_nat (\<lambda>n. 0) (\<lambda>n. False) False) DB_empty ''127.0.0.1:7777''"

lemma sample_boot_ids: "idGenerator (world sample_boot) = 1" "wplayers (world sample_boot) = Map.empty"
    "gdata (world sample_boot) = sample_data" "staticRooms (world sample_boot) = [StaticRoom Town 1, StaticRoom Town 2]"
    "db sample_boot = DB_empty" "redisConnected (world sample_boot) = False" "faulted (world sample_boot) = None"
  by (simp_all add: sample_boot_def Server_boot_def Manager_Init_def add_static_room_def InitFromConfig_def Let_def
      World_start_def make_room_def sample_data_def RoomDataManager_empty_def GetRoomConfig_def upd_room_def)

lemma sample_login_ids:
  "idGenerator (world (handle sample_env (EvPacket 1 [5, 0, 111, 0, 7] None) (handle sample_env (EvConnect 1) sample_boot))) = 2"
  "wplayers (world (handle sample_env (EvPacket 1 [5, 0, 111, 0, 7] None) (handle sample_env (EvConnect 1) sample_boot))) 2 = None"
  by (simp_all add: HandlePacket_def sizeof_PacketHeader_def header_at_def le16_value_def Recv_C_Login_def with_body_def
      ParsePacket_def sample_env_def sample_parsers_def FindOrCreateAccount_def c_string_def Let_def
      OnConnected_def Add_session_def on_world_def CreatePlayer_def login_player_def enter_town_def GetStaticRoom_def
      PushJob_def sample_boot_ids DB_empty_def HasPlayerData_def SavePlayerData_def put_session_def put_player_def upd_room_def)

theorem server_stays_safe_witness:
  "let sv = fold (handle sample_env) [EvConnect 1, EvPacket 1 [5, 0, 111, 0, 7] None, EvTurn 50 0]
        (Server_boot (World_start sample_data (\<lambda>f. None) of_nat (\<lambda>n. 0) (\<lambda>n. False) False) DB_empty ''127.0.0.1:7777'')
   in faulted (world sv) \<noteq> Some NullDereference \<and> (faulted (world sv) = None \<longrightarrow> world_wf (world sv) \<and> db_ok (db sv))"
proof (rule server_stays_safe [OF sample_tables_ok])
  show "db_ok DB_empty" by (simp add: db_ok_def DB_empty_def)
  have "fresh_run sample_env [EvConnect 1, EvPacket 1 [5, 0, 111, 0, 7] None, EvTurn 50 0] sample_boot"
    using sample_login_ids
    by (simp add: fresh_id_def sample_boot_ids del: handle.simps(2,3))
      (simp add: OnConnected_def Add_session_def put_session_def sample_boot_ids)
  then show "fresh_run sample_env [EvConnect 1, EvPacket 1 [5, 0, 111, 0, 7] None, EvTurn 50 0]
      (Server_boot (World_start sample_data (\<lambda>f. None) of_nat (\<lambda>n. 0) (\<lambda>n. False) False) DB_empty ''127.0.0.1:7777'')"
    by (simp only: sample_boot_def)
qed

end
