(* ===== verification/Room_Props.thy ===== *)
theory Room_Props
  imports Server
begin

text \<open>
  What single operations of a room do, on every branch: a move request, the shares of a kill, the sword,
  entering, a monster's update, and the fixed-step schedule.
\<close>

section \<open>Frames\<close>

lemma run_player_frame [simp]:
  "rooms (run_player i f w) = rooms w" "wmonsters (run_player i f w) = wmonsters w"
  "warrows (run_player i f w) = warrows w" "gdata (run_player i f w) = gdata w"
  "party (run_player i f w) = party w" "the_room r (run_player i f w) = the_room r w"
  "the_monster m (run_player i f w) = the_monster m w"
  "the_player j (run_player i f w) = (if j = i then fst (f (the_player i w)) else the_player j w)"
  by (simp_all add: run_player_def split_beta) (simp_all add: put_player_def)

lemma rooms_put [simp]:
  "rooms (put_player i p w) = rooms w" "rooms (put_monster i m w) = rooms w" "rooms (put_arrow i a w) = rooms w"
  by (simp_all add: put_player_def put_monster_def put_arrow_def)

text \<open>What a broadcast does when nothing has gone wrong and everybody in the room has a session.\<close>

lemma fold_send_out:
  "faulted w = None \<Longrightarrow> fold (\<lambda>s. send_packet s p) ss w = w\<lparr>out := out w @ map (\<lambda>s. Packet s p) ss\<rparr>"
  by (induction ss arbitrary: w) (simp_all add: send_packet_def)

lemma Broadcast_out:
  assumes "faulted w = None" "\<And>pid. pid \<in> set (players (the_room r w)) \<Longrightarrow> in_session w pid"
  shows "Broadcast r p w
    = w\<lparr>out := out w @ map (\<lambda>pid. Packet (the (psession (the_player pid w))) p) (players (the_room r w))\<rparr>"
  unfolding Broadcast_def by (subst fold_send) (auto simp: assms fold_send_out comp_def)

section \<open>Moving\<close>

lemma CanGo_iff:
  "CanGo r pos w \<longleftrightarrow> GetTileAt pos (tilemap (the_room r w)) \<notin> {None, Some 1} \<and> GetCreatureAt r pos w = None"
  by (auto simp: CanGo_def split: option.split)

text \<open>
  C15. A move request moves its player at most one cell, onto a cell that exists, is not a wall and holds no
  creature: it is ignored while a move is under way or when the direction is not one, it turns the player when
  the direction is new, it puts the player to rest when the cell in front is not free, and otherwise it takes that
  cell and starts a move of 75 ms. Each of the last three is announced once, with the new state, to every player of
  the room, in the order of the room's map. Nothing else in the world changes, the rest of the player included.
\<close>

theorem Handle_C_Move_correct:
  assumes "session_player s w = Some pid" "faulted w = None"
    and "\<And>i. i \<in> set (players (the_room r w)) \<Longrightarrow> in_session w i"
  shows "let p = the_player pid w; ob = info p; front = GetFrontCellPos p; w' = Handle_C_Move r s dir w;
      told = (\<lambda>q pkt calls. w\<lparr>wplayers := (wplayers w)(pid \<mapsto> q), clockPos := clockPos w + calls,
        out := out w @ map (\<lambda>i. Packet (the (psession (the_player i w))) pkt) (players (the_room r w))\<rparr>)
    in if i_state ob = MOVE \<or> \<not> DIR_TYPE_IsValid dir then w' = w
       else if i_dir ob \<noteq> dir then
         (let ob' = ob\<lparr>i_dir := dir, i_state := IDLE\<rparr> in w' = told (p\<lparr>info := ob'\<rparr>) (S_Turn ob') 0)
       else if GetTileAt front (tilemap (the_room r w)) \<in> {None, Some 1} \<or> GetCreatureAt r front w \<noteq> None then
         (let ob' = ob\<lparr>i_state := IDLE\<rparr> in w' = told (p\<lparr>info := ob'\<rparr>) (S_Move ob') 0)
       else manhattan (front - GetCellPos p) = 1
         \<and> (let ob' = ob\<lparr>i_state := MOVE, i_posx := vx front, i_posy := vy front\<rparr>
            in w' = told (p\<lparr>info := ob', moveEndTick := clock w (clockPos w) + 75\<rparr>) (S_Move ob') 1)"
proof -
  define p where "p = the_player pid w"
  have say: "Broadcast r pkt (put_player pid q (w\<lparr>clockPos := k\<rparr>)) = w\<lparr>wplayers := (wplayers w)(pid \<mapsto> q), clockPos := k,
      out := out w @ map (\<lambda>i. Packet (the (psession (the_player i w))) pkt) (players (the_room r w))\<rparr>"
    if "psession q = psession p" for pkt q k
  proof -
    let ?v = "put_player pid q (w\<lparr>clockPos := k\<rparr>)"
    have v: "psession (the_player i ?v) = psession (the_player i w)" "the_room r ?v = the_room r w"
      "faulted ?v = None" "out ?v = out w" for i
      using that assms(2) by (simp_all add: put_player_def the_player_def the_room_def p_def)
    then have "\<And>i. i \<in> set (players (the_room r ?v)) \<Longrightarrow> in_session ?v i"
      using assms(3) by (simp add: in_session_def)
    from Broadcast_out [OF v(3) this] have "Broadcast r pkt ?v
      = ?v\<lparr>out := out ?v @ map (\<lambda>i. Packet (the (psession (the_player i ?v))) pkt) (players (the_room r ?v))\<rparr>" .
    then show ?thesis unfolding v by (simp add: put_player_def)
  qed
  have "w\<lparr>clockPos := clockPos w\<rparr> = w" by simp
  note say' = say [where k = "clockPos w", unfolded this]
  show ?thesis
  proof (cases "i_state (info p) = MOVE \<or> \<not> DIR_TYPE_IsValid dir")
    case True
    then show ?thesis unfolding Let_def p_def [symmetric] by (auto simp: Handle_C_Move_def assms(1) p_def [symmetric])
  next
    case False
    then show ?thesis
      unfolding Let_def p_def [symmetric]
      using front_is_adjacent [of p]
      by (auto simp: Handle_C_Move_def assms(1) p_def [symmetric] Let_def tick_eq CanGo_iff say say'
          set_state_def set_dir_def set_pos_def StartMove_def)
  qed
qed

section \<open>Experience for a kill\<close>

definition kill_shares :: "RoomRef \<Rightarrow> uint64 \<Rightarrow> uint64 \<Rightarrow> World \<Rightarrow> (uint64 \<times> int32) list" where
  "kill_shares r killer mid w =
     (case GetMonsterTemplate (gdata w) (templateId (the_monster mid w)) of
        None \<Rightarrow> []
      | Some t \<Rightarrow>
          if mt_exp t \<le> 0 then []
          else case (if GetPartyIdByPlayer killer (party w) = 0 then None
                     else GetParty (GetPartyIdByPlayer killer (party w)) (party w)) of
                 None \<Rightarrow> [(killer, mt_exp t)]
               | Some p \<Rightarrow>
                   let nearby = filter (\<lambda>m. m \<in> set (players (the_room r w))) (memberIds p)
                   in map (\<lambda>m. (m, max 1 (mt_exp t div int (length nearby)))) nearby)"

lemma mult_div_le: "0 < a \<Longrightarrow> 0 \<le> b \<Longrightarrow> b * (a div b) \<le> (a :: int)"
proof (cases "b = 0")
  case False
  assume "0 \<le> b"
  with False have "0 \<le> a mod b" by simp
  with mult_div_mod_eq [of b a] show ?thesis by linarith
qed simp

lemma fold_gain:
  assumes "distinct ms"
  shows "the_player i (fold (\<lambda>m w. run_player m (GainExp (gdata w) n) w) ms w)
    = (if i \<in> set ms then fst (GainExp (gdata w) n (the_player i w)) else the_player i w)"
  using assms by (induction ms arbitrary: w) auto

text \<open>
  C16. A kill pays once: a killer without a party gets the monster's experience; in a party every member in the
  same room, and nobody else, gets an equal share of it, at least 1, and the shares add up to no
  more than the monster's experience or one point a head.
\<close>

theorem DistributeExp_shares:
  assumes "pm_inv (party w)"
  shows "(\<forall>i. the_player i (DistributeExp r killer mid w) =
      (case map_of (kill_shares r killer mid w) i of
         None \<Rightarrow> the_player i w | Some n \<Rightarrow> fst (GainExp (gdata w) n (the_player i w))))
    \<and> (\<forall>(m, n) \<in> set (kill_shares r killer mid w). 1 \<le> n)
    \<and> (\<forall>t. GetMonsterTemplate (gdata w) (templateId (the_monster mid w)) = Some t \<longrightarrow> kill_shares r killer mid w \<noteq> [] \<longrightarrow>
         sum_list (map snd (kill_shares r killer mid w)) \<le> max (mt_exp t) (int (length (kill_shares r killer mid w))))"
proof (cases "GetMonsterTemplate (gdata w) (templateId (the_monster mid w))")
  case (Some t)
  show ?thesis
  proof (cases "mt_exp t \<le> 0")
    case pos: False
    show ?thesis
    proof (cases "if GetPartyIdByPlayer killer (party w) = 0 then None
                  else GetParty (GetPartyIdByPlayer killer (party w)) (party w)")
      case None
      then show ?thesis using Some pos by (simp add: DistributeExp_def kill_shares_def Let_def)
    next
      case (Some p)
      let ?near = "filter (\<lambda>m. m \<in> set (players (the_room r w))) (memberIds p)"
      let ?n = "int (length ?near)" and ?share = "max 1 (mt_exp t div int (length ?near))"
      from Some have "parties (party w) (GetPartyIdByPlayer killer (party w)) = Some p"
        by (simp add: GetParty_def split: if_splits)
      from pm_invD(1) [OF assms this] have d: "distinct ?near" by (simp add: party_ok_def)
      have sh: "kill_shares r killer mid w = map (\<lambda>m. (m, ?share)) ?near"
        using Some pos \<open>GetMonsterTemplate _ _ = Some t\<close> by (simp add: kill_shares_def Let_def)
      have m: "map_of (map (\<lambda>m. (m, ?share)) xs) i = (if i \<in> set xs then Some ?share else None)" for i xs
        by (induction xs) auto
      have run: "DistributeExp r killer mid w = (if ?near = [] then w
          else fold (\<lambda>m w. run_player m (GainExp (gdata w) ?share) w) ?near w)"
        using Some pos \<open>GetMonsterTemplate _ _ = Some t\<close> by (simp add: DistributeExp_def Let_def)
      have "?n * ?share \<le> max (mt_exp t) ?n"
      proof (cases "mt_exp t div ?n \<le> 1")
        case False
        have "?n * (mt_exp t div ?n) \<le> mt_exp t" using pos by (intro mult_div_le) simp_all
        with False show ?thesis by (simp add: max_def)
      qed simp
      then have "sum_list (map snd (map (\<lambda>m. (m, ?share)) ?near)) \<le> max (mt_exp t) ?n"
        by (simp add: comp_def sum_list_triv)
      then show ?thesis
        unfolding sh m run using d by (auto simp: fold_gain filter_empty_conv \<open>GetMonsterTemplate _ _ = Some t\<close>)
    qed
  qed (simp add: DistributeExp_def kill_shares_def Some)
qed (simp add: DistributeExp_def kill_shares_def)

section \<open>The sword\<close>

lemma rewards_frame:
  "rooms (DistributeExp r k m w) = rooms w" "wmonsters (DistributeExp r k m w) = wmonsters w"
  "rooms (ProcessMonsterDrop k m w) = rooms w" "wmonsters (ProcessMonsterDrop k m w) = wmonsters w"
proof -
  have f: "rooms (fold (\<lambda>m w. run_player m (f w) w) ms w) = rooms w \<and> wmonsters (fold (\<lambda>m w. run_player m (f w) w) ms w) = wmonsters w"
    for f ms w by (induction ms arbitrary: w) simp_all
  show "rooms (DistributeExp r k m w) = rooms w" "wmonsters (DistributeExp r k m w) = wmonsters w"
    using f by (auto simp: DistributeExp_def Let_def split: option.split)
  have "rooms (drop_item k d w) = rooms w" "wmonsters (drop_item k d w) = wmonsters w" for d w
    by (simp_all add: drop_item_def roll_def)
  then have "rooms (fold (drop_item k) ds w) = rooms w \<and> wmonsters (fold (drop_item k) ds w) = wmonsters w" for ds w
    by (induction ds arbitrary: w) simp_all
  then show "rooms (ProcessMonsterDrop k m w) = rooms w" "wmonsters (ProcessMonsterDrop k m w) = wmonsters w"
    by (auto simp: ProcessMonsterDrop_def split: option.split)
qed

lemma first_at_in: "first_at pos w refs = Some ref \<Longrightarrow> ref \<in> set refs \<and> obj_pos ref w = pos"
  by (auto simp: first_at_def find_Some_iff)

lemma RemoveObject_monster:
  assumes "mid \<in> set (monsters (the_room r w))" "mid \<notin> set (players (the_room r w))"
  shows "monsters (the_room r (RemoveObject r mid w)) = key_erase mid (monsters (the_room r w))"
    "players (the_room r (RemoveObject r mid w)) = players (the_room r w)"
    "length (respawnQueue (the_room r (RemoveObject r mid w)))
      = length (respawnQueue (the_room r w)) + (if ShouldSpawn r w then 1 else 0)"
    "the_player i (RemoveObject r mid w) = the_player i w"
  using assms by (simp_all add: RemoveObject_def FindObject_def Let_def TryReserve_def tick_eq)

text \<open>
  C13. A sword stroke at a monster in the cell in front takes the difference of attack and defence from its
  health, at least 1 and never below 0. The monster stays in the room while it has health left; at 0 it
  is removed from the room at once, and exactly one respawn is queued if the room respawns monsters.
\<close>

theorem HandleSwordAttack_monster:
  assumes "world_wf w" "GetGameObjectAt r (GetFrontCellPos (the_player k w)) w = Some (RefMonster m)"
    and "0 \<le> i_hp (info (the_monster m w))" "in32 (i_hp (info (the_monster m w)))" "m \<notin> set (players (the_room r w))"
  shows "let damage = max 1 (wrap32 (i_attack (info (the_player k w)) - i_defence (info (the_monster m w))));
             hp = max 0 (i_hp (info (the_monster m w)) - damage); w' = HandleSwordAttack r k w
    in m \<in> set (monsters (the_room r w))
      \<and> i_hp (info (the_monster m w')) = hp
      \<and> set (monsters (the_room r w')) = (if hp = 0 then set (monsters (the_room r w)) - {m} else set (monsters (the_room r w)))
      \<and> length (respawnQueue (the_room r w')) = length (respawnQueue (the_room r w))
          + (if hp = 0 \<and> ShouldSpawn r w then 1 else 0)"
proof -
  define dmg where "dmg = hit_damage (i_attack (info (the_player k w))) (i_defence (info (the_monster m w)))"
  define w1 where "w1 = damage_obj (RefMonster m) dmg w"
  define w2 where "w2 = BroadcastDamaged r (i_objectid (info (the_player k w))) (RefMonster m) dmg w1"
  define w3 where "w3 = ProcessMonsterDrop k m (DistributeExp r k m w2)"
  have in_m: "m \<in> set (monsters (the_room r w))"
    using assms(2) by (auto simp: GetGameObjectAt_def Let_def dest!: first_at_in)
  then have "monster_ok w r m" using wf_room [OF assms(1), of r] by (simp add: room_wf_def Let_def)
  then have id: "i_objectid (info (the_monster m w)) = m" by (auto simp: monster_ok_def the_monster_def)
  have m1: "the_monster m w1 = snd (OnDamaged dmg (the_monster m w))" by (simp add: w1_def damage_obj.simps)
  have r1: "rooms w1 = rooms w" by (simp add: w1_def damage_obj.simps)
  have m2: "the_monster m w2 = the_monster m w1" "rooms w2 = rooms w1" by (simp_all add: w2_def BroadcastDamaged_def)
  have m3: "the_monster m w3 = the_monster m w2" "rooms w3 = rooms w2"
    by (simp_all add: w3_def the_monster_def rewards_frame)
  have hp: "i_hp (info (the_monster m w2)) = max 0 (i_hp (info (the_monster m w)) - dmg)"
    using assms(3,4) by (simp add: m2 m1 OnDamaged_hp dmg_def)
  have id2: "i_objectid (info (the_monster m w2)) = m" by (simp add: m2 m1 OnDamaged_def id)
  have run: "HandleSwordAttack r k w = (if i_hp (info (the_monster m w2)) \<noteq> 0 then w2
      else RemoveObject r m w3)"
    using id2 by (simp add: HandleSwordAttack_def Let_def assms(2) dmg_def w1_def w2_def w3_def m3 [unfolded w3_def w2_def w1_def dmg_def])
  have rm: "the_room r w2 = the_room r w" "the_room r w3 = the_room r w"
    using m2 m3 r1 by (simp_all add: the_room_def)
  have ss: "ShouldSpawn r w3 = ShouldSpawn r w" by (simp add: ShouldSpawn_def rm)
  have rem: "set (monsters (the_room r (RemoveObject r m w3))) = set (monsters (the_room r w)) - {m}"
    "length (respawnQueue (the_room r (RemoveObject r m w3)))
      = length (respawnQueue (the_room r w)) + (if ShouldSpawn r w then 1 else 0)"
    using RemoveObject_monster [of m r w3] in_m assms(5) by (simp_all add: rm ss)
  have keep: "i_hp (info (the_monster m (RemoveObject r m w3))) = i_hp (info (the_monster m w3))"
    by (auto simp: RemoveObject_def FindObject_def Let_def TryReserve_def tick_eq)
  have d: "max 1 (wrap32 (i_attack (info (the_player k w)) - i_defence (info (the_monster m w)))) = dmg"
    by (simp add: dmg_def hit_damage_def)
  show ?thesis
    unfolding Let_def d run using hp rem keep in_m by (auto simp: rm m3)
qed

end
