(* ===== verification/Monster_Props.thy ===== *)
theory Monster_Props
  imports Room_Props
begin

text \<open>
  What one update of a monster can do: one step onto a free neighbouring cell, or one hit at a player next to it.
\<close>

definition same_places :: "World \<Rightarrow> World \<Rightarrow> bool" where
  "same_places w w' \<longleftrightarrow> rooms w' = rooms w \<and> (\<forall>ref. obj_pos ref w' = obj_pos ref w)"

lemma CanGo_same_places: "same_places w w' \<Longrightarrow> CanGo r p w' = CanGo r p w"
  by (simp add: same_places_def CanGo_def GetCreatureAt_def first_at_def the_room_def split: option.split)

text \<open>The monster \<open>mid\<close> of room \<open>r\<close> stays or makes one step; nothing else moves.\<close>

definition one_step :: "uint64 \<Rightarrow> RoomRef \<Rightarrow> World \<Rightarrow> World \<Rightarrow> bool" where
  "one_step mid r w w' \<longleftrightarrow> rooms w' = rooms w \<and> (\<forall>i. the_player i w' = the_player i w)
     \<and> (\<forall>m. m \<noteq> mid \<longrightarrow> the_monster m w' = the_monster m w)
     \<and> (\<forall>a. the_arrow a w' = the_arrow a w)
     \<and> (GetCellPos (the_monster mid w') = GetCellPos (the_monster mid w)
        \<or> manhattan (GetCellPos (the_monster mid w') - GetCellPos (the_monster mid w)) = 1
          \<and> CanGo r (GetCellPos (the_monster mid w')) w)"

definition stays :: "uint64 \<Rightarrow> World \<Rightarrow> World \<Rightarrow> bool" where
  "stays mid w w' \<longleftrightarrow> rooms w' = rooms w \<and> (\<forall>i. the_player i w' = the_player i w)
     \<and> (\<forall>m. m \<noteq> mid \<longrightarrow> the_monster m w' = the_monster m w) \<and> (\<forall>a. the_arrow a w' = the_arrow a w)
     \<and> GetCellPos (the_monster mid w') = GetCellPos (the_monster mid w)
     \<and> i_attack (info (the_monster mid w')) = i_attack (info (the_monster mid w))"

lemma stays_places: "stays mid w w' \<Longrightarrow> same_places w w'"
proof -
  assume s: "stays mid w w'"
  have "obj_pos ref w' = obj_pos ref w" for ref
  proof (cases ref)
    case (RefMonster m)
    with s show ?thesis by (cases "m = mid") (simp_all add: stays_def obj_pos_def GetCellPos_def)
  qed (use s in \<open>simp_all add: stays_def obj_pos_def\<close>)
  with s show ?thesis by (simp add: same_places_def stays_def)
qed

lemma stays_refl [simp]: "stays mid w w"
  by (simp add: stays_def)

lemma stays_trans: "stays mid w w1 \<Longrightarrow> stays mid w1 w2 \<Longrightarrow> stays mid w w2"
  by (simp add: stays_def)

lemma stays_step: "stays mid w w1 \<Longrightarrow> one_step mid r w1 w2 \<Longrightarrow> one_step mid r w w2"
  using CanGo_same_places [OF stays_places, of mid w w1 r] by (simp add: stays_def one_step_def)

lemma stays_one_step: "stays mid w w' \<Longrightarrow> one_step mid r w w'"
  by (simp add: stays_def one_step_def)

lemma stays_set_target: "stays mid w (set_target mid t w)"
  by (simp add: stays_def set_target_def GetCellPos_def)

lemma run_monster_eqs [simp]:
  "rooms (run_monster mid f w) = rooms w" "the_player i (run_monster mid f w) = the_player i w"
  "the_arrow a (run_monster mid f w) = the_arrow a w"
  "the_monster m (run_monster mid f w) = (if m = mid then fst (f (the_monster mid w)) else the_monster m w)"
  by (simp_all add: run_monster_def split_beta)

lemma SetState_attack: "i_attack (info (fst (SetState st bc m))) = i_attack (info m)"
  by (simp add: SetState_def Let_def)

lemma one_step_monster_step:
  "manhattan (p - GetCellPos (the_monster mid w)) = 1 \<Longrightarrow> one_step mid r w (monster_step r mid p d w)"
  by (auto simp: monster_step_def Let_def tick_eq one_step_def SetState_simps SetCellPos_def SetDir_def)
    (simp_all add: GetCellPos_def set_pos_def set_dir_def)

lemma one_step_follow: "one_step mid r w (monster_follow r mid d dl w)"
proof (cases "Room_FindPath r (GetCellPos (the_monster mid w)) d 20 w")
  case None
  then show ?thesis using FindPath_returns by (simp add: Room_FindPath_def)
next
  case (Some fp)
  obtain found path where fp: "fp = (found, path)" by (cases fp)
  have "one_step mid r w (monster_step r mid (path ! 1) dl w)" if "found" "1 < length path"
    using FindPath_step(2) [of "\<lambda>p. CanGo r p w" _ d 20 path] Some that fp
    by (intro one_step_monster_step) (simp add: Room_FindPath_def)
  then show ?thesis by (auto simp: monster_follow_def Some fp intro: stays_one_step)
qed

lemma one_step_chase: "one_step mid r w (monster_chase r mid t w)"
proof (cases "Room_FindPath r (GetCellPos (the_monster mid w)) (GetCellPos (the_player t w)) 20 w")
  case None
  then show ?thesis using FindPath_returns by (simp add: Room_FindPath_def)
next
  case (Some fp)
  obtain found path where fp: "fp = (found, path)" by (cases fp)
  have "one_step mid r w (monster_step r mid (path ! 1) 1000 w)" if "found" "1 < length path"
    using FindPath_step(2) [of "\<lambda>p. CanGo r p w" _ "GetCellPos (the_player t w)" 20 path] Some that fp
    by (intro one_step_monster_step) (simp add: Room_FindPath_def)
  then show ?thesis by (auto simp: monster_chase_def Some fp intro: stays_one_step stays_set_target)
qed

text \<open>A hit: the neighbour loses health, and nothing moves.\<close>

definition one_hit :: "uint64 \<Rightarrow> World \<Rightarrow> World \<Rightarrow> bool" where
  "one_hit mid w w' \<longleftrightarrow> rooms w' = rooms w \<and> (\<forall>m. m \<noteq> mid \<longrightarrow> the_monster m w' = the_monster m w)
     \<and> GetCellPos (the_monster mid w') = GetCellPos (the_monster mid w)
     \<and> (\<exists>t. manhattan (GetCellPos (the_player t w) - GetCellPos (the_monster mid w)) = 1
          \<and> the_player t w' = snd (OnDamaged (hit_damage (i_attack (info (the_monster mid w)))
              (i_defence (info (the_player t w)))) (the_player t w))
          \<and> (\<forall>i. i \<noteq> t \<longrightarrow> the_player i w' = the_player i w))"

lemma one_hit_monster_hit:
  assumes "manhattan (GetCellPos (the_player t w) - GetCellPos (the_monster mid w)) = 1"
  shows "one_hit mid w (monster_hit r mid t w)"
  unfolding one_hit_def
proof (intro conjI exI [of _ t])
  show "the_player t (monster_hit r mid t w) = snd (OnDamaged (hit_damage (i_attack (info (the_monster mid w)))
      (i_defence (info (the_player t w)))) (the_player t w))"
    by (simp add: monster_hit_def Let_def tick_eq damage_obj.simps SetState_attack SetDir_def)
qed (use assms in \<open>simp_all add: monster_hit_def Let_def tick_eq damage_obj.simps SetState_simps SetDir_def GetCellPos_def
      SetState_simps [unfolded GetCellPos_def]\<close>)

lemma stays_hit: "stays mid w w1 \<Longrightarrow> one_hit mid w1 w2 \<Longrightarrow> one_hit mid w w2"
  by (simp add: stays_def one_hit_def)

text \<open>
  C14. In one update a monster either keeps its place or moves to one of the four neighbouring cells, and then
  onto a cell of its room that is not a wall and holds no creature; or it keeps its place and hits
  exactly one player, who stands next to it, for the difference of attack and defence and at least 1.
  No other player or monster changes.
\<close>

theorem Monster_Update_step:
  assumes "in_room (the_monster mid w) = Some r"
  shows "one_step mid r w (Monster_Update mid w) \<or> one_hit mid w (Monster_Update mid w)"
proof (cases "i_state (info (the_monster mid w))")
  case IDLE
  define w1 where "w1 = (if homePos (the_monster mid w) = Vec (-1) (-1)
    then put_monster mid ((the_monster mid w)\<lparr>homePos := GetCellPos (the_monster mid w)\<rparr>) w else w)"
  have 1: "stays mid w w1" by (simp add: w1_def stays_def GetCellPos_def)
  have f: "one_step mid r w (monster_follow r mid d dl w1)" "one_step mid r w (monster_follow r mid d dl (set_target mid t w1))"
    "one_step mid r w (monster_follow r mid d dl (set_target mid t' (set_target mid t w1)))"
    "one_step mid r w (monster_chase r mid u w1)" "one_step mid r w (monster_chase r mid u (set_target mid t w1))"
    "one_step mid r w w1" "one_step mid r w (set_target mid t w1)" "one_step mid r w (set_target mid t' (set_target mid t w1))"
    for d dl t t' u
    by (rule stays_step [OF 1 one_step_follow] stays_step [OF stays_trans [OF 1 stays_set_target] one_step_follow]
        stays_step [OF stays_trans [OF 1 stays_trans [OF stays_set_target stays_set_target]] one_step_follow]
        stays_step [OF 1 one_step_chase] stays_step [OF stays_trans [OF 1 stays_set_target] one_step_chase]
        stays_one_step [OF 1] stays_one_step [OF stays_trans [OF 1 stays_set_target]]
        stays_one_step [OF stays_trans [OF 1 stays_trans [OF stays_set_target stays_set_target]]])+
  have h: "one_hit mid w (monster_hit r mid t (set_target mid t' w1))" "one_hit mid w (monster_hit r mid t w1)"
    if "manhattan (GetCellPos (the_player t w1) - GetCellPos (the_monster mid w1)) = 1" for t t'
  proof -
    have "GetCellPos (the_monster mid (set_target mid t' w1)) = GetCellPos (the_monster mid w1)"
      "the_player t (set_target mid t' w1) = the_player t w1"
      using stays_set_target [of mid w1 t'] by (simp_all add: stays_def)
    with that have "one_hit mid (set_target mid t' w1) (monster_hit r mid t (set_target mid t' w1))"
      by (intro one_hit_monster_hit) simp
    with stays_hit stays_trans [OF 1 stays_set_target] show "one_hit mid w (monster_hit r mid t (set_target mid t' w1))" by blast
    show "one_hit mid w (monster_hit r mid t w1)"
      using stays_hit [OF 1 one_hit_monster_hit] that by blast
  qed
  have p: "the_player t (set_target mid t' v) = the_player t v" for t t' v by (simp add: set_target_def)
  show ?thesis
    unfolding Monster_Update_def IDLE ObjectState.case UpdateIdle_def assms option.case w1_def [symmetric] Let_def
    by (simp add: f h p split: option.split)
qed (auto simp: Monster_Update_def UpdateMove_def tick_eq stays_def SetState_simps SetState_attack intro!: disjI1 stays_one_step)

end
