(* ===== verification/Server_Props.thy ===== *)
theory Server_Props
  imports Monster_Props
begin

text \<open>
  The fixed-step schedule of a room, what entering a room tells whom, that packets only queue jobs, that chat
  reaches exactly the intended sessions, and that logging out and in again gives the player back.
\<close>

section \<open>The fixed step\<close>

definition timed_step :: "RoomRef \<Rightarrow> World \<Rightarrow> World" where
  "timed_step r w = upd_room r (\<lambda>g. g\<lparr>nextTick := nextTick g + kTickMs\<rparr>) (Step r w)"

definition update_start :: "uint64 \<Rightarrow> RoomRef \<Rightarrow> World \<Rightarrow> World" where
  "update_start now r w =
     upd_room r (\<lambda>g. if nextTick g = 0 then g\<lparr>nextTick := now + kTickMs\<rparr> else g) (run_jobs r w)"

lemma nextTick_Step: "safe w \<Longrightarrow> nextTick (the_room r (Step q w)) = nextTick (the_room r w)"
  using evolves_Step [of False w q] steps_nextTick by (simp add: evolves_def)

lemma safe_timed_step: "safe w \<Longrightarrow> safe (timed_step r w)"
  unfolding timed_step_def
  by (rule evolves_safe [OF evolves_trans [OF evolves_Step evolves_tick_room]]) auto

lemma nextTick_timed_step: "safe w \<Longrightarrow> nextTick (the_room r (timed_step r w)) = nextTick (the_room r w) + kTickMs"
  by (simp add: timed_step_def nextTick_Step)

lemma catch_up_steps:
  assumes "safe w"
  shows "\<exists>k \<le> n. catch_up r now n w = (timed_step r ^^ k) w
    \<and> (\<forall>i < k. nextTick (the_room r w) + of_nat i * kTickMs \<le> now)
    \<and> (k < n \<longrightarrow> now < nextTick (the_room r w) + of_nat k * kTickMs)"
  using assms
proof (induction n arbitrary: w)
  case (Suc n)
  show ?case
  proof (cases "nextTick (the_room r w) \<le> now")
    case False
    then show ?thesis by (intro exI [of _ 0]) auto
  next
    case True
    from Suc.IH [OF safe_timed_step [OF Suc.prems, of r]] nextTick_timed_step [OF Suc.prems, of r]
    obtain k where k: "k \<le> n" "catch_up r now n (timed_step r w) = (timed_step r ^^ k) (timed_step r w)"
      "\<forall>i < k. nextTick (the_room r w) + kTickMs + of_nat i * kTickMs \<le> now"
      "k < n \<longrightarrow> now < nextTick (the_room r w) + kTickMs + of_nat k * kTickMs" by auto
    have "nextTick (the_room r w) + of_nat i * kTickMs \<le> now" if "i < Suc k" for i
      using that k(3) True by (cases i) (auto simp: algebra_simps)
    moreover have "catch_up r now (Suc n) w = (timed_step r ^^ Suc k) w"
      using k(2) True by (simp add: timed_step_def funpow_swap1)
    moreover have "Suc k < Suc n \<longrightarrow> now < nextTick (the_room r w) + of_nat (Suc k) * kTickMs"
      using k(4) by (simp add: algebra_simps)
    ultimately show ?thesis using k(1) by (intro exI [of _ "Suc k"]) blast
  qed
qed simp

text \<open>
  C11. The simulation runs on a fixed step of 50 ms: an update first runs the queued jobs, then makes one \<open>Step\<close>
  for every due tick \<open>nextTick + i * 50\<close> up to \<open>now\<close>, but never more than 5, and it ends with the next tick in the
  future, so a stalled server drops time instead of falling further behind.
\<close>

theorem Room_Update_fixed_step:
  assumes "safe w" "now < now + kTickMs"
  shows "now < nextTick (the_room r (Room_Update now r w))
    \<and> (let w1 = update_start now r w
       in \<exists>k \<le> 5. (\<forall>i < k. nextTick (the_room r w1) + of_nat i * 50 \<le> now)
          \<and> (k < 5 \<longrightarrow> now < nextTick (the_room r w1) + of_nat k * 50)
          \<and> Room_Update now r w = upd_room r (\<lambda>g. if now \<ge> nextTick g then g\<lparr>nextTick := now + kTickMs\<rparr> else g)
                ((timed_step r ^^ k) w1))"
proof -
  define w1 where "w1 = update_start now r w"
  have s: "safe w1"
  proof -
    have "evolves True w (update_start now r w)"
      unfolding update_start_def
      by (rule evolves_trans [OF evolves_run_jobs evolves_when_due])
    with assms(1) show ?thesis unfolding w1_def by (blast intro: evolves_safe)
  qed
  have run: "Room_Update now r w = upd_room r (\<lambda>g. if now \<ge> nextTick g then g\<lparr>nextTick := now + kTickMs\<rparr> else g)
      (catch_up r now kMaxCatchUp w1)"
    by (simp add: Room_Update_def w1_def update_start_def Let_def)
  from catch_up_steps [OF s, of 5 r now] obtain k where k: "k \<le> 5" "catch_up r now 5 w1 = (timed_step r ^^ k) w1"
    "\<forall>i < k. nextTick (the_room r w1) + of_nat i * kTickMs \<le> now"
    "k < 5 \<longrightarrow> now < nextTick (the_room r w1) + of_nat k * kTickMs" by blast
  have "now < nextTick (the_room r (Room_Update now r w))"
    using assms(2) by (simp add: run not_le)
  with k show ?thesis
    unfolding w1_def [symmetric] Let_def run kMaxCatchUp_def by (auto simp: kTickMs_def)
qed

section \<open>Entering a room\<close>

lemma announce_party_frame:
  "the_room q (announce_party r pid w) = the_room q w \<and> the_player i (announce_party r pid w) = the_player i w
    \<and> the_session t (announce_party r pid w) = the_session t w"
proof -
  have "sends_only w (fold (send_to_member r pkt) ms w)" for pkt ms w
    by (rule sends_only_fold) (auto simp: send_to_member_def split: option.split)
  then have "sends_only w (announce_party r pid w)"
    by (auto simp: announce_party_def Let_def split: option.split)
  from sends_only_frame [OF this] show ?thesis by simp
qed

lemma announce_party_out: "\<exists>rest. out (announce_party r pid w) = out w @ rest"
proof -
  have "\<exists>rest. out (fold (send_to_member r pkt) ms w) = out w @ rest" for pkt ms w
  proof (induction ms arbitrary: w)
    case (Cons m ms)
    from Cons.IH [of "send_to_member r pkt m w"] obtain rest
      where "out (fold (send_to_member r pkt) ms (send_to_member r pkt m w)) = out (send_to_member r pkt m w) @ rest" by blast
    moreover have "\<exists>first. out (send_to_member r pkt m w) = out w @ first"
      by (auto simp: send_to_member_def send_packet_def split: option.split)
    ultimately show ?case by auto
  qed simp
  then show ?thesis by (auto simp: announce_party_def Let_def raise_def split: option.split)
qed

lemma out_frame:
  "the_room q (v\<lparr>out := os\<rparr>) = the_room q v" "the_player i (v\<lparr>out := os\<rparr>) = the_player i v"
  "the_monster m (v\<lparr>out := os\<rparr>) = the_monster m v" "the_arrow a (v\<lparr>out := os\<rparr>) = the_arrow a v"
  "the_session t (v\<lparr>out := os\<rparr>) = the_session t v"
  by (simp_all add: the_room_def the_player_def the_monster_def the_arrow_def the_session_def)

text \<open>Entering a room, up to the addition of the newcomer: the world it is added to, and the three messages to its session.\<close>

lemma EnterRoom_run:
  fixes w r s pid
  assumes "faulted w = None"
  defines "w1 \<equiv> put_session s ((the_session s w)\<lparr>gs_room := Some r, gs_player := Some pid\<rparr>) w"
  defines "p \<equiv> StopMove (set_state IDLE (set_pos (Vec 5 5) ((the_player pid w1)\<lparr>psession := Some s\<rparr>)))"
  defines "w2 \<equiv> put_player pid p w1"
  defines "bag \<equiv> S_InventoryData (item_infos 0 (storage p)) (equip_info (equipWeapon p))
        (equip_info (equipArmor p)) (equip_info (equipPotion p))"
  defines "infos \<equiv> map (\<lambda>i. info (the_player i w2)) (players (the_room r w2)) @
    map (\<lambda>i. info (the_monster i w2)) (monsters (the_room r w2)) @ map (\<lambda>i. info (the_arrow i w2)) (projectiles (the_room r w2))"
  shows "EnterRoom r s pid w = announce_party r pid (AddObject r (RefPlayer pid)
    (w2\<lparr>out := out w @ [Packet s (S_MyPlayer (info p)), Packet s bag, Packet s (S_AddObject infos)]\<rparr>))"
proof -
  have e: "faulted w2 = None" "out w2 = out w" by (simp_all add: w2_def w1_def assms put_player_def put_session_def)
  have ps: "psession p = Some s" by (simp add: p_def StopMove_def set_state_def set_pos_def w1_def)
  have w4: "emit (SendInventoryData p) (send_packet s (S_MyPlayer (info p)) w2)
      = w2\<lparr>out := out w @ [Packet s (S_MyPlayer (info p)), Packet s bag]\<rparr>"
    using e by (simp add: SendInventoryData_def send_def ps emit_def send_packet_def bag_def)
  show ?thesis
    unfolding EnterRoom_def Let_def w1_def [symmetric] p_def [symmetric] w2_def [symmetric] w4
    by (simp add: out_frame infos_def e send_packet_def)
qed

text \<open>
  C20. Entering a room: the player stands idle at (5, 5), is in the room's map, and its session is tied to the room; the
  client is told who it is, what it carries and every object already there, and then everybody in the
  room, the newcomer included, is told of the newcomer.
\<close>

theorem EnterRoom_correct:
  assumes "world_wf w" "faulted w = None" "player_ok w pid"
  shows "let w' = EnterRoom r s pid w; p = the_player pid w'; g = the_room r w;
      newcomer = (info (the_player pid w))\<lparr>i_posx := 5, i_posy := 5, i_state := IDLE\<rparr>;
      shown = (\<lambda>i. if i = pid then newcomer else info (the_player i w))
    in info p = newcomer \<and> in_room p = Some r \<and> psession p = Some s \<and> moveEndTick p = 0
      \<and> set (players (the_room r w')) = insert pid (set (players g))
      \<and> gs_room (the_session s w') = Some r \<and> gs_player (the_session s w') = Some pid
      \<and> (\<exists>bag rest. out w' = out w
          @ [Packet s (S_MyPlayer newcomer), Packet s bag,
             Packet s (S_AddObject (map shown (players g) @ map (\<lambda>i. info (the_monster i w)) (monsters g)
               @ map (\<lambda>i. info (the_arrow i w)) (projectiles g)))]
          @ map (\<lambda>i. Packet (the (psession (the_player i w'))) (S_AddObject [newcomer])) (players (the_room r w'))
          @ rest)"
proof -
  define w1 where "w1 = put_session s ((the_session s w)\<lparr>gs_room := Some r, gs_player := Some pid\<rparr>) w"
  define p where "p = StopMove (set_state IDLE (set_pos (Vec 5 5) ((the_player pid w1)\<lparr>psession := Some s\<rparr>)))"
  define w2 where "w2 = put_player pid p w1"
  define bag where "bag = S_InventoryData (item_infos 0 (storage p)) (equip_info (equipWeapon p))
        (equip_info (equipArmor p)) (equip_info (equipPotion p))"
  define infos where "infos = map (\<lambda>i. info (the_player i w2)) (players (the_room r w2)) @
    map (\<lambda>i. info (the_monster i w2)) (monsters (the_room r w2)) @ map (\<lambda>i. info (the_arrow i w2)) (projectiles (the_room r w2))"
  define w5 where "w5 = w2\<lparr>out := out w @ [Packet s (S_MyPlayer (info p)), Packet s bag, Packet s (S_AddObject infos)]\<rparr>"
  have e: "faulted w2 = None" "out w2 = out w" by (simp_all add: w2_def w1_def assms put_player_def put_session_def)
  have ps: "psession p = Some s" "in_room p = in_room (the_player pid w)" "moveEndTick p = 0"
    by (simp_all add: p_def StopMove_def set_state_def set_pos_def w1_def)
  have ip: "info p = (info (the_player pid w))\<lparr>i_posx := 5, i_posy := 5, i_state := IDLE\<rparr>"
    by (simp add: p_def StopMove_def set_state_def set_pos_def w1_def)
  have r2: "the_room q w2 = the_room q w" for q by (simp add: w2_def w1_def)
  have run: "EnterRoom r s pid w = announce_party r pid (AddObject r (RefPlayer pid) w5)"
    using EnterRoom_run [OF assms(2), of r s pid, folded w1_def, folded p_def, folded w2_def bag_def, folded infos_def, folded w5_def] .
  define v where "v = put_player pid (p\<lparr>in_room := Some r\<rparr>) (upd_room r (\<lambda>g. g\<lparr>players := key_insert pid (players g)\<rparr>) w5)"
  have pl5: "the_player i w5 = the_player i w2" for i by (simp add: w5_def out_frame)
  have add: "AddObject r (RefPlayer pid) w5 = Broadcast r (S_AddObject [info p]) v"
    by (simp add: AddObject_def Let_def v_def pl5 w2_def)
  have fv: "faulted v = None" by (simp add: v_def w5_def e)
  have rv: "the_room r v = (the_room r w)\<lparr>players := key_insert pid (players (the_room r w))\<rparr>"
    by (simp add: v_def w5_def out_frame r2)
  have plv: "the_player i v = (if i = pid then p\<lparr>in_room := Some r\<rparr> else the_player i w)" for i
    by (simp add: v_def pl5 w2_def w1_def)
  have "in_session v i" if "i \<in> set (players (the_room r v))" for i
    using that wf_player [OF assms(1), of i r] ps by (auto simp: rv in_session_def plv)
  then have b: "Broadcast r (S_AddObject [info p]) v
      = v\<lparr>out := out v @ map (\<lambda>i. Packet (the (psession (the_player i v))) (S_AddObject [info p])) (players (the_room r v))\<rparr>"
    using fv by (intro Broadcast_out)
  obtain rest where rest: "out (EnterRoom r s pid w) = out (Broadcast r (S_AddObject [info p]) v) @ rest"
    using announce_party_out unfolding run add by blast
  have fr: "the_room q (EnterRoom r s pid w) = the_room q v" "the_player i (EnterRoom r s pid w) = the_player i v"
    "the_session t (EnterRoom r s pid w) = the_session t v" for q i t
    unfolding run add using announce_party_frame by simp_all
  have ses: "the_session s v = (the_session s w)\<lparr>gs_room := Some r, gs_player := Some pid\<rparr>"
    by (simp add: v_def w5_def the_session_def w2_def w1_def put_player_def upd_room_def put_session_def)
  have inf: "infos = map (\<lambda>i. if i = pid then info p else info (the_player i w)) (players (the_room r w)) @
      map (\<lambda>i. info (the_monster i w)) (monsters (the_room r w)) @ map (\<lambda>i. info (the_arrow i w)) (projectiles (the_room r w))"
    by (simp add: infos_def r2 w2_def w1_def)
  have ov: "out v = out w @ [Packet s (S_MyPlayer (info p)), Packet s bag, Packet s (S_AddObject infos)]"
    by (simp add: v_def w5_def put_player_def upd_room_def)
  show ?thesis
    unfolding Let_def fr rest b ip [symmetric] inf [symmetric]
    by (simp add: plv rv ses ps ov)
qed

section \<open>Packets only queue\<close>

text \<open>Objects, sessions and parties are the same; a room's queue grew by at most one job of session \<open>s\<close>.\<close>

definition only_queues :: "SessionId \<Rightarrow> Server \<Rightarrow> Server \<Rightarrow> bool" where
  "only_queues s sv sv' \<longleftrightarrow>
     (let w = world sv; w' = world sv'
      in wplayers w' = wplayers w \<and> wmonsters w' = wmonsters w \<and> warrows w' = warrows w
       \<and> wsessions w' = wsessions w \<and> party w' = party w
       \<and> (\<forall>r. \<exists>js. the_room r w' = (the_room r w)\<lparr>jobs := jobs (the_room r w) @ js\<rparr>
            \<and> (js = [] \<or> session_room s w = Some r \<and> (\<exists>c. js = [JobPacket s c]))))"

lemma only_queues_quiet:
  assumes "rooms (world sv') = rooms (world sv)" "wplayers (world sv') = wplayers (world sv)"
    "wmonsters (world sv') = wmonsters (world sv)" "warrows (world sv') = warrows (world sv)"
    "wsessions (world sv') = wsessions (world sv)" "party (world sv') = party (world sv)"
  shows "only_queues s sv sv'"
proof -
  have "the_room r (world sv') = (the_room r (world sv))\<lparr>jobs := jobs (the_room r (world sv)) @ []\<rparr>" for r
    using the_room_cong [OF assms(1)] by simp
  then have "\<exists>js. the_room r (world sv') = (the_room r (world sv))\<lparr>jobs := jobs (the_room r (world sv)) @ js\<rparr>
      \<and> (js = [] \<or> session_room s (world sv) = Some r \<and> (\<exists>c. js = [JobPacket s c]))" for r by blast
  with assms show ?thesis by (simp add: only_queues_def Let_def)
qed

lemma only_queues_push:
  assumes e: "world sv1 = world sv"
  shows "only_queues s sv (push_packet s c sv1)"
proof -
  have "\<exists>js. the_room r (world (push_packet s c sv1)) = (the_room r (world sv))\<lparr>jobs := jobs (the_room r (world sv)) @ js\<rparr>
      \<and> (js = [] \<or> session_room s (world sv) = Some r \<and> (\<exists>c. js = [JobPacket s c]))" for r
  proof (cases "session_room s (world sv) = Some r")
    case True
    then show ?thesis by (intro exI [of _ "[JobPacket s c]"]) (simp add: push_packet_def e PushJob_def)
  next
    case False
    then show ?thesis
      by (intro exI [of _ "[]"]) (auto simp: push_packet_def e PushJob_def split: option.split)
  qed
  then show ?thesis
    by (auto simp: only_queues_def push_packet_def PushJob_def e upd_room_def split: option.split)
qed

lemma only_queues_body:
  "(\<And>payload. only_queues s sv (f payload sv1)) \<Longrightarrow> world sv1 = world sv \<Longrightarrow> only_queues s sv (with_body buf f sv1)"
  by (auto simp: with_body_def intro: only_queues_quiet split: option.split)

lemma only_queues_Chat_Send: "only_queues s sv (Chat_Send m sv)"
  by (rule only_queues_quiet) (simp_all add: Chat_Send_def)

text \<open>
  C21. The network never touches the game: a packet of any id and any content, login apart, changes no player,
  monster, arrow, session or party; all it can do to a room is append one job of its own session to the queue of the room
  that session is in. The rest happens when the room's update runs the queue.
\<close>

theorem packets_only_queue:
  assumes "length buf < sizeof_PacketHeader \<or> hid (header_at buf 0) \<noteq> 111"
  shows "only_queues s sv (HandlePacket ps stod rk s buf sv)"
proof (cases "length buf < sizeof_PacketHeader")
  case True
  then show ?thesis by (simp add: HandlePacket_def only_queues_quiet)
next
  case False
  with assms have n: "hid (header_at buf 0) \<noteq> 111" by simp
  have keep: "only_queues s sv sv" by (rule only_queues_quiet) simp_all
  have chat: "only_queues s sv (Recv_C_Chat ps s buf sv)"
    unfolding Recv_C_Chat_def
    by (rule only_queues_body) (auto simp: Let_def keep only_queues_Chat_Send split: option.split prod.split)
  have rank: "only_queues s sv (Recv_C_GetRanking stod rk s sv)"
    by (rule only_queues_quiet) (simp_all add: Recv_C_GetRanking_def)
  note defs = Recv_C_Move_def Recv_C_Attack_def Recv_C_ChangeMap_def Recv_C_Turn_def Recv_C_EquipItem_def
    Recv_C_UnequipItem_def Recv_C_UseItem_def Recv_C_PartyInvite_def Recv_C_PartyAnswer_def Recv_C_PartyLeave_def
  show ?thesis
    using False n unfolding HandlePacket_def Let_def
    by (simp add: defs only_queues_body only_queues_push chat rank keep)
qed

section \<open>Chat\<close>

lemma fold_send_if:
  assumes "faulted w = None" "\<And>s w os. P s (w\<lparr>out := os\<rparr>) = P s w"
  shows "fold (\<lambda>s w. if P s w then send_packet s pkt w else w) ss w
    = w\<lparr>out := out w @ map (\<lambda>s. Packet s pkt) (filter (\<lambda>s. P s w) ss)\<rparr>"
  using assms(1)
proof (induction ss arbitrary: w)
  case (Cons s ss)
  then show ?case using assms(2) by (simp add: send_packet_def)
qed simp

definition addressed :: "RelayChat \<Rightarrow> Server \<Rightarrow> SessionId list" where
  "addressed m sv =
     (if rl_type m = CHAT_TYPE_GLOBAL then online sv
      else if rl_type m = CHAT_TYPE_PARTY then
        (case GetParty (rl_partyid m) (party (world sv)) of
           None \<Rightarrow> []
         | Some p \<Rightarrow> filter (\<lambda>s. case session_player s (world sv) of None \<Rightarrow> False
              | Some pid \<Rightarrow> i_objectid (info (the_player pid (world sv))) \<in> set (memberIds p)) (online sv))
      else if rl_type m = CHAT_TYPE_WHISPER then
        (case FindByPlayerName (rl_target m) sv of None \<Rightarrow> [] | Some t \<Rightarrow> [t])
      else [])"

lemma out_frames:
  "the_room q (v\<lparr>out := os\<rparr>) = the_room q v" "the_player i (v\<lparr>out := os\<rparr>) = the_player i v"
  "the_session t (v\<lparr>out := os\<rparr>) = the_session t v" "session_player t (v\<lparr>out := os\<rparr>) = session_player t v"
  by (simp_all add: the_room_def the_player_def the_session_def session_player_def player_alive_def
      alive_players_def split: option.split)

lemma relay_addressed:
  assumes "faulted (world sv) = None" "hid (header_at buf 0) = 302"
  shows "let m = parse_Broadcast ps (drop sizeof_PacketHeader buf); sv' = Relay_OnRecvPacket ps txt buf sv;
      lost = rl_type m = CHAT_TYPE_WHISPER \<and> FindByPlayerName (rl_target m) sv = None
    in rooms (world sv') = rooms (world sv) \<and> wplayers (world sv') = wplayers (world sv)
      \<and> out (world sv') = out (world sv)
          @ map (\<lambda>s. Packet s (S_Chat (rl_sender m) (rl_type m) (rl_msg m))) (addressed m sv)
          @ (if lost then (case FindByPlayerName (rl_sender m) sv of
                None \<Rightarrow> [] | Some t \<Rightarrow> [Packet t (S_Chat ''System'' CHAT_TYPE_WHISPER txt)]) else [])"
proof -
  define m where "m = parse_Broadcast ps (drop sizeof_PacketHeader buf)"
  let ?w = "world sv"
  let ?P = "\<lambda>ids s w. case session_player s w of None \<Rightarrow> False | Some pid \<Rightarrow> i_objectid (info (the_player pid w)) \<in> set ids"
  have all: "world (Broadcast_all pkt sv) = ?w\<lparr>out := out ?w @ map (\<lambda>s. Packet s pkt) (online sv)\<rparr>" for pkt
    by (simp add: Broadcast_all_def fold_send_out assms(1))
  have step: "(\<lambda>s w. case session_player s w of None \<Rightarrow> w
      | Some pid \<Rightarrow> if i_objectid (info (the_player pid w)) \<in> set ids then send_packet s pkt w else w)
      = (\<lambda>s w. if ?P ids s w then send_packet s pkt w else w)" for ids pkt
    by (auto simp: fun_eq_iff split: option.split)
  have ids: "world (SendToPlayerIds ids pkt sv)
      = ?w\<lparr>out := out ?w @ map (\<lambda>s. Packet s pkt) (filter (\<lambda>s. ?P ids s ?w) (online sv))\<rparr>" for ids pkt
    unfolding SendToPlayerIds_def on_world_simps step
    by (rule fold_send_if [OF assms(1)]) (simp add: out_frames cong: option.case_cong)
  have one: "send_packet t p ?w = ?w\<lparr>out := out ?w @ [Packet t p]\<rparr>" for t p
    by (simp add: send_packet_def assms(1))
  show ?thesis
    unfolding Let_def m_def [symmetric]
    by (simp add: Relay_OnRecvPacket_def assms(2) Let_def m_def [symmetric] addressed_def all ids one split: option.split)
qed

text \<open>
  A chat message from the chat server reaches the sessions it is meant for, each once: everybody online for a
  global one, the online members of the named party for a party one, and the session of the named
  player for a whisper; a whisper to nobody is answered to its sender if that player is online, and
  anything else is dropped.
\<close>

theorem relay_reaches_addressed:
  assumes "faulted (world sv) = None" "hid (header_at buf 0) = 302"
  shows "let m = parse_Broadcast ps (drop sizeof_PacketHeader buf); sv' = Relay_OnRecvPacket ps txt buf sv;
      lost = rl_type m = CHAT_TYPE_WHISPER \<and> FindByPlayerName (rl_target m) sv = None
    in rooms (world sv') = rooms (world sv) \<and> wplayers (world sv') = wplayers (world sv)
      \<and> out (world sv') = out (world sv)
          @ map (\<lambda>s. Packet s (S_Chat (rl_sender m) (rl_type m) (rl_msg m))) (addressed m sv)
          @ (if lost then (case FindByPlayerName (rl_sender m) sv of
                None \<Rightarrow> [] | Some t \<Rightarrow> [Packet t (S_Chat ''System'' CHAT_TYPE_WHISPER txt)]) else [])"
  by (rule relay_addressed [OF assms])

section \<open>Logging out and in\<close>

text \<open>
  C22. What a player was when its session ended is what the next login of the account starts from: a disconnect
  stores the player's save data and queues its departure, and loading the account then gives exactly those
  data back, for every account number and whatever else the database holds.
\<close>

theorem logout_is_kept:
  assumes "session_player s (world sv) = Some pid" "0 < gs_account (the_session s (world sv))"
    and "save_ok (ToSaveData (the_player pid (world sv)))"
  shows "LoadPlayerData (gs_account (the_session s (world sv))) PlayerSaveData_default (db (OnDisconnected s sv))
      = (True, ToSaveData (the_player pid (world sv)))
    \<and> s \<notin> set (online (OnDisconnected s sv))
    \<and> (\<forall>a. a \<noteq> gs_account (the_session s (world sv)) \<longrightarrow>
         LoadPlayerData a d (db (OnDisconnected s sv)) = LoadPlayerData a d (db sv))"
proof -
  have "db (OnDisconnected s sv) = SavePlayerData (gs_account (the_session s (world sv)))
      (ToSaveData (the_player pid (world sv))) (db sv)"
    using assms(1,2) by (simp add: OnDisconnected_def Remove_session_def Let_def split: option.split)
  moreover have "online (OnDisconnected s sv) = key_erase s (online sv)"
    using assms(1) by (simp add: OnDisconnected_def Remove_session_def Let_def split: option.split)
  ultimately show ?thesis using save_load [OF assms(3)] by simp
qed

end
