(* ===== verification/Server_Sample.thy ===== *)
theory Server_Sample
  imports Server_Props
begin

text \<open>
  A small world in which the hypotheses of the room properties hold: the first room of the town on a bare three by
  three map, with the sample player looking up at a monster, and the player's session; the properties at that world.
\<close>

section \<open>The world\<close>

definition town1 :: RoomRef where
  "town1 = StaticRoom Town 1"

definition sample_hero :: Player where
  "sample_hero = set_dir DIR_UP (set_pos (Vec 0 1) (sample_player\<lparr>in_room := Some town1\<rparr>))"

definition sample_monster :: Monster where
  "sample_monster = set_pos (Vec 0 0) ((Monster_new 2)\<lparr>in_room := Some town1\<rparr>)"

definition bare_map :: Tilemap where
  "bare_map = \<lparr>mapSize = Vec 3 3, tileSize = 0, tiles = [[0, 0, 0], [0, 0, 0], [0, 0, 0]]\<rparr>"

definition sample_room :: GameRoom where
  "sample_room = GameRoom_new\<lparr>players := [1], monsters := [2], tilemap := bare_map\<rparr>"

definition sample_world :: World where
  "sample_world = (World_start sample_data (\<lambda>f. None) of_nat (\<lambda>n. 0) (\<lambda>n. False) False)
     \<lparr>rooms := [town1 \<mapsto> sample_room], roomRefs := [town1], staticRooms := [town1],
      wplayers := [1 \<mapsto> sample_hero], wmonsters := [2 \<mapsto> sample_monster],
      wsessions := [0 \<mapsto> \<lparr>gs_room = Some town1, gs_player = Some 1, gs_account = 3\<rparr>], idGenerator := 3\<rparr>"

definition sample_server :: Server where
  "sample_server = (Server_boot sample_world DB_empty ''127.0.0.1:7777'')\<lparr>world := sample_world, online := [0]\<rparr>"

lemma sample_world_simps [simp]:
  "gdata sample_world = sample_data" "faulted sample_world = None" "party sample_world = PartyManager_new"
  "the_player 1 sample_world = sample_hero" "the_monster 2 sample_world = sample_monster"
  "the_session 0 sample_world = \<lparr>gs_room = Some town1, gs_player = Some 1, gs_account = 3\<rparr>"
  "wplayers sample_world 1 = Some sample_hero" "wmonsters sample_world 2 = Some sample_monster"
  "the_room r sample_world = (if r = town1 then sample_room else GameRoom_new)"
  "session_player 0 sample_world = Some 1"
  by (simp_all add: sample_world_def World_start_def the_room_def the_player_def the_monster_def the_session_def
      session_player_def player_alive_def alive_players_def owned_players_def sample_room_def GameRoom_new_def)

lemma sample_hero_simps [simp]:
  "GetCellPos sample_hero = Vec 0 1" "i_dir (info sample_hero) = DIR_UP" "i_objectid (info sample_hero) = 1"
  "i_name (info sample_hero) = i_name ObjectInfo_default" "psession sample_hero = Some 0" "i_state (info sample_hero) = IDLE"
  by (simp_all add: sample_hero_def GetCellPos_def set_dir_def set_pos_def)
    (simp_all add: sample_player_def RecalcStats_def Player_new_def set_extra_def ObjectInfo_default_def)

lemma sample_monster_simps [simp]:
  "GetCellPos sample_monster = Vec 0 0" "i_hp (info sample_monster) = 50" "i_objectid (info sample_monster) = 2"
  "in_room sample_monster = Some town1"
  by (simp_all add: sample_monster_def GetCellPos_def set_pos_def Monster_new_def ObjectInfo_default_def)

lemma sample_obj_pos: "obj_pos (RefPlayer 1) sample_world = Vec 0 1" "obj_pos (RefMonster 2) sample_world = Vec 0 0"
  by (simp_all add: obj_pos_def sample_hero_def sample_monster_def)

lemma sample_player_inv: "player_inv sample_data sample_player"
  by (simp add: player_inv_def stats_ok_def MAX_LEVEL_def item_value_def in32_def empty_slot_def INVENTORY_SIZE_def)

lemma sample_player_ok: "player_ok sample_world 1"
  using sample_player_inv sample_hero_simps(3)
  by (simp add: player_ok_def player_inv_def stats_ok_def) (simp add: sample_hero_def set_dir_def set_pos_def)

lemma sample_world_wf: "world_wf sample_world"
proof -
  have "\<not> IsBlockedByWall town1 (Vec 0 0) sample_world"
    by (simp add: IsBlockedByWall_def sample_room_def GetTileAt_def bare_map_def)
  with sample_player_ok have "room_wf sample_world r" for r
    by (simp add: room_wf_def Let_def sample_room_def GameRoom_new_def entering_def in_session_def monster_ok_def keys_ok_def)
  then show ?thesis by (simp add: world_wf_def sample_tables_ok)
qed

lemma sample_safe: "safe sample_world"
  by (simp add: safe_def sample_world_wf)

section \<open>The properties at it\<close>

theorem Handle_C_Move_correct_witness:
  "let ob = (info sample_hero)\<lparr>i_dir := DIR_RIGHT, i_state := IDLE\<rparr>
   in Handle_C_Move town1 0 DIR_RIGHT sample_world
     = sample_world\<lparr>wplayers := (wplayers sample_world)(1 \<mapsto> sample_hero\<lparr>info := ob\<rparr>), clockPos := clockPos sample_world + 0,
         out := out sample_world @ [Packet 0 (S_Turn ob)]\<rparr>"
proof -
  have "in_session sample_world i" if "i \<in> set (players (the_room town1 sample_world))" for i
    using wf_player [OF sample_world_wf that] by blast
  moreover have "players sample_room = [1]" "psession (the_player 1 sample_world) = Some 0"
    by (simp_all add: sample_room_def GameRoom_new_def entering_def)
  ultimately show ?thesis
    using Handle_C_Move_correct [of 0 sample_world 1 town1 DIR_RIGHT] by (simp add: Let_def DIR_TYPE_IsValid_def)
qed

definition hunting_world :: World where
  "hunting_world = sample_world\<lparr>gdata := sample_data\<lparr>monsterTemplates := [1001 \<mapsto>
     \<lparr>mt_templateId = 1001, mt_name = ''Slime'', mt_maxHp = 50, mt_attack = 7, mt_defence = 0, mt_exp = 30\<rparr>]\<rparr>\<rparr>"

theorem DistributeExp_shares_witness:
  "the_player 1 (DistributeExp town1 1 2 hunting_world) = fst (GainExp (gdata hunting_world) 30 sample_hero)"
proof -
  have w: "party hunting_world = PartyManager_new" "the_player 1 hunting_world = sample_hero"
    "templateId (the_monster 2 hunting_world) = 1001"
    by (simp_all add: hunting_world_def sample_world_def World_start_def the_player_def the_monster_def
        sample_monster_def set_pos_def Monster_new_def)
  have "kill_shares town1 1 2 hunting_world = [(1, 30)]"
    unfolding kill_shares_def w GetPartyIdByPlayer_def PartyManager_new_def
    by (simp add: GetMonsterTemplate_def hunting_world_def)
  with DistributeExp_shares [of hunting_world town1 1 2] show ?thesis by (simp add: w pm_inv_new)
qed

theorem HandleSwordAttack_monster_witness:
  "i_hp (info (the_monster 2 (HandleSwordAttack town1 1 sample_world))) = 25
   \<and> set (monsters (the_room town1 (HandleSwordAttack town1 1 sample_world))) = {2}"
proof -
  have front: "GetGameObjectAt town1 (GetFrontCellPos (the_player 1 sample_world)) sample_world = Some (RefMonster 2)"
    by (simp add: GetGameObjectAt_def first_at_def sample_room_def GameRoom_new_def sample_obj_pos GetFrontCellPos_def)
  have 50: "i_attack (info sample_hero) = 25" "i_defence (info sample_monster) = 0"
    by (simp_all add: sample_hero_def sample_monster_def Monster_new_def ObjectInfo_default_def)
  show ?thesis
    using HandleSwordAttack_monster [OF sample_world_wf front]
    by (simp add: Let_def 50 sample_room_def GameRoom_new_def in32_def)
qed

theorem Monster_Update_step_witness:
  "one_step 2 town1 sample_world (Monster_Update 2 sample_world) \<or> one_hit 2 sample_world (Monster_Update 2 sample_world)"
  by (rule Monster_Update_step) simp

theorem Room_Update_fixed_step_witness:
  "100 < nextTick (the_room town1 (Room_Update 100 town1 sample_world))"
  using Room_Update_fixed_step [OF sample_safe, of 100 town1] by (simp add: kTickMs_def)

theorem EnterRoom_correct_witness:
  "set (players (the_room town1 (EnterRoom town1 0 1 sample_world))) = {1}
   \<and> psession (the_player 1 (EnterRoom town1 0 1 sample_world)) = Some 0"
  using EnterRoom_correct [OF sample_world_wf _ sample_player_ok, of town1 0]
  by (simp add: Let_def sample_room_def)

theorem packets_only_queue_witness:
  "only_queues 0 sample_server (HandlePacket sample_parsers (\<lambda>s. 1) None 0 [5, 0, 103, 0, 3] sample_server)"
  by (rule packets_only_queue) (simp add: header_at_def le16_value_def sizeof_PacketHeader_def)

theorem relay_reaches_addressed_witness:
  "out (world (Relay_OnRecvPacket sample_parsers ''not found'' [4, 0, 46, 1] sample_server))
     = out sample_world @ [Packet 0 (S_Chat ''ann'' CHAT_TYPE_GLOBAL ''hi'')]"
  using relay_reaches_addressed [of sample_server "[4, 0, 46, 1]" sample_parsers "''not found''"]
  by (simp add: sample_server_def header_at_def le16_value_def sample_parsers_def chat_message_def addressed_def Let_def)

theorem logout_is_kept_witness:
  "LoadPlayerData 3 PlayerSaveData_default (db (OnDisconnected 0 sample_server)) = (True, ToSaveData sample_hero)"
proof -
  have ok: "save_ok (ToSaveData sample_hero)"
    using sample_hero_simps(4)
    by (simp add: save_ok_def ToSaveData_def INVENTORY_SIZE_def c_string_def ObjectInfo_default_def)
      (simp add: sample_hero_def set_dir_def set_pos_def empty_slot_def)
  have s: "world sample_server = sample_world" by (simp add: sample_server_def)
  from logout_is_kept [of 0 sample_server 1] ok show ?thesis by (simp add: s)
qed

end
