(* ===== verification/RoomData.thy ===== *)
theory RoomData
  imports GameData Tilemap "HOL-Library.Monad_Syntax"
begin

text \<open>
  The loaders of \<open>RoomDataManager\<close>: comma separated sheets read with \<open>getline\<close> and \<open>stoi\<close>, and the spawn
  file read by a hand-written scanner over string positions. Where the standard library throws, the
  result is \<open>None\<close>; a loop of the scanner that does not end is \<open>None\<close> of an outer option. The files are a
  function from path to text.
\<close>

section \<open>Numbers and fields\<close>

text \<open>\<open>std::stoi\<close>: leading white space, a sign, digits; it throws without digits and beyond \<open>int\<close>.\<close>

definition stoi :: "string \<Rightarrow> int32 option" where
  "stoi s =
     (let t = dropWhile is_space s;
          (neg, t1) = (case t of c # cs \<Rightarrow> if c = CHR ''-'' then (True, cs)
                          else if c = CHR ''+'' then (False, cs) else (False, t)
                        | [] \<Rightarrow> (False, []));
          ds = takeWhile is_digit t1;
          v = (if neg then - digits_value 0 ds else digits_value 0 ds)
      in if ds = [] then None else if v < -2147483648 \<or> v > 2147483647 then None else Some v)"

definition ParseBool :: "string \<Rightarrow> bool" where
  "ParseBool value \<longleftrightarrow> value = ''true'' \<or> value = ''TRUE'' \<or> value = ''1''"

text \<open>
  A row being read: the variable \<open>token\<close> and the text left of the string stream, \<open>None\<close> once the
  stream has reached its end. \<open>getline\<close> on such a stream leaves its target as it was.
\<close>

type_synonym row = "string \<times> string option"

definition next_field :: "string \<Rightarrow> string option \<Rightarrow> string \<times> string option" where
  "next_field old ss =
     (case ss of
        None \<Rightarrow> (old, None)
      | Some r \<Rightarrow> (takeWhile (\<lambda>c. c \<noteq> CHR '','') r,
                 (case dropWhile (\<lambda>c. c \<noteq> CHR '','') r of [] \<Rightarrow> None | _ # rest \<Rightarrow> Some rest)))"

definition int_field :: "row \<Rightarrow> (int32 \<times> row) option" where
  "int_field st = (case next_field (fst st) (snd st) of (token, ss) \<Rightarrow>
     map_option (\<lambda>v. (v, (token, ss))) (stoi token))"

definition bool_field :: "row \<Rightarrow> bool \<times> row" where
  "bool_field st = (case next_field (fst st) (snd st) of (token, ss) \<Rightarrow> (ParseBool token, (token, ss)))"

definition token_field :: "row \<Rightarrow> string \<times> row" where
  "token_field st = (case next_field (fst st) (snd st) of (token, ss) \<Rightarrow> (token, (token, ss)))"

text \<open>A field read straight into a fresh string member.\<close>

definition member_field :: "row \<Rightarrow> string \<times> row" where
  "member_field st = (case next_field '''' (snd st) of (v, ss) \<Rightarrow> (v, (fst st, ss)))"

definition row_start :: "string \<Rightarrow> row" where
  "row_start line = ('''', Some line)"

text \<open>The lines \<open>getline(file, line)\<close> delivers before it fails.\<close>

fun cut_lines :: "string \<Rightarrow> string \<Rightarrow> string list" where
  "cut_lines acc [] = (if acc = [] then [] else [rev acc])"
| "cut_lines acc (c # cs) = (if c = CHR 0x0A then rev acc # cut_lines [] cs else cut_lines (c # acc) cs)"

definition file_lines :: "string \<Rightarrow> string list" where
  "file_lines content = cut_lines [] content"

text \<open>The loop of the sheet loaders: the header is skipped, empty lines are skipped, each row is parsed and stored.\<close>

fun load_rows :: "(string \<Rightarrow> 'a option) \<Rightarrow> ('a \<Rightarrow> RoomDataManager \<Rightarrow> RoomDataManager) \<Rightarrow> string list
    \<Rightarrow> RoomDataManager \<Rightarrow> RoomDataManager option" where
  "load_rows parse store [] D = Some D"
| "load_rows parse store (l # ls) D =
     (if l = '''' then load_rows parse store ls D
      else do { d \<leftarrow> parse l; load_rows parse store ls (store d D) })"

definition load_sheet :: "(string \<Rightarrow> 'a option) \<Rightarrow> ('a \<Rightarrow> RoomDataManager \<Rightarrow> RoomDataManager) \<Rightarrow> string option
    \<Rightarrow> RoomDataManager \<Rightarrow> (bool \<times> RoomDataManager) option" where
  "load_sheet parse store file D =
     (case file of
        None \<Rightarrow> Some (False, D)
      | Some content \<Rightarrow> map_option (Pair True) (load_rows parse store (tl (file_lines content)) D))"

section \<open>Paths\<close>

definition ResolveExistingPath :: "(string \<Rightarrow> string option) \<Rightarrow> string \<Rightarrow> string" where
  "ResolveExistingPath files relativePath =
     (case find (\<lambda>p. files p \<noteq> None)
        [relativePath, ''../'' @ relativePath, ''../../'' @ relativePath, ''../../../'' @ relativePath] of
        Some p \<Rightarrow> p | None \<Rightarrow> relativePath)"

text \<open>\<open>widen\<close> is \<open>MultiByteToWideChar\<close> on the UTF-8 text.\<close>

definition StringToWString :: "(string \<Rightarrow> string) \<Rightarrow> string \<Rightarrow> string" where
  "StringToWString widen s = (if s = '''' then '''' else widen s)"

section \<open>Sheets\<close>

definition parse_room_config :: "(string \<Rightarrow> string option) \<Rightarrow> (string \<Rightarrow> string) \<Rightarrow> string \<Rightarrow> RoomConfigData option" where
  "parse_room_config files widen line =
     (let (roomId, s1) = member_field (row_start line); (roomName, s2) = member_field s1;
          (skillEnabled, s3) = bool_field s2; (monsterSpawnEnabled, s4) = bool_field s3
      in do { (respawn, s5) \<leftarrow> int_field s4;
              let (path, s6) = token_field s5;
              (maxPlayers, s7) \<leftarrow> int_field s6;
              let (isInstance, s8) = bool_field s7;
              Some \<lparr>rc_roomId = roomId, rc_roomName = roomName, rc_skillEnabled = skillEnabled,
                rc_monsterSpawnEnabled = monsterSpawnEnabled, rc_respawnTimeMs = word_of_int respawn,
                rc_tilemapPath = StringToWString widen (ResolveExistingPath files path),
                rc_maxPlayers = maxPlayers, rc_isInstance = isInstance\<rparr> })"

definition LoadRoomConfigs :: "(string \<Rightarrow> string option) \<Rightarrow> (string \<Rightarrow> string) \<Rightarrow> string
    \<Rightarrow> RoomDataManager \<Rightarrow> (bool \<times> RoomDataManager) option" where
  "LoadRoomConfigs files widen path =
     load_sheet (parse_room_config files widen)
       (\<lambda>d D. D\<lparr>roomConfigs := (roomConfigs D)(rc_roomId d \<mapsto> d)\<rparr>) (files path)"

definition parse_monster_template :: "string \<Rightarrow> MonsterTemplateData option" where
  "parse_monster_template line = do {
     (tid, s1) \<leftarrow> int_field (row_start line);
     let (name, s2) = member_field s1;
     (maxHp, s3) \<leftarrow> int_field s2;
     (attack, s4) \<leftarrow> int_field s3;
     (defence, s5) \<leftarrow> int_field s4;
     (gain, s6) \<leftarrow> int_field s5;
     Some \<lparr>mt_templateId = tid, mt_name = name, mt_maxHp = maxHp, mt_attack = attack, mt_defence = defence,
       mt_exp = gain\<rparr> }"

definition LoadMonsterTemplates :: "string option \<Rightarrow> RoomDataManager \<Rightarrow> (bool \<times> RoomDataManager) option" where
  "LoadMonsterTemplates =
     load_sheet parse_monster_template (\<lambda>d D. D\<lparr>monsterTemplates := (monsterTemplates D)(mt_templateId d \<mapsto> d)\<rparr>)"

definition parse_level :: "string \<Rightarrow> LevelData option" where
  "parse_level line = do {
     (lv, s1) \<leftarrow> int_field (row_start line);
     (requiredExp, s2) \<leftarrow> int_field s1;
     (maxHp, s3) \<leftarrow> int_field s2;
     (attack, s4) \<leftarrow> int_field s3;
     (defence, s5) \<leftarrow> int_field s4;
     Some \<lparr>ld_level = lv, ld_requiredExp = requiredExp, ld_maxHp = maxHp, ld_attack = attack, ld_defence = defence\<rparr> }"

definition LoadLevelData :: "string option \<Rightarrow> RoomDataManager \<Rightarrow> (bool \<times> RoomDataManager) option" where
  "LoadLevelData = load_sheet parse_level (\<lambda>d D. D\<lparr>levelData := (levelData D)(ld_level d \<mapsto> d)\<rparr>)"

definition parse_item :: "string \<Rightarrow> ItemTemplateData option" where
  "parse_item line = do {
     (iid, s1) \<leftarrow> int_field (row_start line);
     let (name, s2) = member_field s1;
     let (kind, s3) = member_field s2;
     (val, s4) \<leftarrow> int_field s3;
     (maxStack, s5) \<leftarrow> int_field s4;
     Some \<lparr>it_itemId = iid, it_name = name, it_type = kind, it_value = val, it_maxStack = maxStack\<rparr> }"

definition LoadItemTemplates :: "string option \<Rightarrow> RoomDataManager \<Rightarrow> (bool \<times> RoomDataManager) option" where
  "LoadItemTemplates = load_sheet parse_item (\<lambda>d D. D\<lparr>itemTemplates := (itemTemplates D)(it_itemId d \<mapsto> d)\<rparr>)"

definition parse_drop :: "string \<Rightarrow> MonsterDropData option" where
  "parse_drop line = do {
     (tid, s1) \<leftarrow> int_field (row_start line);
     (iid, s2) \<leftarrow> int_field s1;
     (rate, s3) \<leftarrow> int_field s2;
     Some \<lparr>md_templateId = tid, md_itemId = iid, md_dropRate = rate\<rparr> }"

text \<open>\<open>operator[]\<close> makes an empty vector for a template seen for the first time.\<close>

definition LoadMonsterDrops :: "string option \<Rightarrow> RoomDataManager \<Rightarrow> (bool \<times> RoomDataManager) option" where
  "LoadMonsterDrops = load_sheet parse_drop (\<lambda>d D. D\<lparr>monsterDrops := (monsterDrops D)(md_templateId d \<mapsto>
     (case monsterDrops D (md_templateId d) of None \<Rightarrow> [] | Some ds \<Rightarrow> ds) @ [d])\<rparr>)"

section \<open>Scanning text\<close>

text \<open>\<open>string::find\<close>: the first position from \<open>pos\<close> on where the pattern stands; \<open>None\<close> is \<open>npos\<close>.\<close>

fun index_of :: "string \<Rightarrow> string \<Rightarrow> nat \<Rightarrow> nat option" where
  "index_of pat [] i = (if pat = [] then Some i else None)"
| "index_of pat (c # cs) i = (if take (length pat) (c # cs) = pat then Some i else index_of pat cs (i + 1))"

definition str_find :: "string \<Rightarrow> string \<Rightarrow> nat \<Rightarrow> nat option" where
  "str_find json pat pos = (if pos \<le> length json then index_of pat (drop pos json) pos else None)"

definition substr :: "string \<Rightarrow> nat \<Rightarrow> nat \<Rightarrow> string" where
  "substr s from n = take n (drop from s)"

text \<open>\<open>while (pos < limit && P(json[pos])) pos++;\<close>\<close>

definition scan :: "(char \<Rightarrow> bool) \<Rightarrow> string \<Rightarrow> nat \<Rightarrow> nat \<Rightarrow> nat" where
  "scan P json limit pos = pos + length (takeWhile P (take (limit - pos) (drop pos json)))"

definition blank :: "char \<Rightarrow> bool" where
  "blank c \<longleftrightarrow> c = CHR '' '' \<or> c = CHR 0x09 \<or> c = CHR 0x0A"

definition sep :: "char \<Rightarrow> bool" where
  "sep c \<longleftrightarrow> blank c \<or> c = CHR '',''"

definition numeric :: "char \<Rightarrow> bool" where
  "numeric c \<longleftrightarrow> is_digit c \<or> c = CHR ''-''"

text \<open>The bracket counting loops: the count left over and the position behind the last character read.\<close>

fun balance :: "char \<Rightarrow> char \<Rightarrow> nat \<Rightarrow> string \<Rightarrow> nat \<Rightarrow> nat \<times> nat" where
  "balance op cl 0 cs pos = (0, pos)"
| "balance op cl n [] pos = (n, pos)"
| "balance op cl (Suc n) (c # cs) pos =
     (if c = op then balance op cl (n + 2) cs (pos + 1)
      else if c = cl then balance op cl n cs (pos + 1)
      else balance op cl (Suc n) cs (pos + 1))"

lemma index_of_bounds: "index_of pat s i = Some j \<Longrightarrow> i \<le> j \<and> j + length pat \<le> i + length s"
  by (induction s arbitrary: i) (fastforce split: if_splits dest: arg_cong [where f = length])+

lemma str_find_bounds: "str_find json pat pos = Some j \<Longrightarrow> pos \<le> j \<and> j + length pat \<le> length json"
  using index_of_bounds [of pat "drop pos json" pos j] by (auto simp: str_find_def split: if_splits)

lemma scan_bounds: "pos \<le> limit \<Longrightarrow> pos \<le> scan P json limit pos \<and> scan P json limit pos \<le> limit"
proof -
  assume "pos \<le> limit"
  moreover have "length (takeWhile P (take (limit - pos) (drop pos json))) \<le> limit - pos"
    by (rule order_trans [OF length_takeWhile_le]) simp
  ultimately show ?thesis by (simp add: scan_def)
qed

lemma balance_bounds: "balance op cl n cs pos = (m, q) \<Longrightarrow> pos \<le> q \<and> q \<le> pos + length cs"
  by (induction op cl n cs pos rule: balance.induct) (fastforce split: if_splits)+

section \<open>JSON values\<close>

definition FindKey :: "string \<Rightarrow> string \<Rightarrow> nat \<Rightarrow> nat option" where
  "FindKey json key startPos = str_find json (CHR 0x22 # key @ [CHR 0x22]) startPos"

definition GetStringValue :: "string \<Rightarrow> string \<Rightarrow> nat \<Rightarrow> string" where
  "GetStringValue json key startPos =
     (case do { keyPos \<leftarrow> FindKey json key startPos;
                colonPos \<leftarrow> str_find json '':'' keyPos;
                quoteStart \<leftarrow> str_find json [CHR 0x22] colonPos;
                quoteEnd \<leftarrow> str_find json [CHR 0x22] (quoteStart + 1);
                Some (substr json (quoteStart + 1) (quoteEnd - quoteStart - 1)) } of
        None \<Rightarrow> '''' | Some v \<Rightarrow> v)"

definition GetIntValue :: "string \<Rightarrow> string \<Rightarrow> nat \<Rightarrow> int32 option" where
  "GetIntValue json key startPos =
     (case do { keyPos \<leftarrow> FindKey json key startPos; str_find json '':'' keyPos } of
        None \<Rightarrow> Some 0
      | Some colonPos \<Rightarrow>
          let numStart = scan blank json (length json) (colonPos + 1);
              numEnd = scan numeric json (length json) numStart
          in if numEnd > numStart then stoi (substr json numStart (numEnd - numStart)) else Some 0)"

function int_array_loop :: "string \<Rightarrow> nat \<Rightarrow> nat \<Rightarrow> int32 list \<Rightarrow> int32 list option" where
  "int_array_loop json arrayEnd pos result =
     (if pos \<ge> arrayEnd then Some result
      else let p = scan sep json arrayEnd pos
           in if p \<ge> arrayEnd then Some result
              else let numEnd = scan numeric json arrayEnd p
                   in if numEnd > p then
                        (case stoi (substr json p (numEnd - p)) of
                           None \<Rightarrow> None
                         | Some v \<Rightarrow> int_array_loop json arrayEnd numEnd (result @ [v]))
                      else int_array_loop json arrayEnd (p + 1) result)"
  by pat_completeness auto
termination
proof (relation "measure (\<lambda>(json, arrayEnd, pos, result). arrayEnd - pos)")
  fix json :: string and arrayEnd pos :: nat and p numEnd
  assume *: "\<not> arrayEnd \<le> pos" "p = scan sep json arrayEnd pos" "\<not> arrayEnd \<le> p" "numEnd = scan numeric json arrayEnd p"
  have pp: "pos \<le> p" using scan_bounds [of pos arrayEnd sep json] * by simp
  then show "((json, arrayEnd, p + 1, result), json, arrayEnd, pos, result) \<in> measure (\<lambda>(json, arrayEnd, pos, result). arrayEnd - pos)"
    for result :: "int32 list" using * by simp
  show "((json, arrayEnd, numEnd, r @ [v]), json, arrayEnd, pos, r) \<in> measure (\<lambda>(json, arrayEnd, pos, result). arrayEnd - pos)"
    if "p < numEnd" for v and r :: "int32 list"
    using that * pp scan_bounds [of p arrayEnd numeric json] by simp
qed simp

text \<open>With an empty key the search starts at \<open>startPos\<close> itself; a missing colon makes the next search fail too.\<close>

definition GetIntArray :: "string \<Rightarrow> string \<Rightarrow> nat \<Rightarrow> int32 list option" where
  "GetIntArray json key startPos =
     (case do { keyPos \<leftarrow> (if key = '''' then Some startPos else FindKey json key startPos);
                colonPos \<leftarrow> (if key = '''' then Some keyPos else str_find json '':'' keyPos);
                arrayStart \<leftarrow> str_find json ''['' colonPos;
                arrayEnd \<leftarrow> str_find json '']'' arrayStart;
                Some (arrayStart, arrayEnd) } of
        None \<Rightarrow> Some []
      | Some (arrayStart, arrayEnd) \<Rightarrow> int_array_loop json arrayEnd (arrayStart + 1) [])"

text \<open>The block and its end; \<open>None\<close> is the empty string.\<close>

definition GetObjectBlock :: "string \<Rightarrow> nat \<Rightarrow> (string \<times> nat) option" where
  "GetObjectBlock json startPos =
     (case str_find json ''{'' startPos of
        None \<Rightarrow> None
      | Some objStart \<Rightarrow>
          (case balance (CHR ''{'') (CHR ''}'') 1 (drop (objStart + 1) json) (objStart + 1) of
             (n, pos) \<Rightarrow> if n = 0 then Some (substr json objStart (pos - objStart), pos) else None))"

lemma GetObjectBlock_progress:
  assumes "GetObjectBlock json pos = Some (b, q)"
  shows "pos < q \<and> q \<le> length json"
proof -
  from assms obtain i n where i: "str_find json ''{'' pos = Some i"
    "balance (CHR ''{'') (CHR ''}'') 1 (drop (i + 1) json) (i + 1) = (n, q)"
    by (auto simp: GetObjectBlock_def split: option.splits prod.splits if_splits)
  from balance_bounds [OF i(2)] str_find_bounds [OF i(1)] show ?thesis by auto
qed

function objects_loop :: "string \<Rightarrow> nat \<Rightarrow> nat \<Rightarrow> string list \<Rightarrow> string list" where
  "objects_loop json arrayEnd pos result =
     (if pos \<ge> arrayEnd then result
      else let p = scan sep json arrayEnd pos
           in if p \<ge> arrayEnd \<or> json ! p = CHR '']'' then result
              else case GetObjectBlock json p of
                     None \<Rightarrow> result
                   | Some (block, endPos) \<Rightarrow> objects_loop json arrayEnd endPos (result @ [block]))"
  by pat_completeness auto
termination
proof (relation "measure (\<lambda>(json, arrayEnd, pos, result). arrayEnd - pos)")
  fix json :: string and arrayEnd pos p :: nat and result x block endPos
  assume *: "\<not> arrayEnd \<le> pos" "p = scan sep json arrayEnd pos" "\<not> (arrayEnd \<le> p \<or> json ! p = CHR '']'')"
    "GetObjectBlock json p = Some x" "(block, endPos) = x"
  have "pos \<le> p" using scan_bounds [of pos arrayEnd sep json] * by simp
  moreover have "p < endPos" using GetObjectBlock_progress * by auto
  ultimately show "((json, arrayEnd, endPos, result @ [block]), json, arrayEnd, pos, result)
      \<in> measure (\<lambda>(json, arrayEnd, pos, result). arrayEnd - pos)" using * by auto
qed simp

definition GetObjectsInArray :: "string \<Rightarrow> string \<Rightarrow> nat \<Rightarrow> string list" where
  "GetObjectsInArray json arrayKey startPos =
     (case do { keyPos \<leftarrow> FindKey json arrayKey startPos;
                colonPos \<leftarrow> str_find json '':'' keyPos;
                str_find json ''['' colonPos } of
        None \<Rightarrow> []
      | Some arrayStart \<Rightarrow>
          (case balance (CHR ''['') (CHR '']'') 1 (drop (arrayStart + 1) json) (arrayStart + 1) of
             (n, arrayEnd) \<Rightarrow> objects_loop json arrayEnd (arrayStart + 1) []))"

section \<open>The spawn file\<close>

text \<open>
  The numbers of one offset pair. A character that is neither a blank, a comma, a sign nor a digit is never stepped
  over: the loop does not end.
\<close>

partial_function (option) pair_numbers :: "string \<Rightarrow> nat \<Rightarrow> nat \<Rightarrow> int32 list \<Rightarrow> int32 list option option" where
  "pair_numbers g pairEnd numPos pair =
     (if numPos \<ge> pairEnd then Some (Some pair)
      else let p = scan sep g pairEnd numPos
           in if p \<ge> pairEnd then Some (Some pair)
              else let isNegative = (g ! p = CHR ''-'');
                       q = (if isNegative then p + 1 else p);
                       numEnd = scan is_digit g pairEnd q
                   in if numEnd > q then
                        (case stoi (substr g q (numEnd - q)) of
                           None \<Rightarrow> Some None
                         | Some v \<Rightarrow> pair_numbers g pairEnd numEnd (pair @ [if isNegative then - v else v]))
                      else pair_numbers g pairEnd numEnd pair)"

declare pair_numbers.simps [code]

text \<open>Sequencing: an endless loop and an exception both stop what follows.\<close>

definition after :: "'a option option \<Rightarrow> ('a \<Rightarrow> 'b option option) \<Rightarrow> 'b option option" where
  "after m f = (case m of None \<Rightarrow> None | Some None \<Rightarrow> Some None | Some (Some x) \<Rightarrow> f x)"

function offsets_loop :: "string \<Rightarrow> nat \<Rightarrow> nat \<Rightarrow> Vec2Int list \<Rightarrow> Vec2Int list option option" where
  "offsets_loop g arrayEnd currentPos offsets =
     (if currentPos \<ge> arrayEnd then Some (Some offsets)
      else case str_find g ''['' currentPos of
             None \<Rightarrow> Some (Some offsets)
           | Some pairStart \<Rightarrow>
               if pairStart \<ge> arrayEnd - 1 then Some (Some offsets)
               else case str_find g '']'' pairStart of
                      None \<Rightarrow> Some (Some offsets)
                    | Some pairEnd \<Rightarrow>
                        if pairEnd \<ge> arrayEnd then Some (Some offsets)
                        else case pair_numbers g pairEnd (pairStart + 1) [] of
                               None \<Rightarrow> None
                             | Some None \<Rightarrow> Some None
                             | Some (Some pair) \<Rightarrow>
                                 offsets_loop g arrayEnd (pairEnd + 1)
                                   (if length pair \<ge> 2 then offsets @ [Vec (pair ! 0) (pair ! 1)] else offsets))"
  by pat_completeness auto
termination
proof (relation "measure (\<lambda>(g, arrayEnd, currentPos, offsets). arrayEnd - currentPos)")
  fix g :: string and arrayEnd currentPos pairStart pairEnd :: nat and offsets :: "Vec2Int list" and r pair
  assume *: "\<not> arrayEnd \<le> currentPos" "str_find g ''['' currentPos = Some pairStart"
    "str_find g '']'' pairStart = Some pairEnd"
  from str_find_bounds [OF *(2)] str_find_bounds [OF *(3)] have "currentPos \<le> pairEnd" by simp
  with *(1) show "((g, arrayEnd, pairEnd + 1, if 2 \<le> length pair then offsets @ [Vec (pair ! 0) (pair ! 1)] else offsets),
      g, arrayEnd, currentPos, offsets) \<in> measure (\<lambda>(g, arrayEnd, currentPos, offsets). arrayEnd - currentPos)"
    by simp
qed simp

definition parse_offsets :: "string \<Rightarrow> Vec2Int list option option" where
  "parse_offsets g =
     (case do { offsetsPos \<leftarrow> FindKey g ''offsets'' 0; str_find g ''['' offsetsPos } of
        None \<Rightarrow> Some (Some [])
      | Some arrayStart \<Rightarrow>
          (case balance (CHR ''['') (CHR '']'') 1 (drop (arrayStart + 1) g) (arrayStart + 1) of
             (n, arrayEnd) \<Rightarrow> offsets_loop g arrayEnd (arrayStart + 1) []))"

definition parse_monster :: "string \<Rightarrow> MonsterInfo option" where
  "parse_monster m = do {
     tid \<leftarrow> GetIntValue m ''templateId'' 0;
     n \<leftarrow> GetIntValue m ''count'' 0;
     lv \<leftarrow> GetIntValue m ''level'' 0;
     aggro \<leftarrow> GetIntValue m ''aggroRange'' 0;
     leash \<leftarrow> GetIntValue m ''leashRange'' 0;
     Some \<lparr>mi_templateId = tid, mi_count = n, mi_level = lv, mi_aggroRange = aggro, mi_leashRange = leash\<rparr> }"

fun parse_all :: "('a \<Rightarrow> 'b option option) \<Rightarrow> 'a list \<Rightarrow> 'b list option option" where
  "parse_all p [] = Some (Some [])"
| "parse_all p (x # xs) = after (p x) (\<lambda>y. after (parse_all p xs) (\<lambda>ys. Some (Some (y # ys))))"

definition parse_group :: "string \<Rightarrow> MonsterSpawnData option option" where
  "parse_group g =
     after (Some (GetIntArray g ''anchor'' 0)) (\<lambda>anchor.
     after (parse_offsets g) (\<lambda>offsets.
     after (parse_all (\<lambda>m. Some (parse_monster m)) (GetObjectsInArray g ''monsters'' 0)) (\<lambda>ms.
     Some (Some \<lparr>sp_groupId = GetStringValue g ''groupId'' 0,
       sp_anchor = (if length anchor \<ge> 2 then Vec (anchor ! 0) (anchor ! 1) else Vec 0 0),
       sp_offsets = offsets, sp_monsters = ms\<rparr>))))"

definition parse_room :: "string \<Rightarrow> string \<Rightarrow> nat \<Rightarrow> RoomSpawnConfig option option" where
  "parse_room json roomId roomObjStart =
     after (parse_all parse_group (GetObjectsInArray json ''spawns'' roomObjStart)) (\<lambda>groups.
       Some (Some \<lparr>rs_roomId = roomId, rs_spawns = groups\<rparr>))"

text \<open>
  Every quoted string is tried as the name of a room: it is one if the object after it has \<open>"spawns"\<close> before its first
  closing brace. Rooms stored before an exception stay.
\<close>

function rooms_loop :: "string \<Rightarrow> nat \<Rightarrow> RoomDataManager \<Rightarrow> (bool \<times> RoomDataManager) option" where
  "rooms_loop json pos D =
     (case str_find json [CHR 0x22] pos of
        None \<Rightarrow> Some (True, D)
      | Some quoteStart \<Rightarrow>
          if quoteStart \<ge> length json - 1 then Some (True, D)
          else case str_find json [CHR 0x22] (quoteStart + 1) of
                 None \<Rightarrow> Some (True, D)
               | Some quoteEnd \<Rightarrow>
                   let roomId = substr json (quoteStart + 1) (quoteEnd - quoteStart - 1)
                   in case str_find json ''{'' quoteEnd of
                        None \<Rightarrow> Some (True, D)
                      | Some roomObjStart \<Rightarrow>
                          if (case FindKey json ''spawns'' roomObjStart of
                                None \<Rightarrow> True
                              | Some k \<Rightarrow> (case str_find json ''}'' roomObjStart of None \<Rightarrow> False | Some b \<Rightarrow> k > b))
                          then rooms_loop json (quoteEnd + 1) D
                          else case parse_room json roomId roomObjStart of
                                 None \<Rightarrow> None
                               | Some None \<Rightarrow> Some (False, D)
                               | Some (Some c) \<Rightarrow>
                                   rooms_loop json (quoteEnd + 1) (D\<lparr>spawnConfigs := (spawnConfigs D)(roomId \<mapsto> c)\<rparr>))"
  by pat_completeness auto
termination
proof (relation "measure (\<lambda>(json, pos, D). length json - pos)")
  fix json :: string and pos quoteStart quoteEnd :: nat and D :: RoomDataManager
  assume *: "str_find json [CHR 0x22] pos = Some quoteStart" "str_find json [CHR 0x22] (quoteStart + 1) = Some quoteEnd"
  have "pos < quoteEnd \<and> quoteEnd < length json"
    using str_find_bounds [OF *(1)] str_find_bounds [OF *(2)] by simp
  then show "((json, quoteEnd + 1, D'), json, pos, D) \<in> measure (\<lambda>(json, pos, D). length json - pos)"
    for D' :: RoomDataManager by auto
  then show "((json, quoteEnd + 1, D'), json, pos, D) \<in> measure (\<lambda>(json, pos, D). length json - pos)"
    for D' :: RoomDataManager .
qed simp

definition ParseMonsterSpawnJson :: "string \<Rightarrow> RoomDataManager \<Rightarrow> (bool \<times> RoomDataManager) option" where
  "ParseMonsterSpawnJson json D = rooms_loop json 0 D"

definition LoadMonsterSpawns :: "string option \<Rightarrow> RoomDataManager \<Rightarrow> (bool \<times> RoomDataManager) option" where
  "LoadMonsterSpawns file D = (case file of None \<Rightarrow> Some (False, D) | Some content \<Rightarrow> ParseMonsterSpawnJson content D)"

section \<open>Everything\<close>

text \<open>\<open>None\<close>: the process does not come back, thrown out of by a sheet or caught in the scanner.\<close>

definition LoadAllData :: "(string \<Rightarrow> string option) \<Rightarrow> (string \<Rightarrow> string) \<Rightarrow> RoomDataManager \<Rightarrow> (bool \<times> RoomDataManager) option" where
  "LoadAllData files widen D0 =
     (let path = ResolveExistingPath files
      in do { (b1, D1) \<leftarrow> LoadRoomConfigs files widen (path ''../Datasheets/RoomConfig.csv'') D0;
              (b2, D2) \<leftarrow> LoadMonsterTemplates (files (path ''../Datasheets/MonsterTemplate.csv'')) D1;
              (b3, D3) \<leftarrow> LoadMonsterSpawns (files (path ''../Datasheets/MonsterSpawn.json'')) D2;
              (b4, D4) \<leftarrow> LoadLevelData (files (path ''../Datasheets/LevelData.csv'')) D3;
              (b5, D5) \<leftarrow> LoadItemTemplates (files (path ''../Datasheets/ItemTemplate.csv'')) D4;
              (b6, D6) \<leftarrow> LoadMonsterDrops (files (path ''../Datasheets/MonsterDrop.csv'')) D5;
              Some (b1 \<and> b2 \<and> b3 \<and> b4 \<and> b5 \<and> b6, D6) })"

text \<open>\<open>keys\<close>: the rooms in the iteration order of the table.\<close>

definition GetStaticRoomIds :: "string list \<Rightarrow> RoomDataManager \<Rightarrow> string list" where
  "GetStaticRoomIds keys D =
     filter (\<lambda>k. case roomConfigs D k of None \<Rightarrow> False | Some c \<Rightarrow> \<not> rc_isInstance c) keys"

definition GetInstanceRoomIds :: "string list \<Rightarrow> RoomDataManager \<Rightarrow> string list" where
  "GetInstanceRoomIds keys D =
     filter (\<lambda>k. case roomConfigs D k of None \<Rightarrow> False | Some c \<Rightarrow> rc_isInstance c) keys"

end
