(* ===== verification/RoomData_Props.thy ===== *)
theory RoomData_Props
  imports RoomData Player_Progress
begin

text \<open>
  What the loaders do: a written sheet reads back, a row that is too short repeats its last value, the scanner of the
  spawn file ends exactly on well-formed offsets, and the shipped sheets give sound tables.
\<close>

section \<open>Decimal numbers\<close>

text \<open>Characters of a decimal number, as they stand in the sheets.\<close>

fun show_nat :: "nat \<Rightarrow> string" where
  "show_nat n = (if n < 10 then [char_of (48 + n)] else show_nat (n div 10) @ [char_of (48 + n mod 10)])"

definition show_int :: "int \<Rightarrow> string" where
  "show_int v = (if v < 0 then CHR ''-'' # show_nat (nat (- v)) else show_nat (nat v))"

declare show_nat.simps [simp del]

lemma code_digit: "n < 10 \<Longrightarrow> char_code (char_of (48 + n)) = 48 + int n"
  by (simp add: char_code_def)

lemma digits_value_append: "digits_value acc (xs @ [c]) = digits_value acc xs * 10 + (char_code c - 48)"
  by (induction acc xs rule: digits_value.induct) simp_all

lemma digits_show: "digits_value 0 (show_nat n) = int n"
proof (induction n rule: show_nat.induct)
  case (1 n)
  show ?case
  proof (cases "n < 10")
    case True
    then show ?thesis by (simp add: show_nat.simps [of n] code_digit)
  next
    case False
    then have "digits_value 0 (show_nat n) = int (n div 10) * 10 + int (n mod 10)"
      using 1 by (simp add: show_nat.simps [of n] digits_value_append code_digit)
    then show ?thesis by presburger
  qed
qed

lemma show_nat_digits: "show_nat n \<noteq> [] \<and> (\<forall>c \<in> set (show_nat n). is_digit c)"
proof (induction n rule: show_nat.induct)
  case (1 n)
  have "is_digit (char_of (48 + k))" if "k < 10" for k :: nat using that by (simp add: is_digit_def code_digit)
  with 1 show ?case by (auto simp: show_nat.simps [of n])
qed

lemma digit_facts: "is_digit c \<Longrightarrow> \<not> is_space c \<and> c \<noteq> CHR '','' \<and> c \<noteq> CHR ''-'' \<and> c \<noteq> CHR ''+'' \<and> c \<noteq> CHR 0x0A"
  by (auto simp: is_digit_def is_space_def char_code_def)

lemma take_digits: "takeWhile is_digit (show_nat n) = show_nat n"
  using show_nat_digits by (simp add: takeWhile_eq_all_conv)

lemma stoi_show:
  assumes "in32 v"
  shows "stoi (show_int v) = Some v"
proof -
  obtain c cs where n: "show_nat (nat \<bar>v\<bar>) = c # cs" "is_digit c"
    using show_nat_digits [of "nat \<bar>v\<bar>"] by (cases "show_nat (nat \<bar>v\<bar>)") auto
  have d: "dropWhile is_space (show_int v) = show_int v"
    using n digit_facts by (auto simp: show_int_def is_space_def split: if_splits)
  have tw: "takeWhile is_digit cs = cs" using take_digits [of "nat \<bar>v\<bar>"] n by simp
  show ?thesis
    using assms n digit_facts [OF n(2)] digits_show [of "nat \<bar>v\<bar>"]
    unfolding stoi_def d by (auto simp: show_int_def in32_def tw Let_def)
qed

lemma show_int_clean: "\<forall>c \<in> set (show_int v). c \<noteq> CHR '','' \<and> c \<noteq> CHR 0x0A"
  using show_nat_digits digit_facts by (auto simp: show_int_def)

section \<open>Sheets read back\<close>

lemma next_field_simps:
  assumes "\<forall>c \<in> set tok. c \<noteq> CHR '',''"
  shows "next_field old (Some (tok @ CHR '','' # rest)) = (tok, Some rest)" "next_field old (Some tok) = (tok, None)"
    "next_field old None = (old, None)"
proof -
  have "takeWhile (\<lambda>c. c \<noteq> CHR '','') (tok @ CHR '','' # rest) = tok"
    "dropWhile (\<lambda>c. c \<noteq> CHR '','') (tok @ CHR '','' # rest) = CHR '','' # rest" for rest
    using assms by (simp_all add: takeWhile_append dropWhile_append)
  note sides = this
  have whole: "takeWhile (\<lambda>c. c \<noteq> CHR '','') tok = tok" "dropWhile (\<lambda>c. c \<noteq> CHR '','') tok = []"
    using assms by (simp_all add: takeWhile_eq_all_conv)
  show "next_field old (Some (tok @ CHR '','' # rest)) = (tok, Some rest)"
    "next_field old (Some tok) = (tok, None)" "next_field old None = (old, None)"
    by (simp_all add: next_field_def sides whole)
qed

lemma int_field_show:
  assumes "in32 v"
  shows "int_field (t, Some (show_int v @ CHR '','' # rest)) = Some (v, (show_int v, Some rest))"
    "int_field (t, Some (show_int v)) = Some (v, (show_int v, None))"
    "int_field (show_int v, None) = Some (v, (show_int v, None))"
  using next_field_simps [of "show_int v"] show_int_clean [of v] stoi_show [OF assms]
  by (simp_all add: int_field_def)

definition level_line :: "LevelData \<Rightarrow> string" where
  "level_line d = show_int (ld_level d) @ CHR '','' # show_int (ld_requiredExp d) @ CHR '','' #
     show_int (ld_maxHp d) @ CHR '','' # show_int (ld_attack d) @ CHR '','' # show_int (ld_defence d)"

definition level_fits :: "LevelData \<Rightarrow> bool" where
  "level_fits d \<longleftrightarrow> in32 (ld_level d) \<and> in32 (ld_requiredExp d) \<and> in32 (ld_maxHp d) \<and> in32 (ld_attack d) \<and> in32 (ld_defence d)"

lemma parse_level_line: "level_fits d \<Longrightarrow> parse_level (level_line d) = Some d"
  by (simp add: parse_level_def row_start_def level_line_def level_fits_def int_field_show)

lemma cut_lines_line:
  "\<forall>c \<in> set l. c \<noteq> CHR 0x0A \<Longrightarrow> cut_lines acc (l @ CHR 0x0A # rest) = (rev acc @ l) # cut_lines [] rest"
  by (induction l arbitrary: acc) simp_all

lemma file_lines_unlines:
  "\<forall>l \<in> set ls. \<forall>c \<in> set l. c \<noteq> CHR 0x0A \<Longrightarrow> file_lines (concat (map (\<lambda>l. l @ [CHR 0x0A]) ls)) = ls"
proof (induction ls)
  case (Cons l ls)
  then show ?case using cut_lines_line [of l "[]" "concat (map (\<lambda>l. l @ [CHR 0x0A]) ls)"] by (simp add: file_lines_def)
qed (simp add: file_lines_def)

lemma load_rows_all:
  "\<forall>(l, d) \<in> set lds. l \<noteq> '''' \<and> parse l = Some d \<Longrightarrow>
    load_rows parse store (map fst lds) D = Some (fold store (map snd lds) D)"
  by (induction lds arbitrary: D) auto

definition level_sheet :: "string \<Rightarrow> LevelData list \<Rightarrow> string" where
  "level_sheet header ds = concat (map (\<lambda>l. l @ [CHR 0x0A]) (header # map level_line ds))"

lemma level_line_clean: "(\<forall>c \<in> set (level_line d). c \<noteq> CHR 0x0A) \<and> level_line d \<noteq> ''''"
  using show_int_clean by (auto simp: level_line_def)

text \<open>
  The level sheet is a round trip: whatever rows are written, below any header line, \<open>LoadLevelData\<close> reads the
  same rows back and stores each under its level, a later row replacing an earlier one; no other table changes.
\<close>

theorem level_sheet_roundtrip:
  assumes "\<forall>d \<in> set ds. level_fits d" "\<forall>c \<in> set header. c \<noteq> CHR 0x0A"
  shows "LoadLevelData (Some (level_sheet header ds)) D
    = Some (True, fold (\<lambda>d D. D\<lparr>levelData := (levelData D)(ld_level d \<mapsto> d)\<rparr>) ds D)"
proof -
  have "file_lines (level_sheet header ds) = header # map level_line ds"
    unfolding level_sheet_def by (rule file_lines_unlines) (use assms(2) level_line_clean in auto)
  moreover have "load_rows parse_level store (map level_line ds) D = Some (fold store ds D)" for store
    using load_rows_all [of "map (\<lambda>d. (level_line d, d)) ds" parse_level store D] assms(1) level_line_clean parse_level_line
    by (auto simp: comp_def)
  ultimately show ?thesis by (simp add: LoadLevelData_def load_sheet_def)
qed

theorem level_sheet_roundtrip_witness:
  "LoadLevelData (Some (level_sheet ''level,requiredExp,maxHp,attack,defence''
      [\<lparr>ld_level = 2, ld_requiredExp = 100, ld_maxHp = 115, ld_attack = 22, ld_defence = -6\<rparr>])) RoomDataManager_empty
    = Some (True, RoomDataManager_empty\<lparr>levelData := (levelData RoomDataManager_empty)(2 \<mapsto>
        \<lparr>ld_level = 2, ld_requiredExp = 100, ld_maxHp = 115, ld_attack = 22, ld_defence = -6\<rparr>)\<rparr>)"
  by (subst level_sheet_roundtrip) (simp_all add: level_fits_def in32_def)

text \<open>
  A row that ends early is not an error: the fields that are missing take the value of the last field that is there,
  because \<open>getline\<close> on a stream that has ended leaves the token as it was.
\<close>

theorem short_row_repeats_its_last_value:
  assumes "in32 a" "in32 b"
  shows "parse_level (show_int a @ CHR '','' # show_int b)
    = Some \<lparr>ld_level = a, ld_requiredExp = b, ld_maxHp = b, ld_attack = b, ld_defence = b\<rparr>"
  using assms by (simp add: parse_level_def row_start_def int_field_show)

theorem short_row_repeats_its_last_value_witness:
  "parse_level (show_int 7 @ CHR '','' # show_int 600)
    = Some \<lparr>ld_level = 7, ld_requiredExp = 600, ld_maxHp = 600, ld_attack = 600, ld_defence = 600\<rparr>"
  by (rule short_row_repeats_its_last_value) (simp_all add: in32_def)

section \<open>The scanner\<close>

lemma scan_stop:
  assumes "scan P json limit pos < limit" "limit \<le> length json" "pos \<le> limit"
  shows "\<not> P (json ! scan P json limit pos)"
proof -
  let ?t = "take (limit - pos) (drop pos json)"
  have l: "length (takeWhile P ?t) < length ?t" using assms by (simp add: scan_def)
  from nth_length_takeWhile [OF l] show ?thesis using assms by (simp add: scan_def)
qed

lemma scan_passed:
  assumes "pos \<le> i" "i < scan P json limit pos" "limit \<le> length json" "pos \<le> limit"
  shows "P (json ! i)"
proof -
  let ?t = "take (limit - pos) (drop pos json)"
  have i: "i - pos < length (takeWhile P ?t)" using assms by (simp add: scan_def)
  then have "takeWhile P ?t ! (i - pos) = ?t ! (i - pos)" by (rule takeWhile_nth)
  moreover have "i - pos < limit - pos"
    using i length_takeWhile_le [of P ?t] by simp
  moreover have "takeWhile P ?t ! (i - pos) \<in> set (takeWhile P ?t)" using i by simp
  ultimately show ?thesis using assms(1,3,4) by (auto dest: set_takeWhileD)
qed

lemma scan_step:
  assumes "P (json ! pos)" "pos < limit" "limit \<le> length json"
  shows "pos < scan P json limit pos"
proof (rule ccontr)
  assume "\<not> pos < scan P json limit pos"
  then have "scan P json limit pos = pos" by (simp add: scan_def)
  with scan_stop [of P json limit pos] assms show False by simp
qed

definition well_formed_pair :: "string \<Rightarrow> nat \<Rightarrow> nat \<Rightarrow> bool" where
  "well_formed_pair g pairEnd numPos \<longleftrightarrow> (\<forall>i. numPos \<le> i \<longrightarrow> i < pairEnd \<longrightarrow> sep (g ! i) \<or> numeric (g ! i))"

lemma pair_ends:
  "pairEnd \<le> length g \<Longrightarrow> well_formed_pair g pairEnd numPos \<Longrightarrow> pair_numbers g pairEnd numPos pair \<noteq> None"
proof (induction "pairEnd - numPos" arbitrary: numPos pair rule: less_induct)
  case less
  define p where "p = scan sep g pairEnd numPos"
  define q where "q = (if g ! p = CHR ''-'' then p + 1 else p)"
  define e where "e = scan is_digit g pairEnd q"
  show ?case
  proof (cases "numPos \<ge> pairEnd \<or> p \<ge> pairEnd")
    case True
    then show ?thesis by (subst pair_numbers.simps) (auto simp: p_def Let_def)
  next
    case False
    then have p: "numPos \<le> p" "\<not> sep (g ! p)"
      using scan_bounds [of numPos pairEnd sep g] scan_stop [of sep g pairEnd numPos] less.prems(1) by (simp_all add: p_def)
    with False less.prems(2) have n: "numeric (g ! p)" by (auto simp: well_formed_pair_def)
    have q: "p \<le> q" "q \<le> pairEnd" using False by (simp_all add: q_def)
    have "q \<le> e" using scan_bounds [OF q(2)] by (simp add: e_def)
    moreover have "p < e"
    proof (cases "g ! p = CHR ''-''")
      case False
      with n have "is_digit (g ! p)" by (simp add: numeric_def)
      with False scan_step [of is_digit g p pairEnd] less.prems(1) \<open>\<not> (numPos \<ge> pairEnd \<or> p \<ge> pairEnd)\<close>
      show ?thesis by (simp add: e_def q_def)
    qed (use \<open>q \<le> e\<close> in \<open>simp add: q_def\<close>)
    ultimately have m: "pairEnd - e < pairEnd - numPos" "numPos \<le> e" using p False by auto
    have "well_formed_pair g pairEnd e"
      using less.prems(2) m(2) by (auto simp: well_formed_pair_def)
    from less.hyps [OF m(1) less.prems(1) this] show ?thesis
      using False unfolding pair_numbers.simps [of g pairEnd numPos] Let_def p_def [symmetric] q_def [symmetric] e_def [symmetric]
      by (simp split: option.split)
  qed
qed

lemma pair_returns:
  assumes "pair_numbers g pairEnd numPos pair = Some r"
  shows "pairEnd \<le> length g \<longrightarrow> r \<noteq> None \<longrightarrow> well_formed_pair g pairEnd numPos"
proof (rule pair_numbers.raw_induct [where P = "\<lambda>g pairEnd numPos pair r.
    pairEnd \<le> length g \<longrightarrow> r \<noteq> None \<longrightarrow> well_formed_pair g pairEnd numPos", OF _ assms])
  fix f :: "string \<Rightarrow> nat \<Rightarrow> nat \<Rightarrow> int list \<Rightarrow> int list option option" and g pairEnd numPos pair r
  assume IH: "\<And>g pairEnd numPos pair r. f g pairEnd numPos pair = Some r \<Longrightarrow>
      pairEnd \<le> length g \<longrightarrow> r \<noteq> None \<longrightarrow> well_formed_pair g pairEnd numPos"
    and run: "(if pairEnd \<le> numPos then Some (Some pair)
       else let p = scan sep g pairEnd numPos
            in if pairEnd \<le> p then Some (Some pair)
               else let isNegative = g ! p = CHR ''-''; q = if isNegative then p + 1 else p; numEnd = scan is_digit g pairEnd q
                    in if q < numEnd
                       then case stoi (substr g q (numEnd - q)) of None \<Rightarrow> Some None
                            | Some v \<Rightarrow> f g pairEnd numEnd (pair @ [if isNegative then - v else v])
                       else f g pairEnd numEnd pair) = Some r"
  show "pairEnd \<le> length g \<longrightarrow> r \<noteq> None \<longrightarrow> well_formed_pair g pairEnd numPos"
  proof (intro impI)
    assume len: "pairEnd \<le> length g" and r: "r \<noteq> None"
    define p where "p = scan sep g pairEnd numPos"
    define q where "q = (if g ! p = CHR ''-'' then p + 1 else p)"
    define e where "e = scan is_digit g pairEnd q"
    have seps: "numPos \<le> i \<Longrightarrow> i < p \<Longrightarrow> numPos \<le> pairEnd \<Longrightarrow> sep (g ! i)" for i
      using scan_passed [of numPos i sep g pairEnd] len by (simp add: p_def)
    show "well_formed_pair g pairEnd numPos"
    proof (cases "numPos \<ge> pairEnd \<or> p \<ge> pairEnd")
      case True
      then show ?thesis using seps by (auto simp: well_formed_pair_def)
    next
      case False
      have "\<exists>pair. f g pairEnd e pair = Some r"
        using run False r unfolding Let_def p_def [symmetric] q_def [symmetric] e_def [symmetric]
        by (auto split: option.splits if_splits)
      with IH len r have wf: "well_formed_pair g pairEnd e" by blast
      have q: "q \<le> pairEnd" using False by (simp add: q_def)
      have "sep (g ! i) \<or> numeric (g ! i)" if i: "numPos \<le> i" "i < pairEnd" for i
      proof -
        have pq: "i = p \<and> g ! p = CHR ''-''" if "p \<le> i" "i < q" using that by (simp add: q_def split: if_splits)
        consider "i < p" | "p \<le> i" "i < q" | "q \<le> i" "i < e" | "e \<le> i" by linarith
        then show ?thesis
        proof cases
          case 3
          then show ?thesis using scan_passed [of q i is_digit g pairEnd] q len by (simp add: e_def numeric_def)
        qed (use seps False i wf pq in \<open>auto simp: numeric_def well_formed_pair_def\<close>)
      qed
      then show ?thesis by (simp add: well_formed_pair_def)
    qed
  qed
qed

text \<open>
  C25. Reading an offset pair of the spawn file ends in numbers only on well-formed text: if every character between the brackets is a
  blank, a comma, a sign or a digit, the loop returns; if any other character stands there, a decimal point or a carriage
  return for instance, it never returns a pair: it runs for ever unless an earlier number is out of range.
\<close>

theorem offset_pair_ends_iff_well_formed:
  assumes "pairEnd \<le> length g"
  shows "if well_formed_pair g pairEnd numPos then pair_numbers g pairEnd numPos pair \<noteq> None
    else pair_numbers g pairEnd numPos pair = None \<or> pair_numbers g pairEnd numPos pair = Some None"
proof (cases "well_formed_pair g pairEnd numPos")
  case False
  with pair_returns [of g pairEnd numPos pair] assms show ?thesis
    by (cases "pair_numbers g pairEnd numPos pair") auto
qed (simp add: pair_ends [OF assms])

theorem offset_pair_ends_iff_well_formed_witness:
  "pair_numbers ''[1.5]'' 4 1 [] = None \<or> pair_numbers ''[1.5]'' 4 1 [] = Some None"
proof -
  have "\<not> well_formed_pair ''[1.5]'' 4 1"
    by (auto simp: well_formed_pair_def sep_def blank_def numeric_def is_digit_def char_code_def intro!: exI [of _ 2])
  with offset_pair_ends_iff_well_formed [of 4 "''[1.5]''" 1 "[]"] show ?thesis by simp
qed

section \<open>The shipped sheets\<close>

definition shipped_levels :: "string list" where
  "shipped_levels =
    [''level,requiredExp,maxHp,attack,defence'', ''1,0,100,20,5'', ''2,100,115,22,6'', ''3,200,130,24,7'',
      ''4,300,145,26,8'', ''5,400,160,28,9'', ''6,500,175,30,10'', ''7,600,190,32,11'', ''8,700,205,34,12'',
      ''9,800,220,36,13'', ''10,900,235,38,14'', ''11,1000,250,40,15'', ''12,1100,265,42,16'',
      ''13,1200,280,44,17'', ''14,1300,295,46,18'', ''15,1400,310,48,19'', ''16,1500,325,50,20'',
      ''17,1600,340,52,21'', ''18,1700,355,54,22'', ''19,1800,370,56,23'', ''20,1900,385,58,24'',
      ''21,2000,400,60,25'', ''22,2100,415,62,26'', ''23,2200,430,64,27'', ''24,2300,445,66,28'',
      ''25,2400,460,68,29'', ''26,2500,475,70,30'', ''27,2600,490,72,31'', ''28,2700,505,74,32'',
      ''29,2800,520,76,33'', ''30,2900,535,78,34'']"

definition shipped_items :: "string list" where
  "shipped_items =
    [''itemId,name,type,value,maxStack'', ''2001,Potion_A,consumable,50,99'', ''3001,Sword_A,weapon,5,1'',
      ''3002,Sword_B,weapon,10,1'', ''3003,Sword_C,weapon,15,1'', ''4001,Armor_A,armor,3,1'',
      ''4002,Armor_B,armor,6,1'', ''4003,Armor_C,armor,10,1'']"

definition sheet_text :: "string list \<Rightarrow> string" where
  "sheet_text ls = concat (map (\<lambda>l. l @ [CHR 0x0A]) ls)"

text \<open>Reading a sheet is reading its rows.\<close>

lemma load_sheet_text:
  assumes "\<forall>l \<in> set ls. l \<noteq> '''' \<and> (\<forall>c \<in> set l. c \<noteq> CHR 0x0A)" "those (map parse ls) = Some ds"
    "\<forall>c \<in> set header. c \<noteq> CHR 0x0A"
  shows "load_sheet parse store (Some (sheet_text (header # ls))) D = Some (True, fold store ds D)"
proof -
  have "file_lines (sheet_text (header # ls)) = header # ls"
    unfolding sheet_text_def by (rule file_lines_unlines) (use assms in auto)
  moreover have "those (map parse ls) = Some ds \<Longrightarrow> \<forall>l \<in> set ls. l \<noteq> '''' \<Longrightarrow> load_rows parse store ls D = Some (fold store ds D)"
    for ls ds D by (induction ls arbitrary: ds D) (auto split: option.splits)
  ultimately show ?thesis using assms by (simp add: load_sheet_def)
qed

lemma fold_level_rows:
  "levelData (fold (\<lambda>d D. D\<lparr>levelData := (levelData D)(ld_level d \<mapsto> d)\<rparr>) ds D) = fold (\<lambda>d m. m(ld_level d \<mapsto> d)) ds (levelData D)"
  "itemTemplates (fold (\<lambda>d D. D\<lparr>levelData := (levelData D)(ld_level d \<mapsto> d)\<rparr>) ds D) = itemTemplates D"
  by (induction ds arbitrary: D) simp_all

lemma fold_item_rows:
  "itemTemplates (fold (\<lambda>d D. D\<lparr>itemTemplates := (itemTemplates D)(it_itemId d \<mapsto> d)\<rparr>) ds D)
    = fold (\<lambda>d m. m(it_itemId d \<mapsto> d)) ds (itemTemplates D)"
  "levelData (fold (\<lambda>d D. D\<lparr>itemTemplates := (itemTemplates D)(it_itemId d \<mapsto> d)\<rparr>) ds D) = levelData D"
  by (induction ds arbitrary: D) simp_all

lemma fold_rows_range: "fold (\<lambda>d m. m(k d \<mapsto> d)) ds m x = Some y \<Longrightarrow> y \<in> set ds \<or> m x = Some y"
  by (induction ds arbitrary: m) (fastforce split: if_splits)+

lemma fold_rows_dom: "x \<in> k ` set ds \<or> m x \<noteq> None \<Longrightarrow> fold (\<lambda>d m. m(k d \<mapsto> d)) ds m x \<noteq> None"
proof (induction ds arbitrary: m)
  case (Cons d ds)
  then have "x \<in> k ` set ds \<or> (m(k d \<mapsto> d)) x \<noteq> None" by auto
  from Cons.IH [of "m(k d \<mapsto> d)", OF this] show ?case by simp
qed simp

lemma fold_rows_key: "fold (\<lambda>d m. m(k d \<mapsto> d)) ds m x = Some y \<Longrightarrow> x \<in> k ` set ds \<or> m x = Some y"
  by (induction ds arbitrary: m) (fastforce split: if_splits)+

text \<open>The rows of the two sheets, parsed.\<close>

lemma shipped_level_rows:
  "\<exists>ds. those (map parse_level (tl shipped_levels)) = Some ds \<and> list_all level_row_ok ds \<and> map ld_level ds = [1..30]"
  by (simp add: shipped_levels_def parse_level_def row_start_def int_field_def next_field_def stoi_def is_space_def
      is_digit_def char_code_def level_row_ok_def in32_def upto_rec1)

lemma shipped_item_rows:
  "\<exists>ds. those (map parse_item (tl shipped_items)) = Some ds
    \<and> list_all (\<lambda>d. 0 \<le> it_value d \<and> it_value d \<le> 1000000) ds"
  by (simp add: shipped_items_def parse_item_def row_start_def int_field_def member_field_def next_field_def stoi_def
      is_space_def is_digit_def char_code_def)

lemma shipped_clean:
  "\<forall>l \<in> set (tl shipped_levels). l \<noteq> '''' \<and> (\<forall>c \<in> set l. c \<noteq> CHR 0x0A)"
  "\<forall>l \<in> set (tl shipped_items). l \<noteq> '''' \<and> (\<forall>c \<in> set l. c \<noteq> CHR 0x0A)"
  "\<forall>c \<in> set (hd shipped_levels). c \<noteq> CHR 0x0A" "\<forall>c \<in> set (hd shipped_items). c \<noteq> CHR 0x0A"
  "hd shipped_levels # tl shipped_levels = shipped_levels" "hd shipped_items # tl shipped_items = shipped_items"
  by (simp_all add: shipped_levels_def shipped_items_def)

lemmas shipped_load =
  load_sheet_text [OF shipped_clean(1) _ shipped_clean(3), unfolded shipped_clean(5)]
  load_sheet_text [OF shipped_clean(2) _ shipped_clean(4), unfolded shipped_clean(6)]

text \<open>
  The shipped level and item sheets load, and the tables they give are sound: every level from 1 to 30 is there with
  a positive health, and no item's value is negative or large enough to overflow a statistic.
\<close>

theorem shipped_sheets_are_sound:
  "\<exists>D1 D2. LoadLevelData (Some (sheet_text shipped_levels)) RoomDataManager_empty = Some (True, D1)
    \<and> LoadItemTemplates (Some (sheet_text shipped_items)) D1 = Some (True, D2)
    \<and> tables_ok D2 \<and> (\<forall>l. GetLevelData D2 l \<noteq> None \<longleftrightarrow> 1 \<le> l \<and> l \<le> 30)"
proof -
  obtain ds where ds: "those (map parse_level (tl shipped_levels)) = Some ds" "list_all level_row_ok ds"
    "map ld_level ds = [1..30]" using shipped_level_rows by blast
  obtain es where es: "those (map parse_item (tl shipped_items)) = Some es"
    "list_all (\<lambda>d. 0 \<le> it_value d \<and> it_value d \<le> 1000000) es" using shipped_item_rows by blast
  define D1 where "D1 = fold (\<lambda>d D. D\<lparr>levelData := (levelData D)(ld_level d \<mapsto> d)\<rparr>) ds RoomDataManager_empty"
  define D2 where "D2 = fold (\<lambda>d D. D\<lparr>itemTemplates := (itemTemplates D)(it_itemId d \<mapsto> d)\<rparr>) es D1"
  have l1: "LoadLevelData (Some (sheet_text shipped_levels)) RoomDataManager_empty = Some (True, D1)"
    unfolding LoadLevelData_def D1_def
    by (rule shipped_load(1) [OF ds(1)])
  have l2: "LoadItemTemplates (Some (sheet_text shipped_items)) D1 = Some (True, D2)"
    unfolding LoadItemTemplates_def D2_def
    by (rule shipped_load(2) [OF es(1)])
  have lv: "levelData D2 = fold (\<lambda>d m. m(ld_level d \<mapsto> d)) ds Map.empty"
    "itemTemplates D2 = fold (\<lambda>d m. m(it_itemId d \<mapsto> d)) es Map.empty"
    by (simp_all add: D1_def D2_def fold_item_rows fold_level_rows RoomDataManager_empty_def)
  have img: "ld_level ` set ds = {1..30}"
    using arg_cong [OF ds(3), of set] by simp
  have "GetLevelData D2 l \<noteq> None \<longleftrightarrow> l \<in> ld_level ` set ds" for l
    unfolding GetLevelData_def lv
    using fold_rows_dom [of l ld_level ds Map.empty] fold_rows_key [of ld_level ds Map.empty l] by blast
  then have "GetLevelData D2 l \<noteq> None \<longleftrightarrow> 1 \<le> l \<and> l \<le> 30" for l by (simp add: img)
  moreover have "level_row_ok ld" if "GetLevelData D2 l = Some ld" for l ld
    using that fold_rows_range [of ld_level ds Map.empty l ld] ds(2) by (simp add: GetLevelData_def lv list_all_iff)
  moreover have "0 \<le> it_value d \<and> it_value d \<le> 1000000" if "GetItemTemplate D2 i = Some d" for i d
    using that fold_rows_range [of it_itemId es Map.empty i d] es(2) by (simp add: GetItemTemplate_def lv list_all_iff)
  ultimately show ?thesis using l1 l2 unfolding tables_ok_def by blast
qed

end
