(* ===== verification/ChatServer.thy ===== *)
theory ChatServer
  imports Session Server_Sample
begin

text \<open>
  The chat server: the sessions of the game servers, the relay of a chat message over Redis or, without Redis, to every
  game server, and what happens to a message from one end to the other. Redis is the state \<open>RedisWorld\<close>: whether it
  answers and the keys it holds; \<open>publish\<close> reaches the clients subscribed to the channel. The payload of a publication is
  the message itself: what protobuf serializes it parses back. The connection to each game server is a \<open>Session\<close> of the
  network layer, so what a failing send does is what \<open>Session\<close> does; \<open>ans s\<close> is what the system answers to the \<open>WSASend\<close> and
  the \<open>DisconnectEx\<close> of session \<open>s\<close>, and \<open>buf m\<close> the send buffer \<open>Make_SS_BroadcastChat\<close> builds of the message.
\<close>

section \<open>State\<close>

record RedisWorld =
  redis_up :: bool
  redis_keys :: "string \<rightharpoonup> string"

datatype chat_send =
    ToGameServer SessionId RelayChat
  | Publish string RelayChat

text \<open>
  \<open>chat_locked\<close>: the running thread holds the \<open>std::mutex\<close> of the session set; \<open>relocked\<close>: it has locked that mutex again while
  holding it, which is undefined behaviour, and nothing after it is modelled; \<open>aborted\<close>: an exception of the Redis client left
  a worker thread. \<open>chat_sessions\<close> are the addresses in the \<open>std::set\<close>, \<open>chat_net\<close> the session objects.
\<close>

record ChatServer =
  chat_sessions :: "SessionId list"
  chat_net :: "SessionId \<Rightarrow> Session"
  chat_locked :: bool
  relocked :: bool
  chat_redis :: bool
  chat_out :: "chat_send list"
  aborted :: bool

definition ChatServer_new :: "bool \<Rightarrow> ChatServer" where
  "ChatServer_new connected_ok = \<lparr>chat_sessions = [], chat_net = (\<lambda>_. Session_new), chat_locked = False, relocked = False,
     chat_redis = connected_ok, chat_out = [], aborted = False\<rparr>"

text \<open>\<open>RedisClient::Connect\<close>: whether the ping came back; an exception on the way is caught.\<close>

definition Redis_Connect :: "bool \<Rightarrow> ChatServer \<Rightarrow> ChatServer" where
  "Redis_Connect ping_ok cs = cs\<lparr>chat_redis := ping_ok\<rparr>"

section \<open>ChatSessionManager\<close>

text \<open>A \<open>WRITE_LOCK\<close> at the top of a body: a \<open>lock_guard\<close> over a plain \<open>std::mutex\<close>, released at the end.\<close>

definition with_lock :: "(ChatServer \<Rightarrow> ChatServer) \<Rightarrow> ChatServer \<Rightarrow> ChatServer" where
  "with_lock f cs =
     (if relocked cs then cs
      else if chat_locked cs then cs\<lparr>relocked := True\<rparr>
      else let cs' = f (cs\<lparr>chat_locked := True\<rparr>)
           in if relocked cs' then cs' else cs'\<lparr>chat_locked := False\<rparr>)"

definition ChatManager_Add :: "SessionId \<Rightarrow> ChatServer \<Rightarrow> ChatServer" where
  "ChatManager_Add s = with_lock (\<lambda>cs. cs\<lparr>chat_sessions := key_insert s (chat_sessions cs)\<rparr>)"

definition ChatManager_Remove :: "SessionId \<Rightarrow> ChatServer \<Rightarrow> ChatServer" where
  "ChatManager_Remove s = with_lock (\<lambda>cs. cs\<lparr>chat_sessions := key_erase s (chat_sessions cs)\<rparr>)"

definition ChatSession_OnConnected :: "SessionId \<Rightarrow> ChatServer \<Rightarrow> ChatServer" where
  "ChatSession_OnConnected s cs = ChatManager_Add s cs"

definition ChatSession_OnDisconnected :: "SessionId \<Rightarrow> ChatServer \<Rightarrow> ChatServer" where
  "ChatSession_OnDisconnected s cs = ChatManager_Remove s cs"

text \<open>The virtual methods a \<open>ChatSession\<close> overrides, as the session calls them.\<close>

definition chat_upcall :: "SessionId \<Rightarrow> session_call \<Rightarrow> ChatServer \<Rightarrow> ChatServer" where
  "chat_upcall s c cs =
     (case c of CallOnConnected \<Rightarrow> ChatSession_OnConnected s cs
      | CallOnDisconnected \<Rightarrow> ChatSession_OnDisconnected s cs
      | _ \<Rightarrow> cs)"

text \<open>
  \<open>session->Send(sendBuffer)\<close>: the \<open>Send\<close> of the network layer, and the calls it makes upwards in the same thread. The message
  counts as given to the game server when the session is connected afterwards and holds one buffer more than before, queued
  or given to \<open>WSASend\<close>.
\<close>

definition took :: "Session \<Rightarrow> Session \<Rightarrow> bool" where
  "took c c' \<longleftrightarrow> connected c' \<and>
     length (sendBuffers c' @ sendQueue c') = Suc (length (sendBuffers c @ sendQueue c))"

definition send_one :: "(SessionId \<Rightarrow> wsa_result \<times> wsa_result) \<Rightarrow> (RelayChat \<Rightarrow> SendBuffer) \<Rightarrow> RelayChat \<Rightarrow> SessionId \<Rightarrow>
    ChatServer \<Rightarrow> ChatServer" where
  "send_one ans buf m s cs =
     (if relocked cs then cs
      else let c = chat_net cs s;
               c' = Send (buf m) (fst (ans s)) (snd (ans s)) c
           in fold (chat_upcall s) (drop (length (calls c)) (calls c'))
                (cs\<lparr>chat_net := (chat_net cs)(s := c'),
                    chat_out := chat_out cs @ (if took c c' then [ToGameServer s m] else [])\<rparr>))"

definition BroadcastAll :: "(SessionId \<Rightarrow> wsa_result \<times> wsa_result) \<Rightarrow> (RelayChat \<Rightarrow> SendBuffer) \<Rightarrow> RelayChat \<Rightarrow>
    ChatServer \<Rightarrow> ChatServer" where
  "BroadcastAll ans buf m = with_lock (\<lambda>cs. fold (send_one ans buf m) (chat_sessions cs) cs)"

section \<open>Handling packets\<close>

definition publish :: "RedisWorld \<Rightarrow> string \<Rightarrow> RelayChat \<Rightarrow> ChatServer \<Rightarrow> ChatServer" where
  "publish R ch m cs =
     (if redis_up R then cs\<lparr>chat_out := chat_out cs @ [Publish ch m]\<rparr> else cs\<lparr>aborted := True\<rparr>)"

text \<open>\<open>notice\<close> is the literal sent back, as in the game server's connector.\<close>

definition Handle_SS_RelayChat ::
    "(SessionId \<Rightarrow> wsa_result \<times> wsa_result) \<Rightarrow> (RelayChat \<Rightarrow> SendBuffer) \<Rightarrow> RedisWorld \<Rightarrow> string \<Rightarrow> RelayChat \<Rightarrow>
     ChatServer \<Rightarrow> ChatServer" where
  "Handle_SS_RelayChat ans buf R notice m cs =
     (if \<not> chat_redis cs then BroadcastAll ans buf m cs
      else if rl_type m = CHAT_TYPE_GLOBAL then publish R ''chat:global'' m cs
      else if rl_type m = CHAT_TYPE_WHISPER then
        (if \<not> redis_up R then cs\<lparr>aborted := True\<rparr>
         else case redis_keys R (''player:loc:'' @ rl_target m) of
                Some loc \<Rightarrow> publish R (''chat:whisper:'' @ loc) m cs
              | None \<Rightarrow>
                  (case redis_keys R (''player:loc:'' @ rl_sender m) of
                     None \<Rightarrow> cs
                   | Some loc \<Rightarrow> publish R (''chat:whisper:'' @ loc)
                       ((chat_message ''System'' CHAT_TYPE_WHISPER notice)\<lparr>rl_target := rl_sender m\<rparr>) cs))
      else BroadcastAll ans buf m cs)"

definition Chat_HandlePacket :: "(byte list \<Rightarrow> RelayChat) \<Rightarrow> (SessionId \<Rightarrow> wsa_result \<times> wsa_result) \<Rightarrow>
    (RelayChat \<Rightarrow> SendBuffer) \<Rightarrow> RedisWorld \<Rightarrow> string \<Rightarrow> byte list \<Rightarrow> ChatServer \<Rightarrow> ChatServer" where
  "Chat_HandlePacket parse_Relay ans buf R notice bs cs =
     (if hid (header_at bs 0) = 301
      then Handle_SS_RelayChat ans buf R notice (parse_Relay (drop sizeof_PacketHeader bs)) cs
      else cs)"

definition Chat_workerCount :: "int32 \<Rightarrow> int32" where
  "Chat_workerCount hw = max 1 hw"

section \<open>Broadcasting\<close>

text \<open>\<open>breaks c r\<close>: \<open>RegisterSend\<close> runs and its \<open>WSASend\<close> fails with a code \<open>HandleError\<close> disconnects on.\<close>

definition breaks :: "Session \<Rightarrow> wsa_result \<Rightarrow> bool" where
  "breaks c r \<longleftrightarrow> connected c \<and> \<not> sendRegistered c
     \<and> r \<in> {WsaError WSAECONNRESET, WsaError WSAECONNABORTED, WsaError WSAENOTCONN}"

definition accepts :: "Session \<Rightarrow> wsa_result \<Rightarrow> bool" where
  "accepts c r \<longleftrightarrow> connected c \<and> (sendRegistered c \<or> \<not> wsa_failed r)"

lemmas wsa_codes = WSA_IO_PENDING_def WSAECONNABORTED_def WSAECONNRESET_def WSAENOTCONN_def

lemmas Send_parts = Send_def Send_locked_def RegisterSend_def RegisterSend_begin_def RegisterSend_drain_def
  RegisterSend_post_def HandleError_def Disconnect_def RegisterDisconnect_def call_def wsa_failed_def wsa_code_def

lemma took_Send: "took c (Send b r rd c) \<longleftrightarrow> accepts c r"
  by (cases r) (auto simp: took_def accepts_def Send_parts wsa_codes Let_def)

lemma upcalls_Send: "CallOnDisconnected \<in> set (drop (length (calls c)) (calls (Send b r rd c))) \<longleftrightarrow> breaks c r"
  by (cases r) (auto simp: breaks_def Send_parts wsa_codes Let_def)

lemma no_connect_Send: "CallOnConnected \<notin> set (drop (length (calls c)) (calls (Send b r rd c)))"
  by (cases r) (auto simp: Send_parts Let_def)

lemma chat_upcalls_relocked: "relocked cs \<Longrightarrow> fold (chat_upcall s) cl cs = cs"
  by (induction cl) (simp_all add: chat_upcall_def ChatSession_OnConnected_def ChatSession_OnDisconnected_def
      ChatManager_Add_def ChatManager_Remove_def with_lock_def split: session_call.split)

lemma chat_upcalls_locked:
  "chat_locked cs \<Longrightarrow> \<not> relocked cs \<Longrightarrow> CallOnConnected \<notin> set cl \<Longrightarrow>
    fold (chat_upcall s) cl cs = cs\<lparr>relocked := CallOnDisconnected \<in> set cl\<rparr>"
proof (induction cl arbitrary: cs)
  case (Cons c cl)
  show ?case
  proof (cases "c = CallOnDisconnected")
    case True
    have "chat_upcall s c cs = cs\<lparr>relocked := True\<rparr>"
      using Cons.prems True by (simp add: chat_upcall_def ChatSession_OnDisconnected_def ChatManager_Remove_def with_lock_def)
    then show ?thesis using True by (simp add: chat_upcalls_relocked)
  next
    case False
    then have "chat_upcall s c cs = cs" using Cons.prems by (auto simp: chat_upcall_def split: session_call.split)
    then show ?thesis using Cons False by simp
  qed
qed simp

lemma send_one_locked:
  assumes "chat_locked cs" "\<not> relocked cs"
  shows "send_one ans buf m s cs = cs\<lparr>chat_net := (chat_net cs)(s := Send (buf m) (fst (ans s)) (snd (ans s)) (chat_net cs s)),
     chat_out := chat_out cs @ (if accepts (chat_net cs s) (fst (ans s)) then [ToGameServer s m] else []),
     relocked := breaks (chat_net cs s) (fst (ans s))\<rparr>"
  using assms by (simp add: send_one_def Let_def chat_upcalls_locked no_connect_Send took_Send upcalls_Send)

lemma send_one_relocked: "relocked cs \<Longrightarrow> fold (send_one ans buf m) ss cs = cs"
  by (induction ss) (simp_all add: send_one_def)

text \<open>The sessions sent to: those before the first one whose connection is broken, and that one.\<close>

definition reached :: "(SessionId \<Rightarrow> bool) \<Rightarrow> SessionId list \<Rightarrow> SessionId list" where
  "reached bad ss = takeWhile (\<lambda>s. \<not> bad s) ss @ take 1 (dropWhile (\<lambda>s. \<not> bad s) ss)"

lemma reached_Cons: "reached bad (s # ss) = s # (if bad s then [] else reached bad ss)"
  by (simp add: reached_def)

lemma reached_all: "\<forall>s \<in> set ss. \<not> bad s \<Longrightarrow> reached bad ss = ss"
  by (induction ss) (simp_all add: reached_Cons, simp add: reached_def)

lemma no_breaks [simp]: "\<not> breaks c WsaOk"
  by (simp add: breaks_def)

lemma breaks_not_accepts: "breaks c r \<Longrightarrow> \<not> accepts c r"
  by (auto simp: breaks_def accepts_def wsa_failed_def wsa_codes)

lemma broadcast_outcome:
  fixes ans :: "SessionId \<Rightarrow> wsa_result \<times> wsa_result"
  assumes "chat_locked cs" "\<not> relocked cs" "distinct ss" "\<And>s. s \<in> set ss \<Longrightarrow> chat_net cs s = net s"
  defines "bad \<equiv> \<lambda>s. breaks (net s) (fst (ans s))"
  shows "fold (send_one ans buf m) ss cs = cs
     \<lparr>chat_net := (\<lambda>s. if s \<in> set (reached bad ss) then Send (buf m) (fst (ans s)) (snd (ans s)) (net s) else chat_net cs s),
      chat_out := chat_out cs @ map (\<lambda>s. ToGameServer s m)
        (filter (\<lambda>s. accepts (net s) (fst (ans s))) (takeWhile (\<lambda>s. \<not> bad s) ss)),
      relocked := list_ex bad ss\<rparr>"
  using assms(1-4)
proof (induction ss arbitrary: cs)
  case Nil
  then show ?case by (simp add: reached_def)
next
  case (Cons s ss)
  let ?cs = "send_one ans buf m s cs"
  have s: "chat_net cs s = net s" "s \<notin> set ss" using Cons.prems(3,4) by simp_all
  note one = send_one_locked [OF Cons.prems(1,2), of ans buf m s, unfolded s(1), folded bad_def]
  show ?case
  proof (cases "bad s")
    case True
    then show ?thesis
      using send_one_relocked [of ?cs ans buf m ss] breaks_not_accepts [of "net s" "fst (ans s)"]
      by (simp add: one reached_Cons fun_upd_def bad_def cong: if_cong)
  next
    case False
    have "fold (send_one ans buf m) ss ?cs = ?cs
     \<lparr>chat_net := (\<lambda>s. if s \<in> set (reached bad ss) then Send (buf m) (fst (ans s)) (snd (ans s)) (net s) else chat_net ?cs s),
      chat_out := chat_out ?cs @ map (\<lambda>s. ToGameServer s m)
        (filter (\<lambda>s. accepts (net s) (fst (ans s))) (takeWhile (\<lambda>s. \<not> bad s) ss)),
      relocked := list_ex bad ss\<rparr>"
      by (rule Cons.IH) (use Cons.prems False s in \<open>auto simp: one bad_def\<close>)
    then show ?thesis using False by (simp add: one reached_Cons fun_eq_iff)
  qed
qed

text \<open>
  C27. Broadcasting to the game servers gives the message once to every connected one, in order, and releases the lock, as long
  as no send finds its connection broken. The first send whose \<open>WSASend\<close> fails because the connection is gone disconnects the
  session in the same thread, and \<open>OnDisconnected\<close> locks the \<open>std::mutex\<close> the broadcast still holds: undefined behaviour, and no
  later game server has been given the message by then.
\<close>

theorem broadcast_to_a_broken_session_relocks:
  assumes "\<not> chat_locked cs" "\<not> relocked cs" "distinct (chat_sessions cs)"
  shows "let bad = (\<lambda>s. breaks (chat_net cs s) (fst (ans s))); cs' = BroadcastAll ans buf m cs
    in (relocked cs' \<longleftrightarrow> (\<exists>s \<in> set (chat_sessions cs). bad s))
      \<and> chat_out cs' = chat_out cs @ map (\<lambda>s. ToGameServer s m)
          (filter (\<lambda>s. accepts (chat_net cs s) (fst (ans s))) (takeWhile (\<lambda>s. \<not> bad s) (chat_sessions cs)))
      \<and> (\<forall>s. chat_net cs' s =
          (if s \<in> set (reached bad (chat_sessions cs)) then Send (buf m) (fst (ans s)) (snd (ans s)) (chat_net cs s)
           else chat_net cs s))
      \<and> chat_sessions cs' = chat_sessions cs
      \<and> (chat_locked cs' \<longleftrightarrow> relocked cs')"
proof -
  let ?bad = "\<lambda>s. breaks (chat_net cs s) (fst (ans s))"
  have "fold (send_one ans buf m) (chat_sessions cs) (cs\<lparr>chat_locked := True\<rparr>) = cs
     \<lparr>chat_locked := True,
      chat_net := (\<lambda>s. if s \<in> set (reached ?bad (chat_sessions cs))
        then Send (buf m) (fst (ans s)) (snd (ans s)) (chat_net cs s) else chat_net cs s),
      chat_out := chat_out cs @ map (\<lambda>s. ToGameServer s m)
        (filter (\<lambda>s. accepts (chat_net cs s) (fst (ans s))) (takeWhile (\<lambda>s. \<not> ?bad s) (chat_sessions cs))),
      relocked := list_ex ?bad (chat_sessions cs)\<rparr>"
    using broadcast_outcome [of "cs\<lparr>chat_locked := True\<rparr>" "chat_sessions cs" "chat_net cs"] assms
    by (simp cong: if_cong)
  with assms(1,2) show ?thesis
    by (auto simp: BroadcastAll_def with_lock_def Let_def list_ex_iff)
qed

text \<open>Three game servers are connected; the connection to the second one is gone.\<close>

definition wit_chat :: ChatServer where
  "wit_chat = (ChatServer_new False)\<lparr>chat_sessions := [1, 2, 3], chat_net := (\<lambda>_. Session_new\<lparr>connected := True\<rparr>)\<rparr>"

theorem broadcast_to_a_broken_session_relocks_witness:
  "let cs = BroadcastAll (\<lambda>s. if s = 2 then (WsaError WSAECONNRESET, WsaOk) else (WsaOk, WsaOk)) (\<lambda>m. SendBuffer_new 0)
       (chat_message ''ann'' 0 ''hi'') wit_chat
   in relocked cs \<and> chat_out cs = [ToGameServer 1 (chat_message ''ann'' 0 ''hi'')] \<and> chat_net cs 3 = chat_net wit_chat 3"
  using broadcast_to_a_broken_session_relocks
    [of wit_chat "\<lambda>s. if s = 2 then (WsaError WSAECONNRESET, WsaOk) else (WsaOk, WsaOk)" "\<lambda>m. SendBuffer_new 0" "chat_message ''ann'' 0 ''hi''"]
  by (simp add: wit_chat_def ChatServer_new_def Session_new_def breaks_def accepts_def reached_def wsa_failed_def Let_def)

section \<open>From one end to the other\<close>

text \<open>
  The game servers behind a chat server. Server \<open>i\<close> of the list is session \<open>i\<close> of the chat server; each listens on
  \<open>chat:global\<close> and on its own whisper channel, which is what its subscriber thread subscribes to when \<open>GServerAddr\<close> is
  already set there.
\<close>

definition hears :: "string \<Rightarrow> Server \<Rightarrow> bool" where
  "hears ch sv \<longleftrightarrow> ch = ''chat:global'' \<or> ch = ''chat:whisper:'' @ serverAddr sv"

fun deliver_chat :: "Parsers \<Rightarrow> string \<Rightarrow> (RelayChat \<Rightarrow> SendBuffer) \<Rightarrow> chat_send \<Rightarrow> Server list \<Rightarrow> Server list" where
  "deliver_chat ps notice buf (Publish ch m) svs =
     map (\<lambda>sv. if hears ch sv then Subscriber_on_message (Some m) sv else sv) svs"
| "deliver_chat ps notice buf (ToGameServer i m) svs =
     (if i < length svs then svs[i := Relay_OnRecvPacket ps notice (wire (buf m)) (svs ! i)] else svs)"

definition relay_chat :: "(SessionId \<Rightarrow> wsa_result \<times> wsa_result) \<Rightarrow> RedisWorld \<Rightarrow> Parsers \<Rightarrow> string \<Rightarrow>
    (RelayChat \<Rightarrow> SendBuffer) \<Rightarrow> RelayChat \<Rightarrow> ChatServer \<times> Server list \<Rightarrow> ChatServer \<times> Server list" where
  "relay_chat ans R ps notice buf m st =
     (case st of (cs, svs) \<Rightarrow>
        let cs' = Handle_SS_RelayChat ans buf R notice m (cs\<lparr>chat_out := []\<rparr>)
        in (cs', fold (deliver_chat ps notice buf) (chat_out cs') svs))"

text \<open>
  C26. With Redis up a whisper reaches exactly the player it names, on whatever game server that player is: the server whose
  address Redis holds for the player sends it one chat packet, and no other game server does anything.
\<close>

theorem whisper_reaches_its_target:
  assumes "chat_redis cs" "redis_up R" "rl_type m = CHAT_TYPE_WHISPER"
    and "j < length svs" "redis_keys R (''player:loc:'' @ rl_target m) = Some (serverAddr (svs ! j))"
    and "\<And>i. i < length svs \<Longrightarrow> i \<noteq> j \<Longrightarrow> serverAddr (svs ! i) \<noteq> serverAddr (svs ! j)"
    and "FindByPlayerName (rl_target m) (svs ! j) = Some s" "faulted (world (svs ! j)) = None"
  shows "let svs' = snd (relay_chat ans R ps notice buf m (cs, svs))
    in length svs' = length svs
      \<and> out (world (svs' ! j)) = out (world (svs ! j)) @ [Packet s (S_Chat (rl_sender m) CHAT_TYPE_WHISPER (rl_msg m))]
      \<and> (\<forall>i < length svs. i \<noteq> j \<longrightarrow> svs' ! i = svs ! i)"
proof -
  let ?ch = "''chat:whisper:'' @ serverAddr (svs ! j)"
  have o: "chat_out (Handle_SS_RelayChat ans buf R notice m (cs\<lparr>chat_out := []\<rparr>)) = [Publish ?ch m]"
    using assms by (simp add: Handle_SS_RelayChat_def publish_def)
  have h: "hears ?ch (svs ! i) \<longleftrightarrow> i = j" if "i < length svs" for i
    using assms(6) [OF that] by (cases "i = j") (auto simp: hears_def)
  have sub: "Subscriber_on_message (Some m) (svs ! j)
      = on_world (send_packet s (S_Chat (rl_sender m) CHAT_TYPE_WHISPER (rl_msg m))) (svs ! j)"
    using assms by (simp add: Subscriber_on_message_def)
  show ?thesis
    using assms(4,8) h sub by (simp add: relay_chat_def o Let_def send_packet_def)
qed

definition alone :: Server where
  "alone = sample_boot\<lparr>serverAddr := ''127.0.0.1:7778''\<rparr>"

text \<open>Nobody is online on the second server; the player of the first one whispers to itself.\<close>

definition town_server :: Server where
  "town_server = sample_boot\<lparr>world := (world sample_boot)\<lparr>roomRefs := [StaticRoom Town 1],
     rooms := [StaticRoom Town 1 \<mapsto> GameRoom_new\<lparr>players := [1]\<rparr>],
     wplayers := [1 \<mapsto> sample_player\<lparr>info := (info sample_player)\<lparr>i_name := ''ann''\<rparr>\<rparr>],
     wsessions := [0 \<mapsto> \<lparr>gs_room = None, gs_player = Some 1, gs_account = 3\<rparr>]\<rparr>, online := [0]\<rparr>"

theorem whisper_reaches_its_target_witness:
  "out (world (snd (relay_chat (\<lambda>s. (WsaOk, WsaOk)) \<lparr>redis_up = True, redis_keys = [''player:loc:ann'' \<mapsto> ''127.0.0.1:7777'']\<rparr>
      sample_parsers '''' (\<lambda>m. SendBuffer_new 0) ((chat_message ''bob'' 2 ''hi'')\<lparr>rl_target := ''ann''\<rparr>)
      (ChatServer_new True, [alone, town_server])) ! 1))
   = out (world town_server) @ [Packet 0 (S_Chat ''bob'' CHAT_TYPE_WHISPER ''hi'')]"
proof -
  have "FindByPlayerName ''ann'' town_server = Some 0" "faulted (world town_server) = None"
    by (simp_all add: FindByPlayerName_def town_server_def session_player_def the_session_def player_alive_def
        alive_players_def owned_players_def the_room_def GameRoom_new_def entering_def the_player_def sample_boot_ids)
  moreover have "serverAddr town_server = ''127.0.0.1:7777''" "serverAddr alone = ''127.0.0.1:7778''"
    by (simp_all add: town_server_def alone_def sample_boot_def Server_boot_def)
  moreover have "\<And>i. i < length [alone, town_server] \<Longrightarrow> i \<noteq> 1 \<Longrightarrow>
      serverAddr ([alone, town_server] ! i) \<noteq> serverAddr ([alone, town_server] ! 1)"
    using calculation by (auto simp: less_Suc_eq)
  ultimately show ?thesis
    using whisper_reaches_its_target [of "ChatServer_new True" "\<lparr>redis_up = True, redis_keys = [''player:loc:ann'' \<mapsto> ''127.0.0.1:7777'']\<rparr>"
        "(chat_message ''bob'' 2 ''hi'')\<lparr>rl_target := ''ann''\<rparr>" 1 "[alone, town_server]" 0]
    by (simp add: ChatServer_new_def chat_message_def Let_def)
qed

text \<open>
  A party message goes to every game server, and on each of them to the online members of whatever party has that number
  there: the numbers are counted per game server, so players of another server's party get the message too.
\<close>

theorem party_chat_is_matched_by_number:
  assumes "\<not> chat_locked cs" "\<not> relocked cs" "chat_sessions cs = [0..<length svs]" "rl_type m = CHAT_TYPE_PARTY"
    and "hid (header_at (wire (buf m)) 0) = 302" "parse_Broadcast ps (drop sizeof_PacketHeader (wire (buf m))) = m"
    and "\<And>i. i < length svs \<Longrightarrow> connected (chat_net cs i)"
    and "\<And>i. i < length svs \<Longrightarrow> faulted (world (svs ! i)) = None"
  shows "let svs' = snd (relay_chat (\<lambda>s. (WsaOk, WsaOk)) R ps notice buf m (cs, svs))
    in length svs' = length svs
      \<and> (\<forall>j < length svs. out (world (svs' ! j)) = out (world (svs ! j)) @
           (case GetParty (rl_partyid m) (party (world (svs ! j))) of
              None \<Rightarrow> []
            | Some p \<Rightarrow> map (\<lambda>s. Packet s (S_Chat (rl_sender m) CHAT_TYPE_PARTY (rl_msg m)))
                (filter (\<lambda>s. case session_player s (world (svs ! j)) of None \<Rightarrow> False
                   | Some pid \<Rightarrow> i_objectid (info (the_player pid (world (svs ! j)))) \<in> set (memberIds p)) (online (svs ! j)))))"
proof -
  let ?cs = "cs\<lparr>chat_out := []\<rparr>" and ?ans = "\<lambda>s. (WsaOk, WsaOk)"
  have "fold (send_one ?ans buf m) [0..<length svs] (?cs\<lparr>chat_locked := True\<rparr>) = ?cs
     \<lparr>chat_locked := True,
      chat_net := (\<lambda>s. if s < length svs then Send (buf m) WsaOk WsaOk (chat_net cs s) else chat_net cs s),
      chat_out := map (\<lambda>s. ToGameServer s m) [0..<length svs], relocked := False\<rparr>"
    using broadcast_outcome [of "?cs\<lparr>chat_locked := True\<rparr>" "[0..<length svs]" "chat_net cs" ?ans buf m] assms(1,2,7)
    by (simp add: no_breaks reached_all accepts_def wsa_failed_def filter_id_conv takeWhile_eq_all_conv [THEN iffD2]
        list_ex_iff cong: if_cong)
  then have o: "chat_out (Handle_SS_RelayChat ?ans buf R notice m ?cs) = map (\<lambda>s. ToGameServer s m) [0..<length svs]"
    using assms(1-4) by (simp add: Handle_SS_RelayChat_def BroadcastAll_def with_lock_def)
  let ?f = "Relay_OnRecvPacket ps notice (wire (buf m))"
  have upd: "fold (deliver_chat ps notice buf) (map (\<lambda>s. ToGameServer s m) [0..<n]) svs
      = map ?f (take n svs) @ drop n svs" if "n \<le> length svs" for n
    using that
  proof (induction n)
    case (Suc n)
    then have n: "n < length svs" by simp
    have "(map ?f (take n svs) @ drop n svs) ! n = svs ! n" using n by (simp add: nth_append)
    moreover have "(map ?f (take n svs) @ drop n svs)[n := ?f (svs ! n)] = map ?f (take (Suc n) svs) @ drop (Suc n) svs"
      using n by (simp add: list_update_append take_Suc_conv_app_nth Cons_nth_drop_Suc [symmetric])
    ultimately show ?case using Suc n by simp
  qed simp
  have s: "snd (relay_chat (\<lambda>s. (WsaOk, WsaOk)) R ps notice buf m (cs, svs)) = map ?f svs"
    using upd [of "length svs"] by (simp add: relay_chat_def o Let_def)
  have "out (world (?f sv)) = out (world sv) @ map (\<lambda>s. Packet s (S_Chat (rl_sender m) CHAT_TYPE_PARTY (rl_msg m))) (addressed m sv)"
    if "faulted (world sv) = None" for sv
    using relay_addressed [OF that assms(5), of ps notice] assms(4,6) by (simp add: Let_def)
  then show ?thesis
    using assms(4,8) by (auto simp: s Let_def addressed_def split: option.split)
qed

text \<open>Two servers, each with a party of its own under the number 1; both are connected.\<close>

definition frame_302 :: SendBuffer where
  "frame_302 = \<lparr>sbuffer = [4, 0, 46, 1], writeSize = 4\<rparr>"

definition two_connected :: ChatServer where
  "two_connected = (ChatServer_new True)\<lparr>chat_sessions := [0, 1], chat_net := (\<lambda>_. Session_new\<lparr>connected := True\<rparr>)\<rparr>"

lemma sample_boot_party: "party (world sample_boot) = PartyManager_new"
  by (simp add: sample_boot_def Server_boot_def Manager_Init_def add_static_room_def InitFromConfig_def Let_def
      World_start_def make_room_def sample_data_def RoomDataManager_empty_def GetRoomConfig_def upd_room_def)

definition partied :: "uint64 \<Rightarrow> Server \<Rightarrow> Server" where
  "partied leader sv = on_world (\<lambda>w. w\<lparr>party := snd (CreateParty leader (party w))\<rparr>) sv"

theorem party_chat_is_matched_by_number_witness:
  "out (world (snd (relay_chat (\<lambda>s. (WsaOk, WsaOk)) \<lparr>redis_up = True, redis_keys = Map.empty\<rparr>
      (sample_parsers\<lparr>parse_Broadcast := (\<lambda>b. (chat_message ''bob'' 1 ''hi'')\<lparr>rl_partyid := 1\<rparr>)\<rparr>) '''' (\<lambda>m. frame_302)
      ((chat_message ''bob'' 1 ''hi'')\<lparr>rl_partyid := 1\<rparr>)
      (two_connected, [partied 9 alone, partied 1 town_server])) ! 1))
   = out (world (partied 1 town_server)) @ [Packet 0 (S_Chat ''bob'' CHAT_TYPE_PARTY ''hi'')]"
proof -
  let ?m = "(chat_message ''bob'' 1 ''hi'')\<lparr>rl_partyid := 1\<rparr>" and ?svs = "[partied 9 alone, partied 1 town_server]"
  have f: "\<And>i. i < length ?svs \<Longrightarrow> faulted (world (?svs ! i)) = None"
    by (auto simp: less_Suc_eq partied_def on_world_def alone_def town_server_def sample_boot_ids)
  have g: "GetParty 1 (party (world (partied 1 town_server))) = Some \<lparr>partyId = 1, leaderId = 1, memberIds = [1], memberNames = Map.empty\<rparr>"
    by (simp add: partied_def on_world_def town_server_def sample_boot_party CreateParty_def PartyManager_new_def GetParty_def)
  have p: "session_player 0 (world (partied 1 town_server)) = Some 1" "online (partied 1 town_server) = [0]"
    "i_objectid (info (the_player 1 (world (partied 1 town_server)))) = 1"
    using sample_hero_simps(3)
    by (simp_all add: partied_def on_world_def town_server_def session_player_def the_session_def player_alive_def sample_hero_def
        alive_players_def owned_players_def the_room_def GameRoom_new_def entering_def the_player_def set_dir_def set_pos_def)
  let ?R = "\<lparr>redis_up = True, redis_keys = Map.empty\<rparr>" and ?ps = "sample_parsers\<lparr>parse_Broadcast := (\<lambda>b. ?m)\<rparr>"
    and ?cs = two_connected and ?b = "\<lambda>m. frame_302"
  have c: "let svs' = snd (relay_chat (\<lambda>s. (WsaOk, WsaOk)) ?R ?ps '''' ?b ?m (?cs, ?svs))
    in length svs' = length ?svs
      \<and> (\<forall>j < length ?svs. out (world (svs' ! j)) = out (world (?svs ! j)) @
           (case GetParty (rl_partyid ?m) (party (world (?svs ! j))) of
              None \<Rightarrow> []
            | Some p \<Rightarrow> map (\<lambda>s. Packet s (S_Chat (rl_sender ?m) CHAT_TYPE_PARTY (rl_msg ?m)))
                (filter (\<lambda>s. case session_player s (world (?svs ! j)) of None \<Rightarrow> False
                   | Some pid \<Rightarrow> i_objectid (info (the_player pid (world (?svs ! j)))) \<in> set (memberIds p)) (online (?svs ! j)))))"
    by (rule party_chat_is_matched_by_number [OF _ _ _ _ _ _ _ f])
      (simp_all add: two_connected_def frame_302_def wire_def ChatServer_new_def chat_message_def header_at_def le16_value_def upt_rec)
  have "out (world (snd (relay_chat (\<lambda>s. (WsaOk, WsaOk)) ?R ?ps '''' ?b ?m (?cs, ?svs)) ! 1)) = out (world (?svs ! 1)) @
           (case GetParty (rl_partyid ?m) (party (world (?svs ! 1))) of
              None \<Rightarrow> []
            | Some p \<Rightarrow> map (\<lambda>s. Packet s (S_Chat (rl_sender ?m) CHAT_TYPE_PARTY (rl_msg ?m)))
                (filter (\<lambda>s. case session_player s (world (?svs ! 1)) of None \<Rightarrow> False
                   | Some pid \<Rightarrow> i_objectid (info (the_player pid (world (?svs ! 1)))) \<in> set (memberIds p)) (online (?svs ! 1))))"
    using c unfolding Let_def by (elim conjE allE [of _ 1]) simp
  then show ?thesis by (simp add: g p chat_message_def)
qed

end
