(* ===== verification/Listener.thy ===== *)
theory Listener
  imports Session
begin

text \<open>
  The completion port, the listener, and the sessions a server service makes: \<open>IocpCore\<close>, \<open>IocpEvent\<close>, \<open>Listener\<close>,
  \<open>ServerService\<close> over the sessions of \<open>Session\<close>. A step handles one completion to its end, as one thread of the pool does.
  What the operating system answers to the calls a handler makes is an argument: whether the port takes a socket, what
  \<open>AcceptEx\<close>, \<open>WSARecv\<close>, \<open>WSASend\<close>, \<open>DisconnectEx\<close> and the socket options return.
\<close>

section \<open>State\<close>

datatype net_fault = NullSession | NullEvent | AssertFails | RecvFault recv_fault

text \<open>
  \<open>made\<close> counts the sessions the factory has made, which are numbered in that order; \<open>pending\<close> is the session of the accept
  event while an \<open>AcceptEx\<close> with it is outstanding; \<open>accepts\<close> counts the outstanding \<open>AcceptEx\<close> calls.
\<close>

record Network =
  net_service :: Service
  net_sessions :: "nat \<rightharpoonup> Session"
  made :: nat
  pending :: "nat option"
  accepts :: nat
  net_fault :: "net_fault option"

definition Network_new :: "int32 \<Rightarrow> Network" where
  "Network_new n = \<lparr>net_service = Service_new ServiceServer n, net_sessions = Map.empty, made = 0, pending = None,
     accepts = 0, net_fault = None\<rparr>"

definition fail :: "net_fault \<Rightarrow> Network \<Rightarrow> Network" where
  "fail f N = (if net_fault N = None then N\<lparr>net_fault := Some f\<rparr> else N)"

section \<open>The service's part of a session operation\<close>

text \<open>
  \<open>AddSession\<close> and \<open>ReleaseSession\<close> are called in the middle of a session's operation and touch only the service; the
  model runs the operation and then the calls it made, in their order.
\<close>

fun service_call :: "bool \<Rightarrow> nat \<Rightarrow> session_call \<Rightarrow> Network \<Rightarrow> Network" where
  "service_call debug i CallAddSession N = N\<lparr>net_service := AddSession i (net_service N)\<rparr>"
| "service_call debug i CallReleaseSession N =
     (case ReleaseSession debug i (net_service N) of
        None \<Rightarrow> fail AssertFails N
      | Some sv \<Rightarrow> N\<lparr>net_service := sv\<rparr>)"
| "service_call debug i _ N = N"

definition run_session :: "bool \<Rightarrow> nat \<Rightarrow> Session \<Rightarrow> Session \<Rightarrow> Network \<Rightarrow> Network" where
  "run_session debug i s s' N =
     fold (service_call debug i) (drop (length (calls s)) (calls s')) (N\<lparr>net_sessions := (net_sessions N)(i \<mapsto> s')\<rparr>)"

section \<open>Accepting\<close>

text \<open>
  One attempt of \<open>RegisterAccept\<close>: whether the port takes the new session's socket, and what \<open>AcceptEx\<close> returns. An attempt
  that fails is followed by the next one, in a call from within the last; \<open>None\<close>: this never ends.
\<close>

type_synonym attempts = "nat \<Rightarrow> bool \<times> wsa_result"

partial_function (option) RegisterAccept :: "attempts \<Rightarrow> nat \<Rightarrow> Network \<Rightarrow> Network option" where
  "RegisterAccept att n N =
     (let N1 = N\<lparr>made := made N + 1\<rparr>
      in case CreateSession (fst (att n)) of
           None \<Rightarrow> Some (fail NullSession (N1\<lparr>pending := None\<rparr>))
         | Some s \<Rightarrow>
             let N2 = N1\<lparr>net_sessions := (net_sessions N1)(made N \<mapsto> s), pending := Some (made N)\<rparr>
             in if wsa_failed (snd (att n)) then RegisterAccept att (n + 1) N2
                else Some (N2\<lparr>accepts := accepts N2 + 1\<rparr>))"

text \<open>
  The answers to one handler: the attempts of a \<open>RegisterAccept\<close>, the three calls of \<open>ProcessAccept\<close>, and the results the
  session's own calls get.
\<close>

record Answers =
  attempt :: attempts
  update_ok :: bool
  peer_ok :: bool
  overlapped_ok :: bool
  wsa_main :: wsa_result
  wsa_disconnect :: wsa_result

definition ProcessAccept :: "bool \<Rightarrow> Answers \<Rightarrow> nat \<Rightarrow> Network \<Rightarrow> Network option" where
  "ProcessAccept debug A i N =
     (case net_sessions N i of
        None \<Rightarrow> Some (fail NullSession N)
      | Some s \<Rightarrow>
          if \<not> update_ok A \<or> \<not> peer_ok A then RegisterAccept (attempt A) 0 N
          else RegisterAccept (attempt A) 0
                 (run_session debug i s (ProcessConnect (overlapped_ok A) (wsa_main A) (wsa_disconnect A) s) N))"

section \<open>Dispatching\<close>

text \<open>
  \<open>GetQueuedCompletionStatus\<close>: a completion, or a failure with a code and, unless nothing was taken from the port, the event
  that failed, whose byte count is then that of the operation.
\<close>

datatype io_event = AcceptDone | SessionDone nat completion

datatype queued = Dequeued io_event | QueueFailed int32 "io_event option"

definition WAIT_TIMEOUT :: int32 where "WAIT_TIMEOUT = 258"

fun owner_Dispatch :: "bool \<Rightarrow> Answers \<Rightarrow> io_event \<Rightarrow> Network \<Rightarrow> Network option" where
  "owner_Dispatch debug A AcceptDone N =
     (case pending N of
        None \<Rightarrow> Some (fail NullSession N)
      | Some i \<Rightarrow> ProcessAccept debug A i (N\<lparr>accepts := accepts N - 1, pending := None\<rparr>))"
| "owner_Dispatch debug A (SessionDone i ev) N =
     (case net_sessions N i of
        None \<Rightarrow> Some (fail NullSession N)
      | Some s \<Rightarrow>
          (case Session_Dispatch ev (wsa_main A) (wsa_disconnect A) s of
             Inl f \<Rightarrow> Some (fail (RecvFault f) N)
           | Inr s' \<Rightarrow> Some (run_session debug i s s' N)))"

definition IocpCore_Dispatch :: "bool \<Rightarrow> Answers \<Rightarrow> queued \<Rightarrow> Network \<Rightarrow> (bool \<times> Network) option" where
  "IocpCore_Dispatch debug A q N =
     (case q of
        Dequeued ev \<Rightarrow> map_option (Pair True) (owner_Dispatch debug A ev N)
      | QueueFailed code ev \<Rightarrow>
          if code = WAIT_TIMEOUT then Some (False, N)
          else case ev of
            None \<Rightarrow> Some (True, fail NullEvent N)
          | Some e \<Rightarrow> map_option (Pair True) (owner_Dispatch debug A e N))"

section \<open>Starting\<close>

text \<open>
  \<open>StartAccept\<close>: seven calls that may each give up, then the first \<open>RegisterAccept\<close>. The list holds their answers in order:
  the service, the socket, the port, the two options, bind and listen.
\<close>

definition StartAccept :: "bool list \<Rightarrow> attempts \<Rightarrow> Network \<Rightarrow> (bool \<times> Network) option" where
  "StartAccept oks att N =
     (if list_all id oks then map_option (Pair True) (RegisterAccept att 0 N) else Some (False, N))"

definition ServerService_Start :: "bool \<Rightarrow> bool list \<Rightarrow> attempts \<Rightarrow> Network \<Rightarrow> (bool \<times> Network) option" where
  "ServerService_Start canStart oks att N = (if \<not> canStart then Some (False, N) else StartAccept oks att N)"

text \<open>\<open>Session::Send\<close> from any thread, as one step.\<close>

definition net_send :: "bool \<Rightarrow> Answers \<Rightarrow> nat \<Rightarrow> SendBuffer \<Rightarrow> Network \<Rightarrow> Network" where
  "net_send debug A i b N =
     (case net_sessions N i of
        None \<Rightarrow> fail NullSession N
      | Some s \<Rightarrow> run_session debug i s (Send b (wsa_main A) (wsa_disconnect A) s) N)"

section \<open>What a session operation asks of the service\<close>

definition service_part :: "session_call list \<Rightarrow> session_call list" where
  "service_part cs = filter (\<lambda>c. c = CallAddSession \<or> c = CallReleaseSession) cs"

text \<open>\<open>s'\<close> comes from \<open>s\<close> by operations that never connect, and that release the session exactly if they disconnect it.\<close>

definition closes :: "Session \<Rightarrow> Session \<Rightarrow> bool" where
  "closes s s' \<longleftrightarrow> (\<exists>cs. calls s' = calls s @ cs
     \<and> service_part cs = (if connected s \<and> \<not> connected s' then [CallReleaseSession] else []))
     \<and> (connected s' \<longrightarrow> connected s) \<and> (connectOwner s' \<longrightarrow> connectOwner s)"

lemma service_part_append [simp]: "service_part (cs @ ds) = service_part cs @ service_part ds"
  by (simp add: service_part_def)

lemma closes_refl: "closes s s"
  by (simp add: closes_def service_part_def)

lemma closes_trans:
  assumes ab: "closes a b" and bc: "closes b c"
  shows "closes a c"
proof -
  from ab obtain cs where cs: "calls b = calls a @ cs"
    "service_part cs = (if connected a \<and> \<not> connected b then [CallReleaseSession] else [])"
    unfolding closes_def by blast
  from bc obtain ds where ds: "calls c = calls b @ ds"
    "service_part ds = (if connected b \<and> \<not> connected c then [CallReleaseSession] else [])"
    unfolding closes_def by blast
  have down: "connected b \<Longrightarrow> connected a" "connected c \<Longrightarrow> connected b" "connectOwner c \<Longrightarrow> connectOwner a"
    using ab bc by (simp_all add: closes_def)
  have "service_part (cs @ ds) = (if connected a \<and> \<not> connected c then [CallReleaseSession] else [])"
    using cs(2) ds(2) down(1,2) by (cases "connected a"; cases "connected b"; cases "connected c") simp_all
  moreover have "calls c = calls a @ cs @ ds" by (simp only: ds(1) cs(1) append_assoc)
  ultimately show ?thesis using down unfolding closes_def by blast
qed

lemma closes_upd [simp]:
  "closes a (s\<lparr>recvBuffer := x1\<rparr>) = closes a s" "closes a (s\<lparr>sendQueue := x2\<rparr>) = closes a s"
  "closes a (s\<lparr>sendRegistered := x3\<rparr>) = closes a s" "closes a (s\<lparr>sendBuffers := x4\<rparr>) = closes a s"
  "closes a (s\<lparr>disconnectOwner := x5\<rparr>) = closes a s" "closes a (s\<lparr>recvOwner := x6\<rparr>) = closes a s"
  "closes a (s\<lparr>sendOwner := x7\<rparr>) = closes a s"
  by (simp_all add: closes_def)

lemma closes_call: "closes a s \<Longrightarrow> c \<noteq> CallAddSession \<Longrightarrow> c \<noteq> CallReleaseSession \<Longrightarrow> closes a (call c s)"
  by (auto simp: closes_def call_def service_part_def split: if_splits)

lemma closes_Disconnect_self: "closes s (Disconnect rd s)"
proof (cases "connected s")
  case True
  then have "calls (Disconnect rd s) = calls s @ [CallOnDisconnected, CallReleaseSession, CallDisconnectEx]"
    "\<not> connected (Disconnect rd s)" "connectOwner (Disconnect rd s) = connectOwner s"
    by (simp_all add: Disconnect_def RegisterDisconnect_def call_def Let_def)
  with True show ?thesis by (simp add: closes_def service_part_def)
qed (simp add: Disconnect_def closes_refl)

lemma closes_Disconnect: "closes a s \<Longrightarrow> closes a (Disconnect rd s)"
  using closes_trans closes_Disconnect_self by blast

lemma closes_HandleError: "closes a s \<Longrightarrow> closes a (HandleError e rd s)"
  by (simp add: HandleError_def closes_Disconnect)

lemma closes_RegisterRecv: "closes a s \<Longrightarrow> closes a (RegisterRecv r rd s)"
  by (auto simp: RegisterRecv_def Let_def intro!: closes_HandleError closes_call)

lemma closes_deliver: "closes a s \<Longrightarrow> closes a (deliver ps s)"
  by (induction ps arbitrary: s) (auto intro: closes_call)

lemmas closes_intros = closes_refl closes_call closes_Disconnect closes_HandleError closes_RegisterRecv closes_deliver

lemma closes_ProcessRecv: "ProcessRecv bs r rd s = Inr s' \<Longrightarrow> closes s s'"
  by (auto simp: ProcessRecv_def Let_def split: if_splits prod.splits bool.splits option.splits intro!: closes_intros)

lemma closes_RegisterSend: "closes a s \<Longrightarrow> closes a (RegisterSend r rd s)"
  by (auto simp: RegisterSend_def RegisterSend_begin_def RegisterSend_drain_def RegisterSend_post_def Let_def
      intro!: closes_intros)

lemma closes_Send: "closes s (Send b r rd s)"
  by (auto simp: Send_def Send_locked_def intro!: closes_RegisterSend closes_intros)

lemma closes_ProcessSend: "closes s (ProcessSend n r rd s)"
  by (auto simp: ProcessSend_def ProcessSend_release_def ProcessSend_locked_def Let_def split: prod.splits if_splits
      intro!: closes_RegisterSend closes_intros)

lemma closes_Dispatch:
  "Session_Dispatch ev r rd s = Inr s' \<Longrightarrow> (\<forall>ok. ev \<noteq> ConnectDone ok) \<Longrightarrow> closes s s'"
  by (auto simp: Session_Dispatch_def ProcessDisconnect_def closes_ProcessRecv closes_ProcessSend closes_refl
      split: completion.splits)

text \<open>Connecting adds the session first; the receive that follows may already disconnect it again.\<close>

lemma ProcessConnect_tracks:
  assumes "\<not> connected s" "\<not> connectOwner s"
  shows "\<exists>cs. calls (ProcessConnect ok r rd s) = calls s @ cs \<and> \<not> connectOwner (ProcessConnect ok r rd s)
    \<and> (service_part cs = [CallAddSession] \<and> connected (ProcessConnect ok r rd s)
       \<or> service_part cs = [CallAddSession, CallReleaseSession] \<and> \<not> connected (ProcessConnect ok r rd s)
       \<or> service_part cs = [] \<and> \<not> connected (ProcessConnect ok r rd s))"
proof (cases ok)
  case True
  define s1 where "s1 = call CallOnConnected (call CallAddSession (s\<lparr>connectOwner := False, connected := True\<rparr>))"
  have "closes s1 (RegisterRecv r rd s1)" by (intro closes_intros)
  moreover have "connected s1" "calls s1 = calls s @ [CallAddSession, CallOnConnected]" "\<not> connectOwner s1"
    by (simp_all add: s1_def call_def)
  ultimately show ?thesis
    using True by (auto simp: ProcessConnect_def s1_def [symmetric] closes_def service_part_def split: if_splits)
qed (use assms in \<open>auto simp: ProcessConnect_def service_part_def\<close>)

end
