(* ===== verification/Listener_Props.thy ===== *)
theory Listener_Props
  imports Listener
begin

text \<open>
  A server service as a whole: whatever completions arrive in whatever order, the service's set of sessions and its counter
  are those of the connected sessions, and the listener keeps listening.
\<close>

section \<open>Runs\<close>

definition live :: "Network \<Rightarrow> nat set" where
  "live N = {i. \<exists>s. net_sessions N i = Some s \<and> connected s}"

text \<open>The port hands out completions of operations that are outstanding.\<close>

fun due :: "Network \<Rightarrow> io_event \<Rightarrow> bool" where
  "due N AcceptDone = (0 < accepts N)"
| "due N (SessionDone i ev) = (case net_sessions N i of None \<Rightarrow> False
     | Some s \<Rightarrow> (case ev of ConnectDone _ \<Rightarrow> connectOwner s | DisconnectDone \<Rightarrow> disconnectOwner s
         | RecvDone _ \<Rightarrow> recvOwner s | SendDone _ \<Rightarrow> sendOwner s))"

fun queued_due :: "Network \<Rightarrow> queued \<Rightarrow> bool" where
  "queued_due N (Dequeued e) = due N e"
| "queued_due N (QueueFailed c e) = (case e of None \<Rightarrow> True | Some e' \<Rightarrow> due N e')"

inductive net_step :: "bool \<Rightarrow> Network \<Rightarrow> Network \<Rightarrow> bool" for debug where
  completion: "net_fault N = None \<Longrightarrow> queued_due N q \<Longrightarrow> IocpCore_Dispatch debug A q N = Some (b, N') \<Longrightarrow>
    net_step debug N N'"
| send: "net_fault N = None \<Longrightarrow> net_sessions N i \<noteq> None \<Longrightarrow> net_step debug N (net_send debug A i buf N)"

inductive net_reachable :: "bool \<Rightarrow> Network \<Rightarrow> bool" for debug where
  start: "ServerService_Start True oks att (Network_new n) = Some (True, N) \<Longrightarrow> net_reachable debug N"
| step: "net_reachable debug N \<Longrightarrow> net_step debug N N' \<Longrightarrow> net_reachable debug N'"

section \<open>The invariant\<close>

definition listening :: "Network \<Rightarrow> bool" where
  "listening N \<longleftrightarrow> accepts N = 1 \<and> (\<exists>i s. pending N = Some i \<and> net_sessions N i = Some s \<and> \<not> connected s)"

definition counted :: "bool \<Rightarrow> Network \<Rightarrow> bool" where
  "counted debug N \<longleftrightarrow>
     (\<forall>i s. net_sessions N i = Some s \<longrightarrow> i < made N \<and> \<not> connectOwner s)
     \<and> sessionCount (net_service N) = int (card (live N))
     \<and> live N \<subseteq> sessions (net_service N) \<and> (debug \<longrightarrow> sessions (net_service N) = live N)
     \<and> net_fault N \<noteq> Some AssertFails"

definition net_inv :: "bool \<Rightarrow> Network \<Rightarrow> bool" where
  "net_inv debug N \<longleftrightarrow> counted debug N \<and> (net_fault N = None \<longrightarrow> listening N)"

lemma live_bound: "counted debug N \<Longrightarrow> live N \<subseteq> {..<made N}"
  by (auto simp: counted_def live_def)

lemma finite_live: "counted debug N \<Longrightarrow> finite (live N)"
  using live_bound finite_subset by blast

lemma card_live: "counted debug N \<Longrightarrow> card (live N) \<le> made N"
  using card_mono [OF _ live_bound] by (metis card_lessThan finite_lessThan)

lemma live_upd [simp]:
  "live (N\<lparr>net_service := x1\<rparr>) = live N" "live (N\<lparr>made := x2\<rparr>) = live N" "live (N\<lparr>pending := x3\<rparr>) = live N"
  "live (N\<lparr>accepts := x4\<rparr>) = live N" "live (fail f N) = live N" "live (N\<lparr>net_fault := x5\<rparr>) = live N"
  by (simp_all add: live_def fail_def)

lemma live_put:
  "live (N\<lparr>net_sessions := (net_sessions N)(i \<mapsto> s)\<rparr>) = (if connected s then insert i (live N) else live N - {i})"
  by (auto simp: live_def)

lemma fail_frame [simp]:
  "net_service (fail f N) = net_service N" "net_sessions (fail f N) = net_sessions N" "made (fail f N) = made N"
  "pending (fail f N) = pending N" "accepts (fail f N) = accepts N"
  "net_fault (fail f N) = Some f \<or> net_fault (fail f N) = net_fault N" "net_fault (fail f N) \<noteq> None"
  by (auto simp: fail_def)

lemma counted_fail: "counted debug N \<Longrightarrow> f \<noteq> AssertFails \<Longrightarrow> counted debug (fail f N)"
  by (simp add: counted_def) (simp add: fail_def)

lemma counted_upd [simp]:
  "counted debug (N\<lparr>pending := x3\<rparr>) = counted debug N" "counted debug (N\<lparr>accepts := x4\<rparr>) = counted debug N"
  by (simp_all add: counted_def)

section \<open>Running the calls of a session operation\<close>

lemma service_calls_part:
  "fold (service_call debug i) cs N = fold (service_call debug i) (service_part cs) N"
proof (induction cs arbitrary: N)
  case (Cons c cs)
  then show ?case by (cases c) (simp_all add: service_part_def)
qed (simp add: service_part_def)

lemma wrap32_card: "int n \<le> 2147483647 \<Longrightarrow> wrap32 (int n) = int n"
  by (simp add: in32_def)

definition same_net :: "Network \<Rightarrow> Network \<Rightarrow> bool" where
  "same_net N N' \<longleftrightarrow> net_sessions N' = net_sessions N \<and> made N' = made N \<and> pending N' = pending N
     \<and> accepts N' = accepts N \<and> net_fault N' = net_fault N"

lemma run_session_closes:
  assumes c: "counted debug N" and b: "made N \<le> 2147483647" and s: "net_sessions N i = Some s" and cl: "closes s s'"
  shows "counted debug (run_session debug i s s' N)
    \<and> same_net (N\<lparr>net_sessions := (net_sessions N)(i \<mapsto> s')\<rparr>) (run_session debug i s s' N)"
proof -
  let ?M = "N\<lparr>net_sessions := (net_sessions N)(i \<mapsto> s')\<rparr>"
  from cl obtain cs where cs: "calls s' = calls s @ cs"
    "service_part cs = (if connected s \<and> \<not> connected s' then [CallReleaseSession] else [])"
    and own: "connectOwner s' \<Longrightarrow> connectOwner s" "connected s' \<Longrightarrow> connected s"
    by (auto simp: closes_def)
  have run: "run_session debug i s s' N = fold (service_call debug i) (service_part cs) ?M"
    using service_calls_part [of debug i cs ?M] by (simp add: run_session_def cs(1))
  have i: "i < made N" "\<not> connectOwner s" using c s by (auto simp: counted_def)
  show ?thesis
  proof (cases "connected s \<and> \<not> connected s'")
    case True
    then have mem: "i \<in> live N" using s by (simp add: live_def)
    then have pos: "0 < card (live N)" using finite_live [OF c] by (auto simp: card_gt_0_iff)
    have w: "wrap32 (int (card (live N)) - 1) = int (card (live N - {i}))"
      using pos mem b card_live [OF c] by (simp add: of_nat_diff in32_def card_Diff_singleton)
    have "sessions (net_service N) = live N" if debug using c that by (simp add: counted_def)
    with True mem w c i s own show ?thesis
      by (auto simp: run cs(2) ReleaseSession_def counted_def same_net_def live_put)
  next
    case False
    then have "live ?M = live N" using s own(2) by (auto simp: live_put) (auto simp: live_def)
    with False c i own(1) show ?thesis by (auto simp: run cs(2) counted_def same_net_def)
  qed
qed

lemma run_session_connects:
  assumes c: "counted debug N" and b: "made N \<le> 2147483647" and s: "net_sessions N i = Some s" "\<not> connected s"
  shows "counted debug (run_session debug i s (ProcessConnect ok r rd s) N)
    \<and> same_net (N\<lparr>net_sessions := (net_sessions N)(i \<mapsto> ProcessConnect ok r rd s)\<rparr>)
        (run_session debug i s (ProcessConnect ok r rd s) N)"
proof -
  define s' where "s' = ProcessConnect ok r rd s"
  let ?M = "N\<lparr>net_sessions := (net_sessions N)(i \<mapsto> s')\<rparr>"
  have i: "i < made N" "\<not> connectOwner s" using c s by (auto simp: counted_def)
  from ProcessConnect_tracks [OF s(2) i(2), of ok r rd] obtain cs where cs: "calls s' = calls s @ cs" "\<not> connectOwner s'"
    "service_part cs = [CallAddSession] \<and> connected s' \<or> service_part cs = [CallAddSession, CallReleaseSession] \<and> \<not> connected s'
     \<or> service_part cs = [] \<and> \<not> connected s'"
    by (auto simp: s'_def)
  have run: "run_session debug i s s' N = fold (service_call debug i) (service_part cs) ?M"
    using service_calls_part [of debug i cs ?M] by (simp add: run_session_def cs(1))
  have out: "i \<notin> live N" using s by (simp add: live_def)
  have "card (insert i (live N)) \<le> card {..<made N}"
    using live_bound [OF c] i(1) by (intro card_mono) auto
  then have "Suc (card (live N)) \<le> made N" using out finite_live [OF c] by simp
  then have w: "wrap32 (int (card (live N)) + 1) = int (card (live N)) + 1" "wrap32 (int (card (live N))) = int (card (live N))"
    using b by (simp_all add: in32_def)
  from cs(3) have "counted debug (run_session debug i s s' N) \<and> same_net ?M (run_session debug i s s' N)"
  proof (elim disjE conjE)
    assume "service_part cs = [CallAddSession]" "connected s'"
    with c i cs(2) w out finite_live [OF c] show ?thesis
      by (auto simp: run AddSession_def counted_def same_net_def live_put)
  next
    assume "service_part cs = [CallAddSession, CallReleaseSession]" "\<not> connected s'"
    with c i cs(2) w out finite_live [OF c] show ?thesis
      by (auto simp: run AddSession_def ReleaseSession_def counted_def same_net_def live_put)
  next
    assume "service_part cs = []" "\<not> connected s'"
    with c i cs(2) out show ?thesis
      by (auto simp: run counted_def same_net_def live_put)
  qed
  then show ?thesis by (simp add: s'_def)
qed

section \<open>Accepting\<close>

lemmas RegisterAccept_cases = RegisterAccept.simps [unfolded CreateSession_def Let_def]

lemma counted_made: "counted debug N \<Longrightarrow> counted debug (N\<lparr>made := Suc (made N)\<rparr>)"
  by (auto simp: counted_def intro: less_SucI)

lemma counted_new:
  assumes "counted debug N"
  shows "counted debug (N\<lparr>made := Suc (made N), net_sessions := (net_sessions N)(made N \<mapsto> Session_new), pending := p\<rparr>)"
proof -
  have "made N \<notin> live N" using live_bound [OF assms] by auto
  then have "live (N\<lparr>net_sessions := (net_sessions N)(made N \<mapsto> Session_new)\<rparr>) = live N"
    by (simp add: live_put Session_new_def)
  then have "live (N\<lparr>made := Suc (made N), net_sessions := (net_sessions N)(made N \<mapsto> Session_new), pending := p\<rparr>) = live N"
    by (simp add: live_def)
  with assms show ?thesis by (auto simp: counted_def Session_new_def intro: less_SucI)
qed

lemma RegisterAccept_result:
  assumes "RegisterAccept att n N = Some N'" "counted debug N"
  shows "counted debug N' \<and> made N < made N'
    \<and> (net_fault N' = None \<longrightarrow> net_fault N = None \<and> accepts N' = accepts N + 1
         \<and> (\<exists>i s. pending N' = Some i \<and> net_sessions N' i = Some s \<and> \<not> connected s))"
  using assms
proof (induction att n N N' rule: RegisterAccept.raw_induct [rotated, consumes 1, case_names unfold])
  case (unfold rec att n N N')
  show ?case
  proof (cases "fst (att n)")
    case False
    then have "N' = fail NullSession (N\<lparr>made := Suc (made N), pending := None\<rparr>)"
      using unfold.hyps by (simp add: CreateSession_def Let_def)
    then show ?thesis using unfold.prems by (simp add: counted_fail counted_made)
  next
    case True
    let ?M = "N\<lparr>made := Suc (made N), net_sessions := (net_sessions N)(made N \<mapsto> Session_new), pending := Some (made N)\<rparr>"
    have c: "counted debug ?M" by (rule counted_new [OF unfold.prems])
    show ?thesis
    proof (cases "wsa_failed (snd (att n))")
      case True
      with \<open>fst (att n)\<close> have "rec att (n + 1) ?M = Some N'"
        using unfold.hyps by (simp add: CreateSession_def Let_def)
      from unfold.IH [OF this c] show ?thesis by auto
    next
      case False
      with True have "N' = ?M\<lparr>accepts := accepts N + 1\<rparr>"
        using unfold.hyps by (simp add: CreateSession_def Let_def)
      with c show ?thesis by (simp add: Session_new_def)
    qed
  qed
qed

lemma RegisterAccept_returns:
  assumes "\<not> fst (att k) \<or> \<not> wsa_failed (snd (att k))" "n \<le> k"
  shows "\<exists>N'. RegisterAccept att n N = Some N'"
  using assms
proof (induction "k - n" arbitrary: n N)
  case 0
  then show ?case using RegisterAccept_cases [of att n N] by auto
next
  case (Suc d)
  then have "d = k - Suc n" "Suc n \<le> k" by simp_all
  with Suc.hyps(1) [of "Suc n"] Suc.prems(1) show ?case
    using RegisterAccept_cases [of att n N] by (cases "fst (att n) \<and> wsa_failed (snd (att n))") auto
qed

lemma RegisterAccept_stops:
  assumes "RegisterAccept att n N = Some N'"
  shows "\<exists>k\<ge>n. \<not> fst (att k) \<or> \<not> wsa_failed (snd (att k))"
  using assms
proof (induction att n N N' rule: RegisterAccept.raw_induct [rotated, consumes 1, case_names unfold])
  case (unfold rec att n N N')
  show ?case
  proof (cases "fst (att n) \<and> wsa_failed (snd (att n))")
    case True
    then obtain M where "rec att (n + 1) M = Some N'"
      using unfold.hyps by (auto simp: CreateSession_def Let_def)
    from unfold.IH [OF this] show ?thesis by (meson add_leD1)
  qed auto
qed

section \<open>The steps keep the invariant\<close>

definition ready :: "bool \<Rightarrow> Network \<Rightarrow> bool" where
  "ready debug N \<longleftrightarrow> counted debug N \<and> listening N \<and> net_fault N = None"

text \<open>What a handler may do to a network that is ready: keep it ready, or fail otherwise than by the assertion.\<close>

definition kept :: "bool \<Rightarrow> Network \<Rightarrow> Network \<Rightarrow> bool" where
  "kept debug N N' \<longleftrightarrow> net_inv debug N' \<and> made N \<le> made N'"

lemma listening_same_net: "same_net M N \<Longrightarrow> listening M \<Longrightarrow> listening N"
  by (simp add: same_net_def listening_def)

lemma kept_fail: "ready debug N \<Longrightarrow> f \<noteq> AssertFails \<Longrightarrow> kept debug N (fail f N)"
  by (simp add: kept_def net_inv_def ready_def counted_fail)

lemma kept_closes:
  assumes "ready debug N" "made N \<le> 2147483647" "net_sessions N i = Some s" "closes s s'"
  shows "kept debug N (run_session debug i s s' N)"
proof -
  have "listening (N\<lparr>net_sessions := (net_sessions N)(i \<mapsto> s')\<rparr>)"
    using assms(1,3,4) by (auto simp: ready_def listening_def closes_def)
  with run_session_closes [OF _ assms(2,3,4)] assms(1) listening_same_net show ?thesis
    by (fastforce simp: kept_def net_inv_def ready_def same_net_def)
qed

lemma kept_accept:
  assumes "counted debug N" "net_fault N = None" "accepts N = 0" "RegisterAccept att n N = Some N'"
  shows "kept debug N N'"
  using RegisterAccept_result [OF assms(4,1)] assms(2,3)
  by (auto simp: kept_def net_inv_def listening_def)

lemma kept_ProcessAccept:
  assumes r: "ready debug N" and b: "made N \<le> 2147483647" and i: "pending N = Some i"
    and p: "ProcessAccept debug A i (N\<lparr>accepts := accepts N - 1, pending := None\<rparr>) = Some N'"
  shows "kept debug N N'"
proof -
  let ?M = "N\<lparr>accepts := accepts N - 1, pending := None\<rparr>"
  from r i obtain s where s: "net_sessions N i = Some s" "\<not> connected s" by (auto simp: ready_def listening_def)
  have M: "counted debug ?M" "net_fault ?M = None" "accepts ?M = 0" "made ?M = made N" "net_sessions ?M i = Some s"
    using r s by (simp_all add: ready_def listening_def)
  show ?thesis
  proof (cases "\<not> update_ok A \<or> \<not> peer_ok A")
    case True
    with p s have "RegisterAccept (attempt A) 0 ?M = Some N'" by (auto simp: ProcessAccept_def)
    from kept_accept [OF M(1-3) this] show ?thesis by (simp add: kept_def)
  next
    case False
    let ?R = "run_session debug i s (ProcessConnect (overlapped_ok A) (wsa_main A) (wsa_disconnect A) s) ?M"
    from False p s have reg: "RegisterAccept (attempt A) 0 ?R = Some N'" by (simp add: ProcessAccept_def)
    have c: "counted debug ?R" and "net_fault ?R = None" "accepts ?R = 0" "made ?R = made N"
      using run_session_connects [OF M(1) _ M(5) s(2)] M b by (simp_all add: same_net_def)
    from kept_accept [OF this(1-3) reg] \<open>made ?R = made N\<close> show ?thesis by (simp add: kept_def)
  qed
qed

lemma kept_owner_Dispatch:
  assumes r: "ready debug N" and b: "made N \<le> 2147483647" and d: "due N e" and o: "owner_Dispatch debug A e N = Some N'"
  shows "kept debug N N'"
proof (cases e)
  case AcceptDone
  from r obtain i where "pending N = Some i" by (auto simp: ready_def listening_def)
  with kept_ProcessAccept [OF r b] o AcceptDone show ?thesis by simp
next
  case (SessionDone i ev)
  with d obtain s where s: "net_sessions N i = Some s" by (auto split: option.splits)
  with r have "\<not> connectOwner s" by (auto simp: ready_def counted_def)
  with d s SessionDone have ev: "\<forall>ok. ev \<noteq> ConnectDone ok" by auto
  show ?thesis
  proof (cases "Session_Dispatch ev (wsa_main A) (wsa_disconnect A) s")
    case (Inl f)
    with o s SessionDone have "N' = fail (RecvFault f) N" by simp
    then show ?thesis using kept_fail [OF r] by simp
  next
    case (Inr s')
    with o s SessionDone have "N' = run_session debug i s s' N" by simp
    then show ?thesis using kept_closes [OF r b s closes_Dispatch [OF Inr ev]] by simp
  qed
qed

lemma net_step_kept:
  assumes "net_step debug N N'" "net_inv debug N" "made N \<le> 2147483647"
  shows "kept debug N N'"
  using assms
proof (induction rule: net_step.induct)
  case (completion N q A b N')
  then have r: "ready debug N" by (simp add: net_inv_def ready_def)
  show ?case
  proof (cases q)
    case (Dequeued e)
    with completion kept_owner_Dispatch [OF r, of e A N'] show ?thesis by (auto simp: IocpCore_Dispatch_def)
  next
    case (QueueFailed c e)
    show ?thesis
    proof (cases "c = WAIT_TIMEOUT")
      case True
      with QueueFailed completion show ?thesis by (auto simp: IocpCore_Dispatch_def kept_def)
    next
      case False
      with QueueFailed completion kept_owner_Dispatch [OF r, of _ A N'] kept_fail [OF r, of NullEvent] show ?thesis
        by (auto simp: IocpCore_Dispatch_def split: option.splits)
    qed
  qed
next
  case (send N i A buf)
  then have r: "ready debug N" by (simp add: net_inv_def ready_def)
  from send obtain s where s: "net_sessions N i = Some s" by auto
  with kept_closes [OF r send.prems(2) s closes_Send] show ?case by (simp add: net_send_def)
qed

lemma net_inv_start:
  assumes "ServerService_Start True oks att (Network_new n) = Some (True, N)"
  shows "net_inv debug N"
proof -
  have "counted debug (Network_new n)" by (simp add: counted_def Network_new_def Service_new_def live_def)
  moreover have "RegisterAccept att 0 (Network_new n) = Some N"
    using assms by (auto simp: ServerService_Start_def StartAccept_def split: if_splits)
  ultimately show ?thesis using kept_accept [of debug "Network_new n"]
    by (auto simp: kept_def Network_new_def)
qed

text \<open>Sessions are only ever made, whatever the state.\<close>

lemma service_call_made [simp]: "made (service_call debug i c N) = made N"
  by (cases c) (auto split: option.splits)

lemma run_session_made [simp]: "made (run_session debug i s s' N) = made N"
proof -
  have "made (fold (service_call debug i) cs M) = made M" for cs M
    by (induction cs arbitrary: M) simp_all
  then show ?thesis by (simp add: run_session_def)
qed

lemma RegisterAccept_made: "RegisterAccept att n N = Some N' \<Longrightarrow> made N \<le> made N'"
proof (induction att n N N' rule: RegisterAccept.raw_induct [rotated, consumes 1, case_names unfold])
  case (unfold rec att n N N')
  then show ?case by (fastforce simp: CreateSession_def Let_def split: if_splits)
qed

lemma owner_Dispatch_made: "owner_Dispatch debug A e N = Some N' \<Longrightarrow> made N \<le> made N'"
  by (cases e) (auto simp: ProcessAccept_def dest!: RegisterAccept_made split: option.splits sum.splits if_splits)

lemma net_step_made: "net_step debug N N' \<Longrightarrow> made N \<le> made N'"
  by (induction rule: net_step.induct)
    (auto simp: IocpCore_Dispatch_def net_send_def owner_Dispatch_made split: queued.splits option.splits if_splits)

lemma net_reachable_inv: "net_reachable debug N \<Longrightarrow> made N \<le> 2147483647 \<Longrightarrow> net_inv debug N"
proof (induction rule: net_reachable.induct)
  case (start oks att n N)
  from start(1) show ?case by (rule net_inv_start)
next
  case (step N N')
  from net_step_made [OF step(2)] step(4) have "made N \<le> 2147483647" by simp
  with step net_step_kept show ?case by (simp add: kept_def)
qed

section \<open>The service\<close>

text \<open>
  C28. Whatever completions, failures and sends a server service goes through, in whatever order, the sessions its set and its
  counter account for are exactly the connected ones (in a build without assertions the set keeps every session it ever had);
  and as long as no handler failed, exactly one \<open>AcceptEx\<close> is outstanding, with a session that is not connected.
\<close>

theorem service_holds_the_connected_sessions:
  assumes "net_reachable debug N" "made N \<le> 2147483647"
  shows "sessionCount (net_service N) = int (card (live N))
    \<and> live N \<subseteq> sessions (net_service N) \<and> (debug \<longrightarrow> sessions (net_service N) = live N)
    \<and> net_fault N \<noteq> Some AssertFails
    \<and> (net_fault N = None \<longrightarrow> accepts N = 1
        \<and> (\<exists>i s. pending N = Some i \<and> net_sessions N i = Some s \<and> \<not> connected s))"
  using net_reachable_inv [OF assms] by (simp add: net_inv_def counted_def listening_def)

text \<open>
  C30. Arming the listener ends exactly if some attempt finds its \<open>AcceptEx\<close> accepted or its session refused by the port. While
  \<open>AcceptEx\<close> keeps failing the calls nest without end; when it ends without a fault one \<open>AcceptEx\<close> more is outstanding.
\<close>

theorem RegisterAccept_ends_iff:
  assumes "counted debug N"
  shows "((\<exists>N'. RegisterAccept att 0 N = Some N') \<longleftrightarrow> (\<exists>k. \<not> fst (att k) \<or> \<not> wsa_failed (snd (att k))))
    \<and> (\<forall>N'. RegisterAccept att 0 N = Some N' \<longrightarrow> net_fault N' = None \<longrightarrow> accepts N' = accepts N + 1)"
proof (intro conjI iffI allI impI)
  assume "\<exists>N'. RegisterAccept att 0 N = Some N'"
  then obtain N' where "RegisterAccept att 0 N = Some N'" ..
  from RegisterAccept_stops [OF this] show "\<exists>k. \<not> fst (att k) \<or> \<not> wsa_failed (snd (att k))" by auto
next
  assume "\<exists>k. \<not> fst (att k) \<or> \<not> wsa_failed (snd (att k))"
  then obtain k where "\<not> fst (att k) \<or> \<not> wsa_failed (snd (att k))" ..
  then show "\<exists>N'. RegisterAccept att 0 N = Some N'" by (rule RegisterAccept_returns) simp
next
  fix N' assume "RegisterAccept att 0 N = Some N'" "net_fault N' = None"
  with RegisterAccept_result [OF _ assms] show "accepts N' = accepts N + 1" by simp
qed

section \<open>A run\<close>

text \<open>A client connects to a listener that has just been started, and closes the connection.\<close>

definition all_well :: Answers where
  "all_well = \<lparr>attempt = (\<lambda>n. (True, WsaError WSA_IO_PENDING)), update_ok = True, peer_ok = True, overlapped_ok = True,
     wsa_main = WsaOk, wsa_disconnect = WsaOk\<rparr>"

definition arm :: "Network \<Rightarrow> Network" where
  "arm N = N\<lparr>made := made N + 1, net_sessions := (net_sessions N)(made N \<mapsto> Session_new), pending := Some (made N),
     accepts := accepts N + 1\<rparr>"

lemma arm_all_well: "RegisterAccept (attempt all_well) 0 N = Some (arm N)"
proof -
  have "fst (attempt all_well 0)" "\<not> wsa_failed (snd (attempt all_well 0))" by (simp_all add: all_well_def wsa_failed_def)
  then show ?thesis by (subst RegisterAccept.simps) (simp add: CreateSession_def Let_def arm_def)
qed

definition welcomed :: Session where
  "welcomed = Session_new\<lparr>connected := True, recvOwner := True,
     calls := [CallAddSession, CallOnConnected, CallWSARecv (FreeSize (RecvBuffer_new BUFFER_SIZE))]\<rparr>"

lemma welcomed: "ProcessConnect True WsaOk WsaOk Session_new = welcomed"
  by (simp add: ProcessConnect_def RegisterRecv_def call_def wsa_failed_def Session_new_def welcomed_def)

definition after_accept :: Network where
  "after_accept = arm (run_session True 0 Session_new welcomed ((arm (Network_new 10))\<lparr>accepts := 0, pending := None\<rparr>))"

lemma after_accept_reachable: "net_reachable True after_accept"
proof (rule net_reachable.step)
  show "net_reachable True (arm (Network_new 10))"
    by (rule net_reachable.start [of "[]" "attempt all_well" 10])
      (simp add: ServerService_Start_def StartAccept_def arm_all_well)
  have "ProcessAccept True all_well 0 ((arm (Network_new 10))\<lparr>accepts := 0, pending := None\<rparr>) = Some after_accept"
  proof -
    have "net_sessions ((arm (Network_new 10))\<lparr>accepts := 0, pending := None\<rparr>) 0 = Some Session_new"
      by (simp add: arm_def Network_new_def)
    moreover have "update_ok all_well" "peer_ok all_well"
      "ProcessConnect (overlapped_ok all_well) (wsa_main all_well) (wsa_disconnect all_well) Session_new = welcomed"
      by (simp_all add: all_well_def welcomed)
    ultimately show ?thesis by (simp add: ProcessAccept_def arm_all_well after_accept_def)
  qed
  then have "owner_Dispatch True all_well AcceptDone (arm (Network_new 10)) = Some after_accept"
    by (simp add: arm_def Network_new_def)
  then have "IocpCore_Dispatch True all_well (Dequeued AcceptDone) (arm (Network_new 10)) = Some (True, after_accept)"
    by (simp add: IocpCore_Dispatch_def)
  then show "net_step True (arm (Network_new 10)) after_accept"
    by (rule net_step.completion [rotated 2]) (simp_all add: arm_def Network_new_def)
qed

theorem service_holds_the_connected_sessions_witness:
  "sessions (net_service after_accept) = live after_accept \<and> live after_accept = {0}"
proof -
  have a: "made after_accept = 2" "live after_accept = {0}"
    by (auto simp: after_accept_def arm_def Network_new_def run_session_def live_def welcomed_def Session_new_def split: if_splits)
  from service_holds_the_connected_sessions [OF after_accept_reachable] a show ?thesis by simp
qed

theorem RegisterAccept_ends_iff_witness:
  "RegisterAccept (\<lambda>n. (True, WsaError 10093)) 0 (Network_new 10) = None
   \<and> RegisterAccept (\<lambda>n. (True, if n < 3 then WsaError 10093 else WsaOk)) 0 (Network_new 10) \<noteq> None"
proof -
  have c: "counted True (Network_new 10)" by (simp add: counted_def Network_new_def Service_new_def live_def)
  have e: "wsa_failed (WsaError 10093)" "\<not> wsa_failed WsaOk" by (simp_all add: wsa_failed_def WSA_IO_PENDING_def)
  from RegisterAccept_ends_iff [OF c, of "\<lambda>n. (True, WsaError 10093)"]
    RegisterAccept_ends_iff [OF c, of "\<lambda>n. (True, if n < 3 then WsaError 10093 else WsaOk)"] e
  show ?thesis by (auto intro!: exI [of _ 3])
qed

end
