(* ===== verification/ClientSprite.thy ===== *)
theory ClientSprite
  imports Objects Tilemap
begin

text \<open>
  What the client's actors are on the screen: where their sprites are, which flipbook they play and at which frame, and how a
  frame moves them. A \<open>float\<close> is an exact fraction here; a square root, which is none, is rounded down to a \<open>2\<^sup>-\<^sup>12\<close> part of a
  pixel, the least step a \<open>float\<close> has at the map's far end.
\<close>

section \<open>Vectors\<close>

datatype Vec2 = Pos (px: rat) (py: rat)

instantiation Vec2 :: "{plus, minus}"
begin

definition plus_Vec2 :: "Vec2 \<Rightarrow> Vec2 \<Rightarrow> Vec2" where
  "plus_Vec2 a b = Pos (px a + px b) (py a + py b)"

definition minus_Vec2 :: "Vec2 \<Rightarrow> Vec2 \<Rightarrow> Vec2" where
  "minus_Vec2 a b = Pos (px a - px b) (py a - py b)"

instance ..

end

lemma Vec2_simps [simp]:
  "px (a + b) = px a + px b" "py (a + b) = py a + py b" "px (a - b) = px a - px b" "py (a - b) = py a - py b"
  by (simp_all add: plus_Vec2_def minus_Vec2_def)

definition Vec2_scale :: "Vec2 \<Rightarrow> rat \<Rightarrow> Vec2" where
  "Vec2_scale v k = Pos (px v * k) (py v * k)"

definition Vec2_LengthSquared :: "Vec2 \<Rightarrow> rat" where
  "Vec2_LengthSquared v = px v * px v + py v * py v"

text \<open>The root of a natural number, two bits of it at a time.\<close>

fun isqrt :: "nat \<Rightarrow> nat" where
  "isqrt n = (if n = 0 then 0 else let r = 2 * isqrt (n div 4) in if (r + 1) * (r + 1) \<le> n then r + 1 else r)"

declare isqrt.simps [simp del]

definition float_sqrt :: "rat \<Rightarrow> rat" where
  "float_sqrt q = of_nat (isqrt (nat \<lfloor>q * 16777216\<rfloor>)) / 4096"

definition Length :: "Vec2 \<Rightarrow> rat" where
  "Length v = float_sqrt (Vec2_LengthSquared v)"

text \<open>\<open>(int32) x\<close> of a \<open>float\<close>\<close>

definition int_of_float :: "rat \<Rightarrow> int32" where
  "int_of_float x = (if x < 0 then - \<lfloor>- x\<rfloor> else \<lfloor>x\<rfloor>)"

section \<open>Flipbooks\<close>

record FlipbookInfo =
  fb_texture :: string
  fb_name :: string
  fb_size :: Vec2Int
  fb_start :: int32
  fb_end :: int32
  fb_line :: int32
  fb_duration :: rat
  fb_loop :: bool

text \<open>
  The flipbooks of \<open>LoadFlipbooks\<close>, all of half a second. They have different names and nothing changes them, so a pointer to
  one is as good as its record.
\<close>

definition book :: "string \<Rightarrow> string \<Rightarrow> int32 \<times> int32 \<Rightarrow> int32 \<Rightarrow> int32 \<Rightarrow> int32 \<Rightarrow> bool \<Rightarrow> FlipbookInfo" where
  "book texture name sz start stop line loop =
     \<lparr>fb_texture = texture, fb_name = name, fb_size = Vec (fst sz) (snd sz), fb_start = start, fb_end = stop, fb_line = line,
      fb_duration = 1 / 2, fb_loop = loop\<rparr>"

definition LoadFlipbooks :: "FlipbookInfo list" where
  "LoadFlipbooks =
     [book ''PlayerUp'' ''FB_IdleUp'' (200, 200) 0 9 0 True,
      book ''PlayerDown'' ''FB_IdleDown'' (200, 200) 0 9 0 True,
      book ''PlayerLeft'' ''FB_IdleLeft'' (200, 200) 0 9 0 True,
      book ''PlayerRight'' ''FB_IdleRight'' (200, 200) 0 9 0 True,
      book ''PlayerUp'' ''FB_MoveUp'' (200, 200) 0 9 1 True,
      book ''PlayerDown'' ''FB_MoveDown'' (200, 200) 0 9 1 True,
      book ''PlayerLeft'' ''FB_MoveLeft'' (200, 200) 0 9 1 True,
      book ''PlayerRight'' ''FB_MoveRight'' (200, 200) 0 9 1 True,
      book ''PlayerUp'' ''FB_AttackUp'' (200, 200) 0 7 3 False,
      book ''PlayerDown'' ''FB_AttackDown'' (200, 200) 0 7 3 False,
      book ''PlayerLeft'' ''FB_AttackLeft'' (200, 200) 0 7 3 False,
      book ''PlayerRight'' ''FB_AttackRight'' (200, 200) 0 7 3 False,
      book ''PlayerUp'' ''FB_BowUp'' (200, 200) 0 7 5 False,
      book ''PlayerDown'' ''FB_BowDown'' (200, 200) 0 7 5 False,
      book ''PlayerLeft'' ''FB_BowLeft'' (200, 200) 0 7 5 False,
      book ''PlayerRight'' ''FB_BowRight'' (200, 200) 0 7 5 False,
      book ''PlayerUp'' ''FB_StaffUp'' (200, 200) 0 10 6 False,
      book ''PlayerDown'' ''FB_StaffDown'' (200, 200) 0 10 6 False,
      book ''PlayerLeft'' ''FB_StaffLeft'' (200, 200) 0 10 6 False,
      book ''PlayerRight'' ''FB_StaffRight'' (200, 200) 0 10 6 False,
      book ''Snake'' ''FB_SnakeUp'' (100, 100) 0 3 3 True,
      book ''Snake'' ''FB_SnakeDown'' (100, 100) 0 3 0 True,
      book ''Snake'' ''FB_SnakeLeft'' (100, 100) 0 3 2 True,
      book ''Snake'' ''FB_SnakeRight'' (100, 100) 0 3 1 True,
      book ''Octoroc'' ''FB_OctorocUp'' (100, 100) 0 3 3 True,
      book ''Octoroc'' ''FB_OctorocDown'' (100, 100) 0 3 0 True,
      book ''Octoroc'' ''FB_OctorocLeft'' (100, 100) 0 3 2 True,
      book ''Octoroc'' ''FB_OctorocRight'' (100, 100) 0 3 1 True,
      book ''Arrow'' ''FB_ArrowUp'' (100, 100) 0 0 3 True,
      book ''Arrow'' ''FB_ArrowDown'' (100, 100) 0 0 0 True,
      book ''Arrow'' ''FB_ArrowLeft'' (100, 100) 0 0 1 True,
      book ''Arrow'' ''FB_ArrowRight'' (100, 100) 0 0 2 True,
      book ''Hit'' ''FB_Hit'' (50, 47) 0 5 0 False,
      book ''Explode'' ''FB_Explode'' (144, 144) 0 11 0 False]"

definition GetFlipbook :: "string \<Rightarrow> FlipbookInfo option" where
  "GetFlipbook key = find (\<lambda>b. fb_name b = key) LoadFlipbooks"

section \<open>FlipbookActor\<close>

text \<open>An actor's place on the screen, the place it is on the way to, and its animation.\<close>

record Sprite =
  s_pos :: Vec2
  s_dest :: Vec2
  s_flipbook :: "FlipbookInfo option"
  s_sumTime :: rat
  s_idx :: int32

definition Sprite_new :: "Vec2 \<Rightarrow> Sprite" where
  "Sprite_new p = \<lparr>s_pos = p, s_dest = p, s_flipbook = None, s_sumTime = 0, s_idx = 0\<rparr>"

definition FlipbookActor_Tick :: "rat \<Rightarrow> Sprite \<Rightarrow> Sprite" where
  "FlipbookActor_Tick deltaTime s =
     (case s_flipbook s of
        None \<Rightarrow> s
      | Some b \<Rightarrow>
          if \<not> fb_loop b \<and> s_idx s = fb_end b then s
          else let frameCount = fb_end b - fb_start b + 1; delta = fb_duration b / of_int frameCount;
                   sum' = s_sumTime s + deltaTime
               in if sum' \<ge> delta then s\<lparr>s_sumTime := 0, s_idx := (s_idx s + 1) mod frameCount\<rparr>
                  else s\<lparr>s_sumTime := sum'\<rparr>)"

text \<open>\<open>Reset\<close> dereferences the flipbook, which \<open>SetFlipbook\<close> may just have set to null: \<open>None\<close>.\<close>

definition Flipbook_Reset :: "Sprite \<Rightarrow> Sprite option" where
  "Flipbook_Reset s =
     (case s_flipbook s of None \<Rightarrow> None | Some b \<Rightarrow> Some (s\<lparr>s_sumTime := 0, s_idx := fb_start b\<rparr>))"

definition SetFlipbook :: "FlipbookInfo option \<Rightarrow> Sprite \<Rightarrow> Sprite option" where
  "SetFlipbook b s =
     (if b \<noteq> None \<and> s_flipbook s = b then Some s else Flipbook_Reset (s\<lparr>s_flipbook := b\<rparr>))"

definition IsAnimationEnded :: "Sprite \<Rightarrow> bool" where
  "IsAnimationEnded s = (case s_flipbook s of None \<Rightarrow> True | Some b \<Rightarrow> \<not> fb_loop b \<and> s_idx s = fb_end b)"

text \<open>The column of the texture that \<open>Render\<close> copies, and the place on the screen it copies it to.\<close>

definition drawn_frame :: "FlipbookInfo \<Rightarrow> Sprite \<Rightarrow> int32" where
  "drawn_frame b s = fb_start b + s_idx s"

definition GWinSizeX :: int32 where [simp]: "GWinSizeX = 800"
definition GWinSizeY :: int32 where [simp]: "GWinSizeY = 600"

definition draw_pos :: "Vec2 \<Rightarrow> Vec2Int \<Rightarrow> Vec2 \<Rightarrow> Vec2Int" where
  "draw_pos camera sz pos =
     Vec (int_of_float (px pos) - trunc_div (vx sz) 2 - (int_of_float (px camera) - GWinSizeX div 2))
       (int_of_float (py pos) - trunc_div (vy sz) 2 - (int_of_float (py camera) - GWinSizeY div 2))"

section \<open>Moving\<close>

text \<open>The middle of a cell; the map's actor stands at the origin.\<close>

definition ConvertPos :: "Tilemap \<Rightarrow> Vec2Int \<Rightarrow> Vec2" where
  "ConvertPos tm cell =
     (let size = tileSize tm
      in Pos (of_int (vx cell * size + trunc_div size 2)) (of_int (vy cell * size + trunc_div size 2)))"

definition GetWorldPixelSize :: "Tilemap \<Rightarrow> Vec2Int" where
  "GetWorldPixelSize tm = Vec (vx (mapSize tm) * tileSize tm) (vy (mapSize tm) * tileSize tm)"

definition SetCellPos_sprite :: "Tilemap \<Rightarrow> Vec2Int \<Rightarrow> bool \<Rightarrow> Sprite \<Rightarrow> Sprite" where
  "SetCellPos_sprite tm cell teleport s =
     (let d = ConvertPos tm cell; s1 = s\<lparr>s_dest := d\<rparr> in if teleport then s1\<lparr>s_pos := d\<rparr> else s1)"

definition to_dest :: "Sprite \<Rightarrow> Vec2" where
  "to_dest s = s_dest s - s_pos s"

definition sliding :: "Sprite \<Rightarrow> bool" where
  "sliding s \<longleftrightarrow> Length (to_dest s) > 1 / 2"

text \<open>A player goes straight to its place, 240 pixels a second.\<close>

definition Player_step :: "rat \<Rightarrow> Sprite \<Rightarrow> Sprite" where
  "Player_step deltaTime s =
     (let speed = 240; toDest = to_dest s; dist = Length toDest; step = speed * deltaTime
      in if dist \<le> 1 / 2 then s\<lparr>s_pos := s_dest s\<rparr>
         else if step \<ge> dist then s\<lparr>s_pos := s_dest s\<rparr>
         else s\<lparr>s_pos := s_pos s + Vec2_scale (Vec2_scale toDest (1 / dist)) step\<rparr>)"

text \<open>One step of a given length in the direction an object looks; a direction that is none does not move it.\<close>

definition step_dir :: "int32 \<Rightarrow> rat \<Rightarrow> Vec2 \<Rightarrow> Vec2" where
  "step_dir d len p =
     (if d = DIR_UP then Pos (px p) (py p - len) else if d = DIR_DOWN then Pos (px p) (py p + len)
      else if d = DIR_LEFT then Pos (px p - len) (py p) else if d = DIR_RIGHT then Pos (px p + len) (py p) else p)"

text \<open>An arrow flies in its direction, a monster along the longer side of what is left of its way.\<close>

definition Arrow_step :: "rat \<Rightarrow> int32 \<Rightarrow> Sprite \<Rightarrow> Sprite" where
  "Arrow_step deltaTime d s =
     (if Length (to_dest s) < 5 then s\<lparr>s_pos := s_dest s\<rparr> else s\<lparr>s_pos := step_dir d (600 * deltaTime) (s_pos s)\<rparr>)"

definition Monster_arrived :: "Sprite \<Rightarrow> bool" where
  "Monster_arrived s \<longleftrightarrow> Length (to_dest s) < 5"

definition Monster_heading :: "Sprite \<Rightarrow> int32" where
  "Monster_heading s =
     (let dir = to_dest s
      in if \<bar>px dir\<bar> > \<bar>py dir\<bar> then (if px dir < 0 then DIR_LEFT else DIR_RIGHT)
         else (if py dir < 0 then DIR_UP else DIR_DOWN))"

definition Monster_step :: "rat \<Rightarrow> int32 \<Rightarrow> Sprite \<Rightarrow> Sprite" where
  "Monster_step deltaTime d s = s\<lparr>s_pos := step_dir d (50 * deltaTime) (s_pos s)\<rparr>"

section \<open>The camera\<close>

text \<open>It follows its owner as far as the window stays inside the world; \<open>clamp\<close> is the standard library's.\<close>

definition clamp :: "rat \<Rightarrow> rat \<Rightarrow> rat \<Rightarrow> rat" where
  "clamp v lo hi = (if v < lo then lo else if hi < v then hi else v)"

definition Camera_Tick :: "Tilemap \<Rightarrow> Vec2 \<Rightarrow> Vec2 \<Rightarrow> Vec2" where
  "Camera_Tick tm owner camera =
     (let worldSize = GetWorldPixelSize tm
      in if vx worldSize \<le> 0 \<or> vy worldSize \<le> 0 then camera
         else let minX = of_int GWinSizeX / 2; minY = of_int GWinSizeY / 2;
                  maxX = max minX (of_int (vx worldSize) - minX); maxY = max minY (of_int (vy worldSize) - minY)
              in Pos (clamp (px owner) minX maxX) (clamp (py owner) minY maxY))"

end
