(* ===== verification/ClientPanels.thy ===== *)
theory ClientPanels
  imports Objects
begin

text \<open>
  The client's input devices and its widgets: the keyboard's state machine, rectangles, buttons, and panels that can be dragged
  by their upper edge. A widget's position is a \<open>float\<close> that only ever gets whole numbers, so it is a pair of integers here.
\<close>

section \<open>InputManager\<close>

datatype KeyState = KeyNone | KeyPress | KeyDown | KeyUp

fun next_key :: "bool \<Rightarrow> KeyState \<Rightarrow> KeyState" where
  "next_key True KeyPress = KeyPress"
| "next_key True KeyDown = KeyPress"
| "next_key True KeyNone = KeyDown"
| "next_key True KeyUp = KeyDown"
| "next_key False KeyPress = KeyUp"
| "next_key False KeyDown = KeyUp"
| "next_key False KeyNone = KeyNone"
| "next_key False KeyUp = KeyNone"

text \<open>
  \<open>Update\<close> with what \<open>GetKeyboardState\<close> and \<open>GetCursorPos\<close> tell, nothing when the former fails. A key is a virtual-key code,
  0 to 255.
\<close>

type_synonym Keys = "nat \<Rightarrow> KeyState"

record InputManager =
  key_states :: Keys
  mousePos :: Vec2Int

definition InputManager_Update :: "(nat \<Rightarrow> bool) option \<Rightarrow> Vec2Int \<Rightarrow> InputManager \<Rightarrow> InputManager" where
  "InputManager_Update pressed cursor im =
     (case pressed of
        None \<Rightarrow> im
      | Some p \<Rightarrow> im\<lparr>key_states := (\<lambda>k. if k < 256 then next_key (p k) (key_states im k) else key_states im k),
                       mousePos := cursor\<rparr>)"

definition GetButton :: "InputManager \<Rightarrow> nat \<Rightarrow> bool" where "GetButton im k \<longleftrightarrow> key_states im k = KeyPress"
definition GetButtonDown :: "InputManager \<Rightarrow> nat \<Rightarrow> bool" where "GetButtonDown im k \<longleftrightarrow> key_states im k = KeyDown"

definition LeftMouse :: nat where [simp]: "LeftMouse = 1"
definition RightMouse :: nat where [simp]: "RightMouse = 2"
definition VK_BACK :: nat where [simp]: "VK_BACK = 8"
definition VK_RETURN :: nat where [simp]: "VK_RETURN = 13"
definition VK_ESCAPE :: nat where [simp]: "VK_ESCAPE = 27"
definition VK_SPACE :: nat where [simp]: "VK_SPACE = 32"

text \<open>The code of a letter or digit key is its character's.\<close>

definition key_of :: "char \<Rightarrow> nat" where "key_of ch = of_char ch"

section \<open>Widgets\<close>

record UI =
  u_pos :: Vec2Int
  u_size :: Vec2Int
  u_visible :: bool
  u_enabled :: bool

text \<open>Left, top, right and bottom, of which the last two are outside.\<close>

datatype RECT = Rect (left: int32) (top: int32) (right: int32) (bottom: int32)

definition GetRect :: "'a UI_scheme \<Rightarrow> RECT" where
  "GetRect u =
     (let w = trunc_div (vx (u_size u)) 2; h = trunc_div (vy (u_size u)) 2
      in Rect (vx (u_pos u) - w) (vy (u_pos u) - h) (vx (u_pos u) + w) (vy (u_pos u) + h))"

definition PtInRect :: "RECT \<Rightarrow> Vec2Int \<Rightarrow> bool" where
  "PtInRect r p \<longleftrightarrow> left r \<le> vx p \<and> vx p < right r \<and> top r \<le> vy p \<and> vy p < bottom r"

definition IsMouseInRect :: "InputManager \<Rightarrow> 'a UI_scheme \<Rightarrow> bool" where
  "IsMouseInRect im u \<longleftrightarrow> (if \<not> u_visible u then False else PtInRect (GetRect u) (mousePos im))"

section \<open>Buttons\<close>

datatype ButtonState = BS_Default | BS_Hovered | BS_Pressed | BS_Clicked

record Button = UI +
  b_state :: ButtonState
  b_sumTime :: rat

definition Button_new :: "Vec2Int \<Rightarrow> Vec2Int \<Rightarrow> Button" where
  "Button_new pos sz =
     \<lparr>u_pos = pos, u_size = sz, u_visible = True, u_enabled = True, b_state = BS_Default, b_sumTime = 0\<rparr>"

text \<open>The new button, and whether \<open>_onClick\<close> is called.\<close>

definition Button_Tick :: "InputManager \<Rightarrow> rat \<Rightarrow> Button \<Rightarrow> Button \<times> bool" where
  "Button_Tick im deltaTime b0 =
     (let b = (if b_state b0 = BS_Clicked
               then (let b1 = b0\<lparr>b_sumTime := b_sumTime b0 + deltaTime\<rparr>
                     in if b_sumTime b1 > 1 / 5 then b1\<lparr>b_sumTime := 0, b_state := BS_Default\<rparr> else b1)
               else b0)
      in if IsMouseInRect im b then
           (if GetButton im LeftMouse then (b\<lparr>b_state := BS_Pressed\<rparr>, False)
            else if b_state b = BS_Pressed then (b\<lparr>b_state := BS_Clicked\<rparr>, True)
            else (b, False))
         else (b\<lparr>b_state := BS_Default\<rparr>, False))"

section \<open>Panels\<close>

text \<open>The children of a panel are widgets it owns, by address, and their places relative to its own.\<close>

record Panel = UI +
  p_children :: "(nat \<times> Vec2Int) list"
  p_draggable :: bool
  p_dragging :: bool
  p_dragHandleHeight :: int32
  p_dragOffset :: Vec2Int

definition Panel_new :: Panel where
  "Panel_new =
     \<lparr>u_pos = Vec 400 300, u_size = Vec 150 150, u_visible = True, u_enabled = True, p_children = [],
      p_draggable = False, p_dragging = False, p_dragHandleHeight = 30, p_dragOffset = Vec 0 0\<rparr>"

definition SetDragHandleHeight :: "int32 \<Rightarrow> Panel \<Rightarrow> Panel" where
  "SetDragHandleHeight height p = p\<lparr>p_dragHandleHeight := (if height < 0 then 0 else height)\<rparr>"

text \<open>What a visible panel's \<open>Tick\<close> does to the panel itself.\<close>

definition drag_handle :: "Panel \<Rightarrow> RECT" where
  "drag_handle p =
     (case GetRect p of Rect l t r b \<Rightarrow> Rect l t r (min b (t + p_dragHandleHeight p)))"

definition Panel_drag :: "InputManager \<Rightarrow> Panel \<Rightarrow> Panel" where
  "Panel_drag im p =
     (if \<not> (u_enabled p \<and> p_draggable p) then p
      else if p_dragging p then
        (if GetButton im LeftMouse \<or> GetButtonDown im LeftMouse then
           (case GetRect p of Rect l t r b \<Rightarrow>
              p\<lparr>u_pos := Vec (vx (mousePos im) - vx (p_dragOffset p) + trunc_div (r - l) 2)
                            (vy (mousePos im) - vy (p_dragOffset p) + trunc_div (b - t) 2)\<rparr>)
         else p\<lparr>p_dragging := False\<rparr>)
      else if GetButtonDown im LeftMouse \<and> PtInRect (drag_handle p) (mousePos im) then
        p\<lparr>p_dragging := True,
          p_dragOffset := Vec (vx (mousePos im) - left (GetRect p)) (vy (mousePos im) - top (GetRect p))\<rparr>
      else p)"

text \<open>The children follow; the \<open>Tick\<close> of a plain widget does nothing.\<close>

definition place_child :: "Vec2Int \<Rightarrow> nat \<times> Vec2Int \<Rightarrow> (nat \<Rightarrow> UI) \<Rightarrow> nat \<Rightarrow> UI" where
  "place_child panelPos ch uis = uis(fst ch := (uis (fst ch))\<lparr>u_pos := panelPos + snd ch\<rparr>)"

definition SyncChildren :: "Panel \<Rightarrow> (nat \<Rightarrow> UI) \<Rightarrow> nat \<Rightarrow> UI" where
  "SyncChildren p uis = fold (place_child (u_pos p)) (p_children p) uis"

definition Panel_Tick :: "InputManager \<Rightarrow> Panel \<times> (nat \<Rightarrow> UI) \<Rightarrow> Panel \<times> (nat \<Rightarrow> UI)" where
  "Panel_Tick im ph =
     (case ph of (p, uis) \<Rightarrow>
        if \<not> u_visible p then (p, uis) else let p1 = Panel_drag im p in (p1, SyncChildren p1 uis))"

definition AddChild_at :: "nat \<Rightarrow> Vec2Int \<Rightarrow> Panel \<times> (nat \<Rightarrow> UI) \<Rightarrow> Panel \<times> (nat \<Rightarrow> UI)" where
  "AddChild_at i off ph =
     (case ph of (p, uis) \<Rightarrow> let p1 = p\<lparr>p_children := p_children p @ [(i, off)]\<rparr> in (p1, SyncChildren p1 uis))"

definition AddChild :: "nat \<Rightarrow> Panel \<times> (nat \<Rightarrow> UI) \<Rightarrow> Panel \<times> (nat \<Rightarrow> UI)" where
  "AddChild i ph = (case ph of (p, uis) \<Rightarrow> AddChild_at i (u_pos (uis i) - u_pos p) (p, uis))"

fun remove_child :: "nat \<Rightarrow> (nat \<times> Vec2Int) list \<Rightarrow> (nat \<times> Vec2Int) list" where
  "remove_child i [] = []"
| "remove_child i (ch # cs) = (if fst ch \<noteq> i then ch # remove_child i cs else cs)"

definition RemoveChild :: "nat \<Rightarrow> Panel \<Rightarrow> bool \<times> Panel" where
  "RemoveChild i p =
     (if \<exists>ch \<in> set (p_children p). fst ch = i then (True, p\<lparr>p_children := remove_child i (p_children p)\<rparr>) else (False, p))"

fun set_offset :: "nat \<Rightarrow> Vec2Int \<Rightarrow> (nat \<times> Vec2Int) list \<Rightarrow> (nat \<times> Vec2Int) list" where
  "set_offset i off [] = []"
| "set_offset i off (ch # cs) = (if fst ch \<noteq> i then ch # set_offset i off cs else (i, off) # cs)"

definition SetChildLocalOffset :: "nat \<Rightarrow> Vec2Int \<Rightarrow> Panel \<times> (nat \<Rightarrow> UI) \<Rightarrow> Panel \<times> (nat \<Rightarrow> UI)" where
  "SetChildLocalOffset i off ph =
     (case ph of (p, uis) \<Rightarrow>
        if \<exists>ch \<in> set (p_children p). fst ch = i
        then (let p1 = p\<lparr>p_children := set_offset i off (p_children p)\<rparr> in (p1, SyncChildren p1 uis)) else (p, uis))"

section \<open>The panels and buttons of the game\<close>

definition InventoryPanel_new :: Panel where
  "InventoryPanel_new = SetDragHandleHeight 30 (Panel_new\<lparr>u_visible := False, p_draggable := True\<rparr>)"

definition RankingPanel_new :: Panel where
  "RankingPanel_new =
     SetDragHandleHeight 30 (Panel_new\<lparr>u_visible := False, p_draggable := True, u_size := Vec 220 260,
       u_pos := Vec (800 - 220 div 2 - 10) (600 div 2 + 40)\<rparr>)"

definition PartyPanel_new :: Panel where
  "PartyPanel_new = SetDragHandleHeight 20 (Panel_new\<lparr>p_draggable := True\<rparr>)"

text \<open>
  \<open>PrepareLayout\<close> of the two panels with the size of their sprite: a panel that is still where it was made goes to its place.
\<close>

definition Inventory_PrepareLayout :: "Vec2Int option \<Rightarrow> Panel \<Rightarrow> (bool \<times> Panel)" where
  "Inventory_PrepareLayout sprite p =
     (case sprite of
        None \<Rightarrow> (False, p)
      | Some sz \<Rightarrow>
          let p1 = p\<lparr>u_size := sz\<rparr>
          in (True, if u_pos p1 = Vec 400 300 then p1\<lparr>u_pos := Vec (800 div 2) (600 div 2)\<rparr> else p1))"

definition Party_PrepareLayout :: "Vec2Int option \<Rightarrow> Panel \<Rightarrow> (bool \<times> Panel)" where
  "Party_PrepareLayout sprite p =
     (case sprite of
        None \<Rightarrow> (False, p)
      | Some sz \<Rightarrow>
          let p1 = p\<lparr>u_size := sz\<rparr>
          in (True, if u_pos p1 = Vec 400 300
                    then p1\<lparr>u_pos := Vec (32 + trunc_div (vx sz) 2) (96 + trunc_div (vy sz) 2)\<rparr> else p1))"

text \<open>The place of the invitation, which \<open>Render\<close> sets when there is one and its sprite is loaded.\<close>

definition Invite_layout :: "Vec2Int \<Rightarrow> Panel \<Rightarrow> Panel" where
  "Invite_layout sz p =
     (let popX = trunc_div (800 - vx sz) 2; popY = trunc_div (600 - vy sz) 2 - 50
      in p\<lparr>u_size := sz, u_pos := Vec (popX + trunc_div (vx sz) 2) (popY + trunc_div (vy sz) 2)\<rparr>)"

definition CreateMapButtons :: "Button list" where
  "CreateMapButtons =
     (let btnW = 64; btnH = 40; gap = 7; totalW = btnW * 3 + gap * 2; marginX = 10; marginY = 10;
          startX = 800 - marginX - totalW; y = marginY + btnH div 2
      in map (\<lambda>k. Button_new (Vec (startX + k * (btnW + gap) + btnW div 2) y) (Vec btnW btnH)) [0, 1, 2])"

end
