(* ===== verification/ClientMap.thy ===== *)
theory ClientMap
  imports Tilemap
begin

text \<open>
  What the client adds to the tilemap. \<open>LoadFile\<close>, \<open>GetTileAt\<close>, \<open>SetMapSize\<close> and \<open>SetTileSize\<close> are the server's, word for word;
  a left click on the client's map puts a wall where it hits.
\<close>

definition TILE_SIZEX :: int32 where "TILE_SIZEX = 48"
definition TILE_SIZEY :: int32 where "TILE_SIZEY = 48"

text \<open>
  \<open>TilePicking\<close>, a click at \<open>(posX, posY)\<close> of the map: the division truncates, so that a click less than one tile to the left of
  or above the map hits its first column or row.
\<close>

definition set_tile :: "Vec2Int \<Rightarrow> int32 \<Rightarrow> Tilemap \<Rightarrow> Tilemap" where
  "set_tile pos v m = m\<lparr>tiles := (tiles m)[nat (vy pos) := (tiles m ! nat (vy pos))[nat (vx pos) := v]]\<rparr>"

definition TilePicking :: "Vec2Int \<Rightarrow> Tilemap \<Rightarrow> Tilemap" where
  "TilePicking click m =
     (let pos = Vec (trunc_div (vx click) TILE_SIZEX) (trunc_div (vy click) TILE_SIZEY)
      in case GetTileAt pos m of None \<Rightarrow> m | Some v \<Rightarrow> set_tile pos 1 m)"

end
