(* ===== verification/ClientData.thy ===== *)
theory ClientData
  imports ClientSprite ClientPanels ClientMap
begin

text \<open>
  The game client's state: the actors of its scene, the player's own actor, and what the panels show. Actors are allocated in a
  heap and referred to by address, so the scene's list, \<open>SceneManager\<close>'s pointer to the own player and a removed actor that
  nobody deletes stay apart as in the code. Times are exact fractions of a second where the code has \<open>float\<close>s.
\<close>

section \<open>Actors\<close>

datatype ActorKind = KPlayer | KMyPlayer | KMonster | KArrow

text \<open>The fields of \<open>MyPlayer\<close>. The client's \<open>InventorySlot\<close> and \<open>PartyMemberData\<close> have the fields of the server's structures.\<close>

record MyData =
  my_storage :: "InventorySlot list"
  my_weapon :: InventorySlot
  my_armor :: InventorySlot
  my_potion :: InventorySlot
  partyMembers :: "PartyMemberInfo list"
  pendingInviteFrom :: uint64
  pendingInviterName :: string
  keyPressed :: bool
  wantedDir :: int32
  movePending :: bool
  turnGraceLeft :: rat
  attackPending :: bool
  attackPendingStart :: rat
  attackCooldownUntil :: rat
  blockedHold :: bool
  blockedDir :: int32
  lastMoveFrom :: Vec2Int
  lastMoveDir :: int32
  hasLastMoveRequest :: bool

definition MyData_new :: MyData where
  "MyData_new =
     \<lparr>my_storage = replicate INVENTORY_SIZE empty_slot, my_weapon = empty_slot, my_armor = empty_slot, my_potion = empty_slot,
      partyMembers = [], pendingInviteFrom = 0, pendingInviterName = [],
      keyPressed = False, wantedDir = DIR_DOWN, movePending = False, turnGraceLeft = 0,
      attackPending = False, attackPendingStart = 0, attackCooldownUntil = 0,
      blockedHold = False, blockedDir = DIR_DOWN, lastMoveFrom = Vec 0 0, lastMoveDir = DIR_DOWN, hasLastMoveRequest = False\<rparr>"

datatype WeaponType = Sword | Bow | Staff

text \<open>\<open>a_my\<close> means something for a \<open>MyPlayer\<close>, \<open>a_weapon\<close> for a player of either kind.\<close>

record Actor =
  a_kind :: ActorKind
  a_info :: ObjectInfo
  a_weapon :: WeaponType
  a_animState :: ObjectState
  a_skillAnimEndTime :: rat
  a_sprite :: Sprite
  a_my :: MyData

definition is_player_actor :: "Actor \<Rightarrow> bool" where
  "is_player_actor a \<longleftrightarrow> a_kind a = KPlayer \<or> a_kind a = KMyPlayer"

text \<open>\<open>dynamic_cast<Creature*>\<close>\<close>

definition is_creature_actor :: "Actor \<Rightarrow> bool" where
  "is_creature_actor a \<longleftrightarrow> a_kind a \<noteq> KArrow"

definition actor_pos :: "Actor \<Rightarrow> Vec2Int" where
  "actor_pos a = Vec (i_posx (a_info a)) (i_posy (a_info a))"

definition Cl_SetState :: "ObjectState \<Rightarrow> Actor \<Rightarrow> Actor" where
  "Cl_SetState st a = (if i_state (a_info a) = st then a else a\<lparr>a_info := (a_info a)\<lparr>i_state := st\<rparr>\<rparr>)"

definition Cl_SetCellPos :: "Tilemap \<Rightarrow> Vec2Int \<Rightarrow> bool \<Rightarrow> Actor \<Rightarrow> Actor" where
  "Cl_SetCellPos tm p teleport a =
     a\<lparr>a_info := (a_info a)\<lparr>i_posx := vx p, i_posy := vy p\<rparr>, a_sprite := SetCellPos_sprite tm p teleport (a_sprite a)\<rparr>"

text \<open>
  The flipbook an actor plays. Players and arrows have tables of four, made from \<open>GetFlipbook\<close> and indexed with the direction;
  an index outside the table is undefined. A monster looks its flipbook up by a name made from its template and its direction.
\<close>

definition dir_suffix :: "int32 \<Rightarrow> string" where
  "dir_suffix d =
     (if d = DIR_UP then ''Up'' else if d = DIR_DOWN then ''Down'' else if d = DIR_LEFT then ''Left''
      else if d = DIR_RIGHT then ''Right'' else [])"

fun skill_prefix :: "WeaponType \<Rightarrow> string" where
  "skill_prefix Sword = ''FB_Attack''"
| "skill_prefix Bow = ''FB_Bow''"
| "skill_prefix Staff = ''FB_Staff''"

definition player_prefix :: "Actor \<Rightarrow> string" where
  "player_prefix a =
     (case a_animState a of IDLE \<Rightarrow> ''FB_Idle'' | MOVE \<Rightarrow> ''FB_Move'' | SKILL \<Rightarrow> skill_prefix (a_weapon a))"

definition template_of :: "ObjectInfo \<Rightarrow> int32" where
  "template_of oi = (case i_extra oi of ExtraMonster t \<Rightarrow> t | _ \<Rightarrow> 0)"

definition monster_book :: "ObjectInfo \<Rightarrow> FlipbookInfo option" where
  "monster_book oi =
     (if template_of oi = 1001 then GetFlipbook (''FB_Snake'' @ dir_suffix (i_dir oi))
      else if template_of oi = 1002 then GetFlipbook (''FB_Octoroc'' @ dir_suffix (i_dir oi)) else None)"

definition table_book :: "string \<Rightarrow> int32 \<Rightarrow> fault + FlipbookInfo option" where
  "table_book prefix d =
     (if DIR_TYPE_IsValid d then Inr (GetFlipbook (prefix @ dir_suffix d)) else Inl IndexOutOfBounds)"

definition play :: "FlipbookInfo option \<Rightarrow> Actor \<Rightarrow> fault + Actor" where
  "play b a = (case SetFlipbook b (a_sprite a) of None \<Rightarrow> Inl NullDereference | Some s \<Rightarrow> Inr (a\<lparr>a_sprite := s\<rparr>))"

definition UpdateAnimation :: "Actor \<Rightarrow> fault + Actor" where
  "UpdateAnimation a =
     (case a_kind a of
        KMonster \<Rightarrow> (case monster_book (a_info a) of None \<Rightarrow> Inr a | Some b \<Rightarrow> play (Some b) a)
      | k \<Rightarrow> (case table_book (if k = KArrow then ''FB_Arrow'' else player_prefix a) (i_dir (a_info a)) of
                Inl f \<Rightarrow> Inl f | Inr b \<Rightarrow> play b a))"

text \<open>\<open>GetSkillFlipbook\<close>\<close>

definition GetSkillFlipbook :: "WeaponType \<Rightarrow> int32 \<Rightarrow> fault + FlipbookInfo option" where
  "GetSkillFlipbook weapon d = table_book (skill_prefix weapon) d"

definition Cl_SetDir :: "int32 \<Rightarrow> Actor \<Rightarrow> Actor" where
  "Cl_SetDir d a = a\<lparr>a_info := (a_info a)\<lparr>i_dir := d\<rparr>\<rparr>"

definition StartSkillAnim :: "rat \<Rightarrow> rat \<Rightarrow> Actor \<Rightarrow> Actor" where
  "StartSkillAnim now duration a = a\<lparr>a_skillAnimEndTime := now + duration\<rparr>"

definition IsSkillPlaying :: "rat \<Rightarrow> Actor \<Rightarrow> bool" where
  "IsSkillPlaying now a \<longleftrightarrow> now < a_skillAnimEndTime a"

definition FromProtoWeaponType :: "int32 \<Rightarrow> WeaponType" where
  "FromProtoWeaponType w = (if w = WEAPON_TYPE_BOW then Bow else if w = WEAPON_TYPE_STAFF then Staff else Sword)"

fun ToProtoWeaponType :: "WeaponType \<Rightarrow> int32" where
  "ToProtoWeaponType Sword = WEAPON_TYPE_SWORD"
| "ToProtoWeaponType Bow = WEAPON_TYPE_BOW"
| "ToProtoWeaponType Staff = WEAPON_TYPE_STAFF"

section \<open>The client\<close>

text \<open>An effect is an actor nothing points to but its layer, so it is its own record.\<close>

datatype EffectKind = HitEffect | ExplodeEffect

record Effect =
  e_kind :: EffectKind
  e_cell :: Vec2Int
  e_sprite :: Sprite

text \<open>
  \<open>layer_object\<close> is \<open>_actors[LAYER_OBJECT]\<close>, \<open>layer_effect\<close> the effects; \<open>loaded_maps\<close> are the maps \<open>ResourceManager\<close> holds and
  \<open>shown_map\<close> the one the map's actor points to, by map id; \<open>cl_now\<close> and \<open>cl_dt\<close> are \<open>TimeManager\<close>'s time and the length of the last
  frame, \<open>cl_sent\<close> the packets given to \<open>NetworkManager::SendPacket\<close>. Of the chat panel, which cannot be dragged, only the
  texts and flags matter.
\<close>

record Client =
  actors :: "nat \<rightharpoonup> Actor"
  next_addr :: nat
  layer_object :: "nat list"
  layer_effect :: "Effect list"
  myPlayer :: "nat option"
  loggedIn :: bool
  loginText :: string
  currentMapId :: int32
  hasMapId :: bool
  loaded_maps :: "int32 \<Rightarrow> Tilemap"
  shown_map :: int32
  cl_camera :: Vec2
  chat_messages :: "(string \<times> string) list"
  chat_visible :: bool
  chat_justOpened :: bool
  inputLocked :: bool
  inventory_panel :: Panel
  ranking_panel :: Panel
  party_panel :: Panel
  invite_panel :: Panel
  map_buttons :: "Button list"
  ranking_rows :: "(string \<times> int32) list"
  inputConsumed :: bool
  cl_now :: rat
  cl_dt :: rat
  cl_sent :: "cpacket list"
  cl_fault :: "fault option"

definition Client_new :: "(int32 \<Rightarrow> Tilemap) \<Rightarrow> Client" where
  "Client_new tms =
     \<lparr>actors = Map.empty, next_addr = 0, layer_object = [], layer_effect = [], myPlayer = None, loggedIn = False,
      loginText = [], currentMapId = MAP_ID_TOWN, hasMapId = True, loaded_maps = tms, shown_map = MAP_ID_TOWN,
      cl_camera = Pos 0 0, chat_messages = [], chat_visible = False, chat_justOpened = False, inputLocked = False,
      inventory_panel = InventoryPanel_new, ranking_panel = RankingPanel_new, party_panel = PartyPanel_new,
      invite_panel = Panel_new, map_buttons = CreateMapButtons, ranking_rows = [], inputConsumed = False, cl_now = 0, cl_dt = 0,
      cl_sent = [], cl_fault = None\<rparr>"

definition scene_map :: "Client \<Rightarrow> Tilemap" where
  "scene_map c = loaded_maps c (shown_map c)"

definition cl_raise :: "fault \<Rightarrow> Client \<Rightarrow> Client" where
  "cl_raise f c = (if cl_fault c = None then c\<lparr>cl_fault := Some f\<rparr> else c)"

definition SendPacket :: "cpacket \<Rightarrow> Client \<Rightarrow> Client" where
  "SendPacket p c = (if cl_fault c = None then c\<lparr>cl_sent := cl_sent c @ [p]\<rparr> else c)"

definition the_actor :: "nat \<Rightarrow> Client \<Rightarrow> Actor" where
  "the_actor i c = the (actors c i)"

definition upd_actor :: "nat \<Rightarrow> (Actor \<Rightarrow> Actor) \<Rightarrow> Client \<Rightarrow> Client" where
  "upd_actor i f c = c\<lparr>actors := (actors c)(i \<mapsto> f (the_actor i c))\<rparr>"

definition upd_info :: "nat \<Rightarrow> (ObjectInfo \<Rightarrow> ObjectInfo) \<Rightarrow> Client \<Rightarrow> Client" where
  "upd_info i f = upd_actor i (\<lambda>a. a\<lparr>a_info := f (a_info a)\<rparr>)"

definition upd_my :: "nat \<Rightarrow> (MyData \<Rightarrow> MyData) \<Rightarrow> Client \<Rightarrow> Client" where
  "upd_my i f = upd_actor i (\<lambda>a. a\<lparr>a_my := f (a_my a)\<rparr>)"

definition upd_sprite :: "nat \<Rightarrow> (Sprite \<Rightarrow> Sprite) \<Rightarrow> Client \<Rightarrow> Client" where
  "upd_sprite i f = upd_actor i (\<lambda>a. a\<lparr>a_sprite := f (a_sprite a)\<rparr>)"

definition update_animation :: "nat \<Rightarrow> Client \<Rightarrow> Client" where
  "update_animation i c =
     (case UpdateAnimation (the_actor i c) of Inl f \<Rightarrow> cl_raise f c | Inr a \<Rightarrow> upd_actor i (\<lambda>_. a) c)"

text \<open>\<open>SetDir\<close> on an actor of the heap, with the animation it updates.\<close>

definition turn_actor :: "nat \<Rightarrow> int32 \<Rightarrow> Client \<Rightarrow> Client" where
  "turn_actor i d c = update_animation i (upd_actor i (Cl_SetDir d) c)"

section \<open>The scene\<close>

text \<open>
  \<open>new T\<close>, \<open>SetCellPos\<close>, \<open>AddActor\<close> and \<open>BeginPlay\<close>, which leaves the state at \<open>IDLE\<close> and the direction at its default and
  starts the animation.
\<close>

definition Actor_new :: "ActorKind \<Rightarrow> Actor" where
  "Actor_new k =
     \<lparr>a_kind = k, a_info = ObjectInfo_default, a_weapon = Sword, a_animState = IDLE, a_skillAnimEndTime = 0,
      a_sprite = Sprite_new (Pos 0 0), a_my = MyData_new\<rparr>"

definition SpawnObject :: "ActorKind \<Rightarrow> Vec2Int \<Rightarrow> Client \<Rightarrow> nat \<times> Client" where
  "SpawnObject k pos c =
     (next_addr c, update_animation (next_addr c)
       (c\<lparr>actors := (actors c)(next_addr c \<mapsto> Cl_SetCellPos (scene_map c) pos True (Actor_new k)),
          next_addr := Suc (next_addr c), layer_object := layer_object c @ [next_addr c]\<rparr>))"

fun effect_book :: "EffectKind \<Rightarrow> string" where
  "effect_book HitEffect = ''FB_Hit''"
| "effect_book ExplodeEffect = ''FB_Explode''"

definition SpawnEffect :: "EffectKind \<Rightarrow> Vec2Int \<Rightarrow> Client \<Rightarrow> Client" where
  "SpawnEffect k cell c =
     (case SetFlipbook (GetFlipbook (effect_book k)) (SetCellPos_sprite (scene_map c) cell True (Sprite_new (Pos 0 0))) of
        None \<Rightarrow> cl_raise NullDereference c
      | Some s \<Rightarrow> c\<lparr>layer_effect := layer_effect c @ [\<lparr>e_kind = k, e_cell = cell, e_sprite = s\<rparr>]\<rparr>)"

text \<open>\<open>RemoveActor\<close> takes the pointer out of its layer and deletes nothing.\<close>

definition RemoveActor :: "nat \<Rightarrow> Client \<Rightarrow> Client" where
  "RemoveActor i c = c\<lparr>layer_object := removeAll i (layer_object c)\<rparr>"

definition GetObject :: "uint64 \<Rightarrow> Client \<Rightarrow> nat option" where
  "GetObject oid c = find (\<lambda>i. i_objectid (a_info (the_actor i c)) = oid) (layer_object c)"

definition Cl_GetCreatureAt :: "Vec2Int \<Rightarrow> Client \<Rightarrow> nat option" where
  "Cl_GetCreatureAt pos c =
     find (\<lambda>i. is_creature_actor (the_actor i c) \<and> actor_pos (the_actor i c) = pos) (layer_object c)"

definition Cl_CanGo :: "Vec2Int \<Rightarrow> Client \<Rightarrow> bool" where
  "Cl_CanGo pos c =
     (case GetTileAt pos (scene_map c) of
        None \<Rightarrow> False
      | Some v \<Rightarrow> if Cl_GetCreatureAt pos c \<noteq> None then False else v \<noteq> 1)"

text \<open>The loop assigns \<open>dist = best\<close> instead of \<open>best = dist\<close>, so every player is closer than \<open>FLT_MAX\<close> and the last one wins.\<close>

definition Cl_FindClosestPlayer :: "Vec2Int \<Rightarrow> Client \<Rightarrow> nat option" where
  "Cl_FindClosestPlayer pos c =
     fold (\<lambda>i ret. if is_player_actor (the_actor i c) then Some i else ret) (layer_object c) None"

definition ClearWorldActors :: "Client \<Rightarrow> Client" where
  "ClearWorldActors c = c\<lparr>actors := actors c |` (- set (layer_object c)), layer_object := []\<rparr>"

text \<open>Both maps are loaded at the start, so that \<open>LoadTilemap\<close> only shows another.\<close>

definition ChangeMap :: "int32 \<Rightarrow> Client \<Rightarrow> Client" where
  "ChangeMap mapId c =
     (let c1 = ClearWorldActors (c\<lparr>currentMapId := mapId, hasMapId := True\<rparr>)
      in if mapId = MAP_ID_TOWN \<or> mapId = MAP_ID_DUNGEON then c1\<lparr>shown_map := mapId\<rparr> else c1)"

definition IsTown :: "Client \<Rightarrow> bool" where
  "IsTown c \<longleftrightarrow> hasMapId c \<and> currentMapId c = MAP_ID_TOWN"

definition GetMyPlayerId :: "Client \<Rightarrow> uint64" where
  "GetMyPlayerId c = (case myPlayer c of None \<Rightarrow> 0 | Some i \<Rightarrow> i_objectid (a_info (the_actor i c)))"

section \<open>Reading back what was written\<close>

lemma the_actor_upd [simp]: "the_actor i (upd_actor j f c) = (if i = j then f (the_actor j c) else the_actor i c)"
  by (simp add: upd_actor_def the_actor_def)

lemma upd_actor_frame [simp]:
  "layer_object (upd_actor i f c) = layer_object c" "myPlayer (upd_actor i f c) = myPlayer c"
  "cl_fault (upd_actor i f c) = cl_fault c" "cl_sent (upd_actor i f c) = cl_sent c"
  "next_addr (upd_actor i f c) = next_addr c" "cl_now (upd_actor i f c) = cl_now c" "cl_dt (upd_actor i f c) = cl_dt c"
  "inputLocked (upd_actor i f c) = inputLocked c" "hasMapId (upd_actor i f c) = hasMapId c"
  "currentMapId (upd_actor i f c) = currentMapId c" "layer_effect (upd_actor i f c) = layer_effect c"
  "scene_map (upd_actor i f c) = scene_map c"
  by (simp_all add: upd_actor_def scene_map_def)

lemma the_actor_raise [simp]: "the_actor i (cl_raise f c) = the_actor i c"
  by (simp add: cl_raise_def the_actor_def)

lemma cl_raise_frame [simp]:
  "layer_object (cl_raise f c) = layer_object c" "myPlayer (cl_raise f c) = myPlayer c"
  "cl_sent (cl_raise f c) = cl_sent c" "next_addr (cl_raise f c) = next_addr c" "actors (cl_raise f c) = actors c"
  "cl_now (cl_raise f c) = cl_now c" "cl_dt (cl_raise f c) = cl_dt c" "layer_effect (cl_raise f c) = layer_effect c" "scene_map (cl_raise f c) = scene_map c"
  by (simp_all add: cl_raise_def scene_map_def)

text \<open>An actor with the animation it should play; only its sprite differs.\<close>

definition animated :: "Actor \<Rightarrow> Actor" where
  "animated a = (case UpdateAnimation a of Inl _ \<Rightarrow> a | Inr a' \<Rightarrow> a')"

lemma UpdateAnimation_sprite: "UpdateAnimation a = Inr a' \<Longrightarrow> \<exists>s. a' = a\<lparr>a_sprite := s\<rparr>"
  by (cases "a_kind a") (auto simp: UpdateAnimation_def play_def split: option.splits sum.splits intro: exI [of _ "a_sprite a"])

lemma animated_sprite: "\<exists>s. animated a = a\<lparr>a_sprite := s\<rparr>"
  using UpdateAnimation_sprite [of a] by (cases "UpdateAnimation a") (auto simp: animated_def intro: exI [of _ "a_sprite a"])

lemma animated_simps [simp]:
  "a_kind (animated a) = a_kind a" "a_info (animated a) = a_info a" "a_weapon (animated a) = a_weapon a"
  "a_animState (animated a) = a_animState a" "a_skillAnimEndTime (animated a) = a_skillAnimEndTime a"
  "a_my (animated a) = a_my a"
  using animated_sprite [of a] by auto

lemma the_actor_animation [simp]:
  "the_actor i (update_animation j c) = (if i = j then animated (the_actor j c) else the_actor i c)"
  by (auto simp: update_animation_def animated_def split: sum.split)

lemma update_animation_frame [simp]:
  "layer_object (update_animation i c) = layer_object c" "myPlayer (update_animation i c) = myPlayer c"
  "cl_sent (update_animation i c) = cl_sent c" "next_addr (update_animation i c) = next_addr c"
  "cl_now (update_animation i c) = cl_now c" "cl_dt (update_animation i c) = cl_dt c" "layer_effect (update_animation i c) = layer_effect c"
  "scene_map (update_animation i c) = scene_map c"
  by (simp_all add: update_animation_def split: sum.split)

text \<open>Every flipbook the classes ask for is loaded.\<close>

lemma GetFlipbook_loaded: "GetFlipbook key \<noteq> None \<longleftrightarrow> key \<in> set (map fb_name LoadFlipbooks)"
  by (auto simp: GetFlipbook_def find_None_iff)

lemmas book_names = LoadFlipbooks_def book_def

lemma player_books_loaded:
  assumes "DIR_TYPE_IsValid d"
  shows "GetFlipbook (player_prefix a @ dir_suffix d) \<noteq> None" "GetFlipbook (skill_prefix w @ dir_suffix d) \<noteq> None"
    "GetFlipbook (''FB_Arrow'' @ dir_suffix d) \<noteq> None"
proof -
  have d: "dir_suffix d \<in> {''Up'', ''Down'', ''Left'', ''Right''}"
    using assms by (auto simp: DIR_TYPE_IsValid_def dir_suffix_def)
  then show sk: "GetFlipbook (skill_prefix w @ dir_suffix d) \<noteq> None" for w
    unfolding GetFlipbook_loaded by (cases w) (auto simp: book_names)
  show "GetFlipbook (player_prefix a @ dir_suffix d) \<noteq> None"
    using d sk unfolding player_prefix_def GetFlipbook_loaded by (cases "a_animState a") (auto simp: book_names)
  show "GetFlipbook (''FB_Arrow'' @ dir_suffix d) \<noteq> None"
    using d unfolding GetFlipbook_loaded by (auto simp: book_names)
qed

lemma effect_books_loaded: "GetFlipbook (effect_book k) \<noteq> None"
  unfolding GetFlipbook_loaded by (cases k) (simp_all add: book_names)

lemma SetFlipbook_loaded: "b \<noteq> None \<Longrightarrow> SetFlipbook b s \<noteq> None"
  by (auto simp: SetFlipbook_def Flipbook_Reset_def)

lemma UpdateAnimation_fault:
  "UpdateAnimation a = Inl f \<longleftrightarrow> a_kind a \<noteq> KMonster \<and> \<not> DIR_TYPE_IsValid (i_dir (a_info a)) \<and> f = IndexOutOfBounds"
proof -
  have p: "play b a \<noteq> Inl f" if "b \<noteq> None" for b
    using SetFlipbook_loaded [OF that, of "a_sprite a"] by (auto simp: play_def simp del: not_None_eq split: option.split)
  show ?thesis
    using p player_books_loaded [of "i_dir (a_info a)"]
    by (cases "a_kind a") (auto simp: UpdateAnimation_def table_book_def split: option.split)
qed

lemma cl_fault_animation:
  "cl_fault (update_animation i c) = (if cl_fault c \<noteq> None \<or> a_kind (the_actor i c) = KMonster
     \<or> DIR_TYPE_IsValid (i_dir (a_info (the_actor i c))) then cl_fault c else Some IndexOutOfBounds)"
proof (cases "UpdateAnimation (the_actor i c)")
  case (Inl f)
  then show ?thesis using UpdateAnimation_fault [of "the_actor i c" f] by (auto simp: update_animation_def cl_raise_def)
next
  case (Inr a)
  then have "\<not> (a_kind (the_actor i c) \<noteq> KMonster \<and> \<not> DIR_TYPE_IsValid (i_dir (a_info (the_actor i c))))"
    using UpdateAnimation_fault [of "the_actor i c" IndexOutOfBounds] by auto
  with Inr show ?thesis by (auto simp: update_animation_def)
qed

lemma the_actor_turn [simp]:
  "the_actor i (turn_actor j d c) = (if i = j then animated (Cl_SetDir d (the_actor j c)) else the_actor i c)"
  by (simp add: turn_actor_def)

lemma turn_actor_frame [simp]:
  "layer_object (turn_actor i d c) = layer_object c" "myPlayer (turn_actor i d c) = myPlayer c"
  "cl_sent (turn_actor i d c) = cl_sent c" "next_addr (turn_actor i d c) = next_addr c"
  "cl_now (turn_actor i d c) = cl_now c" "cl_dt (turn_actor i d c) = cl_dt c"
  "layer_effect (turn_actor i d c) = layer_effect c" "scene_map (turn_actor i d c) = scene_map c"
  by (simp_all add: turn_actor_def)

lemma turn_actor_fault:
  "cl_fault (turn_actor i d c) = (if cl_fault c \<noteq> None \<or> a_kind (the_actor i c) = KMonster \<or> DIR_TYPE_IsValid d then cl_fault c
     else Some IndexOutOfBounds)"
  by (simp add: turn_actor_def cl_fault_animation Cl_SetDir_def)

lemma SpawnEffect_frame [simp]:
  "the_actor i (SpawnEffect k p c) = the_actor i c" "layer_object (SpawnEffect k p c) = layer_object c"
  "myPlayer (SpawnEffect k p c) = myPlayer c" "cl_fault (SpawnEffect k p c) = cl_fault c"
  "cl_sent (SpawnEffect k p c) = cl_sent c" "next_addr (SpawnEffect k p c) = next_addr c" "actors (SpawnEffect k p c) = actors c"
proof -
  let ?s = "SetCellPos_sprite (scene_map c) p True (Sprite_new (Pos 0 0))"
  obtain s where "SetFlipbook (GetFlipbook (effect_book k)) ?s = Some s"
    using SetFlipbook_loaded [OF effect_books_loaded [of k], of ?s] by blast
  then show "the_actor i (SpawnEffect k p c) = the_actor i c" "layer_object (SpawnEffect k p c) = layer_object c"
    "myPlayer (SpawnEffect k p c) = myPlayer c" "cl_fault (SpawnEffect k p c) = cl_fault c"
    "cl_sent (SpawnEffect k p c) = cl_sent c" "next_addr (SpawnEffect k p c) = next_addr c" "actors (SpawnEffect k p c) = actors c"
    by (simp_all add: SpawnEffect_def the_actor_def)
qed

lemma the_actor_placed [simp]:
  "the_actor j (c\<lparr>actors := (actors c)(n \<mapsto> a), next_addr := m, layer_object := l\<rparr>) = (if j = n then a else the_actor j c)"
  by (simp add: the_actor_def)

lemma SpawnObject_simps [simp]:
  "fst (SpawnObject k pos c) = next_addr c" "layer_object (snd (SpawnObject k pos c)) = layer_object c @ [next_addr c]"
  "next_addr (snd (SpawnObject k pos c)) = Suc (next_addr c)" "myPlayer (snd (SpawnObject k pos c)) = myPlayer c"
  "cl_sent (snd (SpawnObject k pos c)) = cl_sent c" "cl_fault (snd (SpawnObject k pos c)) = cl_fault c"
  "the_actor j (snd (SpawnObject k pos c)) =
     (if j = next_addr c then animated (Cl_SetCellPos (scene_map c) pos True (Actor_new k)) else the_actor j c)"
  by (simp_all add: SpawnObject_def cl_fault_animation Cl_SetCellPos_def Actor_new_def ObjectInfo_default_def DIR_TYPE_IsValid_def)

lemma case_SpawnObject [simp]:
  "(case SpawnObject k pos c of (i, c1) \<Rightarrow> f i c1) = f (next_addr c) (snd (SpawnObject k pos c))"
  by (simp add: SpawnObject_def)

end
