(* ===== verification/ClientHandlers.thy ===== *)
theory ClientHandlers
  imports ClientData
begin

text \<open>
  \<open>ClientPacketHandler\<close> of the game client and what it calls: what every message of the server does to the scene, the own
  player and the panels. What is not ASCII or comes from a bitmap is an argument: the conversion of a name or a text to wide
  characters (\<open>wide\<close>), the prefixes of the chat types, the heading of the own whisper (\<open>label\<close>) and the sizes of the sprites.
  The scene exists from the start of the game on.
\<close>

record ClientEnv =
  wide :: "string \<Rightarrow> string"
  prefix_of :: "int32 \<Rightarrow> string"
  whisper_label :: "string \<Rightarrow> string"
  sprite_size :: "string \<Rightarrow> Vec2Int option"

section \<open>The own player's inventory\<close>

definition set_slot :: "int32 \<Rightarrow> InventorySlot \<Rightarrow> MyData \<Rightarrow> MyData" where
  "set_slot slot sl m =
     (if 0 \<le> slot \<and> slot < int INVENTORY_SIZE then m\<lparr>my_storage := (my_storage m)[nat slot := sl]\<rparr> else m)"

text \<open>\<open>GetEquipSlot\<close> gives a pointer; here the slot it points to is read and written.\<close>

definition GetEquipSlot :: "int32 \<Rightarrow> MyData \<Rightarrow> InventorySlot option" where
  "GetEquipSlot t m =
     (if t = 0 then Some (my_weapon m) else if t = 1 then Some (my_armor m)
      else if t = 2 then Some (my_potion m) else None)"

definition SetEquipSlot :: "int32 \<Rightarrow> InventorySlot \<Rightarrow> MyData \<Rightarrow> MyData" where
  "SetEquipSlot t sl m =
     (if t = 0 then m\<lparr>my_weapon := sl\<rparr> else if t = 1 then m\<lparr>my_armor := sl\<rparr>
      else if t = 2 then m\<lparr>my_potion := sl\<rparr> else m)"

definition slot_of_item :: "ItemInfo \<Rightarrow> InventorySlot" where
  "slot_of_item i = \<lparr>itemId = ii_itemid i, count = ii_count i\<rparr>"

definition ApplyInventoryData :: "ItemInfo list \<Rightarrow> ItemInfo \<Rightarrow> ItemInfo \<Rightarrow> ItemInfo \<Rightarrow> MyData \<Rightarrow> MyData" where
  "ApplyInventoryData items w ar po m =
     (fold (\<lambda>i. set_slot (ii_slot i) (slot_of_item i)) items (m\<lparr>my_storage := replicate INVENTORY_SIZE empty_slot\<rparr>))
       \<lparr>my_weapon := slot_of_item w, my_armor := slot_of_item ar, my_potion := slot_of_item po\<rparr>"

definition ApplyAddItem :: "int32 \<Rightarrow> int32 \<Rightarrow> int32 \<Rightarrow> MyData \<Rightarrow> MyData" where
  "ApplyAddItem slot iid cnt = set_slot slot \<lparr>itemId = iid, count = cnt\<rparr>"

definition set_stats :: "int32 \<Rightarrow> int32 \<Rightarrow> Actor \<Rightarrow> Actor" where
  "set_stats atk dfc a = a\<lparr>a_info := (a_info a)\<lparr>i_attack := atk, i_defence := dfc\<rparr>\<rparr>"

definition ApplyEquipItem ::
    "int32 \<Rightarrow> int32 \<Rightarrow> int32 \<Rightarrow> int32 \<Rightarrow> int32 \<Rightarrow> int32 \<Rightarrow> int32 \<Rightarrow> int32 \<Rightarrow> Actor \<Rightarrow> Actor" where
  "ApplyEquipItem t slot sid sc eid ec atk dfc a =
     set_stats atk dfc (a\<lparr>a_my := SetEquipSlot t \<lparr>itemId = eid, count = ec\<rparr>
       (set_slot slot \<lparr>itemId = sid, count = sc\<rparr> (a_my a))\<rparr>)"

definition ApplyUnequipItem :: "int32 \<Rightarrow> int32 \<Rightarrow> int32 \<Rightarrow> int32 \<Rightarrow> Actor \<Rightarrow> Actor" where
  "ApplyUnequipItem t slot atk dfc a =
     set_stats atk dfc
       (case GetEquipSlot t (a_my a) of
          None \<Rightarrow> a
        | Some sl \<Rightarrow> a\<lparr>a_my := SetEquipSlot t empty_slot (set_slot slot sl (a_my a))\<rparr>)"

definition ApplyUseItem :: "int32 \<Rightarrow> int32 \<Rightarrow> int32 \<Rightarrow> Actor \<Rightarrow> Actor" where
  "ApplyUseItem t remain newHp a =
     (let a1 = (case GetEquipSlot t (a_my a) of
                  None \<Rightarrow> a
                | Some sl \<Rightarrow> a\<lparr>a_my := SetEquipSlot t (if remain \<le> 0 then empty_slot else sl\<lparr>count := remain\<rparr>) (a_my a)\<rparr>)
      in a1\<lparr>a_info := (a_info a1)\<lparr>i_hp := newHp\<rparr>\<rparr>)"

section \<open>The answers to a move\<close>

definition TURN_GRACE :: rat where "TURN_GRACE = 1 / 20"

definition OnServerTurnAck :: "MyData \<Rightarrow> MyData" where
  "OnServerTurnAck m = m\<lparr>movePending := False, turnGraceLeft := TURN_GRACE\<rparr>"

definition OnServerAttackAck :: "MyData \<Rightarrow> MyData" where
  "OnServerAttackAck m = m\<lparr>attackPending := False\<rparr>"

text \<open>\<open>myId\<close> is the own player's id as \<open>SceneManager\<close> has it.\<close>

definition OnServerMoveResult :: "uint64 \<Rightarrow> ObjectInfo \<Rightarrow> MyData \<Rightarrow> MyData" where
  "OnServerMoveResult myId oi m0 =
     (let m = m0\<lparr>movePending := False\<rparr>
      in if \<not> hasLastMoveRequest m then m
         else if myId \<noteq> i_objectid oi then m
         else (if Vec (i_posx oi) (i_posy oi) = lastMoveFrom m \<and> i_state oi = IDLE
               then m\<lparr>blockedHold := True, blockedDir := lastMoveDir m\<rparr>
               else m\<lparr>blockedHold := False\<rparr>)\<lparr>hasLastMoveRequest := False\<rparr>)"

section \<open>Objects\<close>

definition with_my :: "(nat \<Rightarrow> Client \<Rightarrow> Client) \<Rightarrow> Client \<Rightarrow> Client" where
  "with_my f c = (case myPlayer c of None \<Rightarrow> c | Some i \<Rightarrow> f i c)"

definition Handle_S_EnterGame :: "bool \<Rightarrow> Client \<Rightarrow> Client" where
  "Handle_S_EnterGame success c = (if success then c\<lparr>loggedIn := True\<rparr> else c)"

definition Handle_S_MyPlayer :: "ObjectInfo \<Rightarrow> Client \<Rightarrow> Client" where
  "Handle_S_MyPlayer oi c =
     (let (i, c1) = SpawnObject KMyPlayer (Vec (i_posx oi) (i_posy oi)) c
      in (upd_info i (\<lambda>_. oi) c1)\<lparr>myPlayer := Some i\<rparr>)"

text \<open>
  A player gets its direction before its \<open>info\<close>, a monster and an arrow after, so that the monster's template is there for its
  animation. A player's state is set twice.
\<close>

definition introduce_actor :: "nat \<Rightarrow> ObjectInfo \<Rightarrow> Client \<Rightarrow> Client" where
  "introduce_actor i oi c =
     upd_actor i (\<lambda>a. Cl_SetCellPos (scene_map c) (Vec (i_posx oi) (i_posy oi)) True (Cl_SetState (i_state oi) a))
       (turn_actor i (i_dir oi) (upd_info i (\<lambda>_. oi) c))"

definition add_one :: "ObjectInfo \<Rightarrow> Client \<Rightarrow> Client" where
  "add_one oi c =
     (let spawn = (\<lambda>k. SpawnObject k (Vec (i_posx oi) (i_posy oi)) c)
      in if GetMyPlayerId c = i_objectid oi then c
         else case i_objecttype oi of
           OBJECT_TYPE_PLAYER \<Rightarrow>
             (case spawn KPlayer of (i, c1) \<Rightarrow>
                upd_info i (\<lambda>_. oi) (upd_actor i (Cl_SetState (i_state oi)) (turn_actor i (i_dir oi) c1)))
         | OBJECT_TYPE_MONSTER \<Rightarrow> (case spawn KMonster of (i, c1) \<Rightarrow> introduce_actor i oi c1)
         | OBJECT_TYPE_PROJECTILE \<Rightarrow> (case spawn KArrow of (i, c1) \<Rightarrow> introduce_actor i oi c1)
         | OBJECT_TYPE_NONE \<Rightarrow> c)"

definition Handle_S_AddObject :: "ObjectInfo list \<Rightarrow> Client \<Rightarrow> Client" where
  "Handle_S_AddObject infs c = fold add_one infs c"

text \<open>\<open>int32 id = pkt.ids(i)\<close>, and back to \<open>uint64\<close> in the call of \<open>GetObject\<close>: the lower half, sign-extended.\<close>

definition id_through_int32 :: "uint64 \<Rightarrow> uint64" where
  "id_through_int32 i = scast (ucast i :: 32 word)"

definition remove_one :: "uint64 \<Rightarrow> Client \<Rightarrow> Client" where
  "remove_one oid c = (case GetObject (id_through_int32 oid) c of None \<Rightarrow> c | Some i \<Rightarrow> RemoveActor i c)"

definition Handle_S_RemoveObject :: "uint64 list \<Rightarrow> Client \<Rightarrow> Client" where
  "Handle_S_RemoveObject ids c = fold remove_one ids c"

text \<open>What a state, a direction and a cell from the server do to an actor.\<close>

definition place_actor :: "nat \<Rightarrow> ObjectInfo \<Rightarrow> Client \<Rightarrow> Client" where
  "place_actor i oi c =
     upd_actor i (\<lambda>a. Cl_SetCellPos (scene_map c) (Vec (i_posx oi) (i_posy oi)) False (Cl_SetState (i_state oi) a))
       (turn_actor i (i_dir oi) c)"

definition Handle_S_Move :: "ObjectInfo \<Rightarrow> Client \<Rightarrow> Client" where
  "Handle_S_Move oi c =
     (case GetObject (i_objectid oi) c of
        None \<Rightarrow> c
      | Some i \<Rightarrow>
          let c1 = (if GetMyPlayerId c = i_objectid oi \<and> a_kind (the_actor i c) = KMyPlayer
                    then upd_my i (OnServerMoveResult (GetMyPlayerId c) oi) c else c)
          in place_actor i oi c1)"

definition Handle_S_Turn :: "ObjectInfo \<Rightarrow> Client \<Rightarrow> Client" where
  "Handle_S_Turn oi c =
     (case GetObject (i_objectid oi) c of
        None \<Rightarrow> c
      | Some i \<Rightarrow>
          let c1 = (if GetMyPlayerId c = i_objectid oi \<and> a_kind (the_actor i c) = KMyPlayer
                    then upd_my i OnServerTurnAck c else c)
          in upd_actor i (Cl_SetState (i_state oi)) (turn_actor i (i_dir oi) c1))"

definition explosion_offset :: "int32 \<Rightarrow> Vec2Int" where
  "explosion_offset dir =
     (if dir = DIR_UP then Vec 0 (-2) else if dir = DIR_DOWN then Vec 0 2
      else if dir = DIR_LEFT then Vec (-2) 0 else if dir = DIR_RIGHT then Vec 2 0 else Vec 0 0)"

text \<open>A missing flipbook leaves the default duration.\<close>

definition skill_duration :: "FlipbookInfo option \<Rightarrow> rat" where
  "skill_duration b = (case b of None \<Rightarrow> 7 / 20 | Some b \<Rightarrow> fb_duration b)"

definition start_attack :: "int32 \<Rightarrow> int32 \<Rightarrow> nat \<Rightarrow> Client \<Rightarrow> Client" where
  "start_attack dir weapon i c0 =
     (let c = turn_actor i dir c0;
          wt = FromProtoWeaponType weapon;
          c1 = (if is_player_actor (the_actor i c)
                then (case GetSkillFlipbook wt dir of
                        Inl f \<Rightarrow> cl_raise f c
                      | Inr b \<Rightarrow> upd_actor i (\<lambda>a. StartSkillAnim (cl_now c) (skill_duration b) (a\<lparr>a_weapon := wt\<rparr>)) c)
                else upd_actor i (StartSkillAnim (cl_now c) (7 / 20)) c)
      in if weapon = WEAPON_TYPE_STAFF
         then SpawnEffect ExplodeEffect (actor_pos (the_actor i c1) + explosion_offset dir) c1
         else c1)"

definition Cl_Handle_S_Attack :: "uint64 \<Rightarrow> int32 \<Rightarrow> int32 \<Rightarrow> Client \<Rightarrow> Client" where
  "Cl_Handle_S_Attack attacker dir weapon c =
     (let c1 = (case GetObject attacker c of None \<Rightarrow> c | Some i \<Rightarrow> start_attack dir weapon i c)
      in if attacker = GetMyPlayerId c1 then with_my (\<lambda>i. upd_my i OnServerAttackAck) c1 else c1)"

fun set_member_hp :: "uint64 \<Rightarrow> int32 \<Rightarrow> PartyMemberInfo list \<Rightarrow> PartyMemberInfo list" where
  "set_member_hp pid hp [] = []"
| "set_member_hp pid hp (m # ms) =
     (if pm_playerid m = pid then m\<lparr>pm_hp := hp\<rparr> # ms else m # set_member_hp pid hp ms)"

definition Handle_S_Damaged :: "uint64 \<Rightarrow> int32 \<Rightarrow> Client \<Rightarrow> Client" where
  "Handle_S_Damaged tgt newhp c =
     (let c1 = (case GetObject tgt c of
                  None \<Rightarrow> c
                | Some i \<Rightarrow>
                    if is_creature_actor (the_actor i c)
                    then (let c' = upd_info i (\<lambda>oi. oi\<lparr>i_hp := newhp\<rparr>) c
                          in SpawnEffect HitEffect (actor_pos (the_actor i c')) c')
                    else c)
      in with_my (\<lambda>i. upd_my i (\<lambda>m. m\<lparr>partyMembers := set_member_hp tgt newhp (partyMembers m)\<rparr>)) c1)"

definition Handle_S_ChangeMap :: "bool \<Rightarrow> int32 \<Rightarrow> Client \<Rightarrow> Client" where
  "Handle_S_ChangeMap success mapId c =
     (if \<not> success then c else (ChangeMap mapId c)\<lparr>myPlayer := None\<rparr>)"

section \<open>The own player's numbers\<close>

text \<open>\<open>mutable_player()\<close> makes the object's extra a player's, with defaults, unless it is one.\<close>

definition mutable_player :: "(PlayerExtra \<Rightarrow> PlayerExtra) \<Rightarrow> ObjectInfo \<Rightarrow> ObjectInfo" where
  "mutable_player f oi =
     oi\<lparr>i_extra := ExtraPlayer (f (case i_extra oi of ExtraPlayer e \<Rightarrow> e | _ \<Rightarrow> \<lparr>pe_level = 0, pe_exp = 0, pe_maxexp = 0\<rparr>))\<rparr>"

definition Handle_S_GainExp :: "uint64 \<Rightarrow> int32 \<Rightarrow> int32 \<Rightarrow> Client \<Rightarrow> Client" where
  "Handle_S_GainExp pid cur mx =
     with_my (\<lambda>i c. if i_objectid (a_info (the_actor i c)) \<noteq> pid then c
       else upd_info i (mutable_player (\<lambda>e. e\<lparr>pe_exp := cur, pe_maxexp := mx\<rparr>)) c)"

definition Handle_S_LevelUp :: "uint64 \<Rightarrow> int32 \<Rightarrow> int32 \<Rightarrow> int32 \<Rightarrow> int32 \<Rightarrow> int32 \<Rightarrow> Client \<Rightarrow> Client" where
  "Handle_S_LevelUp pid lvl maxhp atk dfc mx c =
     (case GetObject pid c of
        None \<Rightarrow> c
      | Some i \<Rightarrow>
          if \<not> is_creature_actor (the_actor i c) then c
          else upd_info i (\<lambda>oi. mutable_player (\<lambda>e. e\<lparr>pe_level := lvl, pe_maxexp := mx\<rparr>)
                 (oi\<lparr>i_maxhp := maxhp, i_hp := maxhp, i_attack := atk, i_defence := dfc\<rparr>)) c)"

section \<open>The party\<close>

definition Handle_S_PartyInvite :: "ClientEnv \<Rightarrow> uint64 \<Rightarrow> string \<Rightarrow> Client \<Rightarrow> Client" where
  "Handle_S_PartyInvite E inviter name =
     with_my (\<lambda>i. upd_my i (\<lambda>m. m\<lparr>pendingInviteFrom := inviter, pendingInviterName := wide E name\<rparr>))"

definition member_level :: "ObjectInfo \<Rightarrow> int32" where
  "member_level oi = (case i_extra oi of ExtraPlayer e \<Rightarrow> pe_level e | _ \<Rightarrow> 0)"

text \<open>A member in the same room is shown as the client sees it there.\<close>

definition member_data :: "ClientEnv \<Rightarrow> Client \<Rightarrow> PartyMemberInfo \<Rightarrow> PartyMemberInfo" where
  "member_data E c m =
     (let d = m\<lparr>pm_name := wide E (pm_name m)\<rparr>
      in case GetObject (pm_playerid m) c of
           None \<Rightarrow> d
         | Some i \<Rightarrow> let oi = a_info (the_actor i c)
             in d\<lparr>pm_name := wide E (i_name oi), pm_hp := i_hp oi, pm_maxhp := i_maxhp oi, pm_level := member_level oi\<rparr>)"

definition Handle_S_PartyUpdate :: "ClientEnv \<Rightarrow> PartyMemberInfo list \<Rightarrow> Client \<Rightarrow> Client" where
  "Handle_S_PartyUpdate E ms = with_my (\<lambda>i c. upd_my i (\<lambda>m. m\<lparr>partyMembers := map (member_data E c) ms\<rparr>) c)"

definition Handle_S_PartyLeave :: "Client \<Rightarrow> Client" where
  "Handle_S_PartyLeave = with_my (\<lambda>i. upd_my i (\<lambda>m.
     let m1 = m\<lparr>partyMembers := []\<rparr>
     in if pendingInviteFrom m1 \<noteq> 0 then m1\<lparr>pendingInviteFrom := 0, pendingInviterName := []\<rparr> else m1))"

section \<open>The panels\<close>

definition MAX_MESSAGES :: nat where "MAX_MESSAGES = 10"

definition AddMessage :: "string \<Rightarrow> string \<Rightarrow> Client \<Rightarrow> Client" where
  "AddMessage sender msg c =
     (let ms = chat_messages c @ [(sender, msg)]
      in c\<lparr>chat_messages := (if length ms > MAX_MESSAGES then tl ms else ms)\<rparr>)"

definition Chat_SetVisible :: "bool \<Rightarrow> Client \<Rightarrow> Client" where
  "Chat_SetVisible v c =
     (let c1 = c\<lparr>chat_visible := v\<rparr> in if v then c1\<lparr>chat_justOpened := True\<rparr> else c1)"

text \<open>An incoming message opens the chat panel, without locking the input as opening it by hand does.\<close>

definition AddChatMessage :: "string \<Rightarrow> string \<Rightarrow> Client \<Rightarrow> Client" where
  "AddChatMessage sender msg c = AddMessage sender msg (Chat_SetVisible True c)"

text \<open>\<open>prefix_of\<close> gives the three Korean prefixes, which are not ASCII; another chat type has none.\<close>

definition Handle_S_Chat :: "ClientEnv \<Rightarrow> string \<Rightarrow> int32 \<Rightarrow> string \<Rightarrow> Client \<Rightarrow> Client" where
  "Handle_S_Chat E sender t msg =
     AddChatMessage ((if t \<in> {CHAT_TYPE_GLOBAL, CHAT_TYPE_PARTY, CHAT_TYPE_WHISPER} then prefix_of E t else []) @ wide E sender)
       (wide E msg)"

definition Handle_S_Ranking :: "ClientEnv \<Rightarrow> (string \<times> int32) list \<Rightarrow> Client \<Rightarrow> Client" where
  "Handle_S_Ranking E es c = c\<lparr>ranking_rows := map (\<lambda>(n, l). (wide E n, l)) es\<rparr>"

section \<open>HandlePacket\<close>

fun handle_message :: "ClientEnv \<Rightarrow> spacket \<Rightarrow> Client \<Rightarrow> Client" where
  "handle_message E (S_EnterGame ok acc) c = Handle_S_EnterGame ok c"
| "handle_message E (S_MyPlayer oi) c = Handle_S_MyPlayer oi c"
| "handle_message E (S_AddObject infs) c = Handle_S_AddObject infs c"
| "handle_message E (S_RemoveObject ids) c = Handle_S_RemoveObject ids c"
| "handle_message E (S_Move oi) c = Handle_S_Move oi c"
| "handle_message E (S_Turn oi) c = Handle_S_Turn oi c"
| "handle_message E (S_Attack a d w) c = Cl_Handle_S_Attack a d w c"
| "handle_message E (S_Damaged a t n hp) c = Handle_S_Damaged t hp c"
| "handle_message E (S_ChangeMap ok m ch i) c = Handle_S_ChangeMap ok m c"
| "handle_message E (S_GainExp p g cur mx) c = Handle_S_GainExp p cur mx c"
| "handle_message E (S_LevelUp p l h atk dfc mx) c = Handle_S_LevelUp p l h atk dfc mx c"
| "handle_message E (S_InventoryData is w ar po) c =
     with_my (\<lambda>i. upd_my i (ApplyInventoryData is w ar po)) c"
| "handle_message E (S_AddItem iid slot cnt) c = with_my (\<lambda>i. upd_my i (ApplyAddItem slot iid cnt)) c"
| "handle_message E (S_EquipItem t slot sid sc eid ec atk dfc) c =
     with_my (\<lambda>i. upd_actor i (ApplyEquipItem t slot sid sc eid ec atk dfc)) c"
| "handle_message E (S_UnequipItem t slot atk dfc) c = with_my (\<lambda>i. upd_actor i (ApplyUnequipItem t slot atk dfc)) c"
| "handle_message E (S_UseItem t r hp) c = with_my (\<lambda>i. upd_actor i (ApplyUseItem t r hp)) c"
| "handle_message E (S_PartyInvite i n) c = Handle_S_PartyInvite E i n c"
| "handle_message E (S_PartyUpdate ms) c = Handle_S_PartyUpdate E ms c"
| "handle_message E S_PartyLeave c = Handle_S_PartyLeave c"
| "handle_message E (S_Chat s t m) c = Handle_S_Chat E s t m c"
| "handle_message E (S_Ranking es) c = Handle_S_Ranking E es c"

text \<open>
  The dispatch on the header's id. \<open>parse i b\<close> is what protobuf's parser for the message with id \<open>i\<close> makes of the payload.
\<close>

definition Client_HandlePacket :: "ClientEnv \<Rightarrow> (uint16 \<Rightarrow> byte list \<Rightarrow> spacket) \<Rightarrow> byte list \<Rightarrow> Client \<Rightarrow> Client" where
  "Client_HandlePacket E parse buf c =
     (if length buf < sizeof_PacketHeader then cl_raise UninitializedRead c
      else let i = hid (header_at buf 0)
           in if i < 202 \<or> 222 < i then c
              else if i = 220 then handle_message E S_PartyLeave c
              else case ParsePacket buf of
                None \<Rightarrow> cl_raise UninitializedRead c
              | Some b \<Rightarrow> handle_message E (parse i b) c)"

end
