(* ===== verification/ClientInput.thy ===== *)
theory ClientInput
  imports ClientHandlers
begin

text \<open>
  What the player does and a frame brings: walking, turning and attacking, the sprites that follow, and the keys, clicks and texts
  the panels take. Each function is one call in the frame that makes it; the input devices are an argument.
\<close>

section \<open>Walking and attacking\<close>

definition wanted :: "InputManager \<Rightarrow> int32 option" where
  "wanted ks =
     (if GetButton ks (key_of CHR ''W'') then Some DIR_UP
      else if GetButton ks (key_of CHR ''S'') then Some DIR_DOWN
      else if GetButton ks (key_of CHR ''A'') then Some DIR_LEFT
      else if GetButton ks (key_of CHR ''D'') then Some DIR_RIGHT
      else None)"

definition read_direction :: "InputManager \<Rightarrow> MyData \<Rightarrow> MyData" where
  "read_direction ks m =
     (case wanted ks of
        None \<Rightarrow> m\<lparr>keyPressed := False, blockedHold := False\<rparr>
      | Some d \<Rightarrow> m\<lparr>keyPressed := True, wantedDir := d\<rparr>)"

definition pick_weapon :: "InputManager \<Rightarrow> Actor \<Rightarrow> Actor" where
  "pick_weapon ks a =
     (if GetButtonDown ks (key_of CHR ''1'') then a\<lparr>a_weapon := Sword\<rparr>
      else if GetButtonDown ks (key_of CHR ''2'') then a\<lparr>a_weapon := Bow\<rparr>
      else if GetButtonDown ks (key_of CHR ''3'') then a\<lparr>a_weapon := Staff\<rparr>
      else a)"

definition TrySkill :: "nat \<Rightarrow> Client \<Rightarrow> Client" where
  "TrySkill i c =
     (let a = the_actor i c in SendPacket (C_Attack (i_dir (a_info a)) (ToProtoWeaponType (a_weapon a))) c)"

definition TickInput :: "InputManager \<Rightarrow> nat \<Rightarrow> Client \<Rightarrow> Client" where
  "TickInput ks i c =
     (if inputLocked c then c
      else let c1 = upd_actor i (pick_weapon ks) (upd_my i (read_direction ks) c);
               m = a_my (the_actor i c1)
           in if \<not> GetButtonDown ks VK_SPACE then c1
              else if cl_now c1 < attackCooldownUntil m then c1
              else if attackPending m then c1
              else if \<not> hasMapId c1 then c1
              else if IsTown c1 then c1
              else upd_my i (\<lambda>m. m\<lparr>attackPending := True, attackPendingStart := cl_now c1,
                       attackCooldownUntil := cl_now c1 + 3 / 20\<rparr>) (TrySkill i c1))"

definition TryMove :: "nat \<Rightarrow> Client \<Rightarrow> Client" where
  "TryMove i c =
     (let a = the_actor i c; m = a_my a; currentDir = i_dir (a_info a)
      in if \<not> keyPressed m then c
         else if movePending m then c
         else if blockedHold m \<and> currentDir = wantedDir m \<and> blockedDir m = wantedDir m then c
         else if currentDir \<noteq> wantedDir m then
           upd_my i (\<lambda>m. m\<lparr>keyPressed := False, movePending := True\<rparr>) (SendPacket (C_Turn (wantedDir m)) c)
         else if turnGraceLeft m > 0 then c
         else
           upd_my i (\<lambda>m. m\<lparr>keyPressed := False, movePending := True\<rparr>)
             (SendPacket (C_Move currentDir)
               (upd_my i (\<lambda>m. m\<lparr>lastMoveFrom := actor_pos a, lastMoveDir := currentDir, hasLastMoveRequest := True\<rparr>) c)))"

definition MyPlayer_TickIdle :: "InputManager \<Rightarrow> nat \<Rightarrow> Client \<Rightarrow> Client" where
  "MyPlayer_TickIdle ks i c = TryMove i (TickInput ks i c)"

section \<open>The actors' ticks\<close>

definition set_anim :: "nat \<Rightarrow> ObjectState \<Rightarrow> Client \<Rightarrow> Client" where
  "set_anim i st c =
     (if a_animState (the_actor i c) = st then c
      else update_animation i (upd_actor i (\<lambda>a. a\<lparr>a_animState := st\<rparr>) c))"

text \<open>\<open>GameObject::Tick\<close> with the three virtual functions of the actor's class, after \<open>FlipbookActor::Tick\<close>.\<close>

definition GameObject_Tick :: "(Client \<Rightarrow> Client) \<Rightarrow> (Client \<Rightarrow> Client) \<Rightarrow> (Client \<Rightarrow> Client) \<Rightarrow> nat \<Rightarrow> Client \<Rightarrow> Client" where
  "GameObject_Tick tickIdle tickMove tickSkill i c0 =
     (let c = upd_sprite i (FlipbookActor_Tick (cl_dt c0)) c0
      in if sliding (a_sprite (the_actor i c)) then
           (let c1 = tickMove c
            in set_anim i (if IsSkillPlaying (cl_now c1) (the_actor i c1) then SKILL else MOVE) c1)
         else let c1 = (case i_state (a_info (the_actor i c)) of
                          IDLE \<Rightarrow> tickIdle c | MOVE \<Rightarrow> tickMove c | SKILL \<Rightarrow> tickSkill c)
              in set_anim i (if IsSkillPlaying (cl_now c1) (the_actor i c1) then SKILL else IDLE) c1)"

definition TickSkill :: "nat \<Rightarrow> Client \<Rightarrow> Client" where
  "TickSkill i c =
     (let s = a_sprite (the_actor i c)
      in if s_flipbook s = None then c
         else if IsAnimationEnded s then upd_actor i (Cl_SetState IDLE) c else c)"

definition Player_TickMove :: "nat \<Rightarrow> Client \<Rightarrow> Client" where
  "Player_TickMove i c = upd_sprite i (Player_step (cl_dt c)) c"

definition Player_TickIdle :: "nat \<Rightarrow> Client \<Rightarrow> Client" where
  "Player_TickIdle i c = (if Length (to_dest (a_sprite (the_actor i c))) \<ge> 1 then Player_TickMove i c else c)"

definition Arrow_TickMove :: "nat \<Rightarrow> Client \<Rightarrow> Client" where
  "Arrow_TickMove i c = upd_sprite i (Arrow_step (cl_dt c) (i_dir (a_info (the_actor i c)))) c"

definition Monster_TickMove :: "nat \<Rightarrow> Client \<Rightarrow> Client" where
  "Monster_TickMove i c =
     (let s = a_sprite (the_actor i c)
      in if Monster_arrived s then upd_sprite i (\<lambda>s. s\<lparr>s_pos := s_dest s\<rparr>) (upd_actor i (Cl_SetState IDLE) c)
         else upd_sprite i (Monster_step (cl_dt c) (Monster_heading s)) (turn_actor i (Monster_heading s) c))"

definition tick_timers :: "rat \<Rightarrow> rat \<Rightarrow> MyData \<Rightarrow> MyData" where
  "tick_timers now dt0 m =
     (let dt = min dt0 (1 / 20);
          m1 = (if turnGraceLeft m > 0 then m\<lparr>turnGraceLeft := turnGraceLeft m - dt\<rparr> else m)
      in if attackPending m1 \<and> now - attackPendingStart m1 > 1 / 4 then m1\<lparr>attackPending := False\<rparr> else m1)"

text \<open>The own player carries the camera, a component that ticks first.\<close>

definition MyPlayer_Tick :: "InputManager \<Rightarrow> nat \<Rightarrow> Client \<Rightarrow> Client" where
  "MyPlayer_Tick ks i c0 =
     (let c = c0\<lparr>cl_camera := Camera_Tick (scene_map c0) (s_pos (a_sprite (the_actor i c0))) (cl_camera c0)\<rparr>;
          c1 = GameObject_Tick (MyPlayer_TickIdle ks i) (Player_TickMove i) (TickSkill i) i c
      in upd_my i (tick_timers (cl_now c1) (cl_dt c1)) c1)"

text \<open>An effect stands still and takes itself out of its layer when its animation has ended.\<close>

definition Effect_Tick :: "rat \<Rightarrow> Effect \<Rightarrow> Effect option" where
  "Effect_Tick deltaTime e =
     (let s = FlipbookActor_Tick deltaTime (e_sprite e)
      in if IsAnimationEnded s then None else Some (e\<lparr>e_sprite := s\<rparr>))"

definition tick_effects :: "Client \<Rightarrow> Client" where
  "tick_effects c = c\<lparr>layer_effect := List.map_filter (Effect_Tick (cl_dt c)) (layer_effect c)\<rparr>"

text \<open>\<open>TilemapActor::Tick\<close>\<close>

definition tick_tilemap :: "InputManager \<Rightarrow> Client \<Rightarrow> Client" where
  "tick_tilemap ks c =
     (if GetButtonDown ks LeftMouse
      then (let click = Vec (vx (mousePos ks) + int_of_float (px (cl_camera c) - of_int (GWinSizeX div 2)))
                            (vy (mousePos ks) + int_of_float (py (cl_camera c) - of_int (GWinSizeY div 2)))
            in c\<lparr>loaded_maps := (loaded_maps c)(shown_map c := TilePicking click (scene_map c))\<rparr>)
      else c)"

section \<open>Logging in\<close>

definition MAX_USERNAME_LEN :: nat where "MAX_USERNAME_LEN = 12"

definition type_char :: "char \<Rightarrow> Client \<Rightarrow> Client" where
  "type_char ch c = (if length (loginText c) < MAX_USERNAME_LEN then c\<lparr>loginText := loginText c @ [ch]\<rparr> else c)"

text \<open>Letters in the order of their codes, each appended in lower case, then digits, then the two editing keys.\<close>

definition UpdateLogin :: "InputManager \<Rightarrow> Client \<Rightarrow> Client" where
  "UpdateLogin ks c =
     (let c1 = fold (\<lambda>vk. if GetButtonDown ks vk then type_char (char_of (vk + 32)) else id) [65..<91] c;
          c2 = fold (\<lambda>vk. if GetButtonDown ks vk then type_char (char_of vk) else id) [48..<58] c1;
          c3 = (if GetButtonDown ks VK_BACK \<and> loginText c2 \<noteq> [] then c2\<lparr>loginText := butlast (loginText c2)\<rparr> else c2)
      in if GetButtonDown ks VK_RETURN \<and> loginText c3 \<noteq> [] then SendPacket (C_Login (loginText c3)) c3 else c3)"

section \<open>Panels\<close>

text \<open>
  \<open>HandleInventoryClick\<close>: a right click at \<open>(mx, my)\<close> from the panel's corner, on a panel of the given size. The loop over
  the storage slots stops at the first that is hit.
\<close>

definition hit_slot :: "int32 \<Rightarrow> int32 \<Rightarrow> nat \<Rightarrow> bool" where
  "hit_slot mx my i =
     (let slotX = 16 + int (i mod 9) * 36; slotY = 168 + int (i div 9) * 36
      in mx \<ge> slotX \<and> mx < slotX + 32 \<and> my \<ge> slotY \<and> my < slotY + 32)"

definition click_slot :: "int32 \<Rightarrow> int32 \<Rightarrow> nat option" where
  "click_slot mx my = find (hit_slot mx my) [0..<INVENTORY_SIZE]"

definition HandleInventoryClick :: "int32 \<Rightarrow> int32 \<Rightarrow> int32 \<Rightarrow> int32 \<Rightarrow> Client \<Rightarrow> Client" where
  "HandleInventoryClick invW invH mx my =
     with_my (\<lambda>p c.
       let m = a_my (the_actor p c)
       in if mx < 0 \<or> my < 0 \<or> mx \<ge> invW \<or> my \<ge> invH then c
          else if mx \<ge> 98 \<and> mx < 130 \<and> my \<ge> 38 \<and> my < 70 then
            (if itemId (my_weapon m) > 0 then SendPacket (C_UnequipItem 0) c else c)
          else if mx \<ge> 98 \<and> mx < 130 \<and> my \<ge> 80 \<and> my < 112 then
            (if itemId (my_armor m) > 0 then SendPacket (C_UnequipItem 1) c else c)
          else if mx \<ge> 290 \<and> mx < 322 \<and> my \<ge> 68 \<and> my < 100 then
            (if itemId (my_potion m) > 0 then SendPacket (C_UseItem (-1)) c else c)
          else case click_slot mx my of
            None \<Rightarrow> c
          | Some i \<Rightarrow> if itemId (my_storage m ! i) > 0 then SendPacket (C_EquipItem (int i)) c else c)"

text \<open>
  \<open>SendChat\<close>, after the edit box's text has been made UTF-8: a message, its type and its target, or nothing when the box is
  empty or a whisper has no message.
\<close>

definition chat_command :: "string \<Rightarrow> (int32 \<times> string \<times> string) option" where
  "chat_command msg =
     (if msg = [] then None
      else if length msg > 3 \<and> take 3 msg = ''/p '' then Some (CHAT_TYPE_PARTY, drop 3 msg, [])
      else if length msg > 3 \<and> take 3 msg = ''/w '' then
        (let rest = drop 3 msg; name = takeWhile (\<lambda>ch. ch \<noteq> CHR '' '') rest
         in if length name = length rest then None
            else Some (CHAT_TYPE_WHISPER, drop (length name + 1) rest, name))
      else Some (CHAT_TYPE_GLOBAL, msg, []))"

definition SendChat :: "ClientEnv \<Rightarrow> string \<Rightarrow> Client \<Rightarrow> Client" where
  "SendChat E utf8 c =
     (case chat_command utf8 of
        None \<Rightarrow> c
      | Some (t, msg, dest) \<Rightarrow>
          let c1 = SendPacket (C_Chat t msg dest) c
          in if t = CHAT_TYPE_WHISPER then AddMessage (whisper_label E (wide E dest)) (wide E msg) c1 else c1)"

text \<open>\<open>ChatPanel::Tick\<close>: \<open>focused\<close> says that the edit box has the focus.\<close>

definition ChatPanel_Tick :: "ClientEnv \<Rightarrow> InputManager \<Rightarrow> bool \<Rightarrow> string \<Rightarrow> Client \<Rightarrow> Client" where
  "ChatPanel_Tick E ks focused edit c =
     (if \<not> chat_visible c then c
      else if chat_justOpened c then c\<lparr>chat_justOpened := False\<rparr>
      else if GetButtonDown ks VK_RETURN \<and> focused then SendChat E edit c
      else c)"

definition answer_invite :: "bool \<Rightarrow> nat \<Rightarrow> Client \<Rightarrow> Client" where
  "answer_invite accept p c =
     (upd_my p (\<lambda>m. m\<lparr>pendingInviteFrom := 0, pendingInviterName := []\<rparr>)
        (SendPacket (C_PartyAnswer (pendingInviteFrom (a_my (the_actor p c))) accept) c))\<lparr>inputConsumed := True\<rparr>"

definition TickUIInput :: "InputManager \<Rightarrow> Client \<Rightarrow> Client" where
  "TickUIInput ks c0 =
     (let c1 = (if GetButtonDown ks (key_of CHR ''I'') then c0\<lparr>inventory_panel := (inventory_panel c0)\<lparr>u_visible := \<not> u_visible (inventory_panel c0)\<rparr>\<rparr> else c0);
          c2 = (if GetButtonDown ks (key_of CHR ''R'')
                then (let v = \<not> u_visible (ranking_panel c1); c' = c1\<lparr>ranking_panel := (ranking_panel c1)\<lparr>u_visible := v\<rparr>\<rparr>
                      in if v then SendPacket C_GetRanking c' else c')
                else c1);
          c = (if GetButtonDown ks VK_RETURN \<and> \<not> chat_visible c2 then (Chat_SetVisible True c2)\<lparr>inputLocked := True\<rparr> else c2)
      in case myPlayer c of
           None \<Rightarrow> c
         | Some p \<Rightarrow>
             if pendingInviteFrom (a_my (the_actor p c)) \<noteq> 0 \<and> GetButtonDown ks (key_of CHR ''Y'') then answer_invite True p c
             else if pendingInviteFrom (a_my (the_actor p c)) \<noteq> 0 \<and> GetButtonDown ks (key_of CHR ''N'') then answer_invite False p c
             else if GetButtonDown ks (key_of CHR ''P'') \<and> partyMembers (a_my (the_actor p c)) \<noteq> [] then SendPacket C_PartyLeave c
             else c)"

text \<open>The three buttons.\<close>

definition OnClickTown1 :: "Client \<Rightarrow> Client" where "OnClickTown1 = SendPacket (C_ChangeMap MAP_ID_TOWN 1)"
definition OnClickTown2 :: "Client \<Rightarrow> Client" where "OnClickTown2 = SendPacket (C_ChangeMap MAP_ID_TOWN 2)"
definition OnClickDungeon :: "Client \<Rightarrow> Client" where "OnClickDungeon = SendPacket (C_ChangeMap MAP_ID_DUNGEON 0)"

text \<open>
  The buttons tick one after the other, each click sending its request. None of the panels has children: \<open>Panel_drag\<close> is all
  that \<open>Panel::Tick\<close> does to them.
\<close>

definition tick_button :: "InputManager \<Rightarrow> nat \<times> (Client \<Rightarrow> Client) \<Rightarrow> Client \<Rightarrow> Client" where
  "tick_button ks kf c =
     (case kf of (k, onClick) \<Rightarrow>
        case Button_Tick ks (cl_dt c) (map_buttons c ! k) of (b, clicked) \<Rightarrow>
          let c1 = c\<lparr>map_buttons := (map_buttons c)[k := b]\<rparr> in if clicked then onClick c1 else c1)"

definition tick_panel :: "InputManager \<Rightarrow> Panel \<Rightarrow> Panel" where
  "tick_panel ks p = (if u_visible p then Panel_drag ks p else p)"

definition HandleInventoryClick_at :: "InputManager \<Rightarrow> Client \<Rightarrow> Client" where
  "HandleInventoryClick_at ks c =
     (if \<not> GetButtonDown ks RightMouse then c
      else case GetRect (inventory_panel c) of Rect l t r b \<Rightarrow>
        HandleInventoryClick (r - l) (b - t) (vx (mousePos ks) - l) (vy (mousePos ks) - t) c)"

definition InventoryPanel_Tick :: "ClientEnv \<Rightarrow> InputManager \<Rightarrow> Client \<Rightarrow> Client" where
  "InventoryPanel_Tick E ks c =
     (if \<not> u_visible (inventory_panel c) then c
      else case Inventory_PrepareLayout (sprite_size E ''Inventory'') (inventory_panel c) of
             (False, p) \<Rightarrow> c\<lparr>inventory_panel := p\<rparr>
           | (True, p) \<Rightarrow> HandleInventoryClick_at ks (c\<lparr>inventory_panel := Panel_drag ks p\<rparr>))"

definition TickPanels :: "ClientEnv \<Rightarrow> InputManager \<Rightarrow> Client \<Rightarrow> Client" where
  "TickPanels E ks c0 =
     (let c1 = fold (tick_button ks) [(0, OnClickTown1), (1, OnClickTown2), (2, OnClickDungeon)] c0;
          c2 = InventoryPanel_Tick E ks c1
      in c2\<lparr>ranking_panel := tick_panel ks (ranking_panel c2), party_panel := tick_panel ks (party_panel c2),
            invite_panel := tick_panel ks (invite_panel c2)\<rparr>)"

text \<open>A left click invites the first player but oneself, in the layer's order, whose sprite is within 50 pixels.\<close>

definition near_click :: "InputManager \<Rightarrow> Vec2 \<Rightarrow> Vec2 \<Rightarrow> bool" where
  "near_click ks camera pos \<longleftrightarrow>
     (let dx = of_int (vx (mousePos ks)) + px camera - of_int GWinSizeX / 2 - px pos;
          dy = of_int (vy (mousePos ks)) + py camera - of_int GWinSizeY / 2 - py pos
      in dx * dx + dy * dy < 50 * 50)"

definition HandlePartyInviteClick :: "InputManager \<Rightarrow> Client \<Rightarrow> Client" where
  "HandlePartyInviteClick ks c =
     (if \<not> GetButtonDown ks LeftMouse then c
      else case find (\<lambda>i. let a = the_actor i c in is_player_actor a \<and> i_objectid (a_info a) \<noteq> GetMyPlayerId c
                  \<and> i_objecttype (a_info a) = OBJECT_TYPE_PLAYER \<and> near_click ks (cl_camera c) (s_pos (a_sprite a)))
                (layer_object c) of
             None \<Rightarrow> c
           | Some i \<Rightarrow> SendPacket (C_PartyInvite (i_objectid (a_info (the_actor i c)))) c)"

text \<open>
  While the chat panel shows, only it and the escape key act. The edit box is a window of the system: \<open>focused\<close> says whether it has
  the focus, \<open>edit\<close> is its text.
\<close>

definition UIManager_Tick :: "ClientEnv \<Rightarrow> InputManager \<Rightarrow> bool \<Rightarrow> string \<Rightarrow> Client \<Rightarrow> Client" where
  "UIManager_Tick E ks focused edit c0 =
     (let c = c0\<lparr>inputConsumed := False\<rparr>; tick_chat = ChatPanel_Tick E ks focused edit
      in if chat_visible c then
           (let c1 = tick_chat c;
                c2 = (if GetButtonDown ks VK_ESCAPE then (Chat_SetVisible False c1)\<lparr>inputLocked := False\<rparr> else c1)
            in c2\<lparr>inputConsumed := True\<rparr>)
         else tick_chat (TickPanels E ks (TickUIInput ks c)))"

section \<open>A frame of the scene\<close>

text \<open>The scene ticks a copy of each of its layers, from the back to the front.\<close>

definition tick_actor :: "InputManager \<Rightarrow> nat \<Rightarrow> Client \<Rightarrow> Client" where
  "tick_actor ks i c =
     (case a_kind (the_actor i c) of
        KMyPlayer \<Rightarrow> MyPlayer_Tick ks i c
      | KPlayer \<Rightarrow> GameObject_Tick (Player_TickIdle i) (Player_TickMove i) (TickSkill i) i c
      | KMonster \<Rightarrow> GameObject_Tick id (Monster_TickMove i) (TickSkill i) i c
      | KArrow \<Rightarrow> GameObject_Tick id (Arrow_TickMove i) id i c)"

definition Scene_Update :: "InputManager \<Rightarrow> Client \<Rightarrow> Client" where
  "Scene_Update ks c =
     (let c1 = tick_tilemap ks c in tick_effects (fold (tick_actor ks) (layer_object c1) c1))"

definition DevScene_Update :: "ClientEnv \<Rightarrow> InputManager \<Rightarrow> bool \<Rightarrow> string \<Rightarrow> Client \<Rightarrow> Client" where
  "DevScene_Update E ks focused edit c =
     (if \<not> loggedIn c then UpdateLogin ks c
      else let c1 = UIManager_Tick E ks focused edit (Scene_Update ks c)
           in if inputConsumed c1 then c1 else HandlePartyInviteClick ks c1)"

text \<open>
  What drawing changes. The objects are sorted by their height on the screen, in place; \<open>std::sort\<close> may leave objects of the same
  height in any order, so the order it ends with is an argument, which has to be sorted. The party panel and the invitation are put
  in their places when they are drawn; the inventory too.
\<close>

definition sorted_layer :: "Client \<Rightarrow> nat list \<Rightarrow> bool" where
  "sorted_layer c is \<longleftrightarrow> mset is = mset (layer_object c) \<and> sorted_wrt (\<lambda>i j. py (s_pos (a_sprite (the_actor i c))) \<le> py (s_pos (a_sprite (the_actor j c)))) is"

definition Scene_Render :: "nat list \<Rightarrow> Client \<Rightarrow> Client" where
  "Scene_Render order c =
     c\<lparr>layer_object := (if sorted_layer c order then order
        else sort_key (\<lambda>i. py (s_pos (a_sprite (the_actor i c)))) (layer_object c))\<rparr>"

definition UIManager_Render :: "ClientEnv \<Rightarrow> Client \<Rightarrow> Client" where
  "UIManager_Render E c =
     (let c1 = (if u_visible (inventory_panel c)
                then c\<lparr>inventory_panel := snd (Inventory_PrepareLayout (sprite_size E ''Inventory'') (inventory_panel c))\<rparr> else c);
          c2 = with_my (\<lambda>i c. if u_visible (party_panel c) \<and> partyMembers (a_my (the_actor i c)) \<noteq> []
                 then c\<lparr>party_panel := snd (Party_PrepareLayout (sprite_size E ''PartyStatus'') (party_panel c))\<rparr> else c) c1
      in with_my (\<lambda>i c. case sprite_size E ''PartyInvite'' of
           Some sz \<Rightarrow> if pendingInviteFrom (a_my (the_actor i c)) \<noteq> 0
                      then c\<lparr>invite_panel := Invite_layout sz (invite_panel c)\<rparr> else c
         | None \<Rightarrow> c) c2)"

definition DevScene_Render :: "ClientEnv \<Rightarrow> nat list \<Rightarrow> Client \<Rightarrow> Client" where
  "DevScene_Render E order c = (if \<not> loggedIn c then c else UIManager_Render E (Scene_Render order c))"

end
