(* ===== verification/Lockstep.thy ===== *)
theory Lockstep
  imports Main
begin

text \<open>
  Two programs that talk: one makes steps, each with the messages it sends, the other reacts to the messages in order. The
  locale is what a pair of them has to keep for the relation between their states to hold after any number of steps.
\<close>

fun lockstep :: "('op \<Rightarrow> 's \<Rightarrow> 's \<times> 'm list) \<Rightarrow> ('m \<Rightarrow> 'c \<Rightarrow> 'c) \<Rightarrow> 'op list \<Rightarrow> 's \<times> 'c \<Rightarrow> 's \<times> 'c" where
  "lockstep step react [] st = st"
| "lockstep step react (op # ops) (w, c) = (case step op w of (w', ms) \<Rightarrow> lockstep step react ops (w', fold react ms c))"

text \<open>Every step is asked for in a state where it may be.\<close>

fun all_asked :: "('op \<Rightarrow> 's \<Rightarrow> bool) \<Rightarrow> ('op \<Rightarrow> 's \<Rightarrow> 's \<times> 'm list) \<Rightarrow> 'op list \<Rightarrow> 's \<Rightarrow> bool" where
  "all_asked ok step [] w = True"
| "all_asked ok step (op # ops) w = (ok op w \<and> all_asked ok step ops (fst (step op w)))"

lemma all_asked_True [simp]: "all_asked (\<lambda>op w. True) step ops w"
  by (induction ops arbitrary: w) simp_all

locale conversation =
  fixes step :: "'op \<Rightarrow> 's \<Rightarrow> 's \<times> 'm list" and react :: "'m \<Rightarrow> 'c \<Rightarrow> 'c"
    and ok :: "'op \<Rightarrow> 's \<Rightarrow> bool" and rel :: "'s \<Rightarrow> 'c \<Rightarrow> bool"
  assumes keeps: "\<And>op w c w' ms. rel w c \<Longrightarrow> ok op w \<Longrightarrow> step op w = (w', ms) \<Longrightarrow> rel w' (fold react ms c)"
begin

lemma kept:
  assumes "rel w c" "all_asked ok step ops w"
  shows "case lockstep step react ops (w, c) of (w', c') \<Rightarrow> rel w' c'"
  using assms
proof (induction ops arbitrary: w c)
  case (Cons op ops)
  obtain w' ms where s: "step op w = (w', ms)" by fastforce
  then have "rel w' (fold react ms c)" "all_asked ok step ops w'" using Cons.prems keeps by auto
  from Cons.IH [OF this] s show ?case by simp
qed simp

end

end
