(* ===== verification/Mirror.thy ===== *)
theory Mirror
  imports ClientInput Server_Sample Lockstep
begin

text \<open>
  The client's copy of its player against the server's: what the server sends when a player enters and after every change of
  the inventory keeps the client's slots, statistics and health equal to the server's.
\<close>

section \<open>Applying what the server sends\<close>

fun receive :: "ClientEnv \<Rightarrow> effect \<Rightarrow> Client \<Rightarrow> Client" where
  "receive E (ToSession s pkt) c = handle_message E pkt c"
| "receive E _ c = c"

text \<open>The abstraction: what both sides hold of the player.\<close>

definition mirrors :: "Player \<Rightarrow> Actor \<Rightarrow> bool" where
  "mirrors p a \<longleftrightarrow> my_storage (a_my a) = storage p \<and> my_weapon (a_my a) = equipWeapon p
     \<and> my_armor (a_my a) = equipArmor p \<and> my_potion (a_my a) = equipPotion p
     \<and> i_attack (a_info a) = i_attack (info p) \<and> i_defence (a_info a) = i_defence (info p) \<and> i_hp (a_info a) = i_hp (info p)"

text \<open>The client's own actor mirrors the server's player, whose inventory has its size and who has a session.\<close>

definition synced :: "Player \<Rightarrow> Client \<Rightarrow> bool" where
  "synced p c \<longleftrightarrow> (\<exists>i. myPlayer c = Some i \<and> mirrors p (the_actor i c))
     \<and> length (storage p) = INVENTORY_SIZE \<and> psession p \<noteq> None"

text \<open>One message that rewrites the own actor.\<close>

lemma synced_send:
  assumes "synced p c" "psession p' = psession p" "length (storage p') = length (storage p)"
    and "\<And>i c. myPlayer c = Some i \<Longrightarrow> handle_message E pkt c = upd_actor i f c"
    and "\<And>a. mirrors p a \<Longrightarrow> mirrors p' (f a)"
  shows "synced p' (fold (receive E) (send p' pkt) c)"
proof -
  from assms(1) obtain i s where i: "myPlayer c = Some i" "mirrors p (the_actor i c)" "psession p = Some s"
    by (auto simp: synced_def)
  with assms show ?thesis by (auto simp: synced_def send_def)
qed

lemma with_my_actor: "myPlayer c = Some i \<Longrightarrow> with_my (\<lambda>i. upd_actor i f) c = upd_actor i f c"
  "myPlayer c = Some i \<Longrightarrow> with_my (\<lambda>i. upd_my i g) c = upd_actor i (\<lambda>a. a\<lparr>a_my := g (a_my a)\<rparr>) c"
  by (simp_all add: with_my_def upd_my_def)

lemma slot_eta [simp]: "\<lparr>itemId = itemId sl, count = count sl\<rparr> = sl"
  by simp

section \<open>The operations\<close>

lemma AddItem_synced:
  assumes "synced p c" "AddItem D iid cnt p = (ok, p', effs)"
  shows "synced p' (fold (receive E) effs c)"
proof -
  have n: "length (storage p) = INVENTORY_SIZE" using assms(1) by (simp add: synced_def)
  have put: "synced (p\<lparr>storage := (storage p)[k := sl]\<rparr>)
      (fold (receive E) (send (p\<lparr>storage := (storage p)[k := sl]\<rparr>) (S_AddItem (itemId sl) (int k) (count sl))) c)"
    if "k < INVENTORY_SIZE" for k sl
    by (rule synced_send [OF assms(1), where f = "\<lambda>a. a\<lparr>a_my := ApplyAddItem (int k) (itemId sl) (count sl) (a_my a)\<rparr>"])
      (use that in \<open>simp_all add: mirrors_def ApplyAddItem_def set_slot_def with_my_actor\<close>)
  have s: "send (q\<lparr>storage := xs\<rparr>) = send q" for q xs by (simp add: send_def fun_eq_iff)
  show ?thesis
  proof (cases "GetItemTemplate D iid")
    case None
    then show ?thesis using assms by (auto simp: AddItem_def)
  next
    case (Some t)
    define st where "st = (if it_maxStack t > 1
      then find_slot (\<lambda>sl. itemId sl = iid \<and> count sl < it_maxStack t) (storage p) else None)"
    show ?thesis
    proof (cases st)
      case None
      show ?thesis
      proof (cases rule: FindEmptySlot_cases [of p])
        case full
        then show ?thesis using assms Some None by (auto simp: AddItem_def st_def [symmetric])
      next
        case (free k)
        then show ?thesis using assms(2) Some None n put [of k "\<lparr>itemId = iid, count = cnt\<rparr>"]
          by (auto simp: AddItem_def st_def [symmetric] s)
      qed
    next
      case k: (Some k)
      then have "k < INVENTORY_SIZE" "itemId (storage p ! k) = iid"
        using n find_slot_Some [of _ "storage p" k] by (auto simp: st_def split: if_splits)
      then show ?thesis
        using assms(2) Some k put [of k "(storage p ! k)\<lparr>count := min (wrap32 (count (storage p ! k) + cnt)) (it_maxStack t)\<rparr>"]
        by (auto simp: AddItem_def st_def [symmetric] Let_def s)
    qed
  qed
qed

lemma RecalcStats_slots:
  "storage (RecalcStats D p) = storage p" "equipWeapon (RecalcStats D p) = equipWeapon p"
  "equipArmor (RecalcStats D p) = equipArmor p" "equipPotion (RecalcStats D p) = equipPotion p"
  "psession (RecalcStats D p) = psession p" "i_hp (info (RecalcStats D p)) = i_hp (info p)"
  by (simp_all add: RecalcStats_def split: option.split)

lemma EquipItem_synced:
  assumes "synced p c" "EquipItem D slot p = (p', effs)"
  shows "synced p' (fold (receive E) effs c)"
proof (cases "p' = p \<and> effs = []")
  case False
  then obtain t e where t: "GetItemTemplate D (itemId (storage p ! nat slot)) = Some t" "equip_of_item (it_type t) = Some e"
    and slot: "0 \<le> slot" "slot < int INVENTORY_SIZE"
    using assms(2) by (auto simp: EquipItem_def split: if_splits option.splits)
  define p2 where "p2 = (set_equip e (storage p ! nat slot) p)\<lparr>storage := (storage p)[nat slot := get_equip e p]\<rparr>"
  have st: "storage (set_equip e sl q) = storage q" for sl q by (cases e) simp_all
  have p': "p' = RecalcStats D p2"
    and effs: "effs = send p' (S_EquipItem (equip_type e) slot (itemId (storage p' ! nat slot)) (count (storage p' ! nat slot))
        (itemId (get_equip e p')) (count (get_equip e p')) (i_attack (info p')) (i_defence (info p')))"
    using assms(2) False t slot by (auto simp: EquipItem_def Let_def p2_def st split: if_splits)
  show ?thesis
    unfolding effs
  proof (rule synced_send [OF assms(1)])
    show "psession p' = psession p" "length (storage p') = length (storage p)"
      by (cases e; simp add: p' p2_def RecalcStats_slots)+
    show "handle_message E (S_EquipItem (equip_type e) slot (itemId (storage p' ! nat slot)) (count (storage p' ! nat slot))
        (itemId (get_equip e p')) (count (get_equip e p')) (i_attack (info p')) (i_defence (info p'))) c'
      = upd_actor i (ApplyEquipItem (equip_type e) slot (itemId (storage p' ! nat slot)) (count (storage p' ! nat slot))
        (itemId (get_equip e p')) (count (get_equip e p')) (i_attack (info p')) (i_defence (info p'))) c'"
      if "myPlayer c' = Some i" for i c' using that by (simp add: with_my_def)
    have n: "nat slot < length (storage p)" using assms(1) slot by (simp add: synced_def)
    show "mirrors p' (ApplyEquipItem (equip_type e) slot (itemId (storage p' ! nat slot)) (count (storage p' ! nat slot))
        (itemId (get_equip e p')) (count (get_equip e p')) (i_attack (info p')) (i_defence (info p')) a)"
      if "mirrors p a" for a
      using that slot n
      by (cases e) (simp_all add: mirrors_def ApplyEquipItem_def set_stats_def SetEquipSlot_def set_slot_def p' p2_def
          RecalcStats_slots)
  qed
qed (use assms in simp)

lemma UnequipItem_synced:
  assumes "synced p c" "UnequipItem D t p = (p', effs)"
  shows "synced p' (fold (receive E) effs c)"
proof (cases "p' = p \<and> effs = []")
  case False
  then obtain e where e: "equip_of_type t = Some e" and full: "0 \<le> FindEmptySlot p"
    using assms(2) by (auto simp: UnequipItem_def Let_def split: if_splits option.splits)
  from full obtain k where k: "FindEmptySlot p = int k" "k < length (storage p)" by (cases rule: FindEmptySlot_cases [of p]) auto
  define p1 where "p1 = set_equip e empty_slot (p\<lparr>storage := (storage p)[k := get_equip e p]\<rparr>)"
  have p': "p' = RecalcStats D p1"
    and effs: "effs = send p' (S_UnequipItem t (int k) (i_attack (info p')) (i_defence (info p')))"
    using assms(2) False e k by (auto simp: UnequipItem_def Let_def p1_def split: if_splits)
  have ks: "k < INVENTORY_SIZE" using assms(1) k by (simp add: synced_def)
  have te: "t = equip_type e" using e by (auto simp: equip_of_type_def split: if_splits)
  show ?thesis
    unfolding effs
  proof (rule synced_send [OF assms(1)])
    show "psession p' = psession p" "length (storage p') = length (storage p)"
      by (cases e; simp add: p' p1_def RecalcStats_slots)+
    show "handle_message E (S_UnequipItem t (int k) (i_attack (info p')) (i_defence (info p'))) c'
      = upd_actor i (ApplyUnequipItem t (int k) (i_attack (info p')) (i_defence (info p'))) c'"
      if "myPlayer c' = Some i" for i c' using that by (simp add: with_my_def)
    show "mirrors p' (ApplyUnequipItem t (int k) (i_attack (info p')) (i_defence (info p')) a)" if "mirrors p a" for a
      using that ks k
      by (cases e) (simp_all add: te mirrors_def ApplyUnequipItem_def set_stats_def GetEquipSlot_def SetEquipSlot_def
          set_slot_def p' p1_def RecalcStats_slots)
  qed
qed (use assms in simp)

lemma UseItem_synced:
  assumes "synced p c" "UseItem D (- 1) p = (p', effs)"
  shows "synced p' (fold (receive E) effs c)"
proof (cases "p' = p \<and> effs = []")
  case False
  then obtain hp sl' where p': "p' = (p\<lparr>info := (info p)\<lparr>i_hp := hp\<rparr>\<rparr>)\<lparr>equipPotion := sl'\<rparr>"
    and effs: "effs = send p' (S_UseItem 2 (count sl') hp)"
    and sl': "sl' = (if wrap32 (count (equipPotion p) - 1) \<le> 0 then empty_slot
      else (equipPotion p)\<lparr>count := wrap32 (count (equipPotion p) - 1)\<rparr>)"
    using assms(2) by (auto simp: UseItem_def Let_def slot_at_def put_slot_def split: if_splits option.splits)
  show ?thesis
    unfolding effs
  proof (rule synced_send [OF assms(1)])
    show "psession p' = psession p" "length (storage p') = length (storage p)" by (simp_all add: p')
    show "handle_message E (S_UseItem 2 (count sl') hp) c' = upd_actor i (ApplyUseItem 2 (count sl') hp) c'"
      if "myPlayer c' = Some i" for i c' using that by (simp add: with_my_def)
    show "mirrors p' (ApplyUseItem 2 (count sl') hp a)" if "mirrors p a" for a
      using that
      by (auto simp: mirrors_def ApplyUseItem_def GetEquipSlot_def SetEquipSlot_def p' sl' empty_slot_def Let_def)
  qed
qed (use assms in simp)

section \<open>Entering\<close>

text \<open>The slots a server keeps: an empty one has no count.\<close>

definition tidy :: "Player \<Rightarrow> bool" where
  "tidy p \<longleftrightarrow> length (storage p) = INVENTORY_SIZE \<and> (\<forall>sl \<in> set (storage p). itemId sl = 0 \<longrightarrow> sl = empty_slot)"

lemma fill_slots:
  assumes "k + length sls = INVENTORY_SIZE" "length (my_storage m) = INVENTORY_SIZE"
    and "drop k (my_storage m) = replicate (length sls) empty_slot" "\<forall>sl \<in> set sls. itemId sl = 0 \<longrightarrow> sl = empty_slot"
  shows "fold (\<lambda>i. set_slot (ii_slot i) (slot_of_item i)) (item_infos (int k) sls) m
    = m\<lparr>my_storage := take k (my_storage m) @ sls\<rparr>"
  using assms
proof (induction sls arbitrary: k m)
  case Nil
  then show ?case by simp
next
  case (Cons sl sls)
  let ?m = "set_slot (int k) sl m"
  have k: "k < INVENTORY_SIZE" using Cons.prems(1) by simp
  have hd: "my_storage m = take k (my_storage m) @ empty_slot # replicate (length sls) empty_slot"
    using Cons.prems(3) by (metis append_take_drop_id length_Cons replicate_Suc)
  have len: "length (take k (my_storage m)) = k" using Cons.prems(2) k by simp
  then have "(take k (my_storage m) @ empty_slot # replicate (length sls) empty_slot)[k := sl]
      = take k (my_storage m) @ sl # replicate (length sls) empty_slot" by (simp add: list_update_append)
  with hd have "(my_storage m)[k := sl] = take k (my_storage m) @ sl # replicate (length sls) empty_slot" by simp
  then have st: "my_storage ?m = take k (my_storage m) @ sl # replicate (length sls) empty_slot"
    using k by (simp add: set_slot_def)
  have step: "fold (\<lambda>i. set_slot (ii_slot i) (slot_of_item i)) (item_infos (int k) (sl # sls)) m
      = fold (\<lambda>i. set_slot (ii_slot i) (slot_of_item i)) (item_infos (int (Suc k)) sls) ?m"
  proof (cases "itemId sl = 0")
    case True
    then have "sl = empty_slot" using Cons.prems(4) by simp
    then have "my_storage ?m = my_storage m" using st hd by simp
    then have "?m = m" by (simp add: set_slot_def)
    with True show ?thesis by (simp add: add.commute)
  next
    case False
    then show ?thesis by (simp add: slot_of_item_def add.commute)
  qed
  have "fold (\<lambda>i. set_slot (ii_slot i) (slot_of_item i)) (item_infos (int (Suc k)) sls) ?m
      = ?m\<lparr>my_storage := take (Suc k) (my_storage ?m) @ sls\<rparr>"
    using Cons.prems k len by (intro Cons.IH) (simp_all add: st)
  moreover have "take (Suc k) (my_storage ?m) = take k (my_storage m) @ [sl]" using len by (simp add: st)
  moreover have "?m\<lparr>my_storage := xs\<rparr> = m\<lparr>my_storage := xs\<rparr>" for xs by (simp add: set_slot_def)
  ultimately show ?case using step by simp
qed

lemma ApplyInventoryData_storage:
  assumes "length sls = INVENTORY_SIZE" "\<forall>sl \<in> set sls. itemId sl = 0 \<longrightarrow> sl = empty_slot"
  shows "my_storage (ApplyInventoryData (item_infos 0 sls) w ar po m) = sls"
  using fill_slots [of 0 sls "m\<lparr>my_storage := replicate INVENTORY_SIZE empty_slot\<rparr>"] assms
  by (simp add: ApplyInventoryData_def)

text \<open>What a player that enters a room is sent about itself.\<close>

definition introduce :: "Player \<Rightarrow> effect list" where
  "introduce p = send p (S_MyPlayer (info p)) @ SendInventoryData p"

lemma introduce_synced:
  assumes "tidy p" "psession p = Some s"
  shows "synced p (fold (receive E) (introduce p) c)"
proof -
  define c1 where "c1 = handle_message E (S_MyPlayer (info p)) c"
  have c1: "myPlayer c1 = Some (next_addr c)" "a_info (the_actor (next_addr c) c1) = info p"
    by (simp_all add: c1_def Handle_S_MyPlayer_def SpawnObject_def Let_def upd_info_def) (simp add: upd_actor_def the_actor_def)
  have e: "slot_of_item (equip_info sl) = sl" for sl by (simp add: slot_of_item_def equip_info_def)
  define f where "f = ApplyInventoryData (item_infos 0 (storage p)) (equip_info (equipWeapon p)) (equip_info (equipArmor p))
    (equip_info (equipPotion p))"
  have "fold (receive E) (introduce p) c = upd_my (next_addr c) f c1"
    using assms(2) c1(1) by (simp add: introduce_def SendInventoryData_def send_def c1_def [symmetric] with_my_def f_def
        del: handle_message.simps(2))
  moreover have "my_storage (f m) = storage p" "my_weapon (f m) = equipWeapon p" "my_armor (f m) = equipArmor p"
    "my_potion (f m) = equipPotion p" for m
    using assms(1) ApplyInventoryData_storage [of "storage p"] by (simp_all add: f_def tidy_def)
      (simp_all add: ApplyInventoryData_def e)
  ultimately show ?thesis using assms c1 by (simp add: synced_def mirrors_def tidy_def upd_my_def)
qed

section \<open>Any history\<close>

datatype inv_op = OpAdd int32 int32 | OpEquip int32 | OpUnequip int32 | OpDrink

fun inv_step :: "RoomDataManager \<Rightarrow> inv_op \<Rightarrow> Player \<Rightarrow> Player \<times> effect list" where
  "inv_step D (OpAdd iid cnt) p = snd (AddItem D iid cnt p)"
| "inv_step D (OpEquip slot) p = EquipItem D slot p"
| "inv_step D (OpUnequip t) p = UnequipItem D t p"
| "inv_step D OpDrink p = UseItem D (- 1) p"

interpretation inventory: conversation "inv_step D" "receive E" "\<lambda>op p. True" synced
proof
  fix op p c p' effs
  assume "synced p c" "inv_step D op p = (p', effs)"
  then show "synced p' (fold (receive E) effs c)"
    by (cases op) (auto intro: AddItem_synced EquipItem_synced UnequipItem_synced UseItem_synced simp: prod_eq_iff)
qed

text \<open>
  C6. From the moment a player enters a room on, whatever it picks up, equips, unequips and drinks, the client's copy of its
  slots, attack, defence and health is the server's, once the client has handled what the server sent.
\<close>

theorem client_mirrors_inventory:
  assumes "tidy p" "psession p = Some s"
  shows "case lockstep (inv_step D) (receive E) ops (p, fold (receive E) (introduce p) c) of (p', c') \<Rightarrow>
    \<exists>i. myPlayer c' = Some i \<and> mirrors p' (the_actor i c')"
  using inventory.kept [OF introduce_synced [OF assms, of E c], of D ops E]
  by (auto simp: synced_def split: prod.splits)

definition plain_client :: ClientEnv where
  "plain_client = \<lparr>wide = id, prefix_of = (\<lambda>t. []), whisper_label = id, sprite_size = (\<lambda>s. None)\<rparr>"

theorem client_mirrors_inventory_witness:
  "case lockstep (inv_step sample_data) (receive plain_client) [OpEquip 0, OpDrink, OpUnequip 0, OpAdd 3001 1] (sample_player,
      fold (receive plain_client) (introduce sample_player) (Client_new (\<lambda>m. bare_map))) of (p', c') \<Rightarrow>
    \<exists>i. myPlayer c' = Some i \<and> mirrors p' (the_actor i c')"
  by (rule client_mirrors_inventory) (simp_all add: tidy_def INVENTORY_SIZE_def)

end
