(* ===== verification/Handshake.thy ===== *)
theory Handshake
  imports Mirror
begin

text \<open>
  Walking, with both programs: the client asks for a turn or a step and waits for the answer before it asks again; the server
  turns, moves or refuses, and tells the room. What is shown is when every request is answered, and what happens when an
  attack overtakes a turn.
\<close>

section \<open>Both sides\<close>

text \<open>The messages an operation of the server sent to session \<open>s\<close>.\<close>

definition heard :: "SessionId \<Rightarrow> out_item list \<Rightarrow> spacket list" where
  "heard s xs = concat (map (\<lambda>x. case x of Packet t q \<Rightarrow> if t = s then [q] else [] | _ \<Rightarrow> []) xs)"

definition answers :: "SessionId \<Rightarrow> World \<Rightarrow> World \<Rightarrow> spacket list" where
  "answers s w w' = heard s (drop (length (out w)) (out w'))"

lemma heard_simps [simp]:
  "heard s [] = []" "heard s (xs @ ys) = heard s xs @ heard s ys"
  "heard s (Packet t q # xs) = (if t = s then [q] else []) @ heard s xs"
  by (simp_all add: heard_def)

lemma answers_out: "out w' = out w @ xs \<Longrightarrow> answers s w w' = heard s xs"
  by (simp add: answers_def)

text \<open>Session \<open>s\<close> hears what is broadcast to room \<open>r\<close>, once, through its player \<open>pid\<close>.\<close>

definition listens :: "RoomRef \<Rightarrow> SessionId \<Rightarrow> uint64 \<Rightarrow> World \<Rightarrow> bool" where
  "listens r s pid w \<longleftrightarrow> faulted w = None \<and> distinct (players (the_room r w))
     \<and> pid \<in> set (players (the_room r w)) \<and> psession (the_player pid w) = Some s
     \<and> (\<forall>q \<in> set (players (the_room r w)). in_session w q \<and> (psession (the_player q w) = Some s \<longrightarrow> q = pid))"

definition walking :: "RoomRef \<Rightarrow> SessionId \<Rightarrow> uint64 \<Rightarrow> World \<Rightarrow> bool" where
  "walking r s pid w \<longleftrightarrow> session_player s w = Some pid \<and> listens r s pid w"

definition own_actor :: "nat \<Rightarrow> Client \<Rightarrow> bool" where
  "own_actor i c \<longleftrightarrow> myPlayer c = Some i \<and> a_kind (the_actor i c) = KMyPlayer
     \<and> GetObject (i_objectid (a_info (the_actor i c))) c = Some i"

definition agree :: "ObjectInfo \<Rightarrow> ObjectInfo \<Rightarrow> bool" where
  "agree x y \<longleftrightarrow> i_objectid x = i_objectid y \<and> i_dir x = i_dir y \<and> i_state x = i_state y
     \<and> i_posx x = i_posx y \<and> i_posy x = i_posy y"

section \<open>The server's side\<close>

lemma one_receiver:
  assumes "distinct ps" "pid \<in> set ps" "the (f pid) = s" "\<And>q. q \<in> set ps \<Longrightarrow> the (f q) = s \<Longrightarrow> q = pid"
  shows "heard s (map (\<lambda>q. Packet (the (f q)) x) ps) = [x]"
  using assms
proof (induction ps)
  case (Cons p ps)
  have none: "heard s (map (\<lambda>q. Packet (the (f q)) x) qs) = []" if "\<forall>q \<in> set qs. the (f q) \<noteq> s" for qs
    using that by (induction qs) auto
  show ?case
  proof (cases "p = pid")
    case True
    have "the (f q) \<noteq> s" if "q \<in> set ps" for q
      using that True Cons.prems(1) Cons.prems(4) [of q] by auto
    with none [of ps] True Cons.prems(3) show ?thesis by simp
  next
    case False
    with Cons.prems(4) [of p] have "the (f p) \<noteq> s" by auto
    moreover have "heard s (map (\<lambda>q. Packet (the (f q)) x) ps) = [x]"
      using Cons.prems False by (intro Cons.IH) simp_all
    ultimately show ?thesis by simp
  qed
qed simp

lemma listens_Broadcast:
  assumes "listens r s pid w"
  shows "out (Broadcast r pkt w) = out w @ map (\<lambda>q. Packet (the (psession (the_player q w))) pkt) (players (the_room r w))"
    "heard s (map (\<lambda>q. Packet (the (psession (the_player q w))) pkt) (players (the_room r w))) = [pkt]"
    "listens r s pid (Broadcast r pkt w)"
proof -
  have b: "Broadcast r pkt w = w\<lparr>out := out w @ map (\<lambda>q. Packet (the (psession (the_player q w))) pkt) (players (the_room r w))\<rparr>"
    using assms by (subst Broadcast_out) (auto simp: listens_def)
  then show "out (Broadcast r pkt w) = out w @ map (\<lambda>q. Packet (the (psession (the_player q w))) pkt) (players (the_room r w))"
    by simp
  show "heard s (map (\<lambda>q. Packet (the (psession (the_player q w))) pkt) (players (the_room r w))) = [pkt]"
    using assms by (intro one_receiver [of _ pid]) (auto simp: listens_def in_session_def)
  have "faulted (Broadcast r pkt w) = faulted w" by (subst b) simp
  with assms show "listens r s pid (Broadcast r pkt w)" by (simp add: listens_def in_session_def)
qed

lemma broadcast_answers:
  assumes "walking r s pid w" "the_room r w1 = the_room r w" "faulted w1 = None" "out w1 = out w"
    and "\<And>q. psession (the_player q w1) = psession (the_player q w)"
  shows "answers s w (Broadcast r pkt w1) = [pkt]" "faulted (Broadcast r pkt w1) = None"
proof -
  have "listens r s pid w1" using assms by (simp add: walking_def listens_def in_session_def)
  note l = listens_Broadcast [OF this, of pkt]
  from l(1,2) assms(4) show "answers s w (Broadcast r pkt w1) = [pkt]" by (simp add: answers_out)
  from l(3) show "faulted (Broadcast r pkt w1) = None" by (simp add: listens_def)
qed

lemma session_player_frame:
  "the_session s w' = the_session s w \<Longrightarrow> roomRefs w' = roomRefs w \<Longrightarrow> (\<And>q. the_room q w' = the_room q w) \<Longrightarrow>
    session_player s w' = session_player s w"
  by (simp add: session_player_def player_alive_def alive_players_def cong: option.case_cong)

lemma walking_Broadcast:
  assumes "walking r s pid w" "psession p = Some s" "rooms w1 = rooms w" "roomRefs w1 = roomRefs w"
    "wsessions w1 = wsessions w" "faulted w1 = None" "out w1 = out w" "wplayers w1 = (wplayers w)(pid \<mapsto> p)"
  shows "walking r s pid (Broadcast r pkt w1)" "answers s w (Broadcast r pkt w1) = [pkt]"
    "the_player pid (Broadcast r pkt w1) = p"
proof -
  have fr: "the_room q w1 = the_room q w" "the_session t w1 = the_session t w"
    "the_player i w1 = (if i = pid then p else the_player i w)" for q t i
    using assms by (simp_all add: the_room_def the_session_def the_player_def)
  have ps: "psession (the_player q w1) = psession (the_player q w)" for q
    using assms(1,2) by (simp add: fr walking_def listens_def)
  from broadcast_answers [OF assms(1) fr(1) assms(6,7) ps]
  show a: "answers s w (Broadcast r pkt w1) = [pkt]" by simp
  have "faulted (Broadcast r pkt w1) = None" by (rule broadcast_answers(2) [OF assms(1) fr(1) assms(6,7) ps])
  moreover have "session_player s (Broadcast r pkt w1) = session_player s w"
    by (rule session_player_frame) (simp_all add: fr assms)
  moreover have "in_session (Broadcast r pkt w1) q \<longleftrightarrow> in_session w q"
    "psession (the_player q (Broadcast r pkt w1)) = psession (the_player q w)" for q
    by (simp_all add: in_session_def ps)
  ultimately show "walking r s pid (Broadcast r pkt w1)"
    using assms(1) by (simp add: walking_def listens_def fr(1))
  show "the_player pid (Broadcast r pkt w1) = p" by (simp add: fr)
qed

lemma psession_set [simp]:
  "psession (set_state st p) = psession p" "psession (set_dir d p) = psession p" "psession (set_pos x p) = psession p"
  "psession (StartMove a b p) = psession p" "info (StartMove a b p) = info p"
  by (simp_all add: set_state_def set_dir_def set_pos_def StartMove_def)

text \<open>What the server makes of a turn to a new direction and of a step, the player being idle.\<close>

lemma server_turns:
  assumes "walking r s pid w" "DIR_TYPE_IsValid d" "i_dir (info (the_player pid w)) \<noteq> d"
  defines "p \<equiv> set_state IDLE (set_dir d (the_player pid w))" and "w' \<equiv> run_packet r s (C_Turn d) w"
  shows "walking r s pid w'" "the_player pid w' = p" "answers s w w' = [S_Turn (info p)]"
proof -
  have w': "w' = Broadcast r (S_Turn (info p)) (put_player pid p w)"
    using assms by (simp add: w'_def p_def Handle_C_Turn_def walking_def listens_def Let_def)
  note b = walking_Broadcast [OF assms(1), of p "put_player pid p w" "S_Turn (info p)"]
  show "walking r s pid w'" "the_player pid w' = p" "answers s w w' = [S_Turn (info p)]"
    unfolding w' using assms(1) b by (simp_all add: p_def put_player_def walking_def listens_def)
qed

lemma server_steps:
  assumes "walking r s pid w" "DIR_TYPE_IsValid d" "i_dir (info (the_player pid w)) = d" "i_state (info (the_player pid w)) = IDLE"
  defines "w' \<equiv> run_packet r s (C_Move d) w"
  shows "walking r s pid w' \<and> answers s w w' = [S_Move (info (the_player pid w'))]
    \<and> i_objectid (info (the_player pid w')) = i_objectid (info (the_player pid w))
    \<and> i_dir (info (the_player pid w')) = d
    \<and> (i_state (info (the_player pid w')) = IDLE \<longleftrightarrow> GetCellPos (the_player pid w') = GetCellPos (the_player pid w))
    \<and> i_state (info (the_player pid w')) \<noteq> SKILL"
proof (cases "CanGo r (GetFrontCellPos (the_player pid w)) w")
  case False
  define p where "p = set_state IDLE (the_player pid w)"
  have w': "w' = Broadcast r (S_Move (info p)) (put_player pid p w)"
    using assms False by (simp add: w'_def p_def Handle_C_Move_def walking_def listens_def Let_def)
  note b = walking_Broadcast [OF assms(1), of p "put_player pid p w" "S_Move (info p)"]
  have "walking r s pid w'" "the_player pid w' = p" "answers s w w' = [S_Move (info p)]"
    unfolding w' using assms(1) b by (simp_all add: p_def put_player_def walking_def listens_def)
  then show ?thesis using assms(3) by (simp add: p_def)
next
  case True
  define p where "p = StartMove (clock w (clockPos w)) 75 (set_pos (GetFrontCellPos (the_player pid w))
    (set_state MOVE (the_player pid w)))"
  define w1 where "w1 = put_player pid p (w\<lparr>clockPos := clockPos w + 1\<rparr>)"
  have w': "w' = Broadcast r (S_Move (info p)) w1"
    using assms True by (simp add: w'_def p_def w1_def Handle_C_Move_def walking_def listens_def Let_def tick_def)
  note b = walking_Broadcast [OF assms(1), of p w1 "S_Move (info p)"]
  have w: "walking r s pid w'" "the_player pid w' = p" "answers s w w' = [S_Move (info p)]"
    unfolding w' using assms(1) b by (simp_all add: p_def w1_def put_player_def walking_def listens_def)
  have "manhattan (GetFrontCellPos (the_player pid w) - GetCellPos (the_player pid w)) = 1"
    using assms(2,3) by (intro front_is_adjacent) simp
  then have "GetFrontCellPos (the_player pid w) \<noteq> GetCellPos (the_player pid w)" by (auto simp: manhattan_def)
  moreover have "GetCellPos p = GetFrontCellPos (the_player pid w)" by (simp add: p_def GetCellPos_def)
  ultimately show ?thesis using w assms(3) by (simp add: p_def)
qed

section \<open>The client's side\<close>

lemma own_actor_my: "own_actor i c \<Longrightarrow> GetMyPlayerId c = i_objectid (a_info (the_actor i c))"
  by (simp add: own_actor_def GetMyPlayerId_def)

lemma GetObject_upd:
  assumes "i_objectid (a_info (f (the_actor i c))) = i_objectid (a_info (the_actor i c))"
  shows "GetObject oid (upd_actor i f c) = GetObject oid c"
proof -
  have "(\<lambda>j. i_objectid (a_info (the_actor j (upd_actor i f c))) = oid) = (\<lambda>j. i_objectid (a_info (the_actor j c)) = oid)"
    using assms by (auto simp: fun_eq_iff)
  then show ?thesis by (simp add: GetObject_def)
qed

lemma GetObject_turn [simp]: "GetObject oid (turn_actor i d c) = GetObject oid c"
proof -
  have "(\<lambda>j. i_objectid (a_info (the_actor j (turn_actor i d c))) = oid) = (\<lambda>j. i_objectid (a_info (the_actor j c)) = oid)"
    by (auto simp: fun_eq_iff Cl_SetDir_def)
  then show ?thesis by (simp add: GetObject_def)
qed

lemma GetObject_sent [simp]: "GetObject oid (SendPacket p c) = GetObject oid c"
  by (simp add: GetObject_def SendPacket_def the_actor_def)

lemma the_actor_sent [simp]: "the_actor i (SendPacket p c) = the_actor i c" "myPlayer (SendPacket p c) = myPlayer c"
  "cl_fault (SendPacket p c) = cl_fault c"
  by (simp_all add: SendPacket_def the_actor_def)

lemma own_actor_upd:
  assumes "own_actor i c" "i_objectid (a_info (f (the_actor i c))) = i_objectid (a_info (the_actor i c))"
    "a_kind (f (the_actor i c)) = KMyPlayer"
  shows "own_actor i (upd_actor i f c)"
  using assms by (simp add: own_actor_def GetObject_upd)

lemma own_actor_turn: "own_actor i c \<Longrightarrow> own_actor i (turn_actor i d c)"
  by (simp add: own_actor_def Cl_SetDir_def)

lemma own_actor_sent [simp]: "own_actor i (SendPacket p c) = own_actor i c"
  by (simp add: own_actor_def)

lemma own_actor_my_upd: "own_actor i c \<Longrightarrow> own_actor i (upd_my i f c)"
  unfolding upd_my_def by (rule own_actor_upd) (simp_all add: own_actor_def)

text \<open>A turn and a move of the own player, as the client takes them.\<close>

lemma client_turns:
  assumes "own_actor i c" "i_objectid oi = i_objectid (a_info (the_actor i c))" "DIR_TYPE_IsValid (i_dir oi)"
  defines "c' \<equiv> Handle_S_Turn oi c"
  shows "own_actor i c'" "a_my (the_actor i c') = OnServerTurnAck (a_my (the_actor i c))"
    "a_info (the_actor i c') = (a_info (the_actor i c))\<lparr>i_dir := i_dir oi, i_state := i_state oi\<rparr>"
    "cl_fault c' = cl_fault c" "cl_sent c' = cl_sent c"
proof -
  have k: "a_kind (the_actor i c) = KMyPlayer" and g: "GetObject (i_objectid oi) c = Some i"
    using assms(1,2) by (simp_all add: own_actor_def)
  have c': "c' = upd_actor i (Cl_SetState (i_state oi)) (turn_actor i (i_dir oi) (upd_my i OnServerTurnAck c))"
    using assms(2) k g own_actor_my [OF assms(1)] by (simp add: c'_def Handle_S_Turn_def)
  show "own_actor i c'" unfolding c'
    by (intro own_actor_upd own_actor_turn own_actor_my_upd assms(1))
      (simp_all add: Cl_SetState_def Cl_SetDir_def upd_my_def k)
  show "a_my (the_actor i c') = OnServerTurnAck (a_my (the_actor i c))"
    "a_info (the_actor i c') = (a_info (the_actor i c))\<lparr>i_dir := i_dir oi, i_state := i_state oi\<rparr>"
    by (simp_all add: c' upd_my_def Cl_SetState_def Cl_SetDir_def)
  show "cl_fault c' = cl_fault c" "cl_sent c' = cl_sent c"
    using assms(3) by (simp_all add: c' upd_my_def turn_actor_fault)
qed

lemma client_moves:
  assumes "own_actor i c" "i_objectid oi = i_objectid (a_info (the_actor i c))" "DIR_TYPE_IsValid (i_dir oi)"
  defines "c' \<equiv> Handle_S_Move oi c"
  shows "own_actor i c'" "a_my (the_actor i c') = OnServerMoveResult (i_objectid oi) oi (a_my (the_actor i c))"
    "agree oi (a_info (the_actor i c'))" "cl_fault c' = cl_fault c" "cl_sent c' = cl_sent c"
proof -
  have k: "a_kind (the_actor i c) = KMyPlayer" and g: "GetObject (i_objectid oi) c = Some i"
    using assms(1,2) by (simp_all add: own_actor_def)
  have c': "c' = place_actor i oi (upd_my i (OnServerMoveResult (i_objectid oi) oi) c)"
    using assms(2) k g own_actor_my [OF assms(1)] by (simp add: c'_def Handle_S_Move_def)
  show "own_actor i c'" unfolding c' place_actor_def
    by (intro own_actor_upd own_actor_turn own_actor_my_upd assms(1))
      (simp_all add: Cl_SetState_def Cl_SetDir_def Cl_SetCellPos_def upd_my_def k)
  show "a_my (the_actor i c') = OnServerMoveResult (i_objectid oi) oi (a_my (the_actor i c))"
    "agree oi (a_info (the_actor i c'))"
    using assms(2)
    by (simp_all add: c' place_actor_def upd_my_def Cl_SetState_def Cl_SetDir_def Cl_SetCellPos_def agree_def)
  show "cl_fault c' = cl_fault c" "cl_sent c' = cl_sent c"
    using assms(3) by (simp_all add: c' place_actor_def upd_my_def turn_actor_fault)
qed

lemma cl_sent_SendPacket: "cl_fault c = None \<Longrightarrow> cl_sent (SendPacket p c) = cl_sent c @ [p]"
  by (simp add: SendPacket_def)

text \<open>The two requests \<open>TryMove\<close> makes, and the state it leaves.\<close>

lemma TryMove_request:
  assumes "cl_sent (TryMove i c) = cl_sent c @ [req]" "cl_fault c = None"
  defines "a \<equiv> the_actor i c"
  obtains (turn) g where "i_dir (a_info a) \<noteq> wantedDir (a_my a)" "req = C_Turn (wantedDir (a_my a))"
      "TryMove i c = upd_my i g (SendPacket req c)" "\<And>m. hasLastMoveRequest (g m) = hasLastMoveRequest m"
  | (move) g where "i_dir (a_info a) = wantedDir (a_my a)" "req = C_Move (i_dir (a_info a))"
      "TryMove i c = upd_my i g (SendPacket req c)"
      "\<And>m. hasLastMoveRequest (g m)" "\<And>m. lastMoveFrom (g m) = actor_pos a" "\<And>m. lastMoveDir (g m) = i_dir (a_info a)"
proof -
  let ?m = "a_my a"
  have go: "keyPressed ?m" "\<not> movePending ?m" "\<not> (blockedHold ?m \<and> i_dir (a_info a) = wantedDir ?m \<and> blockedDir ?m = wantedDir ?m)"
    using assms(1) by (auto simp: TryMove_def Let_def a_def split: if_splits)
  show thesis
  proof (cases "i_dir (a_info a) = wantedDir ?m")
    case False
    then have t: "TryMove i c = upd_my i (\<lambda>m. m\<lparr>keyPressed := False, movePending := True\<rparr>) (SendPacket (C_Turn (wantedDir ?m)) c)"
      using go by (simp add: TryMove_def Let_def a_def)
    then have "req = C_Turn (wantedDir ?m)"
      using assms(1,2) by (simp add: upd_my_def cl_sent_SendPacket)
    with t False turn show thesis by simp
  next
    case True
    have nt: "\<not> turnGraceLeft ?m > 0" using assms(1) go True by (auto simp: TryMove_def Let_def a_def)
    define u :: "MyData \<Rightarrow> MyData" where "u = (\<lambda>m. m\<lparr>lastMoveFrom := actor_pos a, lastMoveDir := i_dir (a_info a), hasLastMoveRequest := True\<rparr>)"
    define v :: "MyData \<Rightarrow> MyData" where "v = (\<lambda>m. m\<lparr>keyPressed := False, movePending := True\<rparr>)"
    have sw: "SendPacket p (upd_my i u c) = upd_my i u (SendPacket p c)" for p
      by (simp add: SendPacket_def upd_my_def upd_actor_def the_actor_def)
    have mm: "upd_my i v (upd_my i u d) = upd_my i (v \<circ> u) d" for d
      by (simp add: upd_my_def upd_actor_def the_actor_def)
    have "TryMove i c = upd_my i v (SendPacket (C_Move (i_dir (a_info a))) (upd_my i u c))"
      using go True nt by (auto simp: TryMove_def Let_def a_def u_def v_def)
    then have t: "TryMove i c = upd_my i (v \<circ> u) (SendPacket (C_Move (i_dir (a_info a))) c)"
      by (simp only: sw mm)
    then have "req = C_Move (i_dir (a_info a))"
      using assms(1,2) by (simp add: upd_my_def cl_sent_SendPacket)
    with t True show thesis by (intro move [of "v \<circ> u"]) (simp_all add: u_def v_def)
  qed
qed

section \<open>The handshake\<close>

text \<open>What is left when an answered request has been handled.\<close>

definition settled :: "RoomRef \<Rightarrow> SessionId \<Rightarrow> uint64 \<Rightarrow> nat \<Rightarrow> World \<Rightarrow> Client \<Rightarrow> bool" where
  "settled r s pid i w c \<longleftrightarrow> \<not> movePending (a_my (the_actor i c)) \<and> walking r s pid w \<and> own_actor i c
     \<and> agree (info (the_player pid w)) (a_info (the_actor i c)) \<and> cl_fault c = None"

lemma asked_client:
  assumes "own_actor i c" "cl_fault c = None"
  shows "own_actor i (upd_my i g (SendPacket req c))" "a_info (the_actor i (upd_my i g (SendPacket req c))) = a_info (the_actor i c)"
    "cl_fault (upd_my i g (SendPacket req c)) = None" "a_my (the_actor i (upd_my i g (SendPacket req c))) = g (a_my (the_actor i c))"
  using assms by (simp_all add: own_actor_my_upd) (simp_all add: upd_my_def)

lemma turn_answered:
  assumes "walking r s pid w" "own_actor i c" "agree (info (the_player pid w)) (a_info (the_actor i c))" "cl_fault c = None"
    "DIR_TYPE_IsValid d" "i_dir (a_info (the_actor i c)) \<noteq> d" "i_state (info (the_player pid w)) = IDLE"
  defines "w' \<equiv> run_packet r s (C_Turn d) w"
  shows "length (answers s w w') = 1 \<and> settled r s pid i w' (fold (handle_message E) (answers s w w') (upd_my i g (SendPacket (C_Turn d) c)))"
proof -
  have "i_dir (info (the_player pid w)) \<noteq> d" using assms(3,6) by (simp add: agree_def)
  note sv = server_turns [OF assms(1,5) this, folded w'_def]
  define oi where "oi = info (set_state IDLE (set_dir d (the_player pid w)))"
  define c1 where "c1 = upd_my i g (SendPacket (C_Turn d) c)"
  note c1 = asked_client [OF assms(2,4), of g "C_Turn d", folded c1_def]
  have "i_objectid oi = i_objectid (a_info (the_actor i c1))" "DIR_TYPE_IsValid (i_dir oi)"
    using c1(2) assms(3,5) by (simp_all add: oi_def agree_def)
  note cl = client_turns [OF c1(1) this]
  have "agree oi (a_info (the_actor i (Handle_S_Turn oi c1)))"
    using cl(3) c1(2) assms(3) by (simp add: agree_def oi_def)
  moreover have "answers s w w' = [S_Turn oi]" "info (the_player pid w') = oi" using sv(2,3) by (simp_all add: oi_def)
  ultimately show ?thesis
    using sv(1) cl(1,2,4) c1(3) by (simp add: settled_def c1_def [symmetric] OnServerTurnAck_def)
qed

lemma step_answered:
  fixes E
  assumes "walking r s pid w" "own_actor i c" "agree (info (the_player pid w)) (a_info (the_actor i c))" "cl_fault c = None"
    "DIR_TYPE_IsValid d" "i_dir (a_info (the_actor i c)) = d" "i_state (info (the_player pid w)) = IDLE"
    and g: "\<And>m. hasLastMoveRequest (g m)" "\<And>m. lastMoveFrom (g m) = actor_pos (the_actor i c)"
  defines "w' \<equiv> run_packet r s (C_Move d) w"
  defines "c' \<equiv> fold (handle_message E) (answers s w w') (upd_my i g (SendPacket (C_Move d) c))"
  shows "length (answers s w w') = 1 \<and> settled r s pid i w' c'
    \<and> (blockedHold (a_my (the_actor i c')) \<longleftrightarrow> GetCellPos (the_player pid w') = GetCellPos (the_player pid w))"
proof -
  have "i_dir (info (the_player pid w)) = d" using assms(3,6) by (simp add: agree_def)
  from server_steps [OF assms(1,5) this assms(7)]
  have sv: "walking r s pid w'" "answers s w w' = [S_Move (info (the_player pid w'))]"
    "i_objectid (info (the_player pid w')) = i_objectid (info (the_player pid w))" "i_dir (info (the_player pid w')) = d"
    "i_state (info (the_player pid w')) = IDLE \<longleftrightarrow> GetCellPos (the_player pid w') = GetCellPos (the_player pid w)"
    by (simp_all add: w'_def)
  define oi where "oi = info (the_player pid w')"
  define c1 where "c1 = upd_my i g (SendPacket (C_Move d) c)"
  note c1 = asked_client [OF assms(2,4), of g "C_Move d", folded c1_def]
  have "i_objectid oi = i_objectid (a_info (the_actor i c1))" "DIR_TYPE_IsValid (i_dir oi)"
    using c1(2) assms(3,5) sv(3,4) by (simp_all add: oi_def agree_def)
  note cl = client_moves [OF c1(1) this]
  have c': "c' = Handle_S_Move oi c1" by (simp add: c'_def sv(2) oi_def c1_def)
  have pos: "Vec (i_posx oi) (i_posy oi) = actor_pos (the_actor i c) \<longleftrightarrow> GetCellPos (the_player pid w') = GetCellPos (the_player pid w)"
    using assms(3) by (simp add: agree_def oi_def GetCellPos_def actor_pos_def)
  have my: "a_my (the_actor i c') = OnServerMoveResult (i_objectid oi) oi (g (a_my (the_actor i c)))"
    using cl(2) c1(4) by (simp add: c')
  have "\<not> movePending (a_my (the_actor i c'))"
    "blockedHold (a_my (the_actor i c')) \<longleftrightarrow> GetCellPos (the_player pid w') = GetCellPos (the_player pid w)"
    using g [of "a_my (the_actor i c)"] sv(5) pos by (auto simp: my OnServerMoveResult_def Let_def oi_def)
  then show ?thesis
    using sv cl c1 by (simp add: settled_def c' oi_def [symmetric])
qed

text \<open>
  C5. While client and server agree on a player that stands idle, every turn or step the client asks for is answered by
  exactly one message to its session; after it the client waits no longer, both sides agree again on cell, direction and state,
  and the client knows the way as blocked exactly if its step was refused. So the next request finds the same conditions as soon
  as the player is idle again.
\<close>

theorem move_request_is_answered:
  assumes "walking r s pid w" "own_actor i c" "agree (info (the_player pid w)) (a_info (the_actor i c))"
    "i_state (info (the_player pid w)) = IDLE" "cl_fault c = None" "DIR_TYPE_IsValid (wantedDir (a_my (the_actor i c)))"
    and "cl_sent (TryMove i c) = cl_sent c @ [req]"
  shows "let w' = run_packet r s req w; c' = fold (handle_message E) (answers s w w') (TryMove i c)
    in length (answers s w w') = 1 \<and> \<not> movePending (a_my (the_actor i c'))
      \<and> walking r s pid w' \<and> own_actor i c' \<and> agree (info (the_player pid w')) (a_info (the_actor i c')) \<and> cl_fault c' = None
      \<and> (\<forall>d. req = C_Move d \<longrightarrow> (blockedHold (a_my (the_actor i c')) \<longleftrightarrow> GetCellPos (the_player pid w') = GetCellPos (the_player pid w)))"
  using assms(7,5)
proof (cases rule: TryMove_request)
  case (turn g)
  then show ?thesis
    using turn_answered [OF assms(1-3,5,6), of E g] assms(4) by (simp add: Let_def settled_def)
next
  case (move g)
  have "DIR_TYPE_IsValid (i_dir (a_info (the_actor i c)))" using assms(6) move(1) by simp
  from step_answered [OF assms(1-3,5) this refl assms(4) move(4,5), of E] move(2,3)
  show ?thesis by (simp add: Let_def settled_def)
qed

section \<open>An attack during a turn\<close>

lemma obj_info_Broadcast: "obj_info k (Broadcast r pkt w) = obj_info k w"
  by (cases k) simp_all

text \<open>A sword that hits nothing: only the attack itself is told to the room, with the direction of the packet.\<close>

lemma server_swings:
  assumes "walking r s pid w" "GetGameObjectAt r (GetFrontCellPos (the_player pid w)) w = None"
  fixes d
  defines "w' \<equiv> run_packet r s (C_Attack d WEAPON_TYPE_SWORD) w"
  shows "answers s w w' = [S_Attack (i_objectid (info (the_player pid w))) d WEAPON_TYPE_SWORD]"
    "the_player pid w' = the_player pid w" "walking r s pid w'"
proof -
  let ?b = "Broadcast r (S_Attack (i_objectid (info (the_player pid w))) d WEAPON_TYPE_SWORD) w"
  have ok: "faulted w = None" "session_player s w = Some pid" using assms(1) by (simp_all add: walking_def listens_def)
  have "GetGameObjectAt r (GetFrontCellPos (the_player pid ?b)) ?b = GetGameObjectAt r (GetFrontCellPos (the_player pid w)) w"
    by (simp add: GetGameObjectAt_def first_at_def obj_pos_def obj_info_Broadcast Let_def)
  then have w': "w' = ?b"
    using assms(2) ok by (simp add: w'_def Handle_C_Attack_def HandleAttack_def BroadcastAttack_def HandleSwordAttack_def Let_def)
  from broadcast_answers [OF assms(1) refl ok(1) refl refl]
  show "answers s w w' = [S_Attack (i_objectid (info (the_player pid w))) d WEAPON_TYPE_SWORD]" by (simp add: w')
  show "the_player pid w' = the_player pid w" by (simp add: w')
  have "faulted ?b = None" by (rule broadcast_answers(2) [OF assms(1) refl ok(1) refl refl])
  moreover have "session_player s ?b = session_player s w" by (rule session_player_frame) simp_all
  ultimately show "walking r s pid w'"
    using assms(1) by (simp add: w' walking_def listens_def in_session_def)
qed

lemma client_swings:
  assumes "own_actor i c" "oid = i_objectid (a_info (the_actor i c))" "DIR_TYPE_IsValid d"
  defines "c' \<equiv> Cl_Handle_S_Attack oid d WEAPON_TYPE_SWORD c"
  shows "own_actor i c'" "a_my (the_actor i c') = OnServerAttackAck (a_my (the_actor i c))"
    "a_info (the_actor i c') = (a_info (the_actor i c))\<lparr>i_dir := d\<rparr>" "cl_fault c' = cl_fault c" "cl_sent c' = cl_sent c"
proof -
  have k: "a_kind (the_actor i c) = KMyPlayer" and g: "GetObject oid c = Some i" and m: "myPlayer c = Some i"
    using assms(1,2) by (simp_all add: own_actor_def)
  obtain b where b: "GetSkillFlipbook Sword d = Inr b" using assms(3) by (auto simp: GetSkillFlipbook_def table_book_def)
  define f where "f = (\<lambda>a. StartSkillAnim (cl_now (turn_actor i d c)) (skill_duration b) (a\<lparr>a_weapon := Sword\<rparr>))"
  have sa: "start_attack d WEAPON_TYPE_SWORD i c = upd_actor i f (turn_actor i d c)"
    using b k by (simp add: start_attack_def Let_def is_player_actor_def Cl_SetDir_def FromProtoWeaponType_def f_def)
  have "GetMyPlayerId (upd_actor i f (turn_actor i d c)) = oid"
    using assms(2) m by (simp add: GetMyPlayerId_def f_def StartSkillAnim_def Cl_SetDir_def)
  then have c': "c' = upd_my i OnServerAttackAck (upd_actor i f (turn_actor i d c))"
    using g sa m by (simp add: c'_def Cl_Handle_S_Attack_def with_my_def Let_def)
  show "own_actor i c'" unfolding c'
    by (intro own_actor_upd own_actor_turn own_actor_my_upd assms(1))
      (simp_all add: f_def StartSkillAnim_def Cl_SetDir_def k)
  show "a_my (the_actor i c') = OnServerAttackAck (a_my (the_actor i c))"
    "a_info (the_actor i c') = (a_info (the_actor i c))\<lparr>i_dir := d\<rparr>"
    by (simp_all add: c' upd_my_def f_def StartSkillAnim_def Cl_SetDir_def)
  show "cl_fault c' = cl_fault c" "cl_sent c' = cl_sent c"
    using assms(3) by (simp_all add: c' upd_my_def turn_actor_fault)
qed

text \<open>Holding a direction key, the rest of \<open>read_direction\<close>.\<close>

definition hold_key :: "int32 \<Rightarrow> MyData \<Rightarrow> MyData" where
  "hold_key d m = m\<lparr>keyPressed := True, wantedDir := d\<rparr>"

lemma TryMove_turn:
  assumes "keyPressed (a_my (the_actor i c))" "\<not> movePending (a_my (the_actor i c))"
    "i_dir (a_info (the_actor i c)) \<noteq> wantedDir (a_my (the_actor i c))"
  shows "TryMove i c = upd_my i (\<lambda>m. m\<lparr>keyPressed := False, movePending := True\<rparr>)
    (SendPacket (C_Turn (wantedDir (a_my (the_actor i c)))) c)"
  using assms by (simp add: TryMove_def Let_def)

lemma server_keeps_turn:
  assumes "walking r s pid w" "i_dir (info (the_player pid w)) = d"
  shows "run_packet r s (C_Turn d) w = w"
  using assms by (simp add: walking_def listens_def Handle_C_Turn_def Let_def)
text \<open>The two messages, a turn to \<open>d\<close> and an attack in the old direction, on both sides.\<close>

lemma swing_during_turn:
  fixes old E
  assumes "walking r s pid w" "i_dir (info (the_player pid w)) \<noteq> d" "DIR_TYPE_IsValid d" "DIR_TYPE_IsValid old"
    and "own_actor i c" "i_objectid (info (the_player pid w)) = i_objectid (a_info (the_actor i c))"
  defines "w1 \<equiv> run_packet r s (C_Turn d) w"
  defines "w2 \<equiv> run_packet r s (C_Attack old WEAPON_TYPE_SWORD) w1"
  defines "c' \<equiv> fold (handle_message E) (answers s w w1 @ answers s w1 w2) c"
  assumes "GetGameObjectAt r (GetFrontCellPos (the_player pid w1)) w1 = None"
  shows "walking r s pid w2" "i_dir (info (the_player pid w2)) = d"
    "own_actor i c'" "i_dir (a_info (the_actor i c')) = old" "\<not> movePending (a_my (the_actor i c'))"
    "cl_fault c' = cl_fault c" "cl_sent c' = cl_sent c"
proof -
  define p where "p = set_state IDLE (set_dir d (the_player pid w))"
  note sv = server_turns [OF assms(1,3,2), folded p_def w1_def]
  note sw = server_swings [OF sv(1) assms(10), of old, folded w2_def]
  have io: "i_objectid (info p) = i_objectid (a_info (the_actor i c))" "i_dir (info p) = d" using assms(6) by (simp_all add: p_def)
  define ct where "ct = Handle_S_Turn (info p) c"
  note ct = client_turns [OF assms(5) io(1), folded ct_def]
  have pre: "i_objectid (info p) = i_objectid (a_info (the_actor i ct))" using ct(3) io assms(3) by simp
  note ca = client_swings [OF ct(1) pre assms(4)]
  have c': "c' = Cl_Handle_S_Attack (i_objectid (info p)) old WEAPON_TYPE_SWORD ct"
    using sv sw by (simp add: c'_def ct_def)
  show "walking r s pid w2" "i_dir (info (the_player pid w2)) = d" using sw sv(2) io(2) by simp_all
  show "own_actor i c'" "i_dir (a_info (the_actor i c')) = old" "\<not> movePending (a_my (the_actor i c'))"
    "cl_fault c' = cl_fault c" "cl_sent c' = cl_sent c"
    using ca ct io(2) assms(3) by (simp_all add: c' OnServerAttackAck_def OnServerTurnAck_def)
qed

text \<open>
  C31. A player that presses another direction and swings its sword before the turn is answered sends the attack with its old
  direction. The server turns the player and then passes the attack on as it came, so the client turns its player back: the two
  disagree on the direction. The next request for the turn leaves the server as it is, without an answer, and the client waits
  for one: it asks for nothing more.
\<close>

theorem attack_during_a_turn_freezes_the_player:
  assumes "walking r s pid w" "own_actor i c" "agree (info (the_player pid w)) (a_info (the_actor i c))"
    "cl_fault c = None" "DIR_TYPE_IsValid d" "DIR_TYPE_IsValid (i_dir (a_info (the_actor i c)))" "i_dir (a_info (the_actor i c)) \<noteq> d"
    "keyPressed (a_my (the_actor i c))" "wantedDir (a_my (the_actor i c)) = d" "\<not> movePending (a_my (the_actor i c))"
    "a_weapon (the_actor i c) = Sword"
    and "GetGameObjectAt r (GetFrontCellPos (the_player pid (run_packet r s (C_Turn d) w))) (run_packet r s (C_Turn d) w) = None"
  shows "let old = i_dir (a_info (the_actor i c));
             c1 = TrySkill i (TryMove i c);
             w1 = run_packet r s (C_Turn d) w; w2 = run_packet r s (C_Attack old WEAPON_TYPE_SWORD) w1;
             c2 = fold (handle_message E) (answers s w w1 @ answers s w1 w2) c1;
             c3 = TryMove i (upd_my i (hold_key d) c2)
    in cl_sent c1 = cl_sent c @ [C_Turn d, C_Attack old WEAPON_TYPE_SWORD]
      \<and> i_dir (info (the_player pid w2)) = d \<and> i_dir (a_info (the_actor i c2)) = old
      \<and> cl_sent c3 = cl_sent c1 @ [C_Turn d] \<and> run_packet r s (C_Turn d) w2 = w2
      \<and> (\<forall>e. TryMove i (upd_my i (hold_key e) c3) = upd_my i (hold_key e) c3)"
proof -
  define old where "old = i_dir (a_info (the_actor i c))"
  define c1 where "c1 = TrySkill i (TryMove i c)"
  define w1 where "w1 = run_packet r s (C_Turn d) w"
  define w2 where "w2 = run_packet r s (C_Attack old WEAPON_TYPE_SWORD) w1"
  define c2 where "c2 = fold (handle_message E) (answers s w w1 @ answers s w1 w2) c1"
  define c3 where "c3 = TryMove i (upd_my i (hold_key d) c2)"
  have c1: "c1 = SendPacket (C_Attack old WEAPON_TYPE_SWORD)
      (upd_my i (\<lambda>m. m\<lparr>keyPressed := False, movePending := True\<rparr>) (SendPacket (C_Turn d) c))"
    using TryMove_turn [of i c] assms(7-11) by (simp add: c1_def TrySkill_def Let_def upd_my_def old_def)
  have c1': "own_actor i c1" "a_info (the_actor i c1) = a_info (the_actor i c)" "cl_fault c1 = None"
    "cl_sent c1 = cl_sent c @ [C_Turn d, C_Attack old WEAPON_TYPE_SWORD]"
    using asked_client [OF assms(2,4)] assms(4) by (simp_all add: c1 cl_sent_SendPacket) (simp add: upd_my_def cl_sent_SendPacket)
  have pre: "i_dir (info (the_player pid w)) \<noteq> d" "i_objectid (info (the_player pid w)) = i_objectid (a_info (the_actor i c1))"
    "DIR_TYPE_IsValid old"
    using assms(3,6,7) c1'(2) by (simp_all add: agree_def old_def)
  note sv = swing_during_turn(1,2) [OF assms(1) pre(1) assms(5) pre(3) c1'(1) pre(2) assms(12), folded w1_def, folded w2_def]
  note cl = swing_during_turn(3-7) [OF assms(1) pre(1) assms(5) pre(3) c1'(1) pre(2) assms(12), where E = E, folded w1_def, folded w2_def,
      folded c2_def]
  have "c3 = upd_my i (\<lambda>m. m\<lparr>keyPressed := False, movePending := True\<rparr>) (SendPacket (C_Turn d) (upd_my i (hold_key d) c2))"
    using TryMove_turn [of i "upd_my i (hold_key d) c2"] cl(2,3) assms(7) by (simp add: c3_def upd_my_def hold_key_def old_def)
  then have c3: "cl_sent c3 = cl_sent c1 @ [C_Turn d]" "movePending (a_my (the_actor i (upd_my i (hold_key e) c3)))" for e
    using cl(4,5) c1'(3) by (simp_all add: upd_my_def cl_sent_SendPacket hold_key_def)
  have "run_packet r s (C_Turn d) w2 = w2" by (rule server_keeps_turn [OF sv(1,2)])
  moreover have "TryMove i (upd_my i (hold_key e) c3) = upd_my i (hold_key e) c3" for e
    using c3(2) by (simp add: TryMove_def Let_def)
  ultimately show ?thesis
    unfolding Let_def old_def [symmetric] c1_def [symmetric] w1_def [symmetric] w2_def [symmetric] c2_def [symmetric]
      c3_def [symmetric]
    using c1'(4) sv(2) cl(2) c3(1) by simp
qed

section \<open>At the sample world\<close>

definition hero_actor :: "int32 \<Rightarrow> Actor" where
  "hero_actor d = \<lparr>a_kind = KMyPlayer, a_info = info sample_hero, a_weapon = Sword, a_animState = IDLE, a_skillAnimEndTime = 0,
     a_sprite = Sprite_new (Pos 0 0), a_my = hold_key d MyData_new\<rparr>"

definition hero_client :: "int32 \<Rightarrow> Client" where
  "hero_client d = (Client_new (\<lambda>m. bare_map))\<lparr>actors := [0 \<mapsto> hero_actor d], next_addr := 1, layer_object := [0], myPlayer := Some 0\<rparr>"

lemma hero_client_simps [simp]:
  "the_actor 0 (hero_client d) = hero_actor d" "cl_fault (hero_client d) = None" "cl_sent (hero_client d) = []"
  "a_info (hero_actor d) = info sample_hero" "wantedDir (a_my (hero_actor d)) = d" "keyPressed (a_my (hero_actor d))"
  "\<not> movePending (a_my (hero_actor d))" "a_weapon (hero_actor d) = Sword" "turnGraceLeft (a_my (hero_actor d)) = 0"
  "\<not> blockedHold (a_my (hero_actor d))"
  by (simp_all add: hero_client_def hero_actor_def hold_key_def MyData_new_def Client_new_def the_actor_def)

lemma hero_walks: "walking town1 0 1 sample_world"
  by (simp add: walking_def listens_def sample_room_def GameRoom_new_def in_session_def)

lemma hero_owned: "own_actor 0 (hero_client d)"
proof -
  have "layer_object (hero_client d) = [0]" "myPlayer (hero_client d) = Some 0" "a_kind (hero_actor d) = KMyPlayer"
    by (simp_all add: hero_client_def hero_actor_def)
  then show ?thesis by (simp add: own_actor_def GetObject_def)
qed

lemma hero_agrees: "agree (info (the_player 1 sample_world)) (a_info (the_actor 0 (hero_client d)))"
  by (simp add: agree_def)

theorem move_request_is_answered_witness:
  "let w' = run_packet town1 0 (C_Move DIR_UP) sample_world;
       c' = fold (handle_message plain_client) (answers 0 sample_world w') (TryMove 0 (hero_client DIR_UP))
   in length (answers 0 sample_world w') = 1 \<and> \<not> movePending (a_my (the_actor 0 c'))"
proof -
  have "cl_sent (TryMove 0 (hero_client DIR_UP)) = cl_sent (hero_client DIR_UP) @ [C_Move DIR_UP]"
    by (simp add: TryMove_def Let_def cl_sent_SendPacket upd_my_def)
  from move_request_is_answered [OF hero_walks hero_owned hero_agrees _ _ _ this, of plain_client]
  show ?thesis by (simp add: Let_def DIR_TYPE_IsValid_def)
qed

theorem attack_during_a_turn_freezes_the_player_witness:
  "let c1 = TrySkill 0 (TryMove 0 (hero_client DIR_RIGHT));
       w1 = run_packet town1 0 (C_Turn DIR_RIGHT) sample_world; w2 = run_packet town1 0 (C_Attack DIR_UP WEAPON_TYPE_SWORD) w1;
       c2 = fold (handle_message plain_client) (answers 0 sample_world w1 @ answers 0 w1 w2) c1
   in i_dir (info (the_player 1 w2)) = DIR_RIGHT \<and> i_dir (a_info (the_actor 0 c2)) = DIR_UP"
proof -
  let ?w1 = "run_packet town1 0 (C_Turn DIR_RIGHT) sample_world"
  have w1: "?w1 = Broadcast town1 (S_Turn (info (set_state IDLE (set_dir DIR_RIGHT sample_hero))))
      (put_player 1 (set_state IDLE (set_dir DIR_RIGHT sample_hero)) sample_world)"
    by (simp add: Handle_C_Turn_def Let_def DIR_TYPE_IsValid_def)
  have "i_posx (info sample_monster) = 0" "i_posx (info sample_hero) = 0"
    using sample_monster_simps(1) sample_hero_simps(1) by (simp_all add: GetCellPos_def)
  then have "GetGameObjectAt town1 (GetFrontCellPos (the_player 1 ?w1)) ?w1 = None"
    unfolding w1 by (simp add: GetGameObjectAt_def first_at_def obj_pos_def obj_info_Broadcast Let_def sample_room_def
        GameRoom_new_def GetFrontCellPos_def)
  from attack_during_a_turn_freezes_the_player [OF hero_walks hero_owned hero_agrees _ _ _ _ _ _ _ _ this, where E = plain_client]
  show ?thesis by (simp add: Let_def DIR_TYPE_IsValid_def)
qed

end
