(* ===== verification/View.thy ===== *)
theory View
  imports Handshake
begin

text \<open>
  What the client shows and what is in the room, with both programs: from the moment a player enters on, as objects come and
  go. The client's scene is a set of objects here, each with what it knows of it; the room's is the server's.
\<close>

section \<open>The client's scene\<close>

definition client_view :: "Client \<Rightarrow> ObjectInfo set" where
  "client_view c = (\<lambda>i. a_info (the_actor i c)) ` set (layer_object c)"

definition scene_ok :: "uint64 \<Rightarrow> ObjectInfo set \<Rightarrow> Client \<Rightarrow> bool" where
  "scene_ok pid V c \<longleftrightarrow> distinct (layer_object c) \<and> (\<forall>i \<in> set (layer_object c). i < next_addr c)
     \<and> inj_on (\<lambda>i. i_objectid (a_info (the_actor i c))) (set (layer_object c)) \<and> client_view c = V
     \<and> (\<exists>i \<in> set (layer_object c). myPlayer c = Some i \<and> i_objectid (a_info (the_actor i c)) = pid) \<and> cl_fault c = None"

lemma scene_my_id: "scene_ok pid V c \<Longrightarrow> GetMyPlayerId c = pid"
  by (auto simp: scene_ok_def GetMyPlayerId_def)

lemma scene_upd_my:
  assumes "scene_ok pid V c"
  shows "scene_ok pid V (with_my (\<lambda>i d. upd_my i (f i d) d) c)"
proof -
  have k: "a_info (the_actor j (upd_my i g d)) = a_info (the_actor j d)" for i j g d by (simp add: upd_my_def)
  show ?thesis
    using assms by (cases "myPlayer c") (simp_all add: with_my_def scene_ok_def client_view_def k, simp_all add: upd_my_def)
qed

text \<open>An object that is added, and one that is taken out.\<close>

definition shows_type :: "ObjectInfo \<Rightarrow> bool" where
  "shows_type oi \<longleftrightarrow> i_objecttype oi \<noteq> OBJECT_TYPE_NONE \<and> (i_objecttype oi = OBJECT_TYPE_MONSTER \<or> DIR_TYPE_IsValid (i_dir oi))"

lemma same_info [simp]:
  "oi\<lparr>i_dir := i_dir oi\<rparr> = oi" "oi\<lparr>i_state := i_state oi\<rparr> = oi" "oi\<lparr>i_posx := i_posx oi, i_posy := i_posy oi\<rparr> = oi"
  by (cases oi; simp)+

lemma introduce_actor_simps:
  "layer_object (introduce_actor i oi c) = layer_object c" "next_addr (introduce_actor i oi c) = next_addr c"
  "myPlayer (introduce_actor i oi c) = myPlayer c" "a_info (the_actor i (introduce_actor i oi c)) = oi"
  "j \<noteq> i \<Longrightarrow> the_actor j (introduce_actor i oi c) = the_actor j c"
  "a_kind (the_actor i c) = KMonster \<or> DIR_TYPE_IsValid (i_dir oi) \<Longrightarrow> cl_fault (introduce_actor i oi c) = cl_fault c"
  by (simp_all add: introduce_actor_def upd_info_def turn_actor_fault Cl_SetCellPos_def Cl_SetState_def Cl_SetDir_def)

lemma introduce_player_simps:
  fixes i oi c
  defines "d \<equiv> upd_info i (\<lambda>_. oi) (upd_actor i (Cl_SetState (i_state oi)) (turn_actor i (i_dir oi) c))"
  shows "layer_object d = layer_object c" "next_addr d = next_addr c" "myPlayer d = myPlayer c" "a_info (the_actor i d) = oi"
    "j \<noteq> i \<Longrightarrow> the_actor j d = the_actor j c" "DIR_TYPE_IsValid (i_dir oi) \<Longrightarrow> cl_fault d = cl_fault c"
  by (simp_all add: d_def upd_info_def turn_actor_fault)

lemma spawned_kind: "a_kind (the_actor (next_addr c) (snd (SpawnObject k pos c))) = k"
  by (simp add: Cl_SetCellPos_def Actor_new_def)

lemma add_one_new:
  assumes "GetMyPlayerId c \<noteq> i_objectid oi" "shows_type oi"
  defines "d \<equiv> add_one oi c"
  shows "layer_object d = layer_object c @ [next_addr c]" "next_addr d = Suc (next_addr c)" "myPlayer d = myPlayer c"
    "a_info (the_actor (next_addr c) d) = oi" "j \<noteq> next_addr c \<Longrightarrow> the_actor j d = the_actor j c" "cl_fault d = cl_fault c"
proof -
  let ?s = "\<lambda>k. snd (SpawnObject k (Vec (i_posx oi) (i_posy oi)) c)" and ?n = "next_addr c"
  consider k where "d = introduce_actor ?n oi (?s k)" "k = KMonster \<or> DIR_TYPE_IsValid (i_dir oi)"
    | "d = upd_info ?n (\<lambda>_. oi) (upd_actor ?n (Cl_SetState (i_state oi)) (turn_actor ?n (i_dir oi) (?s KPlayer)))"
      "DIR_TYPE_IsValid (i_dir oi)"
    using assms(1,2) unfolding d_def add_one_def Let_def case_SpawnObject
    by (cases "i_objecttype oi") (auto simp: shows_type_def)
  then show "layer_object d = layer_object c @ [?n]" "next_addr d = Suc ?n" "myPlayer d = myPlayer c" "a_info (the_actor ?n d) = oi"
    "cl_fault d = cl_fault c" "j \<noteq> ?n \<Longrightarrow> the_actor j d = the_actor j c"
    using spawned_kind [of c] by (cases; simp add: introduce_actor_simps introduce_player_simps)+
qed

lemma scene_add:
  assumes "scene_ok pid V c" "i_objectid oi \<notin> i_objectid ` V" "shows_type oi"
  shows "scene_ok pid (insert oi V) (add_one oi c)"
proof -
  have V: "V = (\<lambda>i. a_info (the_actor i c)) ` set (layer_object c)"
    and my: "\<exists>i \<in> set (layer_object c). myPlayer c = Some i \<and> i_objectid (a_info (the_actor i c)) = pid"
    and l: "distinct (layer_object c)" "\<forall>i \<in> set (layer_object c). i < next_addr c" "cl_fault c = None"
      "inj_on (\<lambda>i. i_objectid (a_info (the_actor i c))) (set (layer_object c))"
    using assms(1) by (auto simp: scene_ok_def client_view_def)
  have "pid \<in> i_objectid ` V" unfolding V image_image using my by auto
  then have "GetMyPlayerId c \<noteq> i_objectid oi" using scene_my_id [OF assms(1)] assms(2) by auto
  note a = add_one_new [OF this assms(3)]
  let ?d = "add_one oi c" and ?n = "next_addr c"
  have old: "the_actor i ?d = the_actor i c" if "i \<in> set (layer_object c)" for i using that l(2) by (intro a(5)) auto
  have ids: "i_objectid (a_info (the_actor i ?d)) = (if i = ?n then i_objectid oi else i_objectid (a_info (the_actor i c)))"
    if "i \<in> insert ?n (set (layer_object c))" for i
    using that old a(4) l(2) by auto
  have "inj_on (\<lambda>i. i_objectid (a_info (the_actor i ?d))) (insert ?n (set (layer_object c)))"
  proof (rule inj_onI)
    fix i j assume ij: "i \<in> insert ?n (set (layer_object c))" "j \<in> insert ?n (set (layer_object c))"
      "i_objectid (a_info (the_actor i ?d)) = i_objectid (a_info (the_actor j ?d))"
    have "i_objectid (a_info (the_actor k c)) \<noteq> i_objectid oi" if "k \<in> set (layer_object c)" for k
      using that assms(2) unfolding V image_image by (metis imageI)
    with ij l(4) show "i = j" unfolding ids [OF ij(1)] ids [OF ij(2)]
      by (auto split: if_splits dest: inj_onD)
  qed
  moreover have "client_view ?d = insert oi V"
    using old by (simp add: client_view_def a(1) a(4) V)
  moreover have "\<exists>i \<in> set (layer_object ?d). myPlayer ?d = Some i \<and> i_objectid (a_info (the_actor i ?d)) = pid"
    using my old by (auto simp: a(1,3))
  moreover have "distinct (layer_object ?d)" "\<forall>i \<in> set (layer_object ?d). i < next_addr ?d"
    using l(1,2) by (auto simp: a(1,2))
  ultimately show ?thesis using l(3) by (simp add: scene_ok_def a(1,6))
qed

lemma scene_add_own: "scene_ok pid V c \<Longrightarrow> i_objectid oi = pid \<Longrightarrow> add_one oi c = c"
  using scene_my_id [of pid V c] by (simp add: add_one_def Let_def)

lemma scene_add_list:
  assumes "scene_ok pid V c" "\<forall>oi \<in> set os. shows_type oi" "distinct (map i_objectid os)"
    "i_objectid ` set os \<inter> i_objectid ` V = {}"
  shows "scene_ok pid (set os \<union> V) (Handle_S_AddObject os c)"
  using assms unfolding Handle_S_AddObject_def
proof (induction os arbitrary: V c)
  case (Cons oi os)
  have "scene_ok pid (insert oi V) (add_one oi c)" using Cons.prems by (intro scene_add) auto
  moreover have "i_objectid ` set os \<inter> i_objectid ` insert oi V = {}" using Cons.prems(3,4) by auto
  ultimately have "scene_ok pid (set os \<union> insert oi V) (fold add_one os (add_one oi c))"
    using Cons.prems by (intro Cons.IH) auto
  then show ?case by simp
qed simp

text \<open>Removal goes by an id that passes through 32 bits: it is itself when it is below the sign bit.\<close>

lemma id_through_int32_small: "uint i < 2 ^ 31 \<Longrightarrow> id_through_int32 i = i"
proof -
  assume u: "uint i < 2 ^ 31"
  have "uint (ucast i :: 32 word) = take_bit 32 (uint i)" by (simp add: unsigned_ucast_eq unsigned_take_bit_eq)
  also have "\<dots> = uint i" using u by (intro take_bit_int_eq_self) simp_all
  finally have "sint (ucast i :: 32 word) = uint i"
    using u order_trans [of "- (2 ^ 31)" 0 "uint i"] by (simp add: sint_uint signed_take_bit_int_eq_self_iff)
  then show ?thesis by (simp add: id_through_int32_def scast_eq)
qed

lemma scene_remove:
  assumes "scene_ok pid V c" "oi \<in> V" "i_objectid oi \<noteq> pid" "uint (i_objectid oi) < 2 ^ 31"
  shows "scene_ok pid (V - {oi}) (remove_one (i_objectid oi) c)"
proof -
  have V: "V = (\<lambda>i. a_info (the_actor i c)) ` set (layer_object c)"
    and inj: "inj_on (\<lambda>i. i_objectid (a_info (the_actor i c))) (set (layer_object c))"
    using assms(1) by (auto simp: scene_ok_def client_view_def)
  obtain i where i: "i \<in> set (layer_object c)" "a_info (the_actor i c) = oi" using assms(2) V by auto
  obtain j where j: "GetObject (i_objectid oi) c = Some j"
    using i by (cases "GetObject (i_objectid oi) c") (auto simp: GetObject_def find_None_iff)
  then have "j \<in> set (layer_object c)" "i_objectid (a_info (the_actor j c)) = i_objectid oi"
    by (auto simp: GetObject_def find_Some_iff)
  then have "j = i" using i inj by (auto dest: inj_onD)
  then have r: "remove_one (i_objectid oi) c = RemoveActor i c"
    using j by (simp add: remove_one_def id_through_int32_small [OF assms(4)])
  have fr: "layer_object (RemoveActor i c) = removeAll i (layer_object c)" "the_actor k (RemoveActor i c) = the_actor k c"
    "next_addr (RemoveActor i c) = next_addr c" "myPlayer (RemoveActor i c) = myPlayer c" "cl_fault (RemoveActor i c) = cl_fault c" for k
    by (simp_all add: RemoveActor_def the_actor_def)
  have "(\<lambda>k. a_info (the_actor k c)) ` (set (layer_object c) - {i}) = V - {oi}"
  proof -
    have "a_info (the_actor k c) \<noteq> oi" if "k \<in> set (layer_object c)" "k \<noteq> i" for k
      using inj_onD [OF inj, of k i] that i by auto
    then show ?thesis using i V by auto
  qed
  moreover have "\<exists>k \<in> set (layer_object c) - {i}. myPlayer c = Some k \<and> i_objectid (a_info (the_actor k c)) = pid"
    using assms(1,3) i(2) by (auto simp: scene_ok_def)
  moreover have "inj_on (\<lambda>i. i_objectid (a_info (the_actor i c))) (set (layer_object c) - {i})"
    using inj by (rule inj_on_subset) auto
  ultimately show ?thesis
    using assms(1) by (simp add: r scene_ok_def client_view_def fr distinct_removeAll)
qed

section \<open>The server's room\<close>

definition room_refs :: "RoomRef \<Rightarrow> World \<Rightarrow> ObjRef set" where
  "room_refs r w = (let g = the_room r w
     in RefPlayer ` set (players g) \<union> RefMonster ` set (monsters g) \<union> RefArrow ` set (projectiles g))"

definition room_view :: "RoomRef \<Rightarrow> World \<Rightarrow> ObjectInfo set" where
  "room_view r w = (\<lambda>k. obj_info k w) ` room_refs r w"

text \<open>The ids are the objects', different for different objects, and below the sign bit of 32.\<close>

definition room_ids_ok :: "RoomRef \<Rightarrow> World \<Rightarrow> bool" where
  "room_ids_ok r w \<longleftrightarrow> inj_on ref_id (room_refs r w)
     \<and> (\<forall>k \<in> room_refs r w. i_objectid (obj_info k w) = ref_id k \<and> uint (ref_id k) < 2 ^ 31)"

definition sees :: "RoomRef \<Rightarrow> SessionId \<Rightarrow> uint64 \<Rightarrow> World \<Rightarrow> Client \<Rightarrow> bool" where
  "sees r s pid w c \<longleftrightarrow> listens r s pid w \<and> room_ids_ok r w \<and> scene_ok pid (room_view r w) c"

text \<open>What comes and goes: the two operations of the room, and when they are asked for.\<close>

datatype view_op = Arrive ObjRef | Depart uint64

fun view_step :: "RoomRef \<Rightarrow> view_op \<Rightarrow> World \<Rightarrow> World" where
  "view_step r (Arrive k) w = AddObject r k w"
| "view_step r (Depart i) w = RemoveObject r i w"

fun allowed :: "RoomRef \<Rightarrow> SessionId \<Rightarrow> uint64 \<Rightarrow> view_op \<Rightarrow> World \<Rightarrow> bool" where
  "allowed r s pid (Arrive k) w = (FindObject r (ref_id k) w = None \<and> i_objectid (obj_info k w) = ref_id k
     \<and> uint (ref_id k) < 2 ^ 31 \<and> shows_type (obj_info k w)
     \<and> (case k of RefPlayer i \<Rightarrow> in_session w i \<and> psession (the_player i w) \<noteq> Some s | _ \<Rightarrow> True))"
| "allowed r s pid (Depart i) w = (i \<noteq> pid)"

declare set_obj_room.simps [simp del]

lemma FindObject_None: "FindObject r i w = None \<longleftrightarrow> i \<notin> ref_id ` room_refs r w"
  by (auto simp: FindObject_def room_refs_def Let_def image_Un image_image)

lemma FindObject_Some: "FindObject r i w = Some k \<Longrightarrow> k \<in> room_refs r w \<and> ref_id k = i"
  by (auto simp: FindObject_def room_refs_def Let_def split: if_splits)

lemma obj_info_room [simp]: "obj_info k (set_obj_room q x w) = obj_info k w" "obj_info k (upd_room r f w) = obj_info k w"
   apply (cases k; cases q; simp add: set_obj_room.simps)
  apply (cases k; simp)
  done

lemma set_obj_room_frame [simp]:
  "the_room r (set_obj_room q x w) = the_room r w" "out (set_obj_room q x w) = out w" "faulted (set_obj_room q x w) = faulted w"
  by (cases q; simp add: set_obj_room.simps put_player_def put_monster_def put_arrow_def the_room_def)+

lemma set_obj_room_session [simp]: "psession (the_player i (set_obj_room q x w)) = psession (the_player i w)"
  by (cases q) (simp_all add: set_obj_room.simps)

lemma room_ids_cong:
  "room_refs r w' = room_refs r w \<Longrightarrow> (\<And>k. obj_info k w' = obj_info k w) \<Longrightarrow> room_ids_ok r w' = room_ids_ok r w"
  by (simp add: room_ids_ok_def)

lemma room_refs_Broadcast [simp]: "room_refs r (Broadcast q p w) = room_refs r w"
  by (simp add: room_refs_def)

lemma room_refs_AddObject: "room_refs r (AddObject r k w) = insert k (room_refs r w)"
  by (cases k) (auto simp: AddObject_def Let_def room_refs_def)

lemma obj_info_AddObject [simp]: "obj_info q (AddObject r k w) = obj_info q w"
  by (simp add: AddObject_def Let_def obj_info_Broadcast)

lemma AddObject_hears:
  assumes "listens r s pid w" "allowed r s pid (Arrive k) w"
  shows "listens r s pid (AddObject r k w)" "answers s w (AddObject r k w) = [S_AddObject [obj_info k w]]"
proof -
  define w2 where "w2 = set_obj_room k (Some r) (upd_room r (\<lambda>g. case k of
                 RefPlayer i \<Rightarrow> g\<lparr>players := key_insert i (players g)\<rparr>
               | RefMonster i \<Rightarrow> g\<lparr>monsters := key_insert i (monsters g)\<rparr>
               | RefArrow i \<Rightarrow> g\<lparr>projectiles := key_insert i (projectiles g)\<rparr>) w)"
  have a: "AddObject r k w = Broadcast r (S_AddObject [obj_info k w]) w2" by (simp add: AddObject_def w2_def Let_def)
  have fr: "psession (the_player i w2) = psession (the_player i w)" "faulted w2 = faulted w" for i
    by (simp_all add: w2_def)
  have new: "the_room r w2 = (case k of
                 RefPlayer i \<Rightarrow> (the_room r w)\<lparr>players := key_insert i (players (the_room r w))\<rparr>
               | RefMonster i \<Rightarrow> (the_room r w)\<lparr>monsters := key_insert i (monsters (the_room r w))\<rparr>
               | RefArrow i \<Rightarrow> (the_room r w)\<lparr>projectiles := key_insert i (projectiles (the_room r w))\<rparr>)"
    by (simp add: w2_def)
  have "listens r s pid w2"
  proof (cases k)
    case (RefPlayer i)
    then have "i \<notin> set (players (the_room r w))" "in_session w i" "psession (the_player i w) \<noteq> Some s"
      using assms(2) by (auto simp: FindObject_def Let_def split: if_splits)
    with assms(1) RefPlayer show ?thesis
      by (auto simp: listens_def in_session_def fr new key_insert_def distinct_insort set_insort_key)
  qed (use assms(1) in \<open>simp_all add: listens_def in_session_def fr new\<close>)
  note l = listens_Broadcast [OF this, of "S_AddObject [obj_info k w]"]
  show "listens r s pid (AddObject r k w)" using l(3) by (simp add: a)
  have "out w2 = out w" by (simp add: w2_def upd_room_def)
  with l(1,2) show "answers s w (AddObject r k w) = [S_AddObject [obj_info k w]]" by (simp add: a answers_out)
qed

text \<open>A removal: the object leaves its map, everybody who stays is told its id.\<close>

lemma TryReserve_frame:
  "players (the_room q (TryReserve r m w)) = players (the_room q w)" "monsters (the_room q (TryReserve r m w)) = monsters (the_room q w)"
  "projectiles (the_room q (TryReserve r m w)) = projectiles (the_room q w)" "obj_info k (TryReserve r m w) = obj_info k w"
  "out (TryReserve r m w) = out w" "faulted (TryReserve r m w) = faulted w"
  "psession (the_player i (TryReserve r m w)) = psession (the_player i w)"
proof -
  have t: "the_room q (snd (tick w)) = the_room q w" "the_player i (snd (tick w)) = the_player i w" "obj_info k (snd (tick w)) = obj_info k w"
    "out (snd (tick w)) = out w" "faulted (snd (tick w)) = faulted w" for q i k
    by (cases k; simp add: tick_def the_room_def the_player_def the_monster_def the_arrow_def)+
  note u = t [unfolded tick_def, simplified]
  show "players (the_room q (TryReserve r m w)) = players (the_room q w)" "monsters (the_room q (TryReserve r m w)) = monsters (the_room q w)"
    "projectiles (the_room q (TryReserve r m w)) = projectiles (the_room q w)" "obj_info k (TryReserve r m w) = obj_info k w"
    "faulted (TryReserve r m w) = faulted w" "psession (the_player i (TryReserve r m w)) = psession (the_player i w)"
    by (simp_all add: TryReserve_def Let_def tick_def u)
  show "out (TryReserve r m w) = out w"
    by (simp add: TryReserve_def Let_def tick_def upd_room_def)
qed

lemma RemoveObject_hears:
  assumes "listens r s pid w" "FindObject r i w = Some k" "i \<noteq> pid"
  shows "listens r s pid (RemoveObject r i w)" "answers s w (RemoveObject r i w) = [S_RemoveObject [i]]"
    "room_refs r (RemoveObject r i w) = room_refs r w - {k}" "obj_info q (RemoveObject r i w) = obj_info q w"
proof -
  define w1 where "w1 = (case k of RefMonster m \<Rightarrow> TryReserve r m w | _ \<Rightarrow> w)"
  define f :: "GameRoom \<Rightarrow> GameRoom" where "f = (\<lambda>g. case k of
                     RefPlayer i \<Rightarrow> g\<lparr>players := key_erase i (players g)\<rparr>
                   | RefMonster i \<Rightarrow> g\<lparr>monsters := key_erase i (monsters g)\<rparr>
                   | RefArrow i \<Rightarrow> g\<lparr>projectiles := key_erase i (projectiles g)\<rparr>)"
  define w2 where "w2 = set_obj_room k None (upd_room r f w1)"
  have run: "RemoveObject r i w = Broadcast r (S_RemoveObject [i]) w2"
    using assms(2) by (simp add: RemoveObject_def w1_def w2_def f_def Let_def)
  have f1: "players (the_room q w1) = players (the_room q w)" "monsters (the_room q w1) = monsters (the_room q w)"
    "projectiles (the_room q w1) = projectiles (the_room q w)" "obj_info j w1 = obj_info j w" "out w1 = out w"
    "faulted w1 = faulted w" "psession (the_player n w1) = psession (the_player n w)" for q j n
    by (cases k; simp add: w1_def TryReserve_frame)+
  have f2: "the_room r w2 = f (the_room r w1)" "psession (the_player n w2) = psession (the_player n w)" "faulted w2 = faulted w"
    "out w2 = out w" for n
    using f1 by (simp_all add: w2_def) (simp add: upd_room_def)
  have id: "ref_id k = i" using FindObject_Some [OF assms(2)] by simp
  have "listens r s pid w2"
    using assms(1,3) id
    by (cases k) (auto simp: listens_def in_session_def f2 f1 f_def key_erase_def distinct_filter)
  note l = listens_Broadcast [OF this, of "S_RemoveObject [i]"]
  show "listens r s pid (RemoveObject r i w)" using l(3) by (simp add: run)
  show "answers s w (RemoveObject r i w) = [S_RemoveObject [i]]" using l(1,2) f2(4) by (simp add: run answers_out)
  show "room_refs r (RemoveObject r i w) = room_refs r w - {k}"
    by (cases k) (auto simp: run room_refs_def Let_def f2 f_def f1)
  show "obj_info q (RemoveObject r i w) = obj_info q w"
    by (simp add: run obj_info_Broadcast w2_def f1)
qed

section \<open>The two together\<close>

definition view_sent :: "RoomRef \<Rightarrow> SessionId \<Rightarrow> view_op \<Rightarrow> World \<Rightarrow> World \<times> spacket list" where
  "view_sent r s op w = (let w' = view_step r op w in (w', answers s w w'))"

lemma answers_same [simp]: "answers s w w = []"
  by (simp add: answers_def)

lemma view_ids: "room_ids_ok r w \<Longrightarrow> i_objectid ` room_view r w = ref_id ` room_refs r w"
  by (force simp: room_ids_ok_def room_view_def image_image)

lemma sees_arrival:
  assumes "sees r s pid w c" "allowed r s pid (Arrive k) w"
  shows "sees r s pid (AddObject r k w) (fold (handle_message E) (answers s w (AddObject r k w)) c)"
proof -
  have l: "listens r s pid w" and ids: "room_ids_ok r w" and sc: "scene_ok pid (room_view r w) c"
    using assms(1) by (simp_all add: sees_def)
  note h = AddObject_hears [OF l assms(2)]
  have new: "ref_id k \<notin> ref_id ` room_refs r w" "i_objectid (obj_info k w) = ref_id k" "shows_type (obj_info k w)"
    "uint (ref_id k) < 2 ^ 31"
    using assms(2) by (simp_all add: FindObject_None)
  have "scene_ok pid (insert (obj_info k w) (room_view r w)) (add_one (obj_info k w) c)"
    using new by (intro scene_add sc) (simp_all add: view_ids [OF ids])
  moreover have "room_view r (AddObject r k w) = insert (obj_info k w) (room_view r w)"
    by (simp add: room_view_def room_refs_AddObject)
  moreover have "inj_on ref_id (insert k (room_refs r w))" using new(1) ids by (auto simp: room_ids_ok_def)
  ultimately show ?thesis
    using h ids new by (auto simp: sees_def room_ids_ok_def room_refs_AddObject Handle_S_AddObject_def)
qed

lemma sees_departure:
  assumes "sees r s pid w c" "i \<noteq> pid"
  shows "sees r s pid (RemoveObject r i w) (fold (handle_message E) (answers s w (RemoveObject r i w)) c)"
proof (cases "FindObject r i w")
  case None
  then show ?thesis using assms by (simp add: RemoveObject_def)
next
  case (Some k)
  have l: "listens r s pid w" and ids: "room_ids_ok r w" and sc: "scene_ok pid (room_view r w) c"
    using assms(1) by (simp_all add: sees_def)
  note h = RemoveObject_hears [OF l Some assms(2)]
  have k: "k \<in> room_refs r w" "ref_id k = i" using FindObject_Some [OF Some] by simp_all
  have ob: "i_objectid (obj_info k w) = i" "uint i < 2 ^ 31" "obj_info k w \<in> room_view r w"
    using k ids by (auto simp: room_ids_ok_def room_view_def)
  have "scene_ok pid (room_view r w - {obj_info k w}) (remove_one i c)"
    using scene_remove [OF sc ob(3)] ob assms(2) by simp
  moreover have "room_view r (RemoveObject r i w) = room_view r w - {obj_info k w}"
  proof -
    have "obj_info j w \<noteq> obj_info k w" if "j \<in> room_refs r w" "j \<noteq> k" for j
    proof
      assume "obj_info j w = obj_info k w"
      then have "ref_id j = ref_id k" using ids that(1) k(1) by (auto simp: room_ids_ok_def) metis
      with that k(1) ids show False by (auto simp: room_ids_ok_def dest: inj_onD)
    qed
    then show ?thesis by (auto simp: room_view_def h(3,4))
  qed
  moreover have "room_ids_ok r (RemoveObject r i w)"
    using ids by (auto simp: room_ids_ok_def h(3,4) intro: inj_on_subset)
  ultimately show ?thesis using h by (simp add: sees_def Handle_S_RemoveObject_def)
qed

interpretation room: conversation "view_sent r s" "handle_message E" "allowed r s pid" "sees r s pid"
proof
  fix op w c w' ms
  assume "sees r s pid w c" "allowed r s pid op w" "view_sent r s op w = (w', ms)"
  then show "sees r s pid w' (fold (handle_message E) ms c)"
    by (cases op) (auto simp: view_sent_def Let_def sees_arrival sees_departure simp del: allowed.simps(1))
qed

section \<open>Entering\<close>

definition may_enter :: "RoomRef \<Rightarrow> SessionId \<Rightarrow> uint64 \<Rightarrow> World \<Rightarrow> bool" where
  "may_enter r s pid w \<longleftrightarrow> faulted w = None \<and> room_ids_ok r w \<and> (\<forall>k \<in> room_refs r w. shows_type (obj_info k w))
     \<and> distinct (players (the_room r w)) \<and> distinct (monsters (the_room r w)) \<and> distinct (projectiles (the_room r w))
     \<and> FindObject r pid w = None \<and> i_objectid (info (the_player pid w)) = pid \<and> uint pid < 2 ^ 31
     \<and> (\<forall>q \<in> set (players (the_room r w)). in_session w q \<and> psession (the_player q w) \<noteq> Some s)"

definition ref_list :: "RoomRef \<Rightarrow> World \<Rightarrow> ObjRef list" where
  "ref_list r w = (let g = the_room r w in map RefPlayer (players g) @ map RefMonster (monsters g) @ map RefArrow (projectiles g))"

lemma set_ref_list [simp]: "set (ref_list r w) = room_refs r w"
  by (auto simp: ref_list_def room_refs_def Let_def)

lemma distinct_ref_list:
  "distinct (players (the_room r w)) \<Longrightarrow> distinct (monsters (the_room r w)) \<Longrightarrow> distinct (projectiles (the_room r w)) \<Longrightarrow>
    distinct (ref_list r w)"
  by (auto simp: ref_list_def Let_def distinct_map inj_on_def)

lemma AddObject_own:
  assumes "faulted w = None" "distinct (players (the_room r w))" "pid \<notin> set (players (the_room r w))"
    "psession (the_player pid w) = Some s"
    "\<forall>q \<in> set (players (the_room r w)). in_session w q \<and> psession (the_player q w) \<noteq> Some s"
  shows "listens r s pid (AddObject r (RefPlayer pid) w)"
    "\<exists>xs. out (AddObject r (RefPlayer pid) w) = out w @ xs \<and> heard s xs = [S_AddObject [info (the_player pid w)]]"
proof -
  define w2 where "w2 = set_obj_room (RefPlayer pid) (Some r) (upd_room r (\<lambda>g. g\<lparr>players := key_insert pid (players g)\<rparr>) w)"
  have a: "AddObject r (RefPlayer pid) w = Broadcast r (S_AddObject [info (the_player pid w)]) w2"
    by (simp add: AddObject_def w2_def Let_def set_obj_room.simps)
  have fr: "psession (the_player i w2) = psession (the_player i w)" "faulted w2 = faulted w"
    "players (the_room r w2) = key_insert pid (players (the_room r w))" for i
    by (simp_all add: w2_def)
  have "listens r s pid w2"
    using assms by (auto simp: listens_def in_session_def fr key_insert_def distinct_insort set_insort_key)
  note l = listens_Broadcast [OF this, of "S_AddObject [info (the_player pid w)]"]
  show "listens r s pid (AddObject r (RefPlayer pid) w)" using l(3) by (simp add: a)
  have "out w2 = out w" by (simp add: w2_def upd_room_def)
  with l(1,2) show "\<exists>xs. out (AddObject r (RefPlayer pid) w) = out w @ xs \<and> heard s xs = [S_AddObject [info (the_player pid w)]]"
    by (simp add: a)
qed

text \<open>What the party is told is an update, or nothing.\<close>

lemma send_to_member_out:
  "\<exists>xs. out (fold (send_to_member r (S_PartyUpdate ms)) is w) = out w @ xs \<and> (\<forall>p \<in> set (heard s xs). p = S_PartyUpdate ms)"
proof (induction "is" arbitrary: w)
  case (Cons i "is")
  have "\<exists>xs. out (send_to_member r (S_PartyUpdate ms) i w) = out w @ xs \<and> (\<forall>p \<in> set (heard s xs). p = S_PartyUpdate ms)"
    by (auto simp: send_to_member_def send_packet_def split: option.split)
  moreover obtain ys where "out (fold (send_to_member r (S_PartyUpdate ms)) is (send_to_member r (S_PartyUpdate ms) i w))
      = out (send_to_member r (S_PartyUpdate ms) i w) @ ys" "\<forall>p \<in> set (heard s ys). p = S_PartyUpdate ms"
    using Cons.IH by blast
  ultimately show ?case by auto
qed auto

lemma announce_party_heard:
  "\<exists>xs. out (announce_party r pid w) = out w @ xs \<and> (\<forall>p \<in> set (heard s xs). \<exists>ms. p = S_PartyUpdate ms)"
proof -
  have "\<exists>xs. out (fold (send_to_member r (S_PartyUpdate ms)) is w) = out w @ xs \<and> (\<forall>p \<in> set (heard s xs). \<exists>ms. p = S_PartyUpdate ms)"
    for ms "is" using send_to_member_out [of r ms "is" w s] by blast
  then show ?thesis by (auto simp: announce_party_def Let_def raise_def split: option.split)
qed

lemma announce_party_listens:
  "listens r s pid w \<Longrightarrow> faulted (announce_party r q w) = None \<Longrightarrow> listens r s pid (announce_party r q w)"
  using announce_party_frame [of _ r q w] by (simp add: listens_def in_session_def)

lemma obj_info_announce: "obj_info k (announce_party r q w) = obj_info k w"
proof -
  have "sends_only w (fold (send_to_member r pkt) ms w)" for pkt ms w
    by (rule sends_only_fold) (auto simp: send_to_member_def split: option.split)
  then have "sends_only w (announce_party r q w)"
    by (auto simp: announce_party_def Let_def split: option.split)
  from sends_only_frame [OF this] show ?thesis by (cases k) simp_all
qed

lemma scene_updates:
  "scene_ok pid V c \<Longrightarrow> \<forall>p \<in> set ps. \<exists>ms. p = S_PartyUpdate ms \<Longrightarrow> scene_ok pid V (fold (handle_message E) ps c)"
proof (induction ps arbitrary: c)
  case (Cons p ps)
  then obtain ms where "p = S_PartyUpdate ms" by auto
  moreover have "scene_ok pid V (Handle_S_PartyUpdate E ms c)"
    unfolding Handle_S_PartyUpdate_def by (rule scene_upd_my [OF Cons.prems(1)])
  ultimately show ?case using Cons by simp
qed simp

lemma scene_introduced:
  assumes "layer_object c = []" "cl_fault c = None"
  shows "scene_ok (i_objectid oi) {oi} (Handle_S_MyPlayer oi c)"
proof -
  let ?d = "Handle_S_MyPlayer oi c"
  have "layer_object ?d = [next_addr c]" "next_addr ?d = Suc (next_addr c)" "myPlayer ?d = Some (next_addr c)"
    "a_info (the_actor (next_addr c) ?d) = oi" "cl_fault ?d = None"
    using assms by (simp_all add: Handle_S_MyPlayer_def upd_info_def) (simp add: upd_actor_def the_actor_def)
  then show ?thesis by (simp add: scene_ok_def client_view_def)
qed

lemma sees_entering:
  assumes "may_enter r s pid w" "layer_object c = []" "cl_fault c = None"
  defines "w' \<equiv> EnterRoom r s pid w"
  assumes "faulted w' = None"
  shows "sees r s pid w' (fold (handle_message E) (answers s w w') c)"
proof -
  have ok: "faulted w = None" "room_ids_ok r w" "i_objectid (info (the_player pid w)) = pid" "pid \<notin> ref_id ` room_refs r w"
    using assms(1) by (simp_all add: may_enter_def FindObject_None)
  then have pl: "pid \<notin> set (players (the_room r w))" by (force simp: room_refs_def Let_def)
  define w1 where "w1 = put_session s ((the_session s w)\<lparr>gs_room := Some r, gs_player := Some pid\<rparr>) w"
  define p where "p = StopMove (set_state IDLE (set_pos (Vec 5 5) ((the_player pid w1)\<lparr>psession := Some s\<rparr>)))"
  define w2 where "w2 = put_player pid p w1"
  define bag where "bag = S_InventoryData (item_infos 0 (storage p)) (equip_info (equipWeapon p))
        (equip_info (equipArmor p)) (equip_info (equipPotion p))"
  define infos where "infos = map (\<lambda>i. info (the_player i w2)) (players (the_room r w2)) @
    map (\<lambda>i. info (the_monster i w2)) (monsters (the_room r w2)) @ map (\<lambda>i. info (the_arrow i w2)) (projectiles (the_room r w2))"
  define first where "first = [Packet s (S_MyPlayer (info p)), Packet s bag, Packet s (S_AddObject infos)]"
  define w5 where "w5 = w2\<lparr>out := out w @ first\<rparr>"
  define w6 where "w6 = AddObject r (RefPlayer pid) w5"
  have run: "w' = announce_party r pid w6"
    using EnterRoom_run [OF ok(1), of r s pid, folded w1_def, folded p_def, folded w2_def bag_def, folded infos_def,
        folded first_def, folded w5_def]
    by (simp add: w'_def w6_def)
  have p: "psession p = Some s" "i_objectid (info p) = pid"
    using ok(3) by (simp_all add: p_def StopMove_def set_state_def set_pos_def w1_def)
  have w5: "the_room r w5 = the_room r w" "faulted w5 = None" "the_player i w5 = (if i = pid then p else the_player i w)"
    "the_monster i w5 = the_monster i w" "the_arrow i w5 = the_arrow i w" "out w5 = out w @ first" for i
    using ok(1) by (simp_all add: w5_def out_frame w2_def w1_def)
  have refs5: "room_refs r w5 = room_refs r w" by (simp add: room_refs_def w5)
  have info5: "obj_info k w5 = (if k = RefPlayer pid then info p else obj_info k w)" for k
    by (cases k) (simp_all add: w5)
  have other: "k \<noteq> RefPlayer pid" if "k \<in> room_refs r w" for k using that ok(4) by force
  have own: "faulted w5 = None" "distinct (players (the_room r w5))" "pid \<notin> set (players (the_room r w5))"
    "psession (the_player pid w5) = Some s"
    "\<forall>q \<in> set (players (the_room r w5)). in_session w5 q \<and> psession (the_player q w5) \<noteq> Some s"
    using assms(1) pl p(1) by (auto simp: w5 may_enter_def in_session_def)
  obtain xs where xs: "out w6 = out w5 @ xs" "heard s xs = [S_AddObject [info p]]"
    using AddObject_own(2) [OF own] by (auto simp: w6_def w5)
  obtain ys where ys: "out w' = out w6 @ ys" "\<forall>q \<in> set (heard s ys). \<exists>ms. q = S_PartyUpdate ms"
    using announce_party_heard [of r pid w6 s] by (auto simp: run)
  have ans: "answers s w w' = [S_MyPlayer (info p), bag, S_AddObject infos, S_AddObject [info p]] @ heard s ys"
    using answers_out [of w' w "first @ xs @ ys" s] xs ys(1) by (simp add: w5 first_def)
  define c1 where "c1 = Handle_S_MyPlayer (info p) c"
  define c2 where "c2 = handle_message E bag c1"
  define c3 where "c3 = Handle_S_AddObject infos c2"
  have c1: "scene_ok pid {info p} c1"
    using scene_introduced [OF assms(2,3), of "info p"] p(2) by (simp add: c1_def)
  have c2: "scene_ok pid {info p} c2"
    using scene_upd_my [OF c1, of "\<lambda>i d. ApplyInventoryData (item_infos 0 (storage p)) (equip_info (equipWeapon p))
        (equip_info (equipArmor p)) (equip_info (equipPotion p))"]
    by (simp add: c2_def bag_def)
  have fw5: "infos = map (\<lambda>k. obj_info k w) (ref_list r w)"
  proof -
    have "infos = map (\<lambda>k. obj_info k w5) (ref_list r w5)"
      by (simp add: infos_def ref_list_def Let_def w5_def out_frame comp_def)
    also have "ref_list r w5 = ref_list r w" by (simp add: ref_list_def w5)
    finally show ?thesis using other by (simp add: info5 cong: map_cong)
  qed
  have ids: "map i_objectid infos = map ref_id (ref_list r w)"
    using ok(2) by (simp add: fw5 room_ids_ok_def)
  have "distinct (map ref_id (ref_list r w))"
    using assms(1) ok(2) by (auto simp: distinct_map distinct_ref_list may_enter_def room_ids_ok_def)
  moreover have "i_objectid ` set infos \<inter> i_objectid ` {info p} = {}"
  proof -
    have "i_objectid ` set infos = ref_id ` room_refs r w"
      using arg_cong [OF ids, of set] by simp
    then show ?thesis using ok(4) p(2) by simp
  qed
  moreover have "\<forall>oi \<in> set infos. shows_type oi" using assms(1) by (auto simp: fw5 may_enter_def)
  ultimately have c3: "scene_ok pid (set infos \<union> {info p}) c3"
    unfolding c3_def using ids by (intro scene_add_list c2) simp_all
  have c4: "Handle_S_AddObject [info p] c3 = c3"
    using scene_add_own [OF c3 p(2)] by (simp add: Handle_S_AddObject_def)
  have refs': "room_refs r w' = insert (RefPlayer pid) (room_refs r w)"
  proof -
    have "room_refs r w' = room_refs r w6" using announce_party_frame [of _ r pid w6] by (simp add: run room_refs_def)
    then show ?thesis by (simp add: w6_def room_refs_AddObject refs5)
  qed
  have info': "obj_info k w' = (if k = RefPlayer pid then info p else obj_info k w)" for k
    by (simp add: run obj_info_announce w6_def info5)
  have view: "room_view r w' = set infos \<union> {info p}"
    using other by (auto simp: room_view_def refs' info' fw5)
  have "scene_ok pid (room_view r w') (fold (handle_message E) (heard s ys) c3)"
    using scene_updates [OF c3 ys(2)] by (simp add: view)
  moreover have "fold (handle_message E) (answers s w w') c = fold (handle_message E) (heard s ys) c3"
    by (simp add: ans c1_def [symmetric] c2_def [symmetric] c3_def [symmetric] c4)
  moreover have "listens r s pid w'"
    using AddObject_own(1) [OF own] assms(5) by (simp add: run announce_party_listens w6_def)
  moreover have "room_ids_ok r w'"
    using ok(2,4) p(2) assms(1) other by (auto simp: room_ids_ok_def refs' info' may_enter_def)
  ultimately show ?thesis by (simp add: sees_def)
qed

text \<open>
  C4. A client that enters a room shows, once it has handled what the server sent, exactly the objects of the room, its own
  player among them, each once and as the server describes it; and so it stays while players, monsters and arrows come and go,
  as long as ids are below \<open>2 ^ 31\<close>. No message makes the client index outside its tables.
\<close>

theorem client_shows_the_room:
  assumes "may_enter r s pid w" "layer_object c = []" "cl_fault c = None" "faulted (EnterRoom r s pid w) = None"
    "all_asked (allowed r s pid) (view_sent r s) ops (EnterRoom r s pid w)"
  shows "let w1 = EnterRoom r s pid w; c1 = fold (handle_message E) (answers s w w1) c
    in case lockstep (view_sent r s) (handle_message E) ops (w1, c1) of (w', c') \<Rightarrow>
      client_view c' = room_view r w' \<and> length (layer_object c') = card (room_view r w') \<and> GetMyPlayerId c' = pid \<and> cl_fault c' = None"
proof -
  have card: "length (layer_object d) = card (client_view d)" if "scene_ok pid V d" for d V
  proof -
    have "inj_on (\<lambda>i. a_info (the_actor i d)) (set (layer_object d))"
      using that by (auto simp: scene_ok_def inj_on_def)
    then have "card (client_view d) = card (set (layer_object d))" by (simp add: client_view_def card_image)
    then show ?thesis using that by (simp add: distinct_card scene_ok_def)
  qed
  have "sees r s pid (EnterRoom r s pid w) (fold (handle_message E) (answers s w (EnterRoom r s pid w)) c)"
    by (rule sees_entering [OF assms(1-4)])
  from room.kept [OF this assms(5), of E] show ?thesis
    using card scene_my_id by (auto simp: Let_def sees_def scene_ok_def split: prod.splits)
qed

section \<open>At the sample world\<close>

definition guest :: Player where
  "guest = sample_player\<lparr>info := (info sample_player)\<lparr>i_objectid := 5, i_dir := DIR_UP\<rparr>\<rparr>"

definition guest_world :: World where
  "guest_world = sample_world\<lparr>wplayers := [1 \<mapsto> sample_hero, 5 \<mapsto> guest]\<rparr>"

lemma guest_world_simps [simp]:
  "the_room r guest_world = the_room r sample_world" "the_player 1 guest_world = sample_hero" "the_player 5 guest_world = guest"
  "the_monster m guest_world = the_monster m sample_world" "the_session q guest_world = the_session q sample_world"
  "faulted guest_world = None" "party guest_world = PartyManager_new"
  by (simp_all add: guest_world_def the_room_def the_player_def the_monster_def the_session_def sample_world_def World_start_def)

lemma guest_may_enter: "may_enter town1 7 5 guest_world"
proof -
  have refs: "room_refs town1 guest_world = {RefPlayer 1, RefMonster 2}"
    by (auto simp: room_refs_def sample_room_def GameRoom_new_def)
  have "i_objecttype (info sample_hero) = OBJECT_TYPE_PLAYER" "i_objecttype (info sample_monster) = OBJECT_TYPE_MONSTER"
    by (simp_all add: sample_hero_def sample_monster_def set_dir_def set_pos_def Monster_new_def)
      (simp add: sample_player_def RecalcStats_def Player_new_def set_extra_def)
  then have "\<forall>k \<in> room_refs town1 guest_world. shows_type (obj_info k guest_world)"
    by (simp add: refs shows_type_def DIR_TYPE_IsValid_def)
  moreover have "room_ids_ok town1 guest_world" by (simp add: room_ids_ok_def refs inj_on_def)
  ultimately show ?thesis
    by (simp add: may_enter_def sample_room_def GameRoom_new_def FindObject_def guest_def in_session_def)
qed

lemma guest_enters: "faulted (EnterRoom town1 7 5 guest_world) = None"
proof -
  have k: "psession (StopMove p) = psession p" for p by (simp add: StopMove_def)
  have f: "wplayers (put_session s g w) = wplayers w" "party (put_session s g w) = party w" "faulted (put_session s g w) = faulted w"
    "party (put_player i p w) = party w" "faulted (put_player i p w) = faulted w" for s g w i p
    by (simp_all add: put_session_def put_player_def)
  have s: "party (send_packet s p w) = party w" "the_player i (send_packet s p w) = the_player i w"
    "the_room r (send_packet s p w) = the_room r w" for s p w i r
    by (simp_all add: send_packet_def the_player_def the_room_def)
  show ?thesis
    by (simp add: EnterRoom_def Let_def AddObject_def set_obj_room.simps announce_party_def GetPartyIdByPlayer_def
        PartyManager_new_def f s k SendInventoryData_def send_def emit_def Broadcast_def sample_room_def GameRoom_new_def key_insert_def)
qed

theorem client_shows_the_room_witness:
  "let w1 = EnterRoom town1 7 5 guest_world; c1 = fold (handle_message plain_client) (answers 7 guest_world w1) (Client_new (\<lambda>m. bare_map))
    in case lockstep (view_sent town1 7) (handle_message plain_client) [Depart 2] (w1, c1) of (w', c') \<Rightarrow> client_view c' = room_view town1 w'"
proof -
  have "layer_object (Client_new (\<lambda>m. bare_map)) = []" "cl_fault (Client_new (\<lambda>m. bare_map)) = None" by (simp_all add: Client_new_def)
  from client_shows_the_room [OF guest_may_enter this guest_enters, of "[Depart 2]" plain_client]
  show ?thesis by (simp add: Let_def split: prod.splits)
qed

end
