(* ===== verification/ClientTilemap.thy ===== *)
theory ClientTilemap
  imports ClientMap RoomData_Props
begin

text \<open>
  The client's tilemap and the file it can write: \<open>SaveFile\<close>, and reading back what it wrote, whatever was clicked on the map.
\<close>

text \<open>What \<open>SaveFile\<close> writes: the two sizes and the rows, one to a line, the tiles of a row without a separator.\<close>

definition SaveFile :: "Tilemap \<Rightarrow> string" where
  "SaveFile m =
     show_int (vx (mapSize m)) @ CHR 0x0A # show_int (vy (mapSize m)) @ CHR 0x0A #
     concat (map (\<lambda>y. concat (map (\<lambda>x. show_int (tiles m ! y ! x)) [0..<nat (vx (mapSize m))]) @ [CHR 0x0A])
       [0..<nat (vy (mapSize m))])"

section \<open>Reading back what was written\<close>

text \<open>The maps a file can hold: rectangular, every tile one digit, the sizes within the type.\<close>

definition savable :: "Tilemap \<Rightarrow> bool" where
  "savable m \<longleftrightarrow> tilemap_ok m \<and> vx (mapSize m) \<le> 2147483647 \<and> vy (mapSize m) \<le> 2147483647
     \<and> (\<forall>row \<in> set (tiles m). \<forall>v \<in> set row. 0 \<le> v \<and> v \<le> 9)"

lemma newline: "is_space (CHR 0x0A)" "\<not> is_digit (CHR 0x0A)"
  by (simp_all add: is_space_def is_digit_def char_code_def)

lemma read_int_line:
  assumes "0 \<le> v" "v \<le> 2147483647" "sp = [] \<or> sp = [CHR 0x0A]"
  shows "read_int old \<lparr>text_left = sp @ show_int v @ CHR 0x0A # rest, good = True\<rparr>
    = (v, \<lparr>text_left = CHR 0x0A # rest, good = True\<rparr>)"
proof -
  have s: "show_int v = show_nat (nat v)" using assms(1) by (simp add: show_int_def)
  obtain c cs where c: "show_nat (nat v) = c # cs" "is_digit c"
    using show_nat_digits [of "nat v"] by (cases "show_nat (nat v)") auto
  then have "dropWhile is_space (sp @ show_nat (nat v) @ CHR 0x0A # rest) = show_nat (nat v) @ CHR 0x0A # rest"
    using assms(3) digit_facts [of c] by (auto simp: newline)
  moreover have "takeWhile is_digit (show_nat (nat v) @ CHR 0x0A # rest) = show_nat (nat v)"
    "dropWhile is_digit (show_nat (nat v) @ CHR 0x0A # rest) = CHR 0x0A # rest"
    using show_nat_digits [of "nat v"] by (simp_all add: newline takeWhile_append2 dropWhile_append2)
  moreover have "c \<noteq> CHR ''-''" "c \<noteq> CHR ''+''" using digit_facts [of c] c by auto
  ultimately show ?thesis
    using assms(1,2) c digits_show [of "nat v"] show_nat_digits [of "nat v"]
    by (simp add: read_int_def s)
qed

lemma digit_row:
  assumes "\<forall>v \<in> set row. 0 \<le> v \<and> v \<le> 9"
  shows "concat (map show_int row) = map (\<lambda>v. char_of (48 + nat v)) row"
  using assms
proof (induction row)
  case (Cons v row)
  then have "nat v < 10" "0 \<le> v" by auto
  with Cons show ?case by (simp add: show_int_def show_nat.simps)
qed simp

lemma digit_row_char:
  assumes "0 \<le> v" "v \<le> 9"
  shows "char_code (char_of (48 + nat v)) - 48 = v" "\<not> is_space (char_of (48 + nat v))"
proof -
  show c: "char_code (char_of (48 + nat v)) - 48 = v" using assms code_digit [of "nat v"] by simp
  then have "is_digit (char_of (48 + nat v))" using assms by (simp add: is_digit_def)
  then show "\<not> is_space (char_of (48 + nat v))" by (simp add: digit_facts)
qed

lemma read_word_line:
  assumes "w \<noteq> []" "\<forall>c \<in> set w. \<not> is_space c"
  shows "read_word \<lparr>text_left = CHR 0x0A # w @ CHR 0x0A # rest, good = True\<rparr> = (w, \<lparr>text_left = CHR 0x0A # rest, good = True\<rparr>)"
proof -
  obtain c cs where c: "w = c # cs" using assms(1) by (cases w) auto
  have "dropWhile is_space (CHR 0x0A # w @ CHR 0x0A # rest) = w @ CHR 0x0A # rest"
    using assms(2) c by (simp add: newline)
  moreover have "takeWhile (\<lambda>c. \<not> is_space c) (w @ CHR 0x0A # rest) = w"
    "dropWhile (\<lambda>c. \<not> is_space c) (w @ CHR 0x0A # rest) = CHR 0x0A # rest"
    using assms(2) by (simp_all add: newline takeWhile_append2 dropWhile_append2)
  ultimately show ?thesis by (simp add: read_word_def newline)
qed

lemma row_tiles_digits:
  assumes "\<forall>v \<in> set row. 0 \<le> v \<and> v \<le> 9"
  shows "row_tiles (length row) (map (\<lambda>v. char_of (48 + nat v)) row) = Some row"
  using assms by (auto simp: row_tiles_def digit_row_char intro!: nth_equalityI)

lemma read_rows_lines:
  assumes "w > 0" "\<forall>row \<in> set rows. length row = w \<and> (\<forall>v \<in> set row. 0 \<le> v \<and> v \<le> 9)"
  shows "read_rows (length rows) w \<lparr>text_left = CHR 0x0A # concat (map (\<lambda>row. concat (map show_int row) @ [CHR 0x0A]) rows),
    good = True\<rparr> = Some rows"
  using assms(2)
proof (induction rows)
  case (Cons row rows)
  let ?t = "map (\<lambda>v. char_of (48 + nat v)) row"
  have r: "length row = w" "\<forall>v \<in> set row. 0 \<le> v \<and> v \<le> 9" using Cons.prems by simp_all
  have "?t \<noteq> []" "\<forall>c \<in> set ?t. \<not> is_space c" using r assms(1) by (auto simp: digit_row_char)
  from read_word_line [OF this] Cons row_tiles_digits [OF r(2)] r(1)
  show ?case by (simp add: digit_row [OF r(2)])
qed simp

lemma read_rows_empty: "read_rows n 0 i = Some (replicate n [])"
  by (induction n arbitrary: i) (simp_all add: row_tiles_def split: prod.split)

lemma SaveFile_rows:
  assumes "tilemap_ok m"
  shows "SaveFile m = show_int (vx (mapSize m)) @ CHR 0x0A # show_int (vy (mapSize m)) @ CHR 0x0A #
    concat (map (\<lambda>row. concat (map show_int row) @ [CHR 0x0A]) (tiles m))"
proof -
  have "map (\<lambda>x. show_int (row ! x)) [0..<nat (vx (mapSize m))] = map show_int row" if "row \<in> set (tiles m)" for row
    using that assms by (intro nth_equalityI) (simp_all add: tilemap_ok_def)
  then have "map (\<lambda>row. concat (map (\<lambda>x. show_int (row ! x)) [0..<nat (vx (mapSize m))]) @ [CHR 0x0A]) (tiles m)
      = map (\<lambda>row. concat (map show_int row) @ [CHR 0x0A]) (tiles m)"
    by (intro map_cong refl) simp
  moreover have "map (\<lambda>y. concat (map (\<lambda>x. show_int (tiles m ! y ! x)) [0..<nat (vx (mapSize m))]) @ [CHR 0x0A])
      [0..<nat (vy (mapSize m))]
    = map (\<lambda>row. concat (map (\<lambda>x. show_int (row ! x)) [0..<nat (vx (mapSize m))]) @ [CHR 0x0A]) (tiles m)"
    using assms by (intro nth_equalityI) (simp_all add: tilemap_ok_def)
  ultimately have "map (\<lambda>y. concat (map (\<lambda>x. show_int (tiles m ! y ! x)) [0..<nat (vx (mapSize m))]) @ [CHR 0x0A])
      [0..<nat (vy (mapSize m))] = map (\<lambda>row. concat (map show_int row) @ [CHR 0x0A]) (tiles m)"
    by (rule trans [rotated])
  then show ?thesis by (simp only: SaveFile_def)
qed

lemma load_saved:
  assumes "savable m"
  shows "LoadFile True (SaveFile m) m0 = Some (m\<lparr>tileSize := tileSize m0\<rparr>)"
proof -
  define ls where "ls = concat (map (\<lambda>row. concat (map show_int row) @ [CHR 0x0A]) (tiles m))"
  have ok: "tilemap_ok m" and sz: "0 \<le> vx (mapSize m)" "vx (mapSize m) \<le> 2147483647" "0 \<le> vy (mapSize m)" "vy (mapSize m) \<le> 2147483647"
    using assms by (simp_all add: savable_def tilemap_ok_def)
  have shape: "length (tiles m) = nat (vy (mapSize m))" "\<forall>row \<in> set (tiles m). length row = nat (vx (mapSize m))"
    using ok by (simp_all add: tilemap_ok_def)
  have s: "SaveFile m = [] @ show_int (vx (mapSize m)) @ CHR 0x0A # show_int (vy (mapSize m)) @ CHR 0x0A # ls"
    using SaveFile_rows [OF ok] by (simp add: ls_def)
  have r1: "read_int old \<lparr>text_left = SaveFile m, good = True\<rparr>
      = (vx (mapSize m), \<lparr>text_left = CHR 0x0A # show_int (vy (mapSize m)) @ CHR 0x0A # ls, good = True\<rparr>)" for old
    unfolding s by (rule read_int_line) (use sz in simp_all)
  have r2: "read_int old \<lparr>text_left = CHR 0x0A # show_int (vy (mapSize m)) @ CHR 0x0A # ls, good = True\<rparr>
      = (vy (mapSize m), \<lparr>text_left = CHR 0x0A # ls, good = True\<rparr>)" for old
    using read_int_line [OF sz(3,4), of "[CHR 0x0A]" old ls] by simp
  have "read_rows (nat (vy (mapSize m))) (nat (vx (mapSize m))) \<lparr>text_left = CHR 0x0A # ls, good = True\<rparr> = Some (tiles m)"
  proof (cases "nat (vx (mapSize m)) = 0")
    case True
    with shape(2) have "\<forall>row \<in> set (tiles m). row = []" by simp
    then have "tiles m = replicate (length (tiles m)) []" by (metis replicate_eqI)
    then show ?thesis using True shape(1) by (simp add: read_rows_empty)
  next
    case False
    have "\<forall>row \<in> set (tiles m). length row = nat (vx (mapSize m)) \<and> (\<forall>v \<in> set row. 0 \<le> v \<and> v \<le> 9)"
      using shape(2) assms by (simp add: savable_def)
    with False read_rows_lines [of "nat (vx (mapSize m))" "tiles m"] show ?thesis by (simp add: ls_def shape(1))
  qed
  moreover have "Vec (vx (mapSize m)) (vy (mapSize m)) = mapSize m" by (cases "mapSize m") simp
  moreover have "m0\<lparr>mapSize := mapSize m, tiles := tiles m\<rparr> = m\<lparr>tileSize := tileSize m0\<rparr>" by simp
  ultimately show ?thesis using sz by (simp add: LoadFile_def r1 r2 SetMapSize_def)
qed

text \<open>A click leaves a map that can be saved.\<close>

lemma savable_TilePicking: "savable m \<Longrightarrow> savable (TilePicking click m)"
proof -
  assume m: "savable m"
  define pos where "pos = Vec (trunc_div (vx click) TILE_SIZEX) (trunc_div (vy click) TILE_SIZEY)"
  show "savable (TilePicking click m)"
  proof (cases "GetTileAt pos m")
    case None
    with m show ?thesis by (simp add: TilePicking_def pos_def Let_def)
  next
    case (Some v)
    then have t: "TilePicking click m = set_tile pos 1 m" by (simp add: TilePicking_def pos_def Let_def)
    have "nat (vy pos) < length (tiles m)"
      using m Some GetTileAt_in_range [of m pos v] by (simp add: savable_def)
    then have old: "tiles m ! nat (vy pos) \<in> set (tiles m)" by simp
    define row where "row = (tiles m ! nat (vy pos))[nat (vx pos) := 1]"
    have rows: "set (tiles (set_tile pos 1 m)) \<subseteq> insert row (set (tiles m))"
      by (simp add: set_tile_def row_def set_update_subset_insert)
    have "length row = nat (vx (mapSize m))" using m old by (simp add: row_def savable_def tilemap_ok_def)
    moreover have "\<forall>v \<in> set row. 0 \<le> v \<and> v \<le> 9"
    proof
      fix v assume "v \<in> set row"
      then have "v = 1 \<or> v \<in> set (tiles m ! nat (vy pos))"
        using set_update_subset_insert [of "tiles m ! nat (vy pos)" "nat (vx pos)" 1] by (auto simp: row_def)
      then show "0 \<le> v \<and> v \<le> 9" using m old by (auto simp: savable_def)
    qed
    ultimately have "\<forall>r \<in> set (tiles (set_tile pos 1 m)). length r = nat (vx (mapSize m)) \<and> (\<forall>v \<in> set r. 0 \<le> v \<and> v \<le> 9)"
      using m rows by (auto simp: savable_def tilemap_ok_def)
    moreover have "mapSize (set_tile pos 1 m) = mapSize m" "length (tiles (set_tile pos 1 m)) = length (tiles m)"
      by (simp_all add: set_tile_def)
    ultimately show ?thesis using m by (auto simp: t savable_def tilemap_ok_def)
  qed
qed

text \<open>
  C38. A map of digits, whatever was clicked on it since, is read back from the file \<open>SaveFile\<close> writes for it exactly as it is,
  by the client as by the server, whatever map was there before; the size of a tile is not in the file and stays.
\<close>

theorem saved_map_reloads:
  assumes "savable m"
  shows "let m' = fold TilePicking clicks m in LoadFile True (SaveFile m') m0 = Some (m'\<lparr>tileSize := tileSize m0\<rparr>)"
proof -
  have "savable (fold TilePicking clicks m)"
    using assms by (induction clicks arbitrary: m) (simp_all add: savable_TilePicking)
  then show ?thesis by (simp add: load_saved)
qed

theorem saved_map_reloads_witness:
  "LoadFile True (SaveFile \<lparr>mapSize = Vec 2 2, tileSize = 0, tiles = [[0, 1], [1, 1]]\<rparr>) Tilemap_new
     = Some \<lparr>mapSize = Vec 2 2, tileSize = 0, tiles = [[0, 1], [1, 1]]\<rparr>"
proof -
  let ?m = "\<lparr>mapSize = Vec 2 2, tileSize = 0, tiles = [[0, 1], [1, 0]]\<rparr>"
  have "savable ?m" by (simp add: savable_def tilemap_ok_def)
  from saved_map_reloads [OF this, of "[Vec 50 95]" Tilemap_new]
  show ?thesis
    by (simp add: Let_def TilePicking_def GetTileAt_def trunc_div_def TILE_SIZEX_def TILE_SIZEY_def set_tile_def Tilemap_new_def)
qed

end
