(* ===== verification/ClientInput_Props.thy ===== *)
theory ClientInput_Props
  imports ClientInput
begin

text \<open>
  What the client's input comes to: the keyboard's state machine over a history, and the inventory's grid.
\<close>

section \<open>The keyboard\<close>

text \<open>After two samples the state says whether the key is held and since when: the rest of the history does not matter.\<close>

lemma next_key_twice:
  "next_key now (next_key before k) =
     (if now then (if before then KeyPress else KeyDown) else (if before then KeyUp else KeyNone))"
  by (cases now; cases before; cases k) simp_all

lemma GetButton_history:
  "GetButton (InputManager_Update (Some p) m1 (InputManager_Update (Some q) m2 ks)) k \<longleftrightarrow>
     (if k < 256 then p k \<and> q k else GetButton ks k)"
  by (simp add: GetButton_def InputManager_Update_def next_key_twice)

section \<open>The inventory's grid\<close>

lemma find_upt_unique:
  assumes "P i" "i < n" "\<And>j. j < n \<Longrightarrow> P j \<Longrightarrow> j = i"
  shows "find P [0..<n] = Some i"
proof (cases "find P [0..<n]")
  case None
  with assms(1,2) show ?thesis by (auto simp: find_None_iff)
next
  case (Some k)
  then have "P k" "k < n" by (auto simp: find_Some_iff)
  with Some assms(3) show ?thesis by simp
qed

lemma stripe:
  fixes x :: int
  shows "0 \<le> x - int k * 36 \<and> x - int k * 36 < 32 \<longleftrightarrow> 0 \<le> x \<and> x mod 36 < 32 \<and> nat (x div 36) = k"
proof
  assume a: "0 \<le> x - int k * 36 \<and> x - int k * 36 < 32"
  define y where "y = x - int k * 36"
  have x: "x = y + int k * 36" and y: "0 \<le> y" "y < 32" using a by (simp_all add: y_def)
  show "0 \<le> x \<and> x mod 36 < 32 \<and> nat (x div 36) = k"
    using y unfolding x by (simp add: div_pos_pos_trivial)
next
  assume a: "0 \<le> x \<and> x mod 36 < 32 \<and> nat (x div 36) = k"
  then have "x - int k * 36 = x mod 36" by (auto simp: minus_div_mult_eq_mod [symmetric] pos_imp_zdiv_nonneg_iff)
  with a show "0 \<le> x - int k * 36 \<and> x - int k * 36 < 32" by simp
qed

lemma hit_slot_iff:
  "hit_slot mx my i \<longleftrightarrow> 16 \<le> mx \<and> (mx - 16) mod 36 < 32 \<and> 168 \<le> my \<and> (my - 168) mod 36 < 32
     \<and> nat ((mx - 16) div 36) = i mod 9 \<and> nat ((my - 168) div 36) = i div 9"
proof -
  define c r where "c = i mod 9" and "r = i div 9"
  have s: "hit_slot mx my i \<longleftrightarrow> (0 \<le> mx - 16 - int c * 36 \<and> mx - 16 - int c * 36 < 32)
      \<and> (0 \<le> my - 168 - int r * 36 \<and> my - 168 - int r * 36 < 32)"
    unfolding hit_slot_def Let_def c_def r_def by linarith
  show ?thesis unfolding s stripe c_def [symmetric] r_def [symmetric] by (simp add: conj_ac)
qed

text \<open>
  The search over the slots finds exactly what the grid says: a column and a row of 36 pixels each, of which the last four
  are a gap, nine columns and three rows from (16, 168) on; outside of it, and in the gaps, nothing.
\<close>

theorem click_slot_is_the_grid:
  "click_slot mx my =
     (let column = (mx - 16) div 36; row = (my - 168) div 36
      in if 16 \<le> mx \<and> column < 9 \<and> (mx - 16) mod 36 < 32 \<and> 168 \<le> my \<and> row < 3 \<and> (my - 168) mod 36 < 32
         then Some (nat (row * 9 + column)) else None)"
proof -
  define u v where "u = nat ((mx - 16) div 36)" and "v = nat ((my - 168) div 36)"
  define inside where "inside \<longleftrightarrow> 16 \<le> mx \<and> (mx - 16) mod 36 < 32 \<and> 168 \<le> my \<and> (my - 168) mod 36 < 32"
  have hit: "hit_slot mx my i \<longleftrightarrow> inside \<and> u = i mod 9 \<and> v = i div 9" for i
    by (auto simp: hit_slot_iff inside_def u_def v_def)
  have uv: "(mx - 16) div 36 = int u" "(my - 168) div 36 = int v" if inside
    using that by (simp_all add: inside_def u_def v_def pos_imp_zdiv_nonneg_iff)
  show ?thesis
  proof (cases "inside \<and> u < 9 \<and> v < 3")
    case True
    have "click_slot mx my = Some (v * 9 + u)"
      unfolding click_slot_def
    proof (rule find_upt_unique)
      show "hit_slot mx my (v * 9 + u)" using True by (simp add: hit)
      show "v * 9 + u < INVENTORY_SIZE" using True by (simp add: INVENTORY_SIZE_def)
      show "j = v * 9 + u" if "hit_slot mx my j" for j
        using that div_mult_mod_eq [of j 9] by (simp add: hit)
    qed
    moreover have "nat (int v * 9 + int u) = v * 9 + u" by linarith
    ultimately show ?thesis using True uv by (simp add: inside_def Let_def)
  next
    case False
    have "\<not> hit_slot mx my i" if "i < INVENTORY_SIZE" for i
    proof
      assume "hit_slot mx my i"
      then have "inside" "u = i mod 9" "v = i div 9" by (simp_all add: hit)
      moreover have "i mod 9 < 9" "i div 9 < 3" using that by (simp_all add: INVENTORY_SIZE_def)
      ultimately show False using False by simp
    qed
    then have "click_slot mx my = None" by (auto simp: click_slot_def find_None_iff)
    then show ?thesis using False uv by (auto simp: inside_def Let_def)
  qed
qed

end
