(* ===== verification/ClientMotion.thy ===== *)
theory ClientMotion
  imports ClientInput
begin

text \<open>
  How the client's sprites follow their objects: a player's sprite comes to rest on its cell, an arrow's does if the frames are short
  enough and flies on for ever if they are not, an animation that is played once ends and takes its effect with it, and the
  camera stays inside the world.
\<close>

section \<open>Roots and lengths\<close>

lemma isqrt_bounds: "isqrt n * isqrt n \<le> n \<and> n < (isqrt n + 1) * (isqrt n + 1)"
proof (induction n rule: isqrt.induct)
  case (1 n)
  show ?case
  proof (cases "n = 0")
    case True
    then show ?thesis by (simp add: isqrt.simps)
  next
    case False
    define k where "k = isqrt (n div 4)"
    have k: "k * k \<le> n div 4" "n div 4 < (k + 1) * (k + 1)" using 1 False by (simp_all add: k_def)
    have lo: "2 * k * (2 * k) \<le> n" using k(1) by simp
    have hi: "n < (2 * k + 2) * (2 * k + 2)" using k(2) by (simp add: algebra_simps)
    have i: "isqrt n = (if (2 * k + 1) * (2 * k + 1) \<le> n then 2 * k + 1 else 2 * k)"
      using False by (subst isqrt.simps) (simp add: k_def Let_def)
    show ?thesis using lo hi unfolding i by simp
  qed
qed

lemma float_sqrt_nonneg [simp]: "0 \<le> float_sqrt q"
  by (simp add: float_sqrt_def)

lemma float_sqrt_square_le:
  assumes "0 \<le> q"
  shows "float_sqrt q * float_sqrt q \<le> q"
proof -
  define k where "k = isqrt (nat \<lfloor>q * 16777216\<rfloor>)"
  have "k * k \<le> nat \<lfloor>q * 16777216\<rfloor>" using isqrt_bounds by (simp add: k_def)
  then have "int (k * k) \<le> \<lfloor>q * 16777216\<rfloor>" using assms by (simp add: le_nat_iff)
  then have "of_int (int (k * k)) \<le> q * 16777216" using le_floor_iff by blast
  then show ?thesis by (simp add: float_sqrt_def k_def [symmetric])
qed

lemma float_sqrt_ge:
  assumes "(of_nat k / 4096) * (of_nat k / 4096) \<le> q"
  shows "of_nat k / 4096 \<le> float_sqrt q"
proof -
  define m where "m = isqrt (nat \<lfloor>q * 16777216\<rfloor>)"
  have "of_int (int (k * k)) \<le> q * 16777216" using assms by simp
  then have "int (k * k) \<le> \<lfloor>q * 16777216\<rfloor>" by (simp add: le_floor_iff)
  then have "k * k \<le> nat \<lfloor>q * 16777216\<rfloor>" by linarith
  also have "\<dots> < (m + 1) * (m + 1)" using isqrt_bounds by (simp add: m_def)
  finally have "k < m + 1" by (metis le_square mult_le_mono not_less)
  then show ?thesis by (simp add: float_sqrt_def m_def [symmetric])
qed

lemma LengthSquared_nonneg' [simp]: "0 \<le> Vec2_LengthSquared v"
  by (simp add: Vec2_LengthSquared_def)

text \<open>A length is compared with a whole number of steps exactly as the true one is.\<close>

lemma Length_less_iff:
  assumes "t = of_nat k / 4096"
  shows "Length v < t \<longleftrightarrow> Vec2_LengthSquared v < t * t"
proof
  assume "Length v < t"
  then show "Vec2_LengthSquared v < t * t"
    using float_sqrt_ge [of k "Vec2_LengthSquared v"] assms by (force simp: Length_def)
next
  assume a: "Vec2_LengthSquared v < t * t"
  show "Length v < t"
  proof (rule ccontr)
    assume "\<not> Length v < t"
    then have "t * t \<le> Length v * Length v" using assms by (intro mult_mono) simp_all
    also have "\<dots> \<le> Vec2_LengthSquared v" by (simp add: Length_def float_sqrt_square_le)
    finally show False using a by simp
  qed
qed

definition taxi :: "Vec2 \<Rightarrow> rat" where "taxi v = \<bar>px v\<bar> + \<bar>py v\<bar>"

lemma Length_le_taxi: "Length v \<le> taxi v"
proof (rule ccontr)
  assume "\<not> Length v \<le> taxi v"
  then have "taxi v * taxi v < Length v * Length v"
    by (intro mult_strict_mono') (simp_all add: taxi_def)
  also have "\<dots> \<le> Vec2_LengthSquared v" by (simp add: Length_def float_sqrt_square_le)
  also have "\<dots> \<le> taxi v * taxi v"
    by (simp add: Vec2_LengthSquared_def taxi_def algebra_simps)
  finally show False by simp
qed

section \<open>A player's sprite\<close>

lemma Player_step_progress:
  fixes s :: Sprite
  assumes "0 \<le> dt"
  defines "s' \<equiv> Player_step dt s"
  shows "s_dest s' = s_dest s" "s_pos s' = s_dest s \<or> taxi (to_dest s') \<le> taxi (to_dest s) - 240 * dt"
proof -
  define v d where "v = to_dest s" and "d = Length v"
  show "s_dest s' = s_dest s" by (simp add: s'_def Player_step_def Let_def)
  show "s_pos s' = s_dest s \<or> taxi (to_dest s') \<le> taxi (to_dest s) - 240 * dt"
  proof (cases "d \<le> 1 / 2 \<or> 240 * dt \<ge> d")
    case True
    then show ?thesis by (auto simp: s'_def Player_step_def Let_def v_def d_def)
  next
    case False
    define k where "k = 1 - 240 * dt / d"
    have d: "0 < d" "240 * dt < d" using False by linarith+
    then have k: "0 \<le> k" by (simp add: k_def)
    have "to_dest s' = Pos (px v * k) (py v * k)"
      using False by (simp add: s'_def Player_step_def Let_def v_def d_def k_def to_dest_def Vec2_scale_def algebra_simps
          minus_Vec2_def plus_Vec2_def)
    then have "taxi (to_dest s') = taxi v * k" using k by (simp add: taxi_def abs_mult algebra_simps)
    also have "\<dots> = taxi v - 240 * dt * (taxi v / d)" by (simp add: k_def algebra_simps)
    also have "\<dots> \<le> taxi v - 240 * dt"
      using mult_left_mono [of 1 "taxi v / d" "240 * dt"] Length_le_taxi [of v] d(1) assms(1) by (simp add: d_def)
    finally show ?thesis by (simp add: v_def)
  qed
qed

text \<open>Playing an animation moves no sprite.\<close>

lemma FlipbookActor_Tick_place [simp]:
  "s_pos (FlipbookActor_Tick dt s) = s_pos s" "s_dest (FlipbookActor_Tick dt s) = s_dest s"
  by (simp_all add: FlipbookActor_Tick_def Let_def split: option.split)

lemma SetFlipbook_place: "SetFlipbook b s = Some s' \<Longrightarrow> s_pos s' = s_pos s \<and> s_dest s' = s_dest s"
  by (auto simp: SetFlipbook_def Flipbook_Reset_def split: if_splits option.splits)

lemma UpdateAnimation_place:
  "UpdateAnimation a = Inr a' \<Longrightarrow> s_pos (a_sprite a') = s_pos (a_sprite a) \<and> s_dest (a_sprite a') = s_dest (a_sprite a)"
  by (cases "a_kind a")
    (auto simp: UpdateAnimation_def play_def dest: SetFlipbook_place split: option.splits sum.splits)

lemma animated_place [simp]:
  "s_pos (a_sprite (animated a)) = s_pos (a_sprite a)" "s_dest (a_sprite (animated a)) = s_dest (a_sprite a)"
  using UpdateAnimation_place [of a] by (auto simp: animated_def split: sum.split)

lemma to_dest_cong: "s_pos s' = s_pos s \<Longrightarrow> s_dest s' = s_dest s \<Longrightarrow> to_dest s' = to_dest s"
  by (simp add: to_dest_def)

lemma set_anim_sprite [simp]:
  "s_pos (a_sprite (the_actor i (set_anim i st c))) = s_pos (a_sprite (the_actor i c))"
  "s_dest (a_sprite (the_actor i (set_anim i st c))) = s_dest (a_sprite (the_actor i c))"
  "a_kind (the_actor i (set_anim i st c)) = a_kind (the_actor i c)" "a_info (the_actor i (set_anim i st c)) = a_info (the_actor i c)"
  by (simp_all add: set_anim_def)

section \<open>One actor of a frame\<close>

lemma the_actor_packet [simp]: "the_actor i (SendPacket p c) = the_actor i c"
  "layer_object (SendPacket p c) = layer_object c" "cl_dt (SendPacket p c) = cl_dt c" "layer_effect (SendPacket p c) = layer_effect c"
  by (simp_all add: SendPacket_def the_actor_def)

text \<open>A step that is one actor's own: the others, the layer and the clock stay.\<close>

definition only :: "nat \<Rightarrow> Client \<Rightarrow> Client \<Rightarrow> bool" where
  "only j c c' \<longleftrightarrow> (\<forall>i. i \<noteq> j \<longrightarrow> the_actor i c' = the_actor i c) \<and> layer_object c' = layer_object c \<and> cl_dt c' = cl_dt c
     \<and> layer_effect c' = layer_effect c"

lemma only_steps [simp]:
  "only j c c" "only j c (upd_actor j f d) = only j c d" "only j c (SendPacket p d) = only j c d"
  "only j c (update_animation j d) = only j c d" "only j c (turn_actor j dr d) = only j c d"
  by (auto simp: only_def)

lemma only_set_anim [simp]: "only j c (set_anim j st d) = only j c d"
  by (simp add: set_anim_def)

lemma only_TryMove [simp]: "only j c (TryMove j d) = only j c d"
  by (simp add: TryMove_def Let_def upd_my_def)

lemma only_TickInput [simp]: "only j c (TickInput ks j d) = only j c d"
  by (simp add: TickInput_def Let_def upd_my_def TrySkill_def)

lemma only_GameObject:
  assumes "\<And>d. only j c d \<Longrightarrow> only j c (I d)" "\<And>d. only j c d \<Longrightarrow> only j c (M d)" "\<And>d. only j c d \<Longrightarrow> only j c (S d)" "only j c d"
  shows "only j c (GameObject_Tick I M S j d)"
  using assms by (simp add: GameObject_Tick_def Let_def upd_sprite_def split: ObjectState.split)

lemma tick_actor_only: "only j c (tick_actor im j c)"
proof -
  have s: "only j c (TickSkill j d)" "only j c (Player_TickMove j d)" "only j c (Player_TickIdle j d)" "only j c (Arrow_TickMove j d)"
    "only j c (Monster_TickMove j d)" "only j c (MyPlayer_TickIdle im j d)" if "only j c d" for d
    using that by (simp_all add: TickSkill_def Player_TickMove_def Player_TickIdle_def Arrow_TickMove_def Monster_TickMove_def
        MyPlayer_TickIdle_def Let_def upd_sprite_def)
  have cam: "only j c (c\<lparr>cl_camera := v\<rparr>)" for v by (simp add: only_def the_actor_def)
  show ?thesis
    by (cases "a_kind (the_actor j c)")
      (auto simp: tick_actor_def MyPlayer_Tick_def Let_def upd_my_def intro!: only_GameObject s cam)
qed
text \<open>A frame of the scene in which no packet comes.\<close>

definition scene_frame :: "InputManager \<Rightarrow> rat \<Rightarrow> Client \<Rightarrow> Client" where
  "scene_frame im dt c = Scene_Update im (c\<lparr>cl_now := cl_now c + dt, cl_dt := dt\<rparr>)"

definition in_scene :: "nat \<Rightarrow> Client \<Rightarrow> bool" where
  "in_scene i c \<longleftrightarrow> i \<in> set (layer_object c) \<and> distinct (layer_object c)"

lemma fold_ticks_others:
  shows "(i \<notin> set js \<longrightarrow> the_actor i (fold (tick_actor im) js c) = the_actor i c) \<and> layer_object (fold (tick_actor im) js c) = layer_object c
    \<and> cl_dt (fold (tick_actor im) js c) = cl_dt c \<and> layer_effect (fold (tick_actor im) js c) = layer_effect c"
proof (induction js arbitrary: c)
  case (Cons j js)
  then show ?case using tick_actor_only [of j c im] by (auto simp: only_def)
qed simp

text \<open>In a frame an actor of the scene ticks once, as it was and with the frame's length.\<close>

lemma scene_frame_actor:
  assumes "in_scene i c"
  obtains d where "the_actor i d = the_actor i c" "cl_dt d = dt" "the_actor i (scene_frame im dt c) = the_actor i (tick_actor im i d)"
    "in_scene i (scene_frame im dt c)"
proof -
  define c1 where "c1 = tick_tilemap im (c\<lparr>cl_now := cl_now c + dt, cl_dt := dt\<rparr>)"
  have c1: "layer_object c1 = layer_object c" "the_actor j c1 = the_actor j c" "cl_dt c1 = dt" for j
    by (simp_all add: c1_def tick_tilemap_def the_actor_def Let_def)
  from assms obtain xs ys where l: "layer_object c = xs @ i # ys" "i \<notin> set xs" "i \<notin> set ys"
    by (metis in_scene_def split_list distinct.simps(2) distinct_append not_distinct_conv_prefix)
  define d where "d = fold (tick_actor im) xs c1"
  define e where "e = fold (tick_actor im) ys (tick_actor im i d)"
  have d: "the_actor i d = the_actor i c" "cl_dt d = dt" "layer_object d = layer_object c"
    using fold_ticks_others [of i xs im c1] l(2) by (simp_all add: d_def c1)
  have f: "scene_frame im dt c = tick_effects e"
    by (simp add: scene_frame_def Scene_Update_def Let_def c1_def [symmetric] c1 l(1) d_def e_def)
  have e: "the_actor i e = the_actor i (tick_actor im i d)" "layer_object e = layer_object c"
    using fold_ticks_others [of i ys im "tick_actor im i d"] l(3) tick_actor_only [of i d im] d(3) by (simp_all add: e_def only_def)
  show ?thesis
    by (rule that [OF d(1,2)]) (use e assms in \<open>simp_all add: f tick_effects_def the_actor_def in_scene_def\<close>)
qed

abbreviation sprite_of :: "nat \<Rightarrow> Client \<Rightarrow> Sprite" where
  "sprite_of i c \<equiv> a_sprite (the_actor i c)"

lemma the_actor_frame [simp]: "the_actor i (c\<lparr>cl_now := t, cl_dt := dt\<rparr>) = the_actor i c"
  by (simp add: the_actor_def)

lemma sliding_Tick [simp]: "sliding (FlipbookActor_Tick dt s) = sliding s"
  by (simp add: sliding_def to_dest_def)

lemma Player_step_place: "s_pos s' = s_pos s \<Longrightarrow> s_dest s' = s_dest s \<Longrightarrow> s_pos (Player_step dt s') = s_pos (Player_step dt s)"
  by (simp add: Player_step_def to_dest_def Let_def)

lemma Player_step_dest [simp]: "s_dest (Player_step dt s) = s_dest s"
  by (simp add: Player_step_def Let_def)

text \<open>What a tick does before it sets the animation.\<close>

definition game_move :: "(Client \<Rightarrow> Client) \<Rightarrow> (Client \<Rightarrow> Client) \<Rightarrow> (Client \<Rightarrow> Client) \<Rightarrow> nat \<Rightarrow> Client \<Rightarrow> Client" where
  "game_move tickIdle tickMove tickSkill i c =
     (if sliding (sprite_of i c) then tickMove c
      else case i_state (a_info (the_actor i c)) of IDLE \<Rightarrow> tickIdle c | MOVE \<Rightarrow> tickMove c | SKILL \<Rightarrow> tickSkill c)"

lemma GameObject_Tick_moves:
  "\<exists>st. GameObject_Tick I M S i c = set_anim i st (game_move I M S i (upd_sprite i (FlipbookActor_Tick (cl_dt c)) c))"
  unfolding GameObject_Tick_def game_move_def Let_def
  by (cases "sliding (sprite_of i (upd_sprite i (FlipbookActor_Tick (cl_dt c)) c))"; simp only: if_True if_False; rule exI; rule refl)

text \<open>What moving is about: the class of an actor, its place and its destination, and the cell of its object.\<close>

definition stand :: "Actor \<Rightarrow> ActorKind \<times> Vec2 \<times> Vec2 \<times> Vec2Int" where
  "stand a = (a_kind a, s_pos (a_sprite a), s_dest (a_sprite a), actor_pos a)"

lemma stand_set_anim [simp]: "stand (the_actor i (set_anim i st c)) = stand (the_actor i c)"
  by (simp add: stand_def actor_pos_def)

lemma stand_steps [simp]:
  "stand (the_actor i (TickSkill i c)) = stand (the_actor i c)" "stand (the_actor i (upd_my i f c)) = stand (the_actor i c)"
  "stand (Cl_SetState st a) = stand a" "stand (a\<lparr>a_my := m\<rparr>) = stand a" "stand (a\<lparr>a_weapon := wp\<rparr>) = stand a"
  by (simp_all add: stand_def actor_pos_def TickSkill_def upd_my_def Cl_SetState_def Let_def)

lemma stand_input [simp]:
  "stand (the_actor i (TryMove i c)) = stand (the_actor i c)" "stand (the_actor i (TickInput ks i c)) = stand (the_actor i c)"
  by (simp_all add: TryMove_def TickInput_def TrySkill_def pick_weapon_def upd_my_def Let_def)

text \<open>A tick of a player, the own one or another: only what it does while it stands differs, and that moves nothing.\<close>

lemma tick_slides:
  fixes c :: Client
  assumes "\<And>d. Length (to_dest (sprite_of i d)) < 1 \<Longrightarrow> stand (the_actor i (I d)) = stand (the_actor i d)"
  defines "a \<equiv> the_actor i c" and "a' \<equiv> the_actor i (GameObject_Tick I (Player_TickMove i) (TickSkill i) i c)"
  shows "sliding (sprite_of i c) \<Longrightarrow> stand a' = stand (a\<lparr>a_sprite := Player_step (cl_dt c) (a_sprite a)\<rparr>)"
    "\<not> sliding (sprite_of i c) \<Longrightarrow> stand a' \<in> {stand a, stand (a\<lparr>a_sprite := (a_sprite a)\<lparr>s_pos := s_dest (a_sprite a)\<rparr>\<rparr>)}"
proof -
  define d where "d = upd_sprite i (FlipbookActor_Tick (cl_dt c)) c"
  have d: "the_actor i d = a\<lparr>a_sprite := FlipbookActor_Tick (cl_dt c) (a_sprite a)\<rparr>" "cl_dt d = cl_dt c"
    by (simp_all add: d_def upd_sprite_def a_def)
  have a': "stand a' = stand (the_actor i (game_move I (Player_TickMove i) (TickSkill i) i d))"
    using GameObject_Tick_moves [of I "Player_TickMove i" "TickSkill i" i c] by (auto simp: a'_def d_def)
  have move: "stand (the_actor i (Player_TickMove i d)) = stand (a\<lparr>a_sprite := Player_step (cl_dt c) (a_sprite a)\<rparr>)"
    using Player_step_place [of "FlipbookActor_Tick (cl_dt c) (a_sprite a)" "a_sprite a"]
    by (simp add: Player_TickMove_def upd_sprite_def d stand_def actor_pos_def)
  show "stand a' = stand (a\<lparr>a_sprite := Player_step (cl_dt c) (a_sprite a)\<rparr>)" if "sliding (sprite_of i c)"
    using that move by (simp add: a' game_move_def d a_def)
  show "stand a' \<in> {stand a, stand (a\<lparr>a_sprite := (a_sprite a)\<lparr>s_pos := s_dest (a_sprite a)\<rparr>\<rparr>)}" if n: "\<not> sliding (sprite_of i c)"
  proof -
    have l: "Length (to_dest (a_sprite a)) \<le> 1 / 2" using n by (simp add: sliding_def a_def)
    then have "Length (to_dest (sprite_of i d)) < 1" by (simp add: d to_dest_def)
    from assms(1) [OF this] have idle: "stand (the_actor i (I d)) = stand a" by (simp add: d stand_def actor_pos_def)
    have "stand (the_actor i d) = stand a" by (simp add: d stand_def actor_pos_def)
    moreover have "Player_step (cl_dt c) (a_sprite a) = (a_sprite a)\<lparr>s_pos := s_dest (a_sprite a)\<rparr>"
      using l by (simp add: Player_step_def Let_def)
    ultimately show ?thesis
      using n move idle by (simp add: a' game_move_def d a_def split: ObjectState.split)
  qed
qed

lemma tick_player:
  fixes im
  assumes "a_kind (the_actor i c) \<in> {KPlayer, KMyPlayer}"
  defines "a \<equiv> the_actor i c" and "a' \<equiv> the_actor i (tick_actor im i c)"
  shows "sliding (sprite_of i c) \<Longrightarrow> stand a' = stand (a\<lparr>a_sprite := Player_step (cl_dt c) (a_sprite a)\<rparr>)"
    "\<not> sliding (sprite_of i c) \<Longrightarrow> stand a' \<in> {stand a, stand (a\<lparr>a_sprite := (a_sprite a)\<lparr>s_pos := s_dest (a_sprite a)\<rparr>\<rparr>)}"
proof -
  obtain I v where a': "stand a' = stand (the_actor i (GameObject_Tick I (Player_TickMove i) (TickSkill i) i (c\<lparr>cl_camera := v\<rparr>)))"
    "\<And>d. Length (to_dest (sprite_of i d)) < 1 \<Longrightarrow> stand (the_actor i (I d)) = stand (the_actor i d)"
  proof (cases "a_kind a = KPlayer")
    case True
    then have "a' = the_actor i (GameObject_Tick (Player_TickIdle i) (Player_TickMove i) (TickSkill i) i (c\<lparr>cl_camera := cl_camera c\<rparr>))"
      by (simp add: a'_def a_def tick_actor_def)
    then show thesis by (intro that [of "Player_TickIdle i" "cl_camera c"]) (auto simp: Player_TickIdle_def)
  next
    case False
    then have "a_kind (the_actor i c) = KMyPlayer" using assms(1) by (simp add: a_def)
    then have "\<exists>v. stand a' = stand (the_actor i (GameObject_Tick (MyPlayer_TickIdle im i) (Player_TickMove i) (TickSkill i) i (c\<lparr>cl_camera := v\<rparr>)))"
      by (auto simp: a'_def tick_actor_def MyPlayer_Tick_def Let_def)
    then show thesis using that [of "MyPlayer_TickIdle im i"] by (auto simp: MyPlayer_TickIdle_def)
  qed
  have c: "the_actor i (c\<lparr>cl_camera := v\<rparr>) = a" by (simp add: the_actor_def a_def)
  note t = tick_slides [of i I "c\<lparr>cl_camera := v\<rparr>", OF a'(2)]
  show "sliding (sprite_of i c) \<Longrightarrow> stand a' = stand (a\<lparr>a_sprite := Player_step (cl_dt c) (a_sprite a)\<rparr>)"
    "\<not> sliding (sprite_of i c) \<Longrightarrow> stand a' \<in> {stand a, stand (a\<lparr>a_sprite := (a_sprite a)\<lparr>s_pos := s_dest (a_sprite a)\<rparr>\<rparr>)}"
    using t by (simp_all add: a'(1) c a_def [symmetric])
qed

lemma at_dest: "s_pos s = s_dest s \<Longrightarrow> \<not> sliding s"
proof -
  assume "s_pos s = s_dest s"
  then have "Length (to_dest s) < 1 / 2"
    by (subst Length_less_iff [where k = 2048]) (simp_all add: to_dest_def Vec2_LengthSquared_def)
  then show ?thesis by (simp add: sliding_def)
qed

text \<open>A player in the scene with the cell of its object and its destination.\<close>

definition walker :: "nat \<Rightarrow> Vec2 \<Rightarrow> Vec2Int \<Rightarrow> Client \<Rightarrow> bool" where
  "walker i dest cell c \<longleftrightarrow> in_scene i c \<and> a_kind (the_actor i c) \<in> {KPlayer, KMyPlayer}
     \<and> s_dest (sprite_of i c) = dest \<and> actor_pos (the_actor i c) = cell"

lemma frame_player:
  fixes im dt
  assumes "walker i dest cell c"
  defines "c' \<equiv> scene_frame im dt c"
  shows "walker i dest cell c'" "sliding (sprite_of i c) \<Longrightarrow> s_pos (sprite_of i c') = s_pos (Player_step dt (sprite_of i c))"
    "\<not> sliding (sprite_of i c) \<Longrightarrow> \<not> sliding (sprite_of i c')"
proof -
  from assms(1) have w: "in_scene i c" "a_kind (the_actor i c) \<in> {KPlayer, KMyPlayer}" by (simp_all add: walker_def)
  obtain d where d: "the_actor i d = the_actor i c" "cl_dt d = dt" "the_actor i c' = the_actor i (tick_actor im i d)" "in_scene i c'"
    using scene_frame_actor [OF w(1), of dt im] by (auto simp: c'_def)
  have k: "a_kind (the_actor i d) \<in> {KPlayer, KMyPlayer}" using w(2) d(1) by simp
  note q = tick_player [OF k, of im, unfolded d(3) [symmetric] d(1,2)]
  show "walker i dest cell c'"
    using assms(1) d(4) q by (cases "sliding (sprite_of i c)") (auto simp: walker_def stand_def actor_pos_def)
  show "s_pos (sprite_of i c') = s_pos (Player_step dt (sprite_of i c))" if "sliding (sprite_of i c)"
    using q(1) [OF that] by (simp add: stand_def)
  show "\<not> sliding (sprite_of i c')" if "\<not> sliding (sprite_of i c)"
    using q(2) [OF that] that at_dest [of "sprite_of i c'"] by (auto simp: sliding_def to_dest_def stand_def)
qed

text \<open>Frames of any lengths, with any input.\<close>

definition scene_frames :: "(InputManager \<times> rat) list \<Rightarrow> Client \<Rightarrow> Client" where
  "scene_frames fs = fold (\<lambda>(im, dt). scene_frame im dt) fs"

definition forward :: "(InputManager \<times> rat) list \<Rightarrow> bool" where
  "forward fs \<longleftrightarrow> (\<forall>f \<in> set fs. 0 \<le> snd f)"

definition elapsed :: "(InputManager \<times> rat) list \<Rightarrow> rat" where
  "elapsed fs = sum_list (map snd fs)"

lemma frames_simps [simp]:
  "scene_frames [] c = c" "scene_frames ((im, dt) # fs) c = scene_frames fs (scene_frame im dt c)"
  "elapsed [] = 0" "elapsed ((im, dt) # fs) = dt + elapsed fs" "forward []" "forward ((im, dt) # fs) \<longleftrightarrow> 0 \<le> dt \<and> forward fs"
  by (simp_all add: scene_frames_def elapsed_def forward_def)

lemma frames_player_rests:
  assumes "walker i dest cell c" "\<not> sliding (sprite_of i c)"
  shows "walker i dest cell (scene_frames fs c) \<and> \<not> sliding (sprite_of i (scene_frames fs c))"
  using assms
proof (induction fs arbitrary: c)
  case (Cons f fs)
  obtain im dt where f: "f = (im, dt)" by (cases f)
  note q = frame_player [OF Cons.prems(1), of im dt]
  show ?case using Cons.IH [OF q(1) q(3) [OF Cons.prems(2)]] by (simp add: f)
qed simp

lemma frames_player_arrives:
  assumes "walker i dest cell c" "forward fs" "taxi (to_dest (sprite_of i c)) \<le> 240 * elapsed fs"
  shows "walker i dest cell (scene_frames fs c) \<and> \<not> sliding (sprite_of i (scene_frames fs c))"
  using assms
proof (induction fs arbitrary: c)
  case Nil
  have "Length (to_dest (sprite_of i c)) \<le> 0" using Nil(3) Length_le_taxi [of "to_dest (sprite_of i c)"] by simp
  then show ?case using Nil(1) by (simp add: sliding_def)
next
  case (Cons f fs)
  obtain im dt where f: "f = (im, dt)" by (cases f)
  let ?c = "scene_frame im dt c"
  note q = frame_player [OF Cons.prems(1), of im dt]
  have dest: "s_dest (sprite_of i ?c) = dest" "s_dest (sprite_of i c) = dest"
    using q(1) Cons.prems(1) by (simp_all add: walker_def)
  show ?case
  proof (cases "sliding (sprite_of i c) \<and> s_pos (sprite_of i ?c) \<noteq> dest")
    case True
    have eq: "to_dest (sprite_of i ?c) = to_dest (Player_step dt (sprite_of i c))"
      using q(2) True dest by (intro to_dest_cong) auto
    have "taxi (to_dest (sprite_of i ?c)) \<le> taxi (to_dest (sprite_of i c)) - 240 * dt"
      using Player_step_progress(2) [of dt "sprite_of i c"] q(2) True dest Cons.prems(2) by (auto simp: eq f)
    then have "taxi (to_dest (sprite_of i ?c)) \<le> 240 * elapsed fs" using Cons.prems(3) by (simp add: f algebra_simps)
    then show ?thesis using Cons.IH [OF q(1)] Cons.prems(2) by (simp add: f)
  next
    case False
    then have "\<not> sliding (sprite_of i ?c)" using q(3) dest at_dest [of "sprite_of i ?c"] by auto
    then show ?thesis using frames_player_rests [OF q(1)] by (simp add: f)
  qed
qed

text \<open>An \<open>S_Move\<close> moves the object to its cell at once and leaves the sprite where it is, with the cell as its destination.\<close>

lemma animated_actor [simp]: "stand (animated a) = stand a"
  by (simp add: stand_def actor_pos_def)

lemma stand_placed:
  "stand (the_actor i (place_actor i oi c)) = (a_kind (the_actor i c), s_pos (sprite_of i c),
     ConvertPos (scene_map c) (Vec (i_posx oi) (i_posy oi)), Vec (i_posx oi) (i_posy oi))"
  "layer_object (place_actor i oi c) = layer_object c"
  using animated_actor [of "Cl_SetDir (i_dir oi) (the_actor i c)"]
  by (simp_all add: place_actor_def turn_actor_def stand_def Cl_SetCellPos_def SetCellPos_sprite_def Cl_SetState_def Cl_SetDir_def
      actor_pos_def Let_def)

lemma Handle_S_Move_walker:
  assumes "GetObject (i_objectid oi) c = Some i" "distinct (layer_object c)" "a_kind (the_actor i c) \<in> {KPlayer, KMyPlayer}"
  defines "cell \<equiv> Vec (i_posx oi) (i_posy oi)"
  shows "walker i (ConvertPos (scene_map c) cell) cell (Handle_S_Move oi c)"
    "s_pos (sprite_of i (Handle_S_Move oi c)) = s_pos (sprite_of i c)"
proof -
  obtain c1 where c1: "Handle_S_Move oi c = place_actor i oi c1" "stand (the_actor i c1) = stand (the_actor i c)"
    "scene_map c1 = scene_map c" "layer_object c1 = layer_object c"
    using assms(1) that [of c] that [of "upd_my i (OnServerMoveResult (GetMyPlayerId c) oi) c"]
    by (simp add: Handle_S_Move_def upd_my_def split: if_splits)
  have "i \<in> set (layer_object c)" using assms(1) by (auto simp: GetObject_def find_Some_iff)
  then show "walker i (ConvertPos (scene_map c) cell) cell (Handle_S_Move oi c)"
    "s_pos (sprite_of i (Handle_S_Move oi c)) = s_pos (sprite_of i c)"
    using stand_placed [of i oi c1] c1 assms(2,3) by (auto simp: walker_def in_scene_def stand_def cell_def)
qed

text \<open>
  C39. After an \<open>S_Move\<close> the sprite of a player, the client's own one or another's, comes to rest within half a pixel of the middle of
  the cell the message names, and the object stays on that cell, whatever the lengths of the frames and whatever is pressed: after
  the time it takes to walk the two sides of the way at 240 pixels a second, unless a packet sends it elsewhere.
\<close>

theorem player_sprite_arrives:
  assumes "GetObject (i_objectid oi) c = Some i" "distinct (layer_object c)" "a_kind (the_actor i c) \<in> {KPlayer, KMyPlayer}"
    and "forward fs" "taxi (ConvertPos (scene_map c) (Vec (i_posx oi) (i_posy oi)) - s_pos (sprite_of i c)) \<le> 240 * elapsed fs"
  shows "let c' = scene_frames fs (Handle_S_Move oi c)
    in Length (ConvertPos (scene_map c) (Vec (i_posx oi) (i_posy oi)) - s_pos (sprite_of i c')) \<le> 1 / 2
      \<and> s_dest (sprite_of i c') = ConvertPos (scene_map c) (Vec (i_posx oi) (i_posy oi))
      \<and> actor_pos (the_actor i c') = Vec (i_posx oi) (i_posy oi)"
proof -
  note w = Handle_S_Move_walker [OF assms(1-3)]
  have "taxi (to_dest (sprite_of i (Handle_S_Move oi c))) \<le> 240 * elapsed fs"
    using w assms(5) by (simp add: walker_def to_dest_def)
  from frames_player_arrives [OF w(1) assms(4) this] show ?thesis
    by (auto simp: walker_def sliding_def to_dest_def Let_def not_less)
qed

section \<open>An arrow's sprite\<close>

text \<open>The way that is left to an arrow in its direction; negative when it has flown past its place.\<close>

definition ahead :: "int32 \<Rightarrow> rat \<Rightarrow> Vec2" where
  "ahead d D = step_dir d D (Pos 0 0)"

lemma ahead_length:
  assumes "DIR_TYPE_IsValid d"
  shows "Length (ahead d D) < 5 \<longleftrightarrow> \<bar>D\<bar> < 5" "Length (ahead d D) \<le> 1 / 2 \<Longrightarrow> \<bar>D\<bar> < 5"
proof -
  have q: "Vec2_LengthSquared (ahead d D) = D * D"
    using assms by (auto simp: DIR_TYPE_IsValid_def ahead_def step_dir_def Vec2_LengthSquared_def)
  have "D * D < 5 * 5 \<longleftrightarrow> \<bar>D\<bar> < 5" using abs_square_less_1 [of "D / 5"] by (simp add: power2_eq_square field_simps)
  then show l: "Length (ahead d D) < 5 \<longleftrightarrow> \<bar>D\<bar> < 5" using Length_less_iff [of 5 20480 "ahead d D"] q by simp
  show "\<bar>D\<bar> < 5" if "Length (ahead d D) \<le> 1 / 2" using that l by linarith
qed

lemma Arrow_step_ahead:
  assumes "DIR_TYPE_IsValid d" "to_dest s = ahead d D"
  shows "s_dest (Arrow_step dt d s) = s_dest s"
    "to_dest (Arrow_step dt d s) = (if \<bar>D\<bar> < 5 then Pos 0 0 else ahead d (D - 600 * dt))"
  using assms ahead_length(1) [OF assms(1), of D]
  by (auto simp: Arrow_step_def to_dest_def ahead_def step_dir_def DIR_TYPE_IsValid_def minus_Vec2_def algebra_simps)

lemma tick_arrow:
  fixes im
  assumes "a_kind (the_actor i c) = KArrow" "i_dir (a_info (the_actor i c)) = d" "DIR_TYPE_IsValid d"
    and "to_dest (sprite_of i c) = ahead d D" "cl_dt c = dt"
  defines "c' \<equiv> tick_actor im i c"
  shows "a_kind (the_actor i c') = KArrow" "i_dir (a_info (the_actor i c')) = d" "s_dest (sprite_of i c') = s_dest (sprite_of i c)"
    "5 \<le> \<bar>D\<bar> \<Longrightarrow> to_dest (sprite_of i c') = ahead d (D - 600 * dt)" "\<bar>D\<bar> < 5 \<Longrightarrow> \<not> sliding (sprite_of i c')"
    "\<bar>D\<bar> < 5 \<Longrightarrow> \<exists>D'. \<bar>D'\<bar> < 5 \<and> to_dest (sprite_of i c') = ahead d D'"
proof -
  define f where "f = upd_sprite i (FlipbookActor_Tick dt) c"
  have f: "the_actor i f = (the_actor i c)\<lparr>a_sprite := FlipbookActor_Tick dt (sprite_of i c)\<rparr>" "cl_dt f = dt"
    using assms(5) by (simp_all add: f_def upd_sprite_def)
  have c': "c' = GameObject_Tick id (Arrow_TickMove i) id i c"
    using assms(1) by (simp add: c'_def tick_actor_def)
  define e where "e = game_move id (Arrow_TickMove i) id i f"
  obtain st where st: "c' = set_anim i st e"
    using GameObject_Tick_moves [of id "Arrow_TickMove i" id i c]
    by (auto simp: c' e_def f_def assms(5))
  have tf: "to_dest (FlipbookActor_Tick dt (sprite_of i c)) = ahead d D" using assms(4) by (simp add: to_dest_def)
  have moved: "to_dest (sprite_of i (Arrow_TickMove i f)) = (if \<bar>D\<bar> < 5 then Pos 0 0 else ahead d (D - 600 * dt))"
    "s_dest (sprite_of i (Arrow_TickMove i f)) = s_dest (sprite_of i c)"
    using Arrow_step_ahead [OF assms(3) tf] assms(2) by (simp_all add: Arrow_TickMove_def upd_sprite_def f)
  show "a_kind (the_actor i c') = KArrow" "i_dir (a_info (the_actor i c')) = d" "s_dest (sprite_of i c') = s_dest (sprite_of i c)"
    using assms(1,2) moved(2) by (simp_all add: st e_def game_move_def f Arrow_TickMove_def upd_sprite_def split: ObjectState.split)
  have to: "to_dest (sprite_of i c') = to_dest (sprite_of i e)" by (simp add: st to_dest_def)
  have sl: "sliding (sprite_of i f) \<longleftrightarrow> \<not> Length (ahead d D) \<le> 1 / 2" using tf by (auto simp: f sliding_def to_dest_def)
  show "to_dest (sprite_of i c') = ahead d (D - 600 * dt)" if "5 \<le> \<bar>D\<bar>"
    using that moved(1) ahead_length(2) [OF assms(3), of D] sl by (auto simp: to e_def game_move_def)
  show "\<not> sliding (sprite_of i c')" if "\<bar>D\<bar> < 5"
  proof -
    have z: "Length (Pos 0 0) \<le> 1 / 2" using Length_le_taxi [of "Pos 0 0"] by (simp add: taxi_def)
    have "Length (to_dest (sprite_of i e)) \<le> 1 / 2"
    proof (cases "sliding (sprite_of i f)")
      case True
      then show ?thesis using moved(1) that z by (simp add: e_def game_move_def)
    next
      case False
      then have "Length (to_dest (sprite_of i f)) \<le> 1 / 2" by (simp add: sliding_def)
      with False moved(1) that z show ?thesis by (simp add: e_def game_move_def split: ObjectState.split)
    qed
    then show ?thesis by (simp add: sliding_def to)
  qed
  have "to_dest (sprite_of i e) \<in> {Pos 0 0, ahead d D}" if "\<bar>D\<bar> < 5"
    using moved(1) that tf by (simp add: e_def game_move_def f split: ObjectState.split)
  moreover have "Pos 0 0 = ahead d 0" by (simp add: ahead_def step_dir_def)
  ultimately show "\<exists>D'. \<bar>D'\<bar> < 5 \<and> to_dest (sprite_of i c') = ahead d D'" if "\<bar>D\<bar> < 5"
    using that by (auto simp: to intro: exI [of _ 0] exI [of _ D])
qed

lemma frame_arrow:
  fixes im dt
  assumes "in_scene i c" "a_kind (the_actor i c) = KArrow" "i_dir (a_info (the_actor i c)) = d" "DIR_TYPE_IsValid d"
    and "to_dest (sprite_of i c) = ahead d D"
  defines "c' \<equiv> scene_frame im dt c"
  shows "in_scene i c'" "a_kind (the_actor i c') = KArrow" "i_dir (a_info (the_actor i c')) = d"
    "5 \<le> \<bar>D\<bar> \<Longrightarrow> to_dest (sprite_of i c') = ahead d (D - 600 * dt)" "\<bar>D\<bar> < 5 \<Longrightarrow> \<not> sliding (sprite_of i c')"
    "\<bar>D\<bar> < 5 \<Longrightarrow> \<exists>D'. \<bar>D'\<bar> < 5 \<and> to_dest (sprite_of i c') = ahead d D'"
proof -
  obtain b where b: "the_actor i b = the_actor i c" "cl_dt b = dt" "the_actor i c' = the_actor i (tick_actor im i b)" "in_scene i c'"
    using scene_frame_actor [OF assms(1), of dt im] by (auto simp: c'_def)
  have k: "a_kind (the_actor i b) = KArrow" "i_dir (a_info (the_actor i b)) = d" "to_dest (sprite_of i b) = ahead d D"
    using assms(2,3,5) b(1) by simp_all
  note q = tick_arrow [OF k(1,2) assms(4) k(3) b(2), of im, folded b(3)]
  show "in_scene i c'" "a_kind (the_actor i c') = KArrow" "i_dir (a_info (the_actor i c')) = d" by (rule b(4) q(1,2))+
  show "to_dest (sprite_of i c') = ahead d (D - 600 * dt)" if "5 \<le> \<bar>D\<bar>" using q(4) that by simp
  show "\<not> sliding (sprite_of i c')" "\<exists>D'. \<bar>D'\<bar> < 5 \<and> to_dest (sprite_of i c') = ahead d D'" if "\<bar>D\<bar> < 5" using q(5,6) that by simp_all
qed

lemma frames_arrow_rests:
  assumes "in_scene i c" "a_kind (the_actor i c) = KArrow" "i_dir (a_info (the_actor i c)) = d" "DIR_TYPE_IsValid d"
    and "to_dest (sprite_of i c) = ahead d D" "\<bar>D\<bar> < 5" "fs \<noteq> []"
  shows "\<not> sliding (sprite_of i (scene_frames fs c))"
  using assms
proof (induction fs arbitrary: c D)
  case (Cons f fs)
  obtain im dt where f: "f = (im, dt)" by (cases f)
  note q = frame_arrow [OF Cons.prems(1-5), of im dt]
  from q(6) [OF Cons.prems(6)] obtain D' where D': "\<bar>D'\<bar> < 5" "to_dest (sprite_of i (scene_frame im dt c)) = ahead d D'" by blast
  show ?case
    using Cons.IH [OF q(1-3) Cons.prems(4) D'(2,1)] q(5) [OF Cons.prems(6)] by (cases "fs = []") (simp_all add: f)
qed simp

text \<open>
  With frames shorter than a sixtieth of a second an arrow lands: at 600 pixels a second no step is as long as the ten pixels
  around its place in which it is caught.
\<close>

lemma arrow_lands:
  assumes "in_scene i c" "a_kind (the_actor i c) = KArrow" "i_dir (a_info (the_actor i c)) = d" "DIR_TYPE_IsValid d"
    and "to_dest (sprite_of i c) = ahead d D" "-5 < D" "D < 600 * elapsed fs + 5" "\<forall>f \<in> set fs. 0 \<le> snd f \<and> snd f < 1 / 60"
  shows "\<not> sliding (sprite_of i (scene_frames (fs @ [l]) c))"
  using assms
proof (induction fs arbitrary: c D)
  case Nil
  then show ?case using frames_arrow_rests [OF Nil.prems(1-5), of "[l]"] by simp
next
  case (Cons f fs)
  obtain im dt where f: "f = (im, dt)" by (cases f)
  note q = frame_arrow [OF Cons.prems(1-5), of im dt]
  show ?case
  proof (cases "\<bar>D\<bar> < 5")
    case True
    then show ?thesis using frames_arrow_rests [OF Cons.prems(1-5), of "(f # fs) @ [l]"] by simp
  next
    case False
    then have "5 \<le> \<bar>D\<bar>" "-5 < D - 600 * dt" "D - 600 * dt < 600 * elapsed fs + 5"
      using Cons.prems(6-8) by (auto simp: f algebra_simps)
    then show ?thesis using Cons.IH [OF q(1-3) Cons.prems(4) q(4)] Cons.prems(8) by (simp add: f)
  qed
qed

text \<open>
  A frame that takes an arrow five pixels past its place loses it: the arrow looks only forward, so it flies on at 600 pixels a
  second for as long as no packet moves it. Every frame of more than a sixtieth of a second can do that, from ten pixels less than
  its step.
\<close>

theorem long_frames_lose_an_arrow:
  assumes "in_scene i c" "a_kind (the_actor i c) = KArrow" "i_dir (a_info (the_actor i c)) = d" "DIR_TYPE_IsValid d"
    and "to_dest (sprite_of i c) = ahead d D" "5 \<le> D" "D + 5 \<le> 600 * dt" "forward fs"
  shows "to_dest (sprite_of i (scene_frames ((im, dt) # fs) c)) = ahead d (D - 600 * (dt + elapsed fs))"
proof -
  have past: "to_dest (sprite_of i (scene_frames es b)) = ahead d (D - 600 * elapsed es)"
    if "in_scene i b" "a_kind (the_actor i b) = KArrow" "i_dir (a_info (the_actor i b)) = d" "to_dest (sprite_of i b) = ahead d D"
      "D \<le> -5" "forward es" for b D es
    using that
  proof (induction es arbitrary: b D)
    case (Cons e es)
    obtain im dt where e: "e = (im, dt)" by (cases e)
    note q = frame_arrow [OF Cons.prems(1-3) assms(4) Cons.prems(4), of im dt]
    have "to_dest (sprite_of i (scene_frame im dt b)) = ahead d (D - 600 * dt)" "D - 600 * dt \<le> -5"
      using q(4) Cons.prems(5,6) by (auto simp: e)
    then show ?case using Cons.IH [OF q(1-3)] Cons.prems(6) by (simp add: e algebra_simps)
  qed simp
  note q = frame_arrow [OF assms(1-5), of im dt]
  have "to_dest (sprite_of i (scene_frame im dt c)) = ahead d (D - 600 * dt)" using q(4) assms(6) by simp
  then show ?thesis using past [OF q(1-3)] assms(7,8) by (simp add: algebra_simps)
qed

section \<open>Animations\<close>

text \<open>A flipbook as all that are loaded are: it starts at its first image. One that is played once is at most at its last.\<close>

definition playing :: "FlipbookInfo \<Rightarrow> Sprite \<Rightarrow> bool" where
  "playing b s \<longleftrightarrow> s_flipbook s = Some b \<and> fb_start b = 0 \<and> 0 \<le> s_idx s \<and> s_idx s \<le> fb_end b \<and> 0 \<le> s_sumTime s
     \<and> s_sumTime s < fb_duration b / of_int (fb_end b + 1)"

text \<open>
  What is left to play with frames of at most \<open>m\<close>: a frame that turns an image over throws away what it has too much, so that an
  image can last a whole frame longer than its share.
\<close>

definition left_to_play :: "rat \<Rightarrow> FlipbookInfo \<Rightarrow> Sprite \<Rightarrow> rat" where
  "left_to_play m b s = of_int (fb_end b - s_idx s) * (fb_duration b / of_int (fb_end b + 1) + m) - s_sumTime s"

lemma Tick_playing:
  assumes "playing b s" "0 \<le> dt" "dt \<le> m"
  defines "s' \<equiv> FlipbookActor_Tick dt s"
  shows "playing b s'" "\<not> IsAnimationEnded s \<Longrightarrow> \<not> fb_loop b \<Longrightarrow> left_to_play m b s' \<le> left_to_play m b s - dt"
    "IsAnimationEnded s \<Longrightarrow> s' = s"
proof -
  define n \<delta> where "n = fb_end b + 1" and "\<delta> = fb_duration b / of_int n"
  have p: "s_flipbook s = Some b" "fb_start b = 0" "0 \<le> s_idx s" "s_idx s < n" "0 \<le> s_sumTime s" "s_sumTime s < \<delta>"
    using assms(1) by (auto simp: playing_def n_def \<delta>_def)
  show "s' = s" if "IsAnimationEnded s" using that p(1) by (simp add: s'_def FlipbookActor_Tick_def IsAnimationEnded_def)
  have eq: "s' = (if \<not> fb_loop b \<and> s_idx s = fb_end b then s
      else if \<delta> \<le> s_sumTime s + dt then s\<lparr>s_sumTime := 0, s_idx := (s_idx s + 1) mod n\<rparr>
      else s\<lparr>s_sumTime := s_sumTime s + dt\<rparr>)"
    using p(1,2) by (simp add: s'_def FlipbookActor_Tick_def Let_def n_def \<delta>_def)
  consider "\<not> fb_loop b \<and> s_idx s = fb_end b" "s' = s"
    | "\<not> (\<not> fb_loop b \<and> s_idx s = fb_end b)" "s_sumTime s + dt < \<delta>" "s' = s\<lparr>s_sumTime := s_sumTime s + dt\<rparr>"
    | "\<not> (\<not> fb_loop b \<and> s_idx s = fb_end b)" "\<delta> \<le> s_sumTime s + dt" "s' = s\<lparr>s_sumTime := 0, s_idx := (s_idx s + 1) mod n\<rparr>"
    using eq by (metis not_le)
  note cases = this
  have \<delta>: "0 < \<delta>" using p(5,6) by linarith
  from cases show "playing b s'"
  proof cases
    case 3
    have "0 \<le> (s_idx s + 1) mod n" "(s_idx s + 1) mod n < n" using p(3,4) by simp_all
    then have "0 \<le> s_idx s'" "s_idx s' \<le> fb_end b" "s_sumTime s' = 0" "s_flipbook s' = s_flipbook s"
      using 3(3) by (simp_all add: n_def)
    then show ?thesis using p(1,2) \<delta> by (simp add: playing_def n_def \<delta>_def)
  qed (use assms(1,2) p in \<open>simp_all add: playing_def n_def \<delta>_def\<close>)
  show "left_to_play m b s' \<le> left_to_play m b s - dt" if "\<not> IsAnimationEnded s" "\<not> fb_loop b"
  proof -
    have idx: "s_idx s \<noteq> fb_end b" using that p(1) by (simp add: IsAnimationEnded_def)
    from cases show ?thesis
    proof cases
      case 3
      have "(s_idx s + 1) mod n = s_idx s + 1" using idx p(3,4) by (intro mod_pos_pos_trivial) (simp_all add: n_def)
      then have i: "s_idx s' = s_idx s + 1" "s_sumTime s' = 0" using 3(3) by simp_all
      have l: "left_to_play m b x = of_int (fb_end b - s_idx x) * (\<delta> + m) - s_sumTime x" for x
        by (simp add: left_to_play_def \<delta>_def n_def)
      have "left_to_play m b s' = left_to_play m b s + s_sumTime s - (\<delta> + m)" by (simp add: l i algebra_simps)
      then show ?thesis using p(6) assms(3) by linarith
    qed (use idx that in \<open>simp_all add: left_to_play_def\<close>)
  qed
qed

lemma ended_stays: "IsAnimationEnded s \<Longrightarrow> fold FlipbookActor_Tick dts s = s"
  by (induction dts) (auto simp: FlipbookActor_Tick_def IsAnimationEnded_def split: option.splits)

lemma plays_to_its_end:
  assumes "playing b s" "\<not> fb_loop b" "0 \<le> m" "\<forall>dt \<in> set dts. 0 \<le> dt \<and> dt \<le> m" "left_to_play m b s \<le> sum_list dts"
  shows "IsAnimationEnded (fold FlipbookActor_Tick dts s)"
  using assms
proof (induction dts arbitrary: s)
  case Nil
  define \<delta> where "\<delta> = fb_duration b / of_int (fb_end b + 1)"
  have s: "s_idx s \<le> fb_end b" "s_sumTime s < \<delta>" "0 \<le> s_sumTime s" "s_flipbook s = Some b"
    using Nil(1) by (simp_all add: playing_def \<delta>_def)
  have "of_int (fb_end b - s_idx s) * (\<delta> + m) \<le> s_sumTime s" using Nil(5) by (simp add: left_to_play_def \<delta>_def)
  moreover have "\<delta> + m \<le> of_int (fb_end b - s_idx s) * (\<delta> + m)" if "s_idx s \<noteq> fb_end b"
    using mult_right_mono [of 1 "of_int (fb_end b - s_idx s)" "\<delta> + m"] that s(1-3) Nil(3) by simp
  ultimately have "s_idx s = fb_end b" using s(2) Nil(3) by force
  then show ?case using s(4) Nil(2) by (simp add: IsAnimationEnded_def)
next
  case (Cons dt dts)
  have dt: "0 \<le> dt" "dt \<le> m" using Cons.prems(4) by simp_all
  show ?case
  proof (cases "IsAnimationEnded s")
    case True
    then show ?thesis using ended_stays [of s "dt # dts"] by simp
  next
    case False
    then show ?thesis
      using Cons.IH [of "FlipbookActor_Tick dt s"] Tick_playing(1,2) [OF Cons.prems(1) dt] Cons.prems by simp
  qed
qed

text \<open>An animation that is played once and does not start at its first image never ends: the index it waits for is not reached.\<close>

lemma later_start_never_ends:
  assumes "s_flipbook s = Some b" "\<not> fb_loop b" "0 < fb_start b" "fb_start b < fb_end b"
    "s_idx s = fb_start b \<or> (0 \<le> s_idx s \<and> s_idx s \<le> fb_end b - fb_start b)"
  shows "\<not> IsAnimationEnded (fold FlipbookActor_Tick dts s)"
  using assms
proof (induction dts arbitrary: s)
  case (Cons dt dts)
  let ?s = "FlipbookActor_Tick dt s" and ?n = "fb_end b - fb_start b + 1"
  have "s_flipbook ?s = Some b" "s_idx ?s = s_idx s \<or> s_idx ?s = (s_idx s + 1) mod ?n"
    using Cons.prems(1) by (auto simp: FlipbookActor_Tick_def Let_def)
  moreover have "0 \<le> (s_idx s + 1) mod ?n" "(s_idx s + 1) mod ?n \<le> fb_end b - fb_start b"
    using pos_mod_bound [of ?n "s_idx s + 1"] pos_mod_sign [of ?n "s_idx s + 1"] Cons.prems(4) by linarith+
  ultimately show ?case using Cons.IH [of ?s] Cons.prems by auto
qed (auto simp: IsAnimationEnded_def)

section \<open>Effects\<close>

text \<open>Every effect of a scene plays one of the two flipbooks.\<close>

definition effect_playing :: "Effect \<Rightarrow> bool" where
  "effect_playing e \<longleftrightarrow>
     (\<exists>b. GetFlipbook (effect_book (e_kind e)) = Some b \<and> playing b (e_sprite e)) \<and> \<not> IsAnimationEnded (e_sprite e)"

lemma effect_books:
  assumes "GetFlipbook (effect_book k) = Some b"
  shows "fb_start b = 0" "\<not> fb_loop b" "0 < fb_end b" "fb_end b \<le> 11" "fb_duration b = 1 / 2"
  using assms by (cases k; auto simp: GetFlipbook_def LoadFlipbooks_def book_def)+

lemma SpawnEffect_playing:
  assumes "\<forall>e \<in> set (layer_effect c). effect_playing e"
  shows "\<forall>e \<in> set (layer_effect (SpawnEffect k cell c)). effect_playing e"
proof -
  obtain b where b: "GetFlipbook (effect_book k) = Some b" using effect_books_loaded [of k] by auto
  let ?s = "SetCellPos_sprite (scene_map c) cell True (Sprite_new (Pos 0 0))"
  have s: "SetFlipbook (Some b) ?s = Some (?s\<lparr>s_flipbook := Some b, s_sumTime := 0, s_idx := 0\<rparr>)"
    using effect_books(1) [OF b] by (simp add: SetFlipbook_def SetCellPos_sprite_def Sprite_new_def Flipbook_Reset_def Let_def)
  have "effect_playing \<lparr>e_kind = k, e_cell = cell, e_sprite = ?s\<lparr>s_flipbook := Some b, s_sumTime := 0, s_idx := 0\<rparr>\<rparr>"
    using effect_books [OF b] b by (simp add: effect_playing_def playing_def IsAnimationEnded_def divide_simps)
  then show ?thesis using assms by (simp add: SpawnEffect_def b s)
qed

lemma scene_frame_effects: "layer_effect (scene_frame im dt c) = List.map_filter (Effect_Tick dt) (layer_effect c)"
proof -
  let ?b = "tick_tilemap im (c\<lparr>cl_now := cl_now c + dt, cl_dt := dt\<rparr>)"
  have "layer_effect ?b = layer_effect c" "cl_dt ?b = dt" by (simp_all add: tick_tilemap_def Let_def)
  then show ?thesis
    using fold_ticks_others [of _ "layer_object ?b" im ?b] by (simp add: scene_frame_def Scene_Update_def Let_def tick_effects_def)
qed

lemma effect_after:
  assumes "e' \<in> set (layer_effect (scene_frame im dt c))"
  obtains e where "e \<in> set (layer_effect c)" "e' = e\<lparr>e_sprite := FlipbookActor_Tick dt (e_sprite e)\<rparr>"
    "\<not> IsAnimationEnded (e_sprite e')"
proof -
  from assms obtain e where "e \<in> set (layer_effect c)" "Effect_Tick dt e = Some e'"
    by (auto simp: scene_frame_effects List.map_filter_def)
  then show ?thesis using that [of e] by (auto simp: Effect_Tick_def Let_def split: if_splits)
qed

lemma effects_gone:
  assumes "\<forall>e \<in> set (layer_effect c). effect_playing e" "0 \<le> m" "\<forall>f \<in> set fs. 0 \<le> snd f \<and> snd f \<le> m"
    and "\<forall>e \<in> set (layer_effect c). \<forall>b. GetFlipbook (effect_book (e_kind e)) = Some b \<longrightarrow> left_to_play m b (e_sprite e) \<le> elapsed fs"
  shows "layer_effect (scene_frames fs c) = []"
  using assms(1,3,4)
proof (induction fs arbitrary: c)
  case Nil
  have False if e: "e \<in> set (layer_effect c)" for e
  proof -
    from e Nil(1) obtain b where b: "GetFlipbook (effect_book (e_kind e)) = Some b" "playing b (e_sprite e)"
      "\<not> IsAnimationEnded (e_sprite e)" by (auto simp: effect_playing_def)
    then show False using plays_to_its_end [OF b(2) effect_books(2) [OF b(1)] assms(2), of "[]"] e Nil(3) by auto
  qed
  then show ?case by (cases "layer_effect c") auto
next
  case (Cons f fs)
  obtain im dt where f: "f = (im, dt)" by (cases f)
  have dt: "0 \<le> dt" "dt \<le> m" using Cons.prems(2) by (simp_all add: f)
  have step: "effect_playing e' \<and> (\<forall>b. GetFlipbook (effect_book (e_kind e')) = Some b \<longrightarrow> left_to_play m b (e_sprite e') \<le> elapsed fs)"
    if "e' \<in> set (layer_effect (scene_frame im dt c))" for e'
  proof -
    from effect_after [OF that] obtain e where e: "e \<in> set (layer_effect c)"
      "e' = e\<lparr>e_sprite := FlipbookActor_Tick dt (e_sprite e)\<rparr>" "\<not> IsAnimationEnded (e_sprite e')" by blast
    from e(1) Cons.prems(1) obtain b where b: "GetFlipbook (effect_book (e_kind e)) = Some b" "playing b (e_sprite e)"
      "\<not> IsAnimationEnded (e_sprite e)" by (auto simp: effect_playing_def)
    note k = Tick_playing(1,2) [OF b(2) dt]
    have "left_to_play m b (e_sprite e) \<le> dt + elapsed fs" using Cons.prems(3) e(1) b(1) by (simp add: f)
    then show ?thesis using k(1) k(2) [OF b(3) effect_books(2) [OF b(1)]] b(1) e(2,3) by (auto simp: effect_playing_def)
  qed
  show ?case using Cons.IH [of "scene_frame im dt c"] step Cons.prems(2) by (simp add: f)
qed

text \<open>
  C40. No effect stays: a hit or an explosion has left the scene after the half second of its animation and eleven frames more,
  however long the frames are.
\<close>

theorem effects_vanish:
  assumes "\<forall>e \<in> set (layer_effect c). effect_playing e" "0 \<le> m" "\<forall>f \<in> set fs. 0 \<le> snd f \<and> snd f \<le> m" "1 / 2 + 11 * m \<le> elapsed fs"
  shows "layer_effect (scene_frames fs c) = []"
proof (rule effects_gone [OF assms(1-3)], intro ballI allI impI)
  fix e b
  assume e: "e \<in> set (layer_effect c)" "GetFlipbook (effect_book (e_kind e)) = Some b"
  have p: "0 \<le> s_idx (e_sprite e)" "0 \<le> s_sumTime (e_sprite e)" using assms(1) e by (auto simp: effect_playing_def playing_def)
  define n where "n = (of_int (fb_end b) :: rat)"
  have n: "0 < n" "n \<le> 11" using effect_books(3,4) [OF e(2)] by (simp_all add: n_def)
  define k where "k = 1 / 2 / (n + 1) + m"
  have "fb_duration b / of_int (fb_end b + 1) + m = k"
    by (simp only: effect_books(5) [OF e(2)] k_def n_def of_int_add of_int_1)
  then have l: "left_to_play m b (e_sprite e) = of_int (fb_end b - s_idx (e_sprite e)) * k - s_sumTime (e_sprite e)"
    by (simp add: left_to_play_def)
  have "0 \<le> k" using n(1) assms(2) by (simp add: k_def)
  then have "left_to_play m b (e_sprite e) \<le> n * k"
    using mult_right_mono [of "of_int (fb_end b - s_idx (e_sprite e))" n k] p by (simp add: l n_def)
  moreover have "n * k = n * (1 / 2 / (n + 1)) + n * m" by (simp only: k_def distrib_left)
  moreover have "n * (1 / 2 / (n + 1)) \<le> 1 / 2" using n(1) by (simp add: divide_simps)
  moreover have "n * m \<le> 11 * m" using n(2) assms(2) by (rule mult_right_mono)
  ultimately show "left_to_play m b (e_sprite e) \<le> elapsed fs" using assms(4) by linarith
qed

section \<open>The camera\<close>

text \<open>In a world at least as large as the window the window stays inside it, and away from its edges the owner is in the middle.\<close>

lemma camera_in_world:
  fixes owner c :: Vec2
  assumes "GWinSizeX \<le> vx (GetWorldPixelSize tm)" "GWinSizeY \<le> vy (GetWorldPixelSize tm)"
  defines "p \<equiv> Camera_Tick tm owner c"
  shows "400 \<le> px p" "px p + 400 \<le> of_int (vx (GetWorldPixelSize tm))" "300 \<le> py p" "py p + 300 \<le> of_int (vy (GetWorldPixelSize tm))"
    "400 \<le> px owner \<Longrightarrow> px owner + 400 \<le> of_int (vx (GetWorldPixelSize tm)) \<Longrightarrow> px p = px owner"
proof -
  define w h where "w = (of_int (vx (GetWorldPixelSize tm)) :: rat)" and "h = (of_int (vy (GetWorldPixelSize tm)) :: rat)"
  have "800 \<le> w" "600 \<le> h" using assms(1,2) of_int_le_iff [of 800 _, where 'a = rat] of_int_le_iff [of 600 _, where 'a = rat]
    by (simp_all add: w_def h_def)
  moreover have "p = Pos (clamp (px owner) 400 (max 400 (w - 400))) (clamp (py owner) 300 (max 300 (h - 300)))"
    using assms(1,2) by (simp add: p_def Camera_Tick_def Let_def w_def h_def)
  ultimately show "400 \<le> px p" "px p + 400 \<le> w" "300 \<le> py p" "py p + 300 \<le> h"
    "400 \<le> px owner \<Longrightarrow> px owner + 400 \<le> w \<Longrightarrow> px p = px owner"
    by (simp_all add: clamp_def)
qed

section \<open>At concrete frames\<close>

definition lone_actor :: "ActorKind \<Rightarrow> int32 \<Rightarrow> Vec2 \<Rightarrow> Client" where
  "lone_actor k d dest =
     (Client_new (\<lambda>m. \<lparr>mapSize = Vec 0 0, tileSize = 48, tiles = []\<rparr>))\<lparr>actors :=
        [0 \<mapsto> (Actor_new k)\<lparr>a_info := ObjectInfo_default\<lparr>i_dir := d\<rparr>, a_sprite := (Sprite_new (Pos 0 0))\<lparr>s_dest := dest\<rparr>\<rparr>],
        next_addr := 1, layer_object := [0]\<rparr>"

lemma lone_actor_simps [simp]:
  "a_kind (the_actor 0 (lone_actor k d p)) = k" "i_dir (a_info (the_actor 0 (lone_actor k d p))) = d"
  "s_dest (sprite_of 0 (lone_actor k d p)) = p" "to_dest (sprite_of 0 (lone_actor k d p)) = p"
  by (simp_all add: lone_actor_def the_actor_def Actor_new_def to_dest_def Sprite_new_def minus_Vec2_def)

definition no_input :: InputManager where
  "no_input = \<lparr>key_states = (\<lambda>_. KeyNone), mousePos = Vec 0 0\<rparr>"

lemma lone_in_scene [simp]: "in_scene 0 (lone_actor k d p)"
  by (simp add: in_scene_def lone_actor_def)

definition all_pressed :: InputManager where
  "all_pressed = \<lparr>key_states = (\<lambda>_. KeyPress), mousePos = Vec 0 0\<rparr>"

text \<open>The own player is sent to the cell \<open>(1, 0)\<close>, whose middle is at \<open>(72, 24)\<close>.\<close>

theorem player_sprite_arrives_witness:
  "let c' = scene_frames [(all_pressed, 1 / 10), (no_input, 3 / 10), (all_pressed, 1 / 60)]
       (Handle_S_Move (ObjectInfo_default\<lparr>i_posx := 1, i_posy := 0\<rparr>) (lone_actor KMyPlayer DIR_RIGHT (Pos 0 0)))
   in Length (Pos 72 24 - s_pos (sprite_of 0 c')) \<le> 1 / 2 \<and> actor_pos (the_actor 0 c') = Vec 1 0"
proof -
  let ?c = "lone_actor KMyPlayer DIR_RIGHT (Pos 0 0)" and ?oi = "ObjectInfo_default\<lparr>i_posx := 1, i_posy := 0\<rparr>"
  have "GetObject (i_objectid ?oi) ?c = Some 0" "distinct (layer_object ?c)" "ConvertPos (scene_map ?c) (Vec 1 0) = Pos 72 24"
    "s_pos (sprite_of 0 ?c) = Pos 0 0"
    by (simp_all add: GetObject_def lone_actor_def the_actor_def Actor_new_def Sprite_new_def ConvertPos_def scene_map_def Client_new_def
        trunc_div_def)
  then show ?thesis
    using player_sprite_arrives [of ?oi ?c 0 "[(all_pressed, 1 / 10), (no_input, 3 / 10), (all_pressed, 1 / 60)]"]
    by (simp add: taxi_def minus_Vec2_def Let_def del: frames_simps(2))
qed

text \<open>Twenty-eight pixels from its place a frame of a fifteenth of a second leaves an arrow twelve pixels past it, and so on.\<close>

theorem long_frames_lose_an_arrow_witness:
  "to_dest (sprite_of 0 (scene_frames [(no_input, 1 / 15), (no_input, 1 / 30), (no_input, 1 / 30)]
     (lone_actor KArrow DIR_RIGHT (Pos 28 0)))) = ahead DIR_RIGHT (28 - 600 * (1 / 15 + elapsed [(no_input, 1 / 30), (no_input, 1 / 30)]))"
  by (rule long_frames_lose_an_arrow) (simp_all add: DIR_TYPE_IsValid_def ahead_def step_dir_def)

definition struck :: Client where
  "struck = SpawnEffect ExplodeEffect (Vec 3 4) (SpawnEffect HitEffect (Vec 3 4) (lone_actor KPlayer DIR_UP (Pos 0 0)))"

lemma struck_effects: "length (layer_effect struck) = 2" "\<forall>e \<in> set (layer_effect struck). effect_playing e"
proof -
  have none: "layer_effect (lone_actor KPlayer DIR_UP (Pos 0 0)) = []" by (simp add: lone_actor_def Client_new_def)
  then show "\<forall>e \<in> set (layer_effect struck). effect_playing e"
    unfolding struck_def by (intro SpawnEffect_playing) simp
  have "length (layer_effect (SpawnEffect k cell c)) = Suc (length (layer_effect c))" for k cell c
  proof -
    let ?s = "SetCellPos_sprite (scene_map c) cell True (Sprite_new (Pos 0 0))"
    obtain s where "SetFlipbook (GetFlipbook (effect_book k)) ?s = Some s"
      using SetFlipbook_loaded [OF effect_books_loaded [of k], of ?s] by blast
    then show ?thesis by (simp add: SpawnEffect_def)
  qed
  then show "length (layer_effect struck) = 2" using none by (simp add: struck_def)
qed

theorem effects_vanish_witness:
  "length (layer_effect struck) = 2 \<and> layer_effect (scene_frames (replicate 50 (no_input, 1 / 50)) struck) = []"
proof -
  have "elapsed (replicate 50 (no_input, 1 / 50)) = 1" by (simp add: elapsed_def sum_list_replicate)
  then show ?thesis using effects_vanish [of struck "1 / 50" "replicate 50 (no_input, 1 / 50)"] struck_effects by simp
qed

end
