(* ===== verification/ClientPanels_Props.thy ===== *)
theory ClientPanels_Props
  imports ClientInput
begin

text \<open>
  The widgets: a panel that is dragged follows the mouse, its children follow the panel, the map's buttons do not overlap; and
  the party panel, which can be dragged while nothing of it is to be seen.
\<close>

section \<open>Dragging\<close>

lemma trunc_div_double [simp]: "trunc_div (2 * w) 2 = w"
  by (auto simp: trunc_div_def)

lemma GetRect_width: "right (GetRect u) - left (GetRect u) = 2 * trunc_div (vx (u_size u)) 2"
  "bottom (GetRect u) - top (GetRect u) = 2 * trunc_div (vy (u_size u)) 2"
  by (simp_all add: GetRect_def Let_def)

text \<open>Where a panel's rectangle is, relative to another place of it.\<close>

definition shifted :: "Vec2Int \<Rightarrow> RECT \<Rightarrow> RECT" where
  "shifted v r = Rect (left r + vx v) (top r + vy v) (right r + vx v) (bottom r + vy v)"

definition held :: "InputManager \<Rightarrow> bool" where
  "held im \<longleftrightarrow> GetButton im LeftMouse \<or> GetButtonDown im LeftMouse"

definition grip :: "RECT \<Rightarrow> Vec2Int \<Rightarrow> Panel \<Rightarrow> bool" where
  "grip r m p \<longleftrightarrow> u_enabled p \<and> p_draggable p \<and> p_dragging p \<and> p_dragOffset p = m - Vec (left r) (top r)
     \<and> 2 * trunc_div (vx (u_size p)) 2 = right r - left r \<and> 2 * trunc_div (vy (u_size p)) 2 = bottom r - top r"

lemma grip_step:
  assumes "grip r m p" "held im"
  shows "grip r m (Panel_drag im p)" "GetRect (Panel_drag im p) = shifted (mousePos im - m) r"
proof -
  define w h where "w = trunc_div (vx (u_size p)) 2" and "h = trunc_div (vy (u_size p)) 2"
  have r: "right r = left r + 2 * w" "bottom r = top r + 2 * h" using assms(1) by (simp_all add: grip_def w_def h_def)
  have off: "vx (p_dragOffset p) = vx m - left r" "vy (p_dragOffset p) = vy m - top r" using assms(1) by (simp_all add: grip_def)
  have rect: "GetRect p = Rect (vx (u_pos p) - w) (vy (u_pos p) - h) (vx (u_pos p) + w) (vy (u_pos p) + h)"
    by (simp add: GetRect_def Let_def w_def h_def)
  have d: "Panel_drag im p = p\<lparr>u_pos := Vec (vx (mousePos im) - (vx m - left r) + w) (vy (mousePos im) - (vy m - top r) + h)\<rparr>"
    using assms by (simp add: Panel_drag_def grip_def held_def rect off r)
  show "grip r m (Panel_drag im p)" using assms(1) by (simp add: d grip_def)
  show "GetRect (Panel_drag im p) = shifted (mousePos im - m) r"
    by (simp add: d GetRect_def Let_def shifted_def r flip: w_def h_def)
qed

lemma grip_start:
  assumes "u_enabled p" "p_draggable p" "\<not> p_dragging p" "GetButtonDown im LeftMouse" "PtInRect (drag_handle p) (mousePos im)"
  shows "grip (GetRect p) (mousePos im) (Panel_drag im p)" "GetRect (Panel_drag im p) = GetRect p"
  using assms GetRect_width [of p] by (simp_all add: Panel_drag_def grip_def GetRect_def Let_def minus_VectorInt_def)

lemma grip_frames:
  assumes "grip r m p" "\<forall>im \<in> set ims. held im" "ims \<noteq> []"
  shows "GetRect (fold Panel_drag ims p) = shifted (mousePos (List.last ims) - m) r"
  using assms
proof (induction ims arbitrary: p)
  case (Cons im ims)
  then show ?case using grip_step [of r m p im] by (cases ims) simp_all
qed simp

text \<open>
  A panel keeps the point it was gripped at under the mouse: however the mouse moves while the button is held, the panel's
  rectangle is the one it was, moved as far as the mouse has.
\<close>

theorem dragged_panel_follows_the_mouse:
  assumes "u_enabled p" "p_draggable p" "\<not> p_dragging p" "GetButtonDown im LeftMouse" "PtInRect (drag_handle p) (mousePos im)"
    and "\<forall>k \<in> set ims. GetButton k LeftMouse \<or> GetButtonDown k LeftMouse"
  shows "GetRect (fold Panel_drag (im # ims) p) = shifted (mousePos (List.last (im # ims)) - mousePos im) (GetRect p)"
proof (cases "ims = []")
  case True
  then show ?thesis using grip_start(2) [OF assms(1-5)] by (simp add: shifted_def)
next
  case False
  then show ?thesis using grip_frames [OF grip_start(1) [OF assms(1-5)], of ims] assms(6) by (simp add: held_def)
qed

theorem dragged_panel_follows_the_mouse_witness:
  "let down = \<lparr>key_states = (\<lambda>_. KeyDown), mousePos = Vec 600 220\<rparr>; held = \<lparr>key_states = (\<lambda>_. KeyPress), mousePos = Vec 500 100\<rparr>
   in GetRect (fold Panel_drag [down, held] (RankingPanel_new\<lparr>u_visible := True\<rparr>)) = Rect 470 90 690 350"
proof -
  let ?p = "RankingPanel_new\<lparr>u_visible := True\<rparr>"
  let ?down = "\<lparr>key_states = (\<lambda>_. KeyDown), mousePos = Vec 600 220\<rparr>" and ?held = "\<lparr>key_states = (\<lambda>_. KeyPress), mousePos = Vec 500 100\<rparr>"
  have p: "u_enabled ?p" "p_draggable ?p" "\<not> p_dragging ?p" "GetRect ?p = Rect 570 210 790 470" "p_dragHandleHeight ?p = 30"
    by (simp_all add: RankingPanel_new_def SetDragHandleHeight_def Panel_new_def GetRect_def Let_def)
  then have "PtInRect (drag_handle ?p) (mousePos ?down)" by (simp add: drag_handle_def PtInRect_def)
  from dragged_panel_follows_the_mouse [OF p(1-3) _ this, of "[?held]"] show ?thesis
    by (simp add: GetButton_def GetButtonDown_def p(4) shifted_def Let_def)
qed

section \<open>Children\<close>

lemma placed: "u_pos (place_child q (i, off) uis i) = q + off"
  by (simp add: place_child_def)

lemma place_other: "j \<notin> fst ` set cs \<Longrightarrow> fold (place_child q) cs uis j = uis j"
  by (induction cs arbitrary: uis) (auto simp: place_child_def)

text \<open>Every child stands at its offset from the panel, each child being there once.\<close>

lemma children_follow:
  assumes "distinct (map fst (p_children p))" "(i, off) \<in> set (p_children p)"
  shows "u_pos (SyncChildren p uis i) = u_pos p + off"
proof -
  have "u_pos (fold (place_child q) cs uis i) = q + off" if "distinct (map fst cs)" "(i, off) \<in> set cs" for q cs uis
    using that
  proof (induction cs arbitrary: uis)
    case (Cons ch cs)
    show ?case
    proof (cases "fst ch = i")
      case True
      then have "i \<notin> fst ` set cs" using Cons.prems(1) by auto
      moreover from this have "ch = (i, off)" using Cons.prems(2) by (auto simp: rev_image_eqI)
      ultimately show ?thesis using place_other [of i cs q "place_child q ch uis"] placed [of q i off uis] by simp
    next
      case False
      then show ?thesis using Cons.IH Cons.prems by auto
    qed
  qed simp
  then show ?thesis using assms by (simp add: SyncChildren_def)
qed

lemma added_child_stays:
  assumes "AddChild i (p, uis) = (p', uis')" "i \<notin> fst ` set (p_children p)" "distinct (map fst (p_children p))"
  shows "u_pos (uis' i) = u_pos (uis i)"
proof -
  have "p' = p\<lparr>p_children := p_children p @ [(i, u_pos (uis i) - u_pos p)]\<rparr>" "uis' = SyncChildren p' uis"
    using assms(1) by (auto simp: AddChild_def AddChild_at_def Let_def)
  moreover from this have "u_pos (SyncChildren p' uis i) = u_pos p' + (u_pos (uis i) - u_pos p)"
    using assms(2,3) by (intro children_follow) auto
  ultimately show ?thesis by (cases "u_pos (uis i)"; cases "u_pos p") simp
qed

section \<open>The party panel that is not to be seen\<close>

lemma party_panel_packets [simp]: "party_panel (SendPacket q c) = party_panel c"
  by (simp add: SendPacket_def)

lemma party_panel_buttons:
  "\<forall>kf \<in> set kfs. \<forall>d. party_panel (snd kf d) = party_panel d \<Longrightarrow> party_panel (fold (tick_button im) kfs c) = party_panel c"
proof (induction kfs arbitrary: c)
  case (Cons kf kfs)
  have "party_panel (tick_button im kf c) = party_panel c"
    using Cons.prems by (cases kf) (simp add: tick_button_def Let_def split: prod.split)
  then show ?case using Cons by simp
qed simp

lemma party_panel_inventory: "party_panel (InventoryPanel_Tick E im c) = party_panel c"
proof -
  have "party_panel (HandleInventoryClick w h x y d) = party_panel d" for w h x y d
    by (simp add: HandleInventoryClick_def with_my_def Let_def split: option.split)
  then show ?thesis
    by (simp add: InventoryPanel_Tick_def HandleInventoryClick_at_def split: prod.split bool.split RECT.split)
qed

lemma TickPanels_party: "party_panel (TickPanels E im c) = tick_panel im (party_panel c)"
proof -
  have "party_panel (fold (tick_button im) [(0, OnClickTown1), (1, OnClickTown2), (2, OnClickDungeon)] c) = party_panel c"
    by (rule party_panel_buttons) (simp add: OnClickTown1_def OnClickTown2_def OnClickDungeon_def)
  then show ?thesis unfolding TickPanels_def Let_def by (simp add: party_panel_inventory del: fold.simps One_nat_def)
qed

text \<open>
  The party panel is drawn, and put in its place, only for a player with a party; but it takes the mouse from the start, in the
  middle of the window. A drag that begins there, with no party and nothing to be seen, moves it, and when there is a party it
  shows where it was dragged to and not in its place.
\<close>

theorem unseen_party_panel_is_dragged:
  assumes "party_panel c = PartyPanel_new" "GetButtonDown down LeftMouse" "GetButton drag LeftMouse"
    and "325 \<le> vx (mousePos down)" "vx (mousePos down) < 475" "225 \<le> vy (mousePos down)" "vy (mousePos down) < 245"
    and "mousePos drag \<noteq> mousePos down"
    and "party_panel later = party_panel (TickPanels E drag (TickPanels E down c))" "sprite_size E ''PartyStatus'' = Some sz"
    and "myPlayer later = Some i" "partyMembers (a_my (the_actor i later)) \<noteq> []"
  shows "u_pos (party_panel (UIManager_Render E later)) = Vec 400 300 + (mousePos drag - mousePos down)"
proof -
  let ?p = PartyPanel_new
  have p: "u_enabled ?p" "p_draggable ?p" "\<not> p_dragging ?p" "u_visible ?p" "GetRect ?p = Rect 325 225 475 375"
    "p_dragHandleHeight ?p = 20" "u_size ?p = Vec 150 150"
    by (simp_all add: PartyPanel_new_def SetDragHandleHeight_def Panel_new_def GetRect_def Let_def)
  have "PtInRect (drag_handle ?p) (mousePos down)" using assms(4-7) p(5,6) by (simp add: drag_handle_def PtInRect_def)
  then have g: "Panel_drag down ?p = ?p\<lparr>p_dragging := True, p_dragOffset := mousePos down - Vec 325 225\<rparr>"
    using assms(2) p by (simp add: Panel_drag_def minus_VectorInt_def)
  define q where "q = Panel_drag drag (Panel_drag down ?p)"
  have q: "u_pos q = Vec 400 300 + (mousePos drag - mousePos down)" "u_visible q"
    using assms(3) unfolding q_def g
    by (simp_all add: Panel_drag_def GetRect_def Let_def plus_VectorInt_def trunc_div_def PartyPanel_new_def SetDragHandleHeight_def
        Panel_new_def)
  have "party_panel later = q" using assms(1,9) p(4) by (simp add: TickPanels_party tick_panel_def q_def g)
  moreover have "u_pos q \<noteq> Vec 400 300"
    using assms(8) q(1) by (cases "mousePos drag"; cases "mousePos down") auto
  ultimately show ?thesis
    using assms(10-12) q
    by (simp add: UIManager_Render_def with_my_def Party_PrepareLayout_def Let_def the_actor_def split: option.split)
qed

definition panel_env :: ClientEnv where
  "panel_env = \<lparr>wide = id, prefix_of = (\<lambda>t. []), whisper_label = id,
     sprite_size = (\<lambda>s. if s = ''PartyStatus'' then Some (Vec 200 130) else None)\<rparr>"

definition later_party :: "Client \<Rightarrow> Client" where
  "later_party c = c\<lparr>myPlayer := Some 0, actors := [0 \<mapsto> (Actor_new KMyPlayer)\<lparr>a_my := MyData_new\<lparr>partyMembers :=
     [\<lparr>pm_playerid = 7, pm_name = ''ann'', pm_level = 1, pm_hp = 100, pm_maxhp = 100, pm_isleader = True\<rparr>]\<rparr>\<rparr>]\<rparr>"

theorem unseen_party_panel_is_dragged_witness:
  "let down = \<lparr>key_states = (\<lambda>_. KeyDown), mousePos = Vec 400 240\<rparr>; drag = \<lparr>key_states = (\<lambda>_. KeyPress), mousePos = Vec 700 500\<rparr>;
       c = TickPanels panel_env drag (TickPanels panel_env down (Client_new (\<lambda>m. \<lparr>mapSize = Vec 0 0, tileSize = 48, tiles = []\<rparr>)))
   in u_pos (party_panel (UIManager_Render panel_env (later_party c))) = Vec 700 560"
proof -
  let ?down = "\<lparr>key_states = (\<lambda>_. KeyDown), mousePos = Vec 400 240\<rparr>" and ?drag = "\<lparr>key_states = (\<lambda>_. KeyPress), mousePos = Vec 700 500\<rparr>"
  let ?c0 = "Client_new (\<lambda>m. \<lparr>mapSize = Vec 0 0, tileSize = 48, tiles = []\<rparr>)"
  let ?c = "TickPanels panel_env ?drag (TickPanels panel_env ?down ?c0)"
  have l: "party_panel (later_party ?c) = party_panel ?c" "myPlayer (later_party ?c) = Some 0"
    "partyMembers (a_my (the_actor 0 (later_party ?c))) \<noteq> []"
    by (simp_all add: later_party_def the_actor_def)
  have "sprite_size panel_env ''PartyStatus'' = Some (Vec 200 130)" by (simp add: panel_env_def)
  from unseen_party_panel_is_dragged [OF _ _ _ _ _ _ _ _ l(1) this l(2,3)] show ?thesis
    by (simp add: Let_def GetButton_def GetButtonDown_def Client_new_def)
qed

end
