(* ===== verification/ClientMain.thy ===== *)
theory ClientMain
  imports ClientInput Server
begin

text \<open>
  The client's frames: the clock, the command line, and \<open>Game\<close>, which takes the time, the keys and the packets of a frame and
  passes them to the scene.
\<close>

section \<open>TimeManager\<close>

record TimeManager =
  tm_frequency :: uint64
  tm_prevCount :: uint64
  tm_deltaTime :: rat
  tm_time :: rat
  tm_frameCount :: uint32
  tm_frameTime :: rat
  tm_fps :: uint32

definition TimeManager_Init :: "uint64 \<Rightarrow> uint64 \<Rightarrow> TimeManager" where
  "TimeManager_Init frequency counter =
     \<lparr>tm_frequency = frequency, tm_prevCount = counter, tm_deltaTime = 0, tm_time = 0, tm_frameCount = 0, tm_frameTime = 0,
      tm_fps = 0\<rparr>"

definition TimeManager_Update :: "uint64 \<Rightarrow> TimeManager \<Rightarrow> TimeManager" where
  "TimeManager_Update currentCount t =
     (let dt = of_nat (unat (currentCount - tm_prevCount t)) / of_nat (unat (tm_frequency t));
          n = tm_frameCount t + 1; ft = tm_frameTime t + dt;
          t1 = t\<lparr>tm_deltaTime := dt, tm_prevCount := currentCount, tm_frameCount := n, tm_frameTime := ft\<rparr>;
          t2 = (if ft \<ge> 1
                then t1\<lparr>tm_fps := word_of_int (int_of_float (of_nat (unat n) / ft)), tm_frameTime := 0, tm_frameCount := 0\<rparr>
                else t1)
      in t2\<lparr>tm_time := tm_time t2 + dt\<rparr>)"

section \<open>Game\<close>

text \<open>
  What a frame gets from outside: the performance counter, the keyboard and the mouse, the packets of the one completion
  \<open>Dispatch(0)\<close> takes, the chat panel's edit box, and the order \<open>std::sort\<close> leaves the objects in.
\<close>

record Frame =
  f_counter :: uint64
  f_pressed :: "(nat \<Rightarrow> bool) option"
  f_cursor :: Vec2Int
  f_received :: "byte list list"
  f_focused :: bool
  f_edit :: string
  f_order :: "nat list"

record Game =
  g_time :: TimeManager
  g_input :: InputManager
  g_client :: Client

definition Game_Init :: "uint64 \<Rightarrow> uint64 \<Rightarrow> Vec2Int \<Rightarrow> (int32 \<Rightarrow> Tilemap) \<Rightarrow> Game" where
  "Game_Init frequency counter cursor tms =
     \<lparr>g_time = TimeManager_Init frequency counter, g_input = \<lparr>key_states = \<lambda>_. KeyNone, mousePos = cursor\<rparr>,
      g_client = Client_new tms\<rparr>"

definition Game_Update :: "ClientEnv \<Rightarrow> (uint16 \<Rightarrow> byte list \<Rightarrow> spacket) \<Rightarrow> Frame \<Rightarrow> Game \<Rightarrow> Game" where
  "Game_Update E parse F g =
     (let tm = TimeManager_Update (f_counter F) (g_time g);
          im = InputManager_Update (f_pressed F) (f_cursor F) (g_input g);
          c = fold (Client_HandlePacket E parse) (f_received F) ((g_client g)\<lparr>cl_now := tm_time tm, cl_dt := tm_deltaTime tm\<rparr>)
      in \<lparr>g_time = tm, g_input = im, g_client = DevScene_Update E im (f_focused F) (f_edit F) c\<rparr>)"

definition Game_Render :: "ClientEnv \<Rightarrow> Frame \<Rightarrow> Game \<Rightarrow> Game" where
  "Game_Render E F g = g\<lparr>g_client := DevScene_Render E (f_order F) (g_client g)\<rparr>"

text \<open>One turn of the main loop in which no window message waits.\<close>

definition main_turn :: "ClientEnv \<Rightarrow> (uint16 \<Rightarrow> byte list \<Rightarrow> spacket) \<Rightarrow> Frame \<Rightarrow> Game \<Rightarrow> Game" where
  "main_turn E parse F g = Game_Render E F (Game_Update E parse F g)"

text \<open>The port on the command line; \<open>_wtoi\<close> is \<open>atoi\<close>.\<close>

definition client_port :: "string \<Rightarrow> uint16" where
  "client_port lpCmdLine =
     (if lpCmdLine \<noteq> [] \<and> atoi lpCmdLine > 0 then word_of_int (atoi lpCmdLine) else 7777)"

end
