(* ===== verification/DummyClient.thy ===== *)
theory DummyClient
  imports Server RoomData_Props
begin

text \<open>
  The load generator: bots that log in and then, as long as the program runs, send a move and an attack each time their
  intervals are over, and counters of what comes back, printed every second. Times are nanoseconds of the steady clock; what
  the bots' random directions are, and what protobuf makes of a payload, are arguments.
\<close>

section \<open>The counters\<close>

record DummyClientStats =
  st_recvEnterGame :: uint64
  st_recvMove :: uint64
  st_recvAttack :: uint64
  st_recvDamaged :: uint64
  st_recvTurn :: uint64

definition stats_zero :: DummyClientStats where
  "stats_zero = \<lparr>st_recvEnterGame = 0, st_recvMove = 0, st_recvAttack = 0, st_recvDamaged = 0, st_recvTurn = 0\<rparr>"

text \<open>\<open>parses i b\<close>: the payload \<open>b\<close> is a message with id \<open>i\<close>; \<open>enter_ok b\<close>: one of \<open>S_EnterGame\<close> with its success flag set.\<close>

record BotParsers =
  parses :: "uint16 \<Rightarrow> byte list \<Rightarrow> bool"
  enter_ok :: "byte list \<Rightarrow> bool"

definition count_received :: "uint16 \<Rightarrow> DummyClientStats \<Rightarrow> DummyClientStats" where
  "count_received i st =
     (if i = 202 then st\<lparr>st_recvEnterGame := st_recvEnterGame st + 1\<rparr>
      else if i = 206 then st\<lparr>st_recvMove := st_recvMove st + 1\<rparr>
      else if i = 207 then st\<lparr>st_recvAttack := st_recvAttack st + 1\<rparr>
      else if i = 208 then st\<lparr>st_recvDamaged := st_recvDamaged st + 1\<rparr>
      else if i = 212 then st\<lparr>st_recvTurn := st_recvTurn st + 1\<rparr>
      else st)"

text \<open>\<open>None\<close>: the header or the payload is read outside of the packet.\<close>

definition Dummy_HandlePacket :: "BotParsers \<Rightarrow> byte list \<Rightarrow> DummyClientStats \<Rightarrow> DummyClientStats option" where
  "Dummy_HandlePacket ps buf st =
     (if length buf < sizeof_PacketHeader then None
      else let i = hid (header_at buf 0)
           in if i \<notin> {202, 206, 207, 208, 212} then Some st
              else case ParsePacket buf of
                None \<Rightarrow> None
              | Some b \<Rightarrow> Some (if parses ps i b then count_received i st else st))"

definition ConsumeStats :: "DummyClientStats \<Rightarrow> DummyClientStats \<times> DummyClientStats" where
  "ConsumeStats st = (st, stats_zero)"

section \<open>A bot\<close>

text \<open>\<open>b_rng\<close> is what the distribution will draw; \<open>b_sent\<close> the packets given to \<open>Send\<close>, each with the time of the call.\<close>

record Bot =
  b_botId :: int32
  b_moveIntervalMs :: int32
  b_attackIntervalMs :: int32
  b_loggedIn :: bool
  b_rng :: "nat \<Rightarrow> int32"
  b_nextMoveAt :: int
  b_nextAttackAt :: int
  b_sent :: "(int \<times> cpacket) list"

definition Bot_new :: "(nat \<Rightarrow> int32) \<Rightarrow> int32 \<Rightarrow> int32 \<Rightarrow> int32 \<Rightarrow> Bot" where
  "Bot_new rng botId move attack =
     \<lparr>b_botId = botId, b_moveIntervalMs = move, b_attackIntervalMs = attack, b_loggedIn = False, b_rng = rng,
      b_nextMoveAt = 0, b_nextAttackAt = 0, b_sent = []\<rparr>"

definition milliseconds :: "int32 \<Rightarrow> int" where "milliseconds n = 1000000 * n"

definition Bot_Send :: "int \<Rightarrow> cpacket \<Rightarrow> Bot \<Rightarrow> Bot" where
  "Bot_Send now p b = b\<lparr>b_sent := b_sent b @ [(now, p)]\<rparr>"

text \<open>\<open>_dirDist(_rng)\<close>\<close>

definition draw_dir :: "Bot \<Rightarrow> int32 \<times> Bot" where
  "draw_dir b = (b_rng b 0, b\<lparr>b_rng := \<lambda>n. b_rng b (Suc n)\<rparr>)"

definition Bot_OnConnected :: "int \<Rightarrow> Bot \<Rightarrow> Bot" where
  "Bot_OnConnected now b =
     (Bot_Send now (C_Login (''bot_'' @ show_int (b_botId b))) b)\<lparr>b_nextMoveAt := now, b_nextAttackAt := now\<rparr>"

definition Bot_OnRecvPacket :: "BotParsers \<Rightarrow> byte list \<Rightarrow> Bot \<times> DummyClientStats \<Rightarrow> (Bot \<times> DummyClientStats) option" where
  "Bot_OnRecvPacket ps buf bs =
     (case bs of (b, st) \<Rightarrow>
        if length buf < sizeof_PacketHeader then None
        else if hid (header_at buf 0) = 202 then
          (case ParsePacket buf of
             None \<Rightarrow> None
           | Some payload \<Rightarrow>
               map_option (\<lambda>st'. (if enter_ok ps payload then b\<lparr>b_loggedIn := True\<rparr> else b, st')) (Dummy_HandlePacket ps buf st))
        else map_option (\<lambda>st'. (b, st')) (Dummy_HandlePacket ps buf st))"

definition move_due :: "int \<Rightarrow> Bot \<Rightarrow> Bot" where
  "move_due now b =
     (if now < b_nextMoveAt b then b
      else let (dir, b1) = draw_dir b
           in (Bot_Send now (C_Move dir) b1)\<lparr>b_nextMoveAt := now + milliseconds (b_moveIntervalMs b)\<rparr>)"

definition attack_due :: "int \<Rightarrow> Bot \<Rightarrow> Bot" where
  "attack_due now b =
     (if now < b_nextAttackAt b then b
      else let (dir, b1) = draw_dir b
           in (Bot_Send now (C_Attack dir WEAPON_TYPE_SWORD) b1)\<lparr>b_nextAttackAt := now + milliseconds (b_attackIntervalMs b)\<rparr>)"

definition Bot_Tick :: "int \<Rightarrow> Bot \<Rightarrow> Bot" where
  "Bot_Tick now b = (if \<not> b_loggedIn b then b else attack_due now (move_due now b))"

section \<open>The program\<close>

text \<open>The numbers of the command line: bots, threads, and the two intervals in milliseconds.\<close>

definition ParseArgs :: "string list \<Rightarrow> int32 \<times> int32 \<times> int32 \<times> int32" where
  "ParseArgs argv =
     (if length argv \<ge> 2 then max 1 (atoi (argv ! 1)) else 100,
      if length argv \<ge> 3 then max 1 (atoi (argv ! 2)) else 4,
      if length argv \<ge> 4 then max 10 (atoi (argv ! 3)) else 120,
      if length argv \<ge> 5 then max 50 (atoi (argv ! 4)) else 700)"

record Dummy =
  d_bots :: "Bot list"
  d_stats :: DummyClientStats
  d_lastStatTime :: int
  d_printed :: "DummyClientStats list"

text \<open>\<open>main\<close> up to its loop: the service makes one session per bot, with the ids from 1 on.\<close>

definition Dummy_start :: "(nat \<Rightarrow> nat \<Rightarrow> int32) \<Rightarrow> string list \<Rightarrow> int \<Rightarrow> Dummy" where
  "Dummy_start rngs argv now =
     (case ParseArgs argv of (bots, threads, move, attack) \<Rightarrow>
        \<lparr>d_bots = map (\<lambda>k. Bot_new (rngs k) (int k + 1) move attack) [0..<nat bots], d_stats = stats_zero,
         d_lastStatTime = now, d_printed = []\<rparr>)"

text \<open>One turn of the loop.\<close>

definition sweep :: "int \<Rightarrow> Dummy \<Rightarrow> Dummy" where
  "sweep now d =
     (let d1 = d\<lparr>d_bots := map (Bot_Tick now) (d_bots d)\<rparr>
      in if now - d_lastStatTime d1 \<ge> milliseconds 1000
         then (let (s, st) = ConsumeStats (d_stats d1)
               in d1\<lparr>d_stats := st, d_printed := d_printed d1 @ [s], d_lastStatTime := now\<rparr>)
         else d1)"

text \<open>What happens: a turn of the loop, or a completion in a worker thread.\<close>

datatype devent = Sweep int | Connected nat int | Received nat "byte list"

fun dummy_step :: "BotParsers \<Rightarrow> devent \<Rightarrow> Dummy \<Rightarrow> Dummy option" where
  "dummy_step ps (Sweep now) d = Some (sweep now d)"
| "dummy_step ps (Connected k now) d = Some (d\<lparr>d_bots := (d_bots d)[k := Bot_OnConnected now (d_bots d ! k)]\<rparr>)"
| "dummy_step ps (Received k buf) d =
     map_option (\<lambda>(b, st). d\<lparr>d_bots := (d_bots d)[k := b], d_stats := st\<rparr>)
       (Bot_OnRecvPacket ps buf (d_bots d ! k, d_stats d))"

fun dummy_run :: "BotParsers \<Rightarrow> devent list \<Rightarrow> Dummy \<Rightarrow> Dummy option" where
  "dummy_run ps [] d = Some d"
| "dummy_run ps (e # es) d = (case dummy_step ps e d of None \<Rightarrow> None | Some d1 \<Rightarrow> dummy_run ps es d1)"

end
