(* ===== verification/DummyClient_Props.thy ===== *)
theory DummyClient_Props
  imports DummyClient
begin

text \<open>
  What the load generator may be relied on for: whatever the command line says and however its loop and its worker threads
  interleave, no bot sends faster than its intervals allow, nothing before its login is accepted, and nothing the server would
  have to refuse.
\<close>

section \<open>Spaced times\<close>

definition spaced :: "int \<Rightarrow> int list \<Rightarrow> bool" where
  "spaced g ts \<longleftrightarrow> sorted_wrt (\<lambda>s t. s + g \<le> t) ts"

lemma spaced_snoc: "spaced g (ts @ [t]) \<longleftrightarrow> spaced g ts \<and> (\<forall>s \<in> set ts. s + g \<le> t)"
  by (auto simp: spaced_def sorted_wrt_append)

text \<open>In a window of width \<open>w\<close> there are at most \<open>w / g + 1\<close> times that are \<open>g\<close> apart.\<close>

lemma spaced_length:
  assumes "spaced g ts" "0 < g" "0 \<le> w" "\<forall>t \<in> set ts. a \<le> t \<and> t \<le> a + w"
  shows "int (length ts) * g \<le> w + g"
  using assms
proof (induction ts arbitrary: a w)
  case (Cons t ts)
  show ?case
  proof (cases ts)
    case Nil
    with Cons.prems show ?thesis by simp
  next
    case (Cons u us)
    have later: "\<forall>s \<in> set ts. t + g \<le> s" using Cons.prems(1) by (simp add: spaced_def)
    have "0 \<le> w - g" using later Cons.prems(4) Cons by auto
    moreover have "\<forall>s \<in> set ts. (a + g) \<le> s \<and> s \<le> (a + g) + (w - g)" using later Cons.prems(4) by auto
    moreover have "spaced g ts" using Cons.prems(1) by (simp add: spaced_def)
    ultimately have "int (length ts) * g \<le> (w - g) + g" using Cons.prems(2) by (intro Cons.IH)
    then show ?thesis by (simp add: algebra_simps)
  qed
qed simp

lemma spaced_window:
  assumes "spaced g ts" "0 < g" "0 \<le> w"
  shows "int (length (filter (\<lambda>t. a \<le> t \<and> t \<le> a + w) ts)) * g \<le> w + g"
  using assms by (intro spaced_length [of g _ w a]) (simp_all add: spaced_def sorted_wrt_filter)

section \<open>One bot\<close>

definition times_of :: "(cpacket \<Rightarrow> bool) \<Rightarrow> Bot \<Rightarrow> int list" where
  "times_of P b = map fst (filter (P \<circ> snd) (b_sent b))"

fun is_move :: "cpacket \<Rightarrow> bool" where "is_move (C_Move d) = True" | "is_move p = False"
fun is_attack :: "cpacket \<Rightarrow> bool" where "is_attack (C_Attack d w) = True" | "is_attack p = False"

text \<open>What a bot with a given id may send.\<close>

fun bot_packet :: "int32 \<Rightarrow> cpacket \<Rightarrow> bool" where
  "bot_packet i (C_Login name) = (name = ''bot_'' @ show_int i)"
| "bot_packet i (C_Move d) = DIR_TYPE_IsValid d"
| "bot_packet i (C_Attack d w) = (DIR_TYPE_IsValid d \<and> w = WEAPON_TYPE_SWORD)"
| "bot_packet i p = False"

definition bot_ok :: "int32 \<Rightarrow> int32 \<Rightarrow> Bot \<Rightarrow> bool" where
  "bot_ok move attack b \<longleftrightarrow> b_moveIntervalMs b = move \<and> b_attackIntervalMs b = attack
     \<and> (\<forall>n. DIR_TYPE_IsValid (b_rng b n))
     \<and> spaced (milliseconds move) (times_of is_move b) \<and> (\<forall>t \<in> set (times_of is_move b). t + milliseconds move \<le> b_nextMoveAt b)
     \<and> spaced (milliseconds attack) (times_of is_attack b)
     \<and> (\<forall>t \<in> set (times_of is_attack b). t + milliseconds attack \<le> b_nextAttackAt b)
     \<and> (\<forall>p \<in> snd ` set (b_sent b). bot_packet (b_botId b) p)
     \<and> (\<not> b_loggedIn b \<longrightarrow> (\<forall>p \<in> snd ` set (b_sent b). \<not> is_move p \<and> \<not> is_attack p))"

lemma times_of_Send [simp]:
  "times_of P (Bot_Send now p b) = times_of P b @ (if P p then [now] else [])"
  by (simp add: times_of_def Bot_Send_def)

lemma times_of_frame [simp]:
  "times_of P (b\<lparr>b_rng := r\<rparr>) = times_of P b" "times_of P (b\<lparr>b_nextMoveAt := m\<rparr>) = times_of P b"
  "times_of P (b\<lparr>b_nextAttackAt := m\<rparr>) = times_of P b" "times_of P (b\<lparr>b_loggedIn := l\<rparr>) = times_of P b"
  by (simp_all add: times_of_def)

lemma bot_ok_new: "\<forall>n. DIR_TYPE_IsValid (rng n) \<Longrightarrow> bot_ok m a (Bot_new rng i m a)"
  by (simp add: bot_ok_def Bot_new_def times_of_def spaced_def)

lemma bot_ok_move_due: "bot_ok m a b \<Longrightarrow> b_loggedIn b \<Longrightarrow> 0 \<le> m \<Longrightarrow> bot_ok m a (move_due now b)"
  by (auto simp: bot_ok_def move_due_def draw_dir_def Bot_Send_def times_of_def spaced_snoc milliseconds_def Let_def
      intro: order_trans)

lemma bot_ok_attack_due: "bot_ok m a b \<Longrightarrow> b_loggedIn b \<Longrightarrow> 0 \<le> a \<Longrightarrow> bot_ok m a (attack_due now b)"
  by (auto simp: bot_ok_def attack_due_def draw_dir_def Bot_Send_def times_of_def spaced_snoc milliseconds_def Let_def
      intro: order_trans)

lemma bot_ok_Tick: "bot_ok m a b \<Longrightarrow> 0 \<le> m \<Longrightarrow> 0 \<le> a \<Longrightarrow> bot_ok m a (Bot_Tick now b)"
  using bot_ok_move_due [of m a b now] bot_ok_attack_due [of m a "move_due now b" now]
  by (auto simp: Bot_Tick_def move_due_def draw_dir_def Bot_Send_def Let_def)

text \<open>Before a packet has come in the bot is not logged in, so that connecting finds no earlier move or attack.\<close>

lemma bot_ok_OnConnected: "bot_ok m a b \<Longrightarrow> \<not> b_loggedIn b \<Longrightarrow> bot_ok m a (Bot_OnConnected now b)"
proof -
  assume ok: "bot_ok m a b" and l: "\<not> b_loggedIn b"
  have none: "times_of is_move b = []" "times_of is_attack b = []"
    using ok l by (auto simp: bot_ok_def times_of_def filter_empty_conv)
  then show ?thesis using ok l
    by (auto simp: bot_ok_def Bot_OnConnected_def Bot_Send_def times_of_def spaced_def)
qed

lemma Bot_OnRecvPacket_frame:
  assumes "frame buf"
  obtains l st' where "Bot_OnRecvPacket ps buf (b, st) = Some (b\<lparr>b_loggedIn := l\<rparr>, st')" "b_loggedIn b \<longrightarrow> l"
proof -
  obtain payload where p: "ParsePacket buf = Some payload" "\<not> length buf < sizeof_PacketHeader"
    using assms by (auto simp: frame_def ParsePacket_def Let_def)
  then obtain st' where h: "Dummy_HandlePacket ps buf st = Some st'"
    by (cases "hid (header_at buf 0) \<in> {202, 206, 207, 208, 212}") (auto simp: Dummy_HandlePacket_def Let_def)
  have b: "b = b\<lparr>b_loggedIn := b_loggedIn b\<rparr>" by simp
  show thesis
  proof (cases "hid (header_at buf 0) = 202 \<and> enter_ok ps payload")
    case True
    with p h that [of True st'] show thesis by (simp add: Bot_OnRecvPacket_def)
  next
    case False
    with p h that [of "b_loggedIn b" st'] show thesis by (auto simp: Bot_OnRecvPacket_def)
  qed
qed

lemma bot_ok_login: "bot_ok m a b \<Longrightarrow> (b_loggedIn b \<Longrightarrow> l) \<Longrightarrow> bot_ok m a (b\<lparr>b_loggedIn := l\<rparr>)"
  by (auto simp: bot_ok_def)

section \<open>All of them\<close>

text \<open>
  What the service does, as \<open>Listener\<close> and \<open>Framing\<close> have it: a session is told once that it is connected, and gets packets,
  each a whole frame, only after that.
\<close>

fun orderly :: "nat \<Rightarrow> nat list \<Rightarrow> devent list \<Rightarrow> bool" where
  "orderly n seen [] = True"
| "orderly n seen (Sweep now # es) = orderly n seen es"
| "orderly n seen (Connected k now # es) = (k < n \<and> k \<notin> set seen \<and> orderly n (k # seen) es)"
| "orderly n seen (Received k buf # es) = (k \<in> set seen \<and> frame buf \<and> orderly n seen es)"

definition bots_ok :: "int32 \<Rightarrow> int32 \<Rightarrow> nat list \<Rightarrow> Bot list \<Rightarrow> bool" where
  "bots_ok m a seen bs \<longleftrightarrow> (\<forall>b \<in> set bs. bot_ok m a b) \<and> (\<forall>k < length bs. k \<notin> set seen \<longrightarrow> \<not> b_loggedIn (bs ! k))
     \<and> (\<forall>k \<in> set seen. k < length bs)"

lemma bots_ok_update:
  assumes "bots_ok m a seen bs" "bot_ok m a b" "k < length bs"
  shows "bots_ok m a (k # seen) (bs[k := b])"
proof -
  have "\<forall>x \<in> set (bs[k := b]). bot_ok m a x"
    using assms set_update_subset_insert [of bs k b] by (auto simp: bots_ok_def)
  then show ?thesis using assms by (auto simp: bots_ok_def nth_list_update)
qed

lemma bots_ok_insert: "k \<in> set seen \<Longrightarrow> bots_ok m a (k # seen) bs = bots_ok m a seen bs"
  by (simp add: bots_ok_def insert_absorb)

lemma Tick_loggedIn [simp]: "b_loggedIn (Bot_Tick now b) = b_loggedIn b"
  by (simp add: Bot_Tick_def move_due_def attack_due_def draw_dir_def Bot_Send_def Let_def)

lemma sweep_bots [simp]: "d_bots (sweep now d) = map (Bot_Tick now) (d_bots d)"
  by (simp add: sweep_def Let_def ConsumeStats_def)

lemma dummy_run_ok:
  assumes "bots_ok m a seen (d_bots d)" "orderly (length (d_bots d)) seen es" "0 \<le> m" "0 \<le> a"
  shows "\<exists>d'. dummy_run ps es d = Some d' \<and> (\<forall>b \<in> set (d_bots d'). bot_ok m a b)"
  using assms
proof (induction es arbitrary: seen d)
  case Nil
  then show ?case by (simp add: bots_ok_def)
next
  case (Cons e es)
  show ?case
  proof (cases e)
    case (Sweep now)
    have "bots_ok m a seen (d_bots (sweep now d))"
      using Cons.prems by (auto simp: bots_ok_def bot_ok_Tick)
    from Cons.IH [OF this] Cons.prems Sweep show ?thesis by simp
  next
    case (Connected k now)
    then have k: "k < length (d_bots d)" "k \<notin> set seen" using Cons.prems(2) by simp_all
    let ?b = "Bot_OnConnected now (d_bots d ! k)"
    have "bot_ok m a ?b" using Cons.prems(1) k by (intro bot_ok_OnConnected) (simp_all add: bots_ok_def)
    from bots_ok_update [OF Cons.prems(1) this k(1)]
    have "bots_ok m a (k # seen) (d_bots (d\<lparr>d_bots := (d_bots d)[k := ?b]\<rparr>))" by simp
    from Cons.IH [OF this] Cons.prems Connected show ?thesis by simp
  next
    case (Received k buf)
    then have k: "k \<in> set seen" "frame buf" "k < length (d_bots d)" using Cons.prems by (simp_all add: bots_ok_def)
    obtain l st' where r: "Bot_OnRecvPacket ps buf (d_bots d ! k, d_stats d) = Some ((d_bots d ! k)\<lparr>b_loggedIn := l\<rparr>, st')"
      "b_loggedIn (d_bots d ! k) \<longrightarrow> l"
      by (rule Bot_OnRecvPacket_frame [OF k(2), of ps "d_bots d ! k" "d_stats d"])
    let ?b = "(d_bots d ! k)\<lparr>b_loggedIn := l\<rparr>"
    have "bot_ok m a ?b" using Cons.prems(1) k(3) r(2) by (intro bot_ok_login) (simp_all add: bots_ok_def)
    from bots_ok_update [OF Cons.prems(1) this k(3)]
    have "bots_ok m a seen (d_bots (d\<lparr>d_bots := (d_bots d)[k := ?b], d_stats := st'\<rparr>))"
      using bots_ok_insert [OF k(1)] by simp
    from Cons.IH [OF this] Cons.prems Received r(1) show ?thesis by simp
  qed
qed

lemma ParseArgs_bounds: "ParseArgs argv = (bots, threads, move, attack) \<Longrightarrow> 1 \<le> bots \<and> 1 \<le> threads \<and> 10 \<le> move \<and> 50 \<le> attack"
  by (auto simp: ParseArgs_def split: if_splits)

text \<open>
  C33. Whatever the command line and the interleaving of the loop with the worker threads, every packet is read inside its
  buffer, and every bot sends, in any window of \<open>w\<close> nanoseconds, at most one move more than \<open>w\<close> holds move intervals and one
  attack more than it holds attack intervals, which are at least 10 and 50 milliseconds; it sends only its login, moves and
  sword strokes in one of the four directions, and no move or stroke before its login is accepted.
\<close>

theorem bots_keep_the_rate:
  assumes "\<And>k n. DIR_TYPE_IsValid (rngs k n)" "ParseArgs argv = (bots, threads, move, attack)" "orderly (nat bots) [] es" "0 \<le> w"
  shows "case dummy_run ps es (Dummy_start rngs argv now) of
      None \<Rightarrow> False
    | Some d \<Rightarrow> (\<forall>b \<in> set (d_bots d).
        int (length (filter (\<lambda>t. start \<le> t \<and> t \<le> start + w) (times_of is_move b))) * milliseconds move \<le> w + milliseconds move
        \<and> int (length (filter (\<lambda>t. start \<le> t \<and> t \<le> start + w) (times_of is_attack b))) * milliseconds attack \<le> w + milliseconds attack
        \<and> (\<forall>p \<in> snd ` set (b_sent b). bot_packet (b_botId b) p)
        \<and> (b_loggedIn b \<or> (\<forall>p \<in> snd ` set (b_sent b). \<not> is_move p \<and> \<not> is_attack p)))
      \<and> 10 \<le> move \<and> 50 \<le> attack"
proof -
  let ?d = "Dummy_start rngs argv now"
  have lim: "10 \<le> move" "50 \<le> attack" using ParseArgs_bounds [OF assms(2)] by simp_all
  have bs: "d_bots ?d = map (\<lambda>k. Bot_new (rngs k) (int k + 1) move attack) [0..<nat bots]"
    by (simp add: Dummy_start_def assms(2))
  have "bots_ok move attack [] (d_bots ?d)"
    using assms(1) by (auto simp: bots_ok_def bs bot_ok_new) (simp add: Bot_new_def)
  from dummy_run_ok [OF this, of es ps] assms(3) lim obtain d where
    d: "dummy_run ps es ?d = Some d" "\<forall>b \<in> set (d_bots d). bot_ok move attack b"
    by (auto simp: bs)
  have g: "0 < milliseconds move" "0 < milliseconds attack" using lim by (simp_all add: milliseconds_def)
  show ?thesis
    using d(2) spaced_window [OF _ g(1) assms(4)] spaced_window [OF _ g(2) assms(4)] lim
    by (auto simp: d(1) bot_ok_def)
qed

definition two_bots :: "devent list" where
  "two_bots = [Connected 0 5, Sweep 6, Received 0 [4, 0, 202, 0], Sweep 10, Connected 1 11, Sweep 20]"

theorem bots_keep_the_rate_witness:
  "case dummy_run \<lparr>parses = (\<lambda>i b. True), enter_ok = (\<lambda>b. True)\<rparr> two_bots (Dummy_start (\<lambda>k n. 0) [''bots'', ''2''] 0) of
      None \<Rightarrow> False
    | Some d \<Rightarrow> \<forall>b \<in> set (d_bots d).
        int (length (filter (\<lambda>t. 0 \<le> t \<and> t \<le> 0 + 100) (times_of is_move b))) * milliseconds 120 \<le> 100 + milliseconds 120"
proof -
  let ?ps = "\<lparr>parses = (\<lambda>i b. True), enter_ok = (\<lambda>b. True)\<rparr>" and ?d = "Dummy_start (\<lambda>k n. 0) [''bots'', ''2''] 0"
  have v: "DIR_TYPE_IsValid 0" by (simp add: DIR_TYPE_IsValid_def)
  have a: "ParseArgs [''bots'', ''2''] = (2, 4, 120, 700)"
    by (simp add: ParseArgs_def atoi_def is_space_def is_digit_def char_code_def)
  have o: "orderly (nat 2) [] two_bots"
    by (simp add: two_bots_def frame_def sizeof_PacketHeader_def header_at_def le16_value_def)
  show ?thesis
    using bots_keep_the_rate [OF v a o, where w = 100 and ps = ?ps and now = 0 and start = 0]
    by (auto split: option.splits)
qed

end
