(* ===== verification/Multi.thy ===== *)
theory Multi
  imports Server
begin

text \<open>
  The server's \<open>multi\<close> mode: worker threads that take completions from the port and one thread that updates the rooms. A thread's code
  is the list of the blocks it still has to run; a block is what a thread does between two points where another can come in
  between, that is one call that takes a lock, reads a \<open>weak_ptr\<close> or asks the database or Redis. A job and a step of a room are one
  block each: all of them run on the update thread, and the blocks of a worker touch the rooms' queues, the sessions' set, the
  database and the parties, but neither the rooms' maps nor what stands in them.
\<close>

section \<open>Blocks\<close>

datatype block =
    Connected SessionId
  | ChatPacket "byte list"
  | ChatUp bool
  | Published "RelayChat option"
  | Received SessionId "byte list" "redis_elem list option"
  | PushTo RoomRef job
  | LoginAccount SessionId string
  | LoginCreate SessionId string int
  | LoginLoad SessionId string int uint64
  | LoginTell SessionId string int uint64
  | LoginEnter SessionId string uint64
  | LoginRedis string uint64
  | DropSession SessionId
  | SaveSession SessionId
  | FindParty SessionId uint64
  | LeaveParty SessionId uint64 uint64
  | TellParty SessionId uint64
  | ForgetLocation uint64
  | LeaveRoomOf SessionId
  | UpdateAll uint64
  | UpdateDungeons uint64
  | UpdateEnd
  | UpdateRoom uint64 RoomRef
  | RunJob RoomRef job
  | StartClock uint64 RoomRef
  | CatchUp uint64 RoomRef nat
  | DropTime uint64 RoomRef
  | Report uint64 uint64
  | Reconnect uint64

section \<open>Packets\<close>

text \<open>The request a packet makes of the session's room, and the counter it counts in.\<close>

definition request_of :: "Parsers \<Rightarrow> byte list \<Rightarrow> cpacket option" where
  "request_of ps buf =
     (if length buf < sizeof_PacketHeader then None
      else let i = hid (header_at buf 0)
           in if i = 110 then Some C_PartyLeave
              else case ParsePacket buf of
                     None \<Rightarrow> None
                   | Some b \<Rightarrow>
                       if i = 101 then Some (C_Move (parse_Move ps b))
                       else if i = 102 then Some (case parse_Attack ps b of (d, wp) \<Rightarrow> C_Attack d wp)
                       else if i = 103 then Some (case parse_ChangeMap ps b of (m, ch) \<Rightarrow> C_ChangeMap m ch)
                       else if i = 104 then Some (C_Turn (parse_Turn ps b))
                       else if i = 105 then Some (C_EquipItem (parse_EquipItem ps b))
                       else if i = 106 then Some (C_UnequipItem (parse_UnequipItem ps b))
                       else if i = 107 then Some (C_UseItem (parse_UseItem ps b))
                       else if i = 108 then Some (C_PartyInvite (parse_PartyInvite ps b))
                       else if i = 109 then Some (case parse_PartyAnswer ps b of (j, a) \<Rightarrow> C_PartyAnswer j a)
                       else None)"

definition count_request :: "byte list \<Rightarrow> Server \<Rightarrow> Server" where
  "count_request buf sv =
     (let i = hid (header_at buf 0)
      in if i = 101 then sv\<lparr>recvMove := recvMove sv + 1\<rparr>
         else if i = 102 then sv\<lparr>recvAttack := recvAttack sv + 1\<rparr>
         else if i = 104 then sv\<lparr>recvTurn := recvTurn sv + 1\<rparr> else sv)"

definition login_name :: "Parsers \<Rightarrow> byte list \<Rightarrow> string option" where
  "login_name ps buf =
     (if length buf < sizeof_PacketHeader \<or> hid (header_at buf 0) \<noteq> 111 then None
      else map_option (parse_Login ps) (ParsePacket buf))"

section \<open>Running a block\<close>

text \<open>What the block leaves to do in front of the rest of its thread, and the server after it.\<close>

fun exec :: "Env \<Rightarrow> block \<Rightarrow> Server \<Rightarrow> block list \<times> Server" where
  "exec E (Connected s) sv = ([], OnConnected s sv)"
| "exec E (ChatPacket buf) sv = ([], Relay_OnRecvPacket (env_parsers E) (env_sorry E) buf sv)"
| "exec E (ChatUp up) sv = ([], handle E (EvChatUp up) sv)"
| "exec E (Published m) sv = ([], Subscriber_on_message m sv)"
| "exec E (Received s buf rk) sv =
     (case request_of (env_parsers E) buf of
        Some c \<Rightarrow>
          ((case session_room s (world sv) of None \<Rightarrow> [] | Some r \<Rightarrow> [PushTo r (JobPacket s c)]), count_request buf sv)
      | None \<Rightarrow>
          (case login_name (env_parsers E) buf of
             Some n \<Rightarrow> (if n = '''' then [] else [LoginAccount s n], sv)
           | None \<Rightarrow> ([], HandlePacket (env_parsers E) (env_stod E) rk s buf sv)))"
| "exec E (PushTo r j) sv = ([], on_world (PushJob r j) sv)"
| "exec E (LoginAccount s n) sv =
     (case FindOrCreateAccount n (db sv) of (acc, d) \<Rightarrow> (if acc = 0 then [] else [LoginCreate s n acc], sv\<lparr>db := d\<rparr>))"
| "exec E (LoginCreate s n acc) sv =
     (let sv1 = on_world (\<lambda>w. put_session s ((the_session s w)\<lparr>gs_account := acc\<rparr>) w) sv
      in case CreatePlayer (world sv1) of (pid, w) \<Rightarrow> ([LoginLoad s n acc pid], sv1\<lparr>world := w\<rparr>))"
| "exec E (LoginLoad s n acc pid) sv = ([LoginTell s n acc pid], login_player acc n pid sv)"
| "exec E (LoginTell s n acc pid) sv = ([LoginEnter s n pid], on_world (send_packet s (S_EnterGame True acc)) sv)"
| "exec E (LoginEnter s n pid) sv =
     ((case GetStaticRoom Town 1 (world sv) of None \<Rightarrow> [] | Some r \<Rightarrow> [PushTo r (JobEnter s pid)]) @ [LoginRedis n pid], sv)"
| "exec E (LoginRedis n pid) sv =
     ([], on_world (\<lambda>w. if redisConnected w
        then redis (RedisZadd ''rank:level'' n (level (the_player pid w))) (redis (RedisSet (''player:loc:'' @ n) (serverAddr sv)) w)
        else w) sv)"
| "exec E (DropSession s) sv = ([SaveSession s], Remove_session s sv)"
| "exec E (SaveSession s) sv =
     (case session_player s (world sv) of
        None \<Rightarrow> ([LeaveRoomOf s], sv)
      | Some pid \<Rightarrow>
          let acc = gs_account (the_session s (world sv))
          in ([FindParty s pid, ForgetLocation pid, LeaveRoomOf s],
              if acc > 0 then sv\<lparr>db := SavePlayerData acc (ToSaveData (the_player pid (world sv))) (db sv)\<rparr> else sv))"
| "exec E (FindParty s pid) sv =
     (let playerId = i_objectid (info (the_player pid (world sv))); gid = GetPartyIdByPlayer playerId (party (world sv))
      in (if gid = 0 then [] else [LeaveParty s playerId gid], sv))"
| "exec E (LeaveParty s playerId gid) sv =
     ([TellParty s gid], on_world (\<lambda>w. w\<lparr>party := RemoveMember gid playerId (party w)\<rparr>) sv)"
| "exec E (TellParty s gid) sv =
     ([], on_world (\<lambda>w. case (GetParty gid (party w), session_room s w) of (Some p, Some r) \<Rightarrow> notify_party r p w | _ \<Rightarrow> w) sv)"
| "exec E (ForgetLocation pid) sv =
     ([], on_world (\<lambda>w. if redisConnected w then redis (RedisDel (''player:loc:'' @ i_name (info (the_player pid w)))) w else w) sv)"
| "exec E (LeaveRoomOf s) sv =
     ((case session_room s (world sv) of None \<Rightarrow> [] | Some r \<Rightarrow> [PushTo r (JobLeave s)]), sv)"
| "exec E (UpdateAll now) sv = (map (UpdateRoom now) (staticRooms (world sv)) @ [UpdateDungeons now], sv)"
| "exec E (UpdateDungeons now) sv =
     (map (\<lambda>i. UpdateRoom now (DungeonRoom i)) (dungeonInstances (world sv)) @ [UpdateEnd],
      on_world (\<lambda>w. w\<lparr>iteratingDungeons := True\<rparr>) sv)"
| "exec E UpdateEnd sv =
     ([], on_world (\<lambda>w. let w1 = w\<lparr>iteratingDungeons := False\<rparr>
        in (fold RemoveDungeonInstance (pendingRemoveDungeon w1) w1)\<lparr>pendingRemoveDungeon := []\<rparr>) sv)"
| "exec E (UpdateRoom now r) sv =
     (let js = jobs (the_room r (world sv))
      in (map (RunJob r) js @ [StartClock now r, CatchUp now r kMaxCatchUp, DropTime now r],
          on_world (upd_room r (\<lambda>g. g\<lparr>running := js, jobs := []\<rparr>)) sv))"
| "exec E (RunJob r j) sv = ([], on_world (\<lambda>w. pop_job r (run_job r j w)) sv)"
| "exec E (StartClock now r) sv =
     ([], on_world (upd_room r (\<lambda>g. if nextTick g = 0 then g\<lparr>nextTick := now + kTickMs\<rparr> else g)) sv)"
| "exec E (CatchUp now r n) sv =
     (if n > 0 \<and> now \<ge> nextTick (the_room r (world sv))
      then ([CatchUp now r (n - 1)],
            on_world (\<lambda>w. upd_room r (\<lambda>g. g\<lparr>nextTick := nextTick g + kTickMs\<rparr>) (Step r w)) sv)
      else ([], sv))"
| "exec E (DropTime now r) sv =
     ([], on_world (upd_room r (\<lambda>g. if now \<ge> nextTick g then g\<lparr>nextTick := now + kTickMs\<rparr> else g)) sv)"
| "exec E (Report now lr) sv = ([], snd (reportPerfIfDue now lr sv))"
| "exec E (Reconnect now) sv =
     ([], if \<not> Chat_IsConnected (chat sv) then sv\<lparr>chat := TryReconnect now (chat sv)\<rparr> else sv)"

section \<open>Threads\<close>

text \<open>Thread 0 updates the rooms; the others take what the port delivers, whoever comes first.\<close>

record Multi =
  shared :: Server
  threads :: "block list list"

fun arrive :: "event \<Rightarrow> block list" where
  "arrive (EvConnect s) = [Connected s]"
| "arrive (EvPacket s buf rk) = [Received s buf rk]"
| "arrive (EvDisconnect s) = [DropSession s]"
| "arrive (EvTurn now lr) = [UpdateAll now, Report now lr, Reconnect now]"
| "arrive (EvChat buf) = [ChatPacket buf]"
| "arrive (EvChatUp up) = [ChatUp up]"
| "arrive (EvSubscriber m) = [Published m]"

fun is_turn :: "event \<Rightarrow> bool" where
  "is_turn (EvTurn now lr) = True"
| "is_turn e = False"

text \<open>\<open>main\<close> after the start: an update thread and as many workers as the command line or the machine says, all idle.\<close>

definition Multi_start :: "nat \<Rightarrow> string list \<Rightarrow> Server \<Rightarrow> Multi" where
  "Multi_start hw args sv = \<lparr>shared = sv, threads = replicate (Suc (nat (ResolveWorkerCount hw args))) []\<rparr>"

text \<open>A schedule says which thread goes on, and what an idle one begins with.\<close>

datatype choice = Begin nat event | Go nat

definition may_begin :: "nat \<Rightarrow> event \<Rightarrow> Multi \<Rightarrow> bool" where
  "may_begin i e m \<longleftrightarrow> i < length (threads m) \<and> threads m ! i = [] \<and> (i = 0 \<longleftrightarrow> is_turn e)"

definition next_block :: "nat \<Rightarrow> Multi \<Rightarrow> block option" where
  "next_block i m = (if i < length (threads m) then (case threads m ! i of [] \<Rightarrow> None | b # bs \<Rightarrow> Some b) else None)"

fun advance :: "Env \<Rightarrow> choice \<Rightarrow> Multi \<Rightarrow> Multi" where
  "advance E (Begin i e) m = (if may_begin i e m then m\<lparr>threads := (threads m)[i := arrive e]\<rparr> else m)"
| "advance E (Go i) m =
     (case next_block i m of
        None \<Rightarrow> m
      | Some b \<Rightarrow> (case exec E b (shared m) of (bs, sv) \<Rightarrow>
          \<lparr>shared = sv, threads = (threads m)[i := bs @ tl (threads m ! i)]\<rparr>))"

section \<open>A thread that nobody interrupts\<close>

inductive finishes :: "Env \<Rightarrow> block list \<Rightarrow> Server \<Rightarrow> Server \<Rightarrow> bool" for E where
  f_done: "finishes E [] sv sv"
| f_block: "exec E b sv = (bs', sv1) \<Longrightarrow> finishes E (bs' @ bs) sv1 sv2 \<Longrightarrow> finishes E (b # bs) sv sv2"

lemma finishes_append: "finishes E bs sv sv1 \<Longrightarrow> finishes E cs sv1 sv2 \<Longrightarrow> finishes E (bs @ cs) sv sv2"
proof (induction rule: finishes.induct)
  case (f_block b sv bs' sv1 bs sv2')
  then show ?case using finishes.f_block [of E b sv bs' sv1 "bs @ cs"] by simp
qed simp

lemma finishes_Cons:
  "exec E b sv = (bs', sv1) \<Longrightarrow> finishes E bs' sv1 sv2 \<Longrightarrow> finishes E bs sv2 sv3 \<Longrightarrow> finishes E (b # bs) sv sv3"
  by (rule f_block, assumption) (rule finishes_append)

lemma finishes_quick: "exec E b sv = ([], sv1) \<Longrightarrow> finishes E bs sv1 sv2 \<Longrightarrow> finishes E (b # bs) sv sv2"
  using finishes_Cons [OF _ f_done] by blast

lemma on_world_comp [simp]:
  "on_world (\<lambda>w. w) sv = sv" "on_world f (on_world g sv) = on_world (\<lambda>w. f (g w)) sv"
  by (simp_all add: on_world_def)

text \<open>A list of blocks, each of which does one step of a fold to the world.\<close>

lemma finishes_map:
  assumes "\<And>x sv. finishes E [f x] sv (on_world (g x) sv)"
  shows "finishes E (map f xs) sv (on_world (fold g xs) sv)"
proof (induction xs arbitrary: sv)
  case Nil
  show ?case using f_done [of E sv] by (simp add: id_def)
next
  case (Cons x xs)
  from finishes_append [OF assms Cons.IH, of x sv] show ?case by (simp add: on_world_def)
qed

subsection \<open>Packets\<close>

lemma request_is_pushed:
  assumes "request_of ps buf = Some c"
  shows "HandlePacket ps stod rk s buf sv = push_packet s c (count_request buf sv)"
proof -
  from assms have n: "\<not> length buf < sizeof_PacketHeader" by (auto simp: request_of_def)
  show ?thesis
  proof (cases "hid (header_at buf 0) = 110")
    case True
    with assms n show ?thesis by (simp add: request_of_def HandlePacket_def count_request_def Recv_C_PartyLeave_def)
  next
    case False
    with assms n obtain b where p: "ParsePacket buf = Some b" by (cases "ParsePacket buf") (simp_all add: request_of_def Let_def)
    have "hid (header_at buf 0) \<in> {101, 102, 103, 104, 105, 106, 107, 108, 109}"
      by (rule ccontr) (use assms n p False in \<open>simp add: request_of_def Let_def\<close>)
    then show ?thesis
      by (elim insertE; insert assms n p; simp add: request_of_def HandlePacket_def count_request_def with_body_def
          Recv_C_Move_def Recv_C_Attack_def Recv_C_ChangeMap_def Recv_C_Turn_def Recv_C_EquipItem_def
          Recv_C_UnequipItem_def Recv_C_UseItem_def Recv_C_PartyInvite_def Recv_C_PartyAnswer_def)
  qed
qed

lemma count_request_world [simp]: "world (count_request buf sv) = world sv" "db (count_request buf sv) = db sv"
  by (simp_all add: count_request_def Let_def)

lemma login_packet:
  assumes "login_name ps buf = Some n"
  shows "\<exists>payload. ParsePacket buf = Some payload \<and> n = parse_Login ps payload
    \<and> HandlePacket ps stod rk s buf sv = Recv_C_Login ps s buf sv"
proof -
  from assms have "\<not> length buf < sizeof_PacketHeader" "hid (header_at buf 0) = 111" "map_option (parse_Login ps) (ParsePacket buf) = Some n"
    by (auto simp: login_name_def split: if_splits)
  then show ?thesis by (auto simp: HandlePacket_def)
qed

lemma login_finishes:
  assumes "login_name (env_parsers E) buf = Some n"
  shows "finishes E (if n = '''' then [] else [LoginAccount s n]) sv (HandlePacket (env_parsers E) (env_stod E) rk s buf sv)"
proof -
  from login_packet [OF assms] obtain payload where p: "ParsePacket buf = Some payload" "n = parse_Login (env_parsers E) payload"
    and h: "HandlePacket (env_parsers E) (env_stod E) rk s buf sv = Recv_C_Login (env_parsers E) s buf sv" by blast
  obtain acc d where a: "FindOrCreateAccount n (db sv) = (acc, d)" by fastforce
  define sv1 where "sv1 = on_world (\<lambda>w. put_session s ((the_session s w)\<lparr>gs_account := acc\<rparr>) w) (sv\<lparr>db := d\<rparr>)"
  obtain pid w where c: "CreatePlayer (world sv1) = (pid, w)" by fastforce
  define sv2 where "sv2 = on_world (send_packet s (S_EnterGame True acc)) (login_player acc n pid (sv1\<lparr>world := w\<rparr>))"
  have addr: "serverAddr sv2 = serverAddr sv"
    by (simp add: sv2_def sv1_def login_player_def Let_def on_world_def)
  define redis_step where "redis_step = (\<lambda>w. if redisConnected w
        then redis (RedisZadd ''rank:level'' n (level (the_player pid w))) (redis (RedisSet (''player:loc:'' @ n) (serverAddr sv)) w)
        else w)"
  have r: "finishes E [LoginRedis n pid] (on_world f sv2) (on_world (\<lambda>w. redis_step (f w)) sv2)" for f
    by (rule finishes_quick [OF _ f_done]) (simp add: redis_step_def, simp add: on_world_def addr)
  have e: "finishes E [LoginEnter s n pid] sv2 (on_world (\<lambda>w. redis_step (enter_town s pid w)) sv2)"
  proof (cases "GetStaticRoom Town 1 (world sv2)")
    case None
    have "on_world (enter_town s pid) sv2 = sv2" by (simp add: enter_town_def None on_world_def)
    with finishes_Cons [OF _ r [of "enter_town s pid"] f_done, of "LoginEnter s n pid" sv2] show ?thesis by (simp add: None)
  next
    case (Some q)
    have "finishes E [PushTo q (JobEnter s pid), LoginRedis n pid] sv2 (on_world (\<lambda>w. redis_step (enter_town s pid w)) sv2)"
      by (rule finishes_quick [OF _ r]) (simp add: enter_town_def Some on_world_def)
    from finishes_Cons [OF _ this f_done] show ?thesis by (simp add: Some)
  qed
  have t: "finishes E [LoginTell s n acc pid] (login_player acc n pid (sv1\<lparr>world := w\<rparr>))
      (on_world (\<lambda>w. redis_step (enter_town s pid w)) sv2)"
    by (rule finishes_Cons [OF _ e f_done]) (simp add: sv2_def)
  have l: "finishes E [LoginLoad s n acc pid] (sv1\<lparr>world := w\<rparr>) (on_world (\<lambda>w. redis_step (enter_town s pid w)) sv2)"
    by (rule finishes_Cons [OF _ t f_done]) simp
  have "finishes E [LoginCreate s n acc] (sv\<lparr>db := d\<rparr>) (on_world (\<lambda>w. redis_step (enter_town s pid w)) sv2)"
    by (rule finishes_Cons [OF _ l f_done]) (simp add: sv1_def [symmetric] c Let_def)
  then have "finishes E [LoginAccount s n] sv (if acc = 0 then sv\<lparr>db := d\<rparr> else on_world (\<lambda>w. redis_step (enter_town s pid w)) sv2)"
    using finishes_quick [OF _ f_done, of E "LoginAccount s n" sv "sv\<lparr>db := d\<rparr>"]
      finishes_Cons [OF _ _ f_done, of E "LoginAccount s n" sv "[LoginCreate s n acc]" "sv\<lparr>db := d\<rparr>"]
    by (cases "acc = 0") (simp_all add: a)
  moreover have "Recv_C_Login (env_parsers E) s buf sv = (if n = [] then sv else if acc = 0 then sv\<lparr>db := d\<rparr>
      else on_world redis_step (on_world (enter_town s pid) sv2))"
    unfolding Recv_C_Login_def with_body_def p(1) option.case Let_def p(2) [symmetric] a prod.case sv1_def [symmetric] c
      sv2_def [symmetric] redis_step_def by (rule refl)
  ultimately show ?thesis using f_done [of E sv] by (cases "acc = 0") (simp_all add: h)
qed

lemma packet_finishes: "finishes E [Received s buf rk] sv (HandlePacket (env_parsers E) (env_stod E) rk s buf sv)"
proof (cases "request_of (env_parsers E) buf")
  case (Some c)
  show ?thesis
  proof (cases "session_room s (world sv)")
    case None
    then show ?thesis using request_is_pushed [OF Some]
      by (intro finishes_quick [OF _ f_done]) (simp add: Some push_packet_def)
  next
    case r: (Some r)
    have "finishes E [PushTo r (JobPacket s c)] (count_request buf sv) (on_world (PushJob r (JobPacket s c)) (count_request buf sv))"
      by (rule finishes_quick [OF _ f_done]) simp
    from finishes_Cons [OF _ this f_done] r show ?thesis using request_is_pushed [OF Some]
      by (simp add: Some push_packet_def)
  qed
next
  case None
  show ?thesis
  proof (cases "login_name (env_parsers E) buf")
    case None': None
    then show ?thesis by (intro finishes_quick [OF _ f_done]) (simp add: None)
  next
    case (Some n)
    from finishes_Cons [OF _ login_finishes [OF Some] f_done] show ?thesis by (simp add: None Some)
  qed
qed

subsection \<open>Disconnecting\<close>

lemma party_finishes:
  "finishes E [FindParty s pid] sv (on_world (leave_party s pid) sv)"
proof (cases "GetPartyIdByPlayer (i_objectid (info (the_player pid (world sv)))) (party (world sv)) = 0")
  case True
  then have "on_world (leave_party s pid) sv = sv" by (simp add: leave_party_def on_world_def)
  with True show ?thesis by (intro finishes_quick [OF _ f_done]) (simp add: Let_def)
next
  case False
  let ?p = "i_objectid (info (the_player pid (world sv)))" let ?g = "GetPartyIdByPlayer ?p (party (world sv))"
  let ?sv = "on_world (\<lambda>w. w\<lparr>party := RemoveMember ?g ?p (party w)\<rparr>) sv"
  have "finishes E [TellParty s ?g] ?sv (on_world (leave_party s pid) sv)"
    by (rule finishes_quick [OF _ f_done])
      (use False in \<open>simp add: leave_party_def Let_def on_world_def split: option.split\<close>)
  from finishes_Cons [OF _ this f_done, of "LeaveParty s ?p ?g" sv]
  have "finishes E [LeaveParty s ?p ?g] sv (on_world (leave_party s pid) sv)" by simp
  from finishes_Cons [OF _ this f_done] False show ?thesis by (simp add: Let_def)
qed

lemma leave_room_finishes:
  "finishes E [LeaveRoomOf s] sv (case session_room s (world sv) of None \<Rightarrow> sv | Some r \<Rightarrow> on_world (PushJob r (JobLeave s)) sv)"
proof (cases "session_room s (world sv)")
  case (Some r)
  have "finishes E [PushTo r (JobLeave s)] sv (on_world (PushJob r (JobLeave s)) sv)"
    by (rule finishes_quick [OF _ f_done]) simp
  from finishes_Cons [OF _ this f_done] Some show ?thesis by simp
qed (auto intro: finishes_quick f_done)

lemma disconnect_finishes: "finishes E [DropSession s] sv (OnDisconnected s sv)"
proof -
  define sv1 where "sv1 = Remove_session s sv"
  have "finishes E [SaveSession s] sv1 (OnDisconnected s sv)"
  proof (cases "session_player s (world sv1)")
    case None
    have "OnDisconnected s sv = (case session_room s (world sv1) of None \<Rightarrow> sv1 | Some r \<Rightarrow> on_world (PushJob r (JobLeave s)) sv1)"
      by (simp add: OnDisconnected_def sv1_def [symmetric] Let_def None split: option.split)
    with finishes_Cons [OF _ leave_room_finishes f_done, of E "SaveSession s" sv1 s sv1] None show ?thesis by simp
  next
    case (Some pid)
    define acc where "acc = gs_account (the_session s (world sv1))"
    define sv2 where "sv2 = (if acc > 0 then sv1\<lparr>db := SavePlayerData acc (ToSaveData (the_player pid (world sv1))) (db sv1)\<rparr>
        else sv1)"
    define sv3 where "sv3 = on_world (\<lambda>w. let w' = leave_party s pid w
        in if redisConnected w' then redis (RedisDel (''player:loc:'' @ i_name (info (the_player pid w')))) w' else w') sv2"
    have f: "finishes E [ForgetLocation pid, LeaveRoomOf s] (on_world (leave_party s pid) sv2)
        (case session_room s (world sv3) of None \<Rightarrow> sv3 | Some r \<Rightarrow> on_world (PushJob r (JobLeave s)) sv3)"
      by (rule finishes_quick [OF _ leave_room_finishes]) (simp add: sv3_def Let_def)
    have "finishes E [FindParty s pid, ForgetLocation pid, LeaveRoomOf s] sv2
        (case session_room s (world sv3) of None \<Rightarrow> sv3 | Some r \<Rightarrow> on_world (PushJob r (JobLeave s)) sv3)"
      using finishes_append [OF party_finishes f] by simp
    moreover have "OnDisconnected s sv
        = (case session_room s (world sv3) of None \<Rightarrow> sv3 | Some r \<Rightarrow> on_world (PushJob r (JobLeave s)) sv3)"
      unfolding OnDisconnected_def Let_def sv1_def [symmetric] Some option.case acc_def [symmetric] sv2_def [symmetric]
        sv3_def [unfolded Let_def, symmetric] by (rule refl)
    moreover have "exec E (SaveSession s) sv1 = ([FindParty s pid, ForgetLocation pid, LeaveRoomOf s], sv2)"
      by (simp add: Some Let_def sv2_def acc_def)
    ultimately show ?thesis using finishes_Cons [OF _ _ f_done] by metis
  qed
  from finishes_Cons [OF _ this f_done] show ?thesis by (simp add: sv1_def)
qed

subsection \<open>The update thread\<close>

lemma run_jobs_finishes:
  "finishes E (map (RunJob r) js) sv (on_world (fold (\<lambda>j w. pop_job r (run_job r j w)) js) sv)"
  by (rule finishes_map) (rule finishes_quick [OF _ f_done], simp)

lemma catch_up_finishes: "finishes E [CatchUp now r n] sv (on_world (catch_up r now n) sv)"
proof (induction n arbitrary: sv)
  case 0
  show ?case by (intro finishes_quick [OF _ f_done]) simp
next
  case (Suc n)
  show ?case
  proof (cases "now \<ge> nextTick (the_room r (world sv))")
    case True
    from finishes_Cons [OF _ Suc.IH f_done, of "CatchUp now r (Suc n)" sv] True show ?thesis by (simp add: on_world_def)
  next
    case False
    then have "on_world (catch_up r now (Suc n)) sv = sv" by (simp add: on_world_def)
    moreover have "finishes E [CatchUp now r (Suc n)] sv sv" by (rule finishes_quick [OF _ f_done]) (simp add: False)
    ultimately show ?thesis by metis
  qed
qed

lemma room_finishes: "finishes E [UpdateRoom now r] sv (on_world (Room_Update now r) sv)"
proof -
  define js where "js = jobs (the_room r (world sv))"
  define sv1 where "sv1 = on_world (upd_room r (\<lambda>g. g\<lparr>running := js, jobs := []\<rparr>)) sv"
  define sv2 where "sv2 = on_world (fold (\<lambda>j w. pop_job r (run_job r j w)) js) sv1"
  define sv3 where "sv3 = on_world (upd_room r (\<lambda>g. if nextTick g = 0 then g\<lparr>nextTick := now + kTickMs\<rparr> else g)) sv2"
  define sv4 where "sv4 = on_world (catch_up r now kMaxCatchUp) sv3"
  define sv5 where "sv5 = on_world (upd_room r (\<lambda>g. if now \<ge> nextTick g then g\<lparr>nextTick := now + kTickMs\<rparr> else g)) sv4"
  have 5: "finishes E [DropTime now r] sv4 sv5" by (rule finishes_quick [OF _ f_done]) (simp add: sv5_def)
  have 4: "finishes E [CatchUp now r kMaxCatchUp] sv3 sv4" unfolding sv4_def by (rule catch_up_finishes)
  have 3: "finishes E [StartClock now r, CatchUp now r kMaxCatchUp, DropTime now r] sv2 sv5"
    by (rule finishes_quick [OF _ finishes_append [OF 4 5, simplified]]) (simp add: sv3_def)
  have 2: "finishes E (map (RunJob r) js) sv1 sv2" unfolding sv2_def by (rule run_jobs_finishes)
  have "exec E (UpdateRoom now r) sv = (map (RunJob r) js @ [StartClock now r, CatchUp now r kMaxCatchUp, DropTime now r], sv1)"
    by (simp add: js_def sv1_def Let_def)
  from finishes_Cons [OF this finishes_append [OF 2 3] f_done]
  have "finishes E [UpdateRoom now r] sv sv5" .
  moreover have "sv5 = on_world (Room_Update now r) sv"
    unfolding sv5_def sv4_def sv3_def sv2_def sv1_def js_def
    by (simp add: on_world_def Room_Update_def run_jobs_def Let_def)
  ultimately show ?thesis by simp
qed

lemma update_finishes: "finishes E [UpdateAll now] sv (on_world (Manager_Update now) sv)"
proof -
  define sv1 where "sv1 = on_world (fold (Room_Update now) (staticRooms (world sv))) sv"
  define sv2 where "sv2 = on_world (\<lambda>w. w\<lparr>iteratingDungeons := True\<rparr>) sv1"
  define sv3 where "sv3 = on_world (fold (\<lambda>i. Room_Update now (DungeonRoom i)) (dungeonInstances (world sv1))) sv2"
  have 1: "finishes E (map (UpdateRoom now) (staticRooms (world sv))) sv sv1"
    unfolding sv1_def by (rule finishes_map) (rule room_finishes)
  have 3: "finishes E (map (\<lambda>i. UpdateRoom now (DungeonRoom i)) (dungeonInstances (world sv1))) sv2 sv3"
    unfolding sv3_def by (rule finishes_map) (rule room_finishes)
  have 4: "finishes E [UpdateEnd] sv3 (on_world (Manager_Update now) sv)"
    by (rule finishes_quick [OF _ f_done])
      (simp add: sv3_def sv2_def sv1_def on_world_def Manager_Update_def Let_def)
  have 2: "finishes E [UpdateDungeons now] sv1 (on_world (Manager_Update now) sv)"
    by (rule finishes_Cons [OF _ finishes_append [OF 3 4] f_done]) (simp add: sv2_def)
  show ?thesis by (rule finishes_Cons [OF _ finishes_append [OF 1 2] f_done]) simp
qed

lemma turn_finishes:
  "finishes E [UpdateAll now, Report now lr, Reconnect now] sv (snd (loop_turn now lr sv))"
proof -
  let ?sv = "on_world (Manager_Update now) sv"
  have "finishes E [Report now lr, Reconnect now] ?sv (snd (loop_turn now lr sv))"
    by (rule finishes_quick [OF _ finishes_quick [OF _ f_done]]) (simp_all add: loop_turn_def split_beta Let_def)
  from finishes_append [OF update_finishes this] show ?thesis by simp
qed

lemma event_finishes: "finishes E (arrive e) sv (handle E e sv)"
proof (cases e)
  case (EvPacket s b rk)
  then show ?thesis using packet_finishes by simp
next
  case (EvDisconnect s)
  then show ?thesis using disconnect_finishes by simp
next
  case (EvTurn now lr)
  then show ?thesis using turn_finishes by simp
qed (simp_all add: finishes_quick [OF _ f_done])

text \<open>Some number of turns in a row lets a thread run to its end.\<close>

lemma finishes_go:
  "finishes E bs sv sv' \<Longrightarrow> i < length ts \<Longrightarrow> ts ! i = bs \<Longrightarrow>
    \<exists>n. fold (advance E) (replicate n (Go i)) \<lparr>shared = sv, threads = ts\<rparr> = \<lparr>shared = sv', threads = ts[i := []]\<rparr>"
proof (induction arbitrary: ts rule: finishes.induct)
  case (f_done sv)
  then show ?case by (intro exI [of _ 0]) (metis fold_simps(1) list_update_id replicate_0)
next
  case (f_block b sv bs' sv1 bs sv2)
  from f_block.IH [of "ts[i := bs' @ bs]"] f_block.prems obtain n
    where n: "fold (advance E) (replicate n (Go i)) \<lparr>shared = sv1, threads = ts[i := bs' @ bs]\<rparr>
      = \<lparr>shared = sv2, threads = ts[i := []]\<rparr>" by auto
  have "advance E (Go i) \<lparr>shared = sv, threads = ts\<rparr> = \<lparr>shared = sv1, threads = ts[i := bs' @ bs]\<rparr>"
    using f_block.prems f_block.hyps(1) by (simp add: next_block_def)
  with n show ?case by (intro exI [of _ "Suc n"]) simp
qed

text \<open>
  C29. Multi mode can do all that single mode does: for whatever happens to the server in single mode, there is a schedule of the
  threads, with a worker at hand, that lets the same events have the same effects, each thread running undisturbed.
\<close>

theorem multi_mode_includes_single_mode:
  assumes "1 < length ts" "\<forall>bs \<in> set ts. bs = []"
  shows "\<exists>schedule. fold (advance E) schedule \<lparr>shared = sv, threads = ts\<rparr> = \<lparr>shared = fold (handle E) es sv, threads = ts\<rparr>"
proof (induction es arbitrary: sv)
  case Nil
  show ?case by (intro exI [of _ "[]"]) simp
next
  case (Cons e es)
  have "(if is_turn e then 0 else 1) < length ts" using assms(1) by auto
  then obtain i where i: "i < length ts" "i = 0 \<longleftrightarrow> is_turn e" by (metis zero_neq_one)
  have idle: "ts ! i = []" using i assms(2) nth_mem by blast
  have undo: "ts[i := bs, i := []] = ts" for bs using idle by (metis list_update_overwrite list_update_id)
  have b: "advance E (Begin i e) \<lparr>shared = sv, threads = ts\<rparr> = \<lparr>shared = sv, threads = ts[i := arrive e]\<rparr>"
    using i idle by (simp add: may_begin_def)
  from finishes_go [OF event_finishes, of i "ts[i := arrive e]" e E sv] i undo obtain n
    where n: "fold (advance E) (replicate n (Go i)) \<lparr>shared = sv, threads = ts[i := arrive e]\<rparr>
      = \<lparr>shared = handle E e sv, threads = ts\<rparr>" by auto
  from Cons.IH [of "handle E e sv"] obtain sch
    where s: "fold (advance E) sch \<lparr>shared = handle E e sv, threads = ts\<rparr>
      = \<lparr>shared = fold (handle E) es (handle E e sv), threads = ts\<rparr>" by blast
  have "fold (advance E) (Begin i e # replicate n (Go i) @ sch) \<lparr>shared = sv, threads = ts\<rparr>
      = \<lparr>shared = fold (handle E) (e # es) sv, threads = ts\<rparr>"
    unfolding fold_append fold_Cons o_def b n s by simp
  then show ?case by blast
qed

theorem multi_mode_includes_single_mode_witness:
  "\<exists>schedule. fold (advance sample_env) schedule \<lparr>shared = sample_boot, threads = [[], []]\<rparr>
    = \<lparr>shared = fold (handle sample_env) [EvConnect 1, EvPacket 1 [5, 0, 111, 0, 7] None, EvTurn 50 0, EvDisconnect 1] sample_boot,
        threads = [[], []]\<rparr>"
  by (rule multi_mode_includes_single_mode) simp_all

end
