(* ===== verification/Multi_Safe.thy ===== *)
theory Multi_Safe
  imports Multi
begin

text \<open>
  Every interleaving of the threads of multi mode: the invariant of the server holds between any two blocks, and the requests given
  to a room are run once each and in the order they were given.
\<close>

section \<open>What a block keeps\<close>

text \<open>The server stays well formed, and whatever player there was is still there.\<close>

definition lasting :: "Server \<Rightarrow> Server \<Rightarrow> bool" where
  "lasting sv sv' \<longleftrightarrow> (server_ok sv \<longrightarrow> server_ok sv' \<and> (faulted (world sv') = None \<longrightarrow>
     faulted (world sv) = None \<and> (\<forall>pid. player_ok (world sv) pid \<longrightarrow> player_ok (world sv') pid)))"

lemma lasting_trans: "lasting sv sv1 \<Longrightarrow> lasting sv1 sv2 \<Longrightarrow> lasting sv sv2"
  by (auto simp: lasting_def)

lemma lasting_steps: "(micro b)\<^sup>*\<^sup>* (world sv) (world sv') \<Longrightarrow> server_ok sv' \<Longrightarrow> lasting sv sv'"
  using steps_faulted [of b "world sv" "world sv'"] steps_player_ok [of b "world sv" "world sv'"]
  by (cases "faulted (world sv)") (auto simp: lasting_def)

lemma lasting_on_world:
  assumes "evolves True (world sv) (f (world sv))"
  shows "lasting sv (on_world f sv)"
proof (cases "server_ok sv")
  case True
  with assms have "(micro True)\<^sup>*\<^sup>* (world sv) (world (on_world f sv))" by (simp add: evolves_def server_ok_def)
  then show ?thesis by (rule lasting_steps) (rule server_ok_on_world [of True sv f, OF assms True])
qed (simp add: lasting_def)

lemma lasting_same:
  "world sv' = world sv \<Longrightarrow> (server_ok sv \<Longrightarrow> server_ok sv') \<Longrightarrow> lasting sv sv'"
  by (auto simp: lasting_def)

lemma lasting_sends:
  assumes "sends_only (world sv) (world sv')" "server_ok sv \<Longrightarrow> server_ok sv'"
  shows "lasting sv sv'"
  using assms(2) sends_only_frame(2,8) [OF assms(1)] sends_only_frame(27) [OF assms(1)]
  by (cases "faulted (world sv)") (auto simp: lasting_def player_ok_def)

lemma sends_only_fold_send: "sends_only w (fold (\<lambda>s. send_packet s p) ss w)"
  by (rule sends_only_fold) blast

lemma sending_sends:
  "sends_only (world sv) (world (Broadcast_all pkt sv))" "sends_only (world sv) (world (SendToPlayerIds ids pkt sv))"
  "sends_only (world sv) (world (Chat_Send m sv))"
proof -
  show "sends_only (world sv) (world (Broadcast_all pkt sv))" by (simp add: Broadcast_all_def sends_only_fold_send)
  show "sends_only (world sv) (world (SendToPlayerIds ids pkt sv))"
    unfolding SendToPlayerIds_def on_world_simps by (rule sends_only_fold) (auto split: option.split)
  show "sends_only (world sv) (world (Chat_Send m sv))" by (simp add: Chat_Send_def say_out sends_only_say)
qed

lemma relay_sends: "sends_only (world sv) (world (Relay_OnRecvPacket ps txt buf sv))"
  by (auto simp: Relay_OnRecvPacket_def Let_def sending_sends split: option.split)

lemma subscriber_sends: "sends_only (world sv) (world (Subscriber_on_message m sv))"
  by (auto simp: Subscriber_on_message_def Let_def sending_sends split: option.split)

text \<open>The packets that are neither a request of a room nor a login only send.\<close>

lemma other_packet_sends:
  assumes "request_of ps buf = None" "login_name ps buf = None"
  shows "sends_only (world sv) (world (HandlePacket ps stod rk s buf sv))"
proof (cases "length buf < sizeof_PacketHeader")
  case True
  then show ?thesis by (auto simp: HandlePacket_def)
next
  case False
  have chat: "sends_only (world sv) (world (Recv_C_Chat ps s buf sv))"
    by (auto simp: Recv_C_Chat_def with_body_def Let_def sending_sends split: option.split prod.split)
  show ?thesis
  proof (cases "hid (header_at buf 0) = 112 \<or> hid (header_at buf 0) = 113 \<or> hid (header_at buf 0) \<notin> {101, 102, 103, 104, 105, 106, 107, 108, 109, 110, 111}")
    case True
    with False chat show ?thesis
      by (auto simp: HandlePacket_def Let_def Recv_C_GetRanking_def)
  next
    case other: False
    with False assms have "ParsePacket buf = None"
      by (auto simp: request_of_def login_name_def Let_def split: if_splits option.splits)
    moreover have "with_body buf f v = on_world (raise UninitializedRead) v" if "ParsePacket buf = None" for f v
      using that by (simp add: with_body_def)
    ultimately show ?thesis using False assms(1) chat
      by (auto simp: HandlePacket_def Let_def Recv_C_Move_def Recv_C_Attack_def Recv_C_ChangeMap_def Recv_C_Turn_def
          Recv_C_EquipItem_def Recv_C_UnequipItem_def Recv_C_UseItem_def Recv_C_PartyInvite_def Recv_C_PartyAnswer_def
          Recv_C_Login_def Recv_C_GetRanking_def request_of_def)
  qed
qed

text \<open>What the rest of a thread relies on: a player it has made, or is to let into a room, exists.\<close>

fun block_ok :: "World \<Rightarrow> block \<Rightarrow> bool" where
  "block_ok w (PushTo r j) = job_ok w j"
| "block_ok w (RunJob r j) = job_ok w j"
| "block_ok w (LoginLoad s n acc pid) = player_ok w pid"
| "block_ok w (LoginTell s n acc pid) = player_ok w pid"
| "block_ok w (LoginEnter s n pid) = player_ok w pid"
| "block_ok w b = True"

lemma job_ok_lasting: "(\<And>pid. player_ok w pid \<Longrightarrow> player_ok w' pid) \<Longrightarrow> job_ok w j \<Longrightarrow> job_ok w' j"
  by (cases j) (auto simp: job_ok_def)

lemma block_ok_lasting:
  "lasting sv sv' \<Longrightarrow> server_ok sv \<Longrightarrow> faulted (world sv') = None \<Longrightarrow> block_ok (world sv) b \<Longrightarrow> block_ok (world sv') b"
  by (cases b) (auto simp: lasting_def intro: job_ok_lasting)

lemma arrive_ok: "b \<in> set (arrive e) \<Longrightarrow> block_ok w b"
  by (cases e) auto

lemma lasting_delivered:
  "lasting sv (OnConnected s sv)" "lasting sv (Relay_OnRecvPacket ps txt buf sv)" "lasting sv (handle E (EvChatUp up) sv)"
  "lasting sv (Subscriber_on_message m sv)"
proof -
  have "lasting sv (on_world (put_session s GameSession_new) sv)" by (rule lasting_on_world) (rule evolves_basic)
  moreover have "lasting (on_world (put_session s GameSession_new) sv) (OnConnected s sv)"
    by (rule lasting_same) (simp_all add: OnConnected_def Add_session_def server_ok_def)
  ultimately show "lasting sv (OnConnected s sv)" by (rule lasting_trans)
  show "lasting sv (handle E (EvChatUp up) sv)" by (rule lasting_same) (simp_all add: server_ok_def)
qed (auto intro: lasting_sends relay_sends server_ok_relay subscriber_sends server_ok_subscriber)

lemma count_request_ok [simp]: "server_ok (count_request buf sv) = server_ok sv"
  by (simp add: server_ok_def)

lemma CreatePlayer_lasting:
  assumes "server_ok sv" "fresh_id sv" "CreatePlayer (world sv) = (pid, w)"
  shows "lasting sv (sv\<lparr>world := w\<rparr>)" "faulted w = None \<Longrightarrow> player_ok w pid"
proof -
  have l: "logged pid (sv\<lparr>world := w\<rparr>)" using CreatePlayer_logged [OF assms(1,2)] assms(3) by simp
  then show "faulted w = None \<Longrightarrow> player_ok w pid" by (simp add: logged_def)
  have "player_ok (world sv) i \<Longrightarrow> player_ok w i" for i
    using assms(2,3) by (auto simp: player_ok_def fresh_id_def CreatePlayer_def Let_def)
  moreover have "faulted w = faulted (world sv)" using assms(3) by (auto simp: CreatePlayer_def Let_def)
  ultimately show "lasting sv (sv\<lparr>world := w\<rparr>)" using l by (simp add: lasting_def logged_def)
qed

lemma login_player_lasting:
  assumes "logged pid sv"
  shows "lasting sv (login_player acc n pid sv)"
    "faulted (world (login_player acc n pid sv)) = None \<Longrightarrow> player_ok (world (login_player acc n pid sv)) pid"
proof -
  have "(micro True)\<^sup>*\<^sup>* (world sv) (world (login_player acc n pid sv))"
    using evolves_login_player [OF assms, of True] assms by (simp add: evolves_def logged_def server_ok_def)
  moreover have "logged pid (login_player acc n pid sv)" using assms by (rule login_player_logged)
  ultimately show "lasting sv (login_player acc n pid sv)"
    "faulted (world (login_player acc n pid sv)) = None \<Longrightarrow> player_ok (world (login_player acc n pid sv)) pid"
    by (simp_all add: logged_def lasting_steps)
qed

section \<open>Safety\<close>

lemma evolves_RunJob:
  "(faulted w = None \<Longrightarrow> world_wf w \<Longrightarrow> job_ok w j) \<Longrightarrow> evolves True w (pop_job r (run_job r j w))"
  by (rule evolves_trans [OF evolves_run_job evolves_pop_job]) auto

lemma lasting_worker:
  "lasting sv (on_world (send_packet s p) sv)"
  "lasting sv (on_world (\<lambda>w. w\<lparr>party := RemoveMember gid i (party w)\<rparr>) sv)"
  "lasting sv (on_world (\<lambda>w. case (GetParty gid (party w), session_room s w) of (Some p, Some r) \<Rightarrow> notify_party r p w | _ \<Rightarrow> w) sv)"
  "lasting sv (on_world (\<lambda>w. if redisConnected w then redis (e w) w else w) sv)"
  "lasting sv (on_world (\<lambda>w. if redisConnected w then redis (e w) (redis (f w) w) else w) sv)"
proof -
  show "lasting sv (on_world (\<lambda>w. w\<lparr>party := RemoveMember gid i (party w)\<rparr>) sv)"
    by (simp add: lasting_def server_ok_def safe_def player_ok_def
        world_wf_cong [of "world sv\<lparr>party := RemoveMember gid i (party (world sv))\<rparr>" "world sv"] split: option.split)
qed (rule lasting_on_world, force intro: evolves_basic evolves_notify_party evolves_intros split: option.split)+

lemma lasting_update:
  "lasting sv (on_world (upd_room r (\<lambda>g. g\<lparr>running := jobs (the_room r (world sv)), jobs := []\<rparr>)) sv)"
  "lasting sv (on_world (upd_room r (\<lambda>g. if c g then g\<lparr>nextTick := t\<rparr> else g)) sv)"
  "lasting sv (on_world (\<lambda>w. upd_room r (\<lambda>g. g\<lparr>nextTick := nextTick g + kTickMs\<rparr>) (Step r w)) sv)"
  "lasting sv (on_world (\<lambda>w. w\<lparr>iteratingDungeons := True\<rparr>) sv)"
  "lasting sv (on_world (\<lambda>w. let w1 = w\<lparr>iteratingDungeons := False\<rparr>
        in (fold RemoveDungeonInstance (pendingRemoveDungeon w1) w1)\<lparr>pendingRemoveDungeon := []\<rparr>) sv)"
  "lasting sv (snd (reportPerfIfDue now lr sv))"
  unfolding Let_def
  by (rule lasting_on_world, rule evolves_swap_jobs, rule lasting_on_world, rule evolves_when_due, rule lasting_on_world,
      rule evolves_timed_step, rule lasting_on_world, rule evolves_admin, rule lasting_on_world, rule evolves_end_update,
      rule lasting_same, auto simp: reportPerfIfDue_def ConsumePerfSnapshot_def Let_def server_ok_def)

lemma running_job_ok:
  "server_ok sv \<Longrightarrow> faulted (world sv) = None \<Longrightarrow> j \<in> set (jobs (the_room r (world sv))) \<Longrightarrow> job_ok (world sv) j"
  using wf_room [of "world sv" r]
  by (fastforce simp: server_ok_def safe_def room_wf_def Let_def entering_def job_ok_def split: job.splits)

text \<open>Every block keeps the invariant, and what it leaves to do can rely on what it needs.\<close>

abbreviation all_ok :: "Server \<Rightarrow> block list \<Rightarrow> bool" where
  "all_ok sv bs \<equiv> faulted (world sv) = None \<longrightarrow> (\<forall>b \<in> set bs. block_ok (world sv) b)"

lemma received_safe:
  "exec E (Received s buf rk) sv = (bs, sv') \<Longrightarrow> server_ok sv \<Longrightarrow> fresh_id sv \<Longrightarrow> lasting sv sv' \<and> all_ok sv' bs"
proof (cases "request_of (env_parsers E) buf")
  case (Some c)
  assume "exec E (Received s buf rk) sv = (bs, sv')"
  with Some show ?thesis
    by (auto intro: lasting_same simp: job_ok_def split: option.splits)
next
  case None
  assume a: "exec E (Received s buf rk) sv = (bs, sv')" "server_ok sv" "fresh_id sv"
  show ?thesis
  proof (cases "login_name (env_parsers E) buf")
    case None': None
    with a None show ?thesis
      by (auto intro: lasting_sends other_packet_sends server_ok_HandlePacket)
  next
    case (Some n)
    with a None show ?thesis by (auto intro: lasting_same split: if_splits)
  qed
qed

lemma login_safe:
  assumes "server_ok sv"
  shows "exec E (LoginAccount s n) sv = (bs, sv') \<Longrightarrow> lasting sv sv' \<and> all_ok sv' bs"
    "exec E (LoginCreate s n acc) sv = (bs, sv') \<Longrightarrow> fresh_id sv \<Longrightarrow> lasting sv sv' \<and> all_ok sv' bs"
    "exec E (LoginLoad s n acc pid) sv = (bs, sv') \<Longrightarrow> all_ok sv [LoginLoad s n acc pid] \<Longrightarrow> lasting sv sv' \<and> all_ok sv' bs"
proof -
  assume "exec E (LoginAccount s n) sv = (bs, sv')"
  then show "lasting sv sv' \<and> all_ok sv' bs"
    by (auto intro!: lasting_same simp: server_ok_def dest: db_ok_FindOrCreate split: prod.splits if_splits)
next
  assume e: "exec E (LoginCreate s n acc) sv = (bs, sv')" and f: "fresh_id sv"
  define sv1 where "sv1 = on_world (\<lambda>w. put_session s ((the_session s w)\<lparr>gs_account := acc\<rparr>) w) sv"
  obtain pid w where c: "CreatePlayer (world sv1) = (pid, w)" by fastforce
  have 1: "lasting sv sv1" unfolding sv1_def by (rule lasting_on_world) (rule evolves_basic)
  with assms have s1: "server_ok sv1" by (simp add: lasting_def)
  have f1: "fresh_id sv1" using f by (simp add: fresh_id_def sv1_def put_session_def)
  from e c have "bs = [LoginLoad s n acc pid]" "sv' = sv1\<lparr>world := w\<rparr>" by (auto simp: sv1_def [symmetric] Let_def)
  with lasting_trans [OF 1 CreatePlayer_lasting(1) [OF s1 f1 c]] CreatePlayer_lasting(2) [OF s1 f1 c]
  show "lasting sv sv' \<and> all_ok sv' bs" by simp
next
  assume "exec E (LoginLoad s n acc pid) sv = (bs, sv')" "all_ok sv [LoginLoad s n acc pid]"
  with assms login_player_lasting [of pid sv acc n] show "lasting sv sv' \<and> all_ok sv' bs"
    by (auto simp: logged_def)
qed

lemma save_safe:
  assumes "exec E (SaveSession s) sv = (bs, sv')"
  shows "lasting sv sv' \<and> all_ok sv' bs"
proof (cases "session_player s (world sv)")
  case (Some pid)
  have "lasting sv (sv\<lparr>db := SavePlayerData acc (ToSaveData (the_player pid (world sv))) (db sv)\<rparr>)" for acc
    by (rule lasting_same) (simp_all add: server_ok_save [OF _ Some])
  moreover have "lasting sv sv" by (rule lasting_same) simp_all
  ultimately show ?thesis using assms Some by (auto simp: Let_def)
qed (use assms in \<open>auto intro: lasting_same\<close>)

lemma exec_safe:
  assumes "server_ok sv" "fresh_id sv" "all_ok sv [b]" "exec E b sv = (bs, sv')"
  shows "lasting sv sv' \<and> all_ok sv' bs"
proof (cases b)
  case (PushTo r j)
  have "lasting sv (on_world (PushJob r j) sv)"
    by (rule lasting_on_world) (rule evolves_PushJob, use assms(3) PushTo in auto)
  with PushTo assms(4) show ?thesis by auto
next
  case (RunJob r j)
  have "lasting sv (on_world (\<lambda>w. pop_job r (run_job r j w)) sv)"
    by (rule lasting_on_world) (rule evolves_RunJob, use assms(3) RunJob in auto)
  with RunJob assms(4) show ?thesis by auto
next
  case (UpdateRoom now r)
  have "lasting sv sv'" using assms(4) UpdateRoom lasting_update(1) [of sv r] by (auto simp: Let_def)
  moreover have "all_ok sv' bs"
  proof
    assume f: "faulted (world sv') = None"
    with \<open>lasting sv sv'\<close> assms(1) have "faulted (world sv) = None" by (simp add: lasting_def)
    with running_job_ok [OF assms(1), of _ r] have "\<forall>b \<in> set bs. block_ok (world sv) b"
      using assms(4) UpdateRoom by (auto simp: Let_def)
    with block_ok_lasting [OF \<open>lasting sv sv'\<close> assms(1) f] show "\<forall>b \<in> set bs. block_ok (world sv') b" by blast
  qed
  ultimately show ?thesis ..
next
  case (LoginTell s n acc pid)
  with assms lasting_worker(1) [of sv s "S_EnterGame True acc"] show ?thesis by (auto simp: lasting_def)
next
  case (LoginEnter s n pid)
  with assms show ?thesis by (auto intro: lasting_same simp: job_ok_def split: option.splits)
next
  case (SaveSession s)
  with assms(4) save_safe show ?thesis by blast
next
  case (CatchUp now r n)
  with assms(4) lasting_update(3) [of sv r] show ?thesis by (auto intro: lasting_same split: if_splits)
next
  case (Received s buf rk)
  with assms received_safe show ?thesis by blast
next
  case (LoginAccount s n)
  with assms login_safe(1) show ?thesis by blast
next
  case (LoginCreate s n acc)
  with assms login_safe(2) show ?thesis by blast
next
  case (LoginLoad s n acc pid)
  show ?thesis using login_safe(3) [OF assms(1) assms(4) [unfolded LoginLoad] assms(3) [unfolded LoginLoad]] .
next
  case (FindParty s pid)
  with assms(4) show ?thesis by (auto intro: lasting_same simp: Let_def split: if_splits)
next
  case (DropSession s)
  with assms(4) show ?thesis by (auto intro!: lasting_same simp: server_ok_def Remove_session_def)
next
  case (LeaveRoomOf s)
  with assms(4) show ?thesis by (auto intro: lasting_same simp: job_ok_def split: option.splits)
next
  case (UpdateAll now)
  with assms(4) show ?thesis by (auto intro: lasting_same)
next
  case (Reconnect now)
  with assms(4) show ?thesis by (auto intro!: lasting_same simp: server_ok_def)
next
  case (LoginRedis n pid)
  with assms(4) lasting_worker(5) show ?thesis by auto
next
  case (TellParty s gid)
  with assms(4) lasting_worker(3) show ?thesis by auto
next
  case (ForgetLocation pid)
  with assms(4) lasting_worker(4) show ?thesis by auto
next
  case UpdateEnd
  with assms(4) lasting_update(5) show ?thesis by auto
next
  case (UpdateDungeons now)
  with assms(4) lasting_update(4) show ?thesis by auto
qed (use assms(4) lasting_worker(2) lasting_update(2,6) lasting_delivered in auto)

text \<open>All threads together.\<close>

definition multi_ok :: "Multi \<Rightarrow> bool" where
  "multi_ok m \<longleftrightarrow> server_ok (shared m) \<and> (\<forall>bs \<in> set (threads m). all_ok (shared m) bs)"

lemma all_ok_lasting:
  "lasting sv sv' \<Longrightarrow> server_ok sv \<Longrightarrow> all_ok sv bs \<Longrightarrow> all_ok sv' bs"
  using block_ok_lasting by (auto simp: lasting_def)

lemma advance_ok:
  assumes "multi_ok m" "fresh_id (shared m)"
  shows "multi_ok (advance E c m)"
proof (cases c)
  case (Begin i e)
  then show ?thesis using assms(1) arrive_ok by (auto simp: multi_ok_def dest!: set_update_subset_insert [THEN subsetD])
next
  case (Go i)
  show ?thesis
  proof (cases "next_block i m")
    case None
    with Go assms show ?thesis by simp
  next
    case (Some b)
    then obtain bs where i: "i < length (threads m)" "threads m ! i = b # bs"
      by (auto simp: next_block_def split: if_splits list.splits)
    then have all: "all_ok (shared m) (b # bs)" using assms(1) nth_mem [of i "threads m"] by (simp add: multi_ok_def)
    obtain bs' sv' where e: "exec E b (shared m) = (bs', sv')" by fastforce
    have ok: "server_ok (shared m)" using assms(1) by (simp add: multi_ok_def)
    from exec_safe [OF ok assms(2) _ e] all have l: "lasting (shared m) sv'" and "all_ok sv' bs'" by auto
    then have "all_ok sv' (bs' @ bs)" using all_ok_lasting [OF l ok, of bs] all by auto
    moreover have "\<forall>bs \<in> set (threads m). all_ok sv' bs"
      using all_ok_lasting [OF l ok] assms(1) by (auto simp: multi_ok_def)
    ultimately have "\<forall>cs \<in> set ((threads m)[i := bs' @ bs]). all_ok sv' cs"
      using set_update_subset_insert [of "threads m" i "bs' @ bs"] by blast
    moreover have "server_ok sv'" using l ok by (simp add: lasting_def)
    ultimately show ?thesis using Go Some i e by (simp add: multi_ok_def)
  qed
qed

text \<open>The counter of object ids has not come back to a player's id at any point of the schedule.\<close>

fun fresh_schedule :: "Env \<Rightarrow> choice list \<Rightarrow> Multi \<Rightarrow> bool" where
  "fresh_schedule E [] m \<longleftrightarrow> True"
| "fresh_schedule E (c # cs) m \<longleftrightarrow> fresh_id (shared m) \<and> fresh_schedule E cs (advance E c m)"

lemma schedule_ok: "multi_ok m \<Longrightarrow> fresh_schedule E cs m \<Longrightarrow> multi_ok (fold (advance E) cs m)"
  by (induction cs arbitrary: m) (simp_all add: advance_ok)

lemma start_ok:
  "tables_ok D \<Longrightarrow> db_ok d \<Longrightarrow> multi_ok (Multi_start hw args (Server_boot (World_start D files clk dc rh up) d addr))"
  using server_ok_boot by (simp add: multi_ok_def Multi_start_def)

text \<open>
  C2. Multi mode is as safe as single mode. However many workers there are and however their blocks and those of the update thread
  interleave, the server never dereferences a null session, and as long as no other fault was met its rooms, players, monsters
  and database are well formed between any two blocks.
\<close>

theorem multi_mode_stays_safe:
  assumes "tables_ok D" "db_ok d"
    and "fresh_schedule E cs (Multi_start hw args (Server_boot (World_start D files clk dc rh up) d addr))"
  shows "let sv = shared (fold (advance E) cs (Multi_start hw args (Server_boot (World_start D files clk dc rh up) d addr)))
    in faulted (world sv) \<noteq> Some NullDereference
      \<and> (faulted (world sv) = None \<longrightarrow> world_wf (world sv) \<and> db_ok (db sv))"
  using schedule_ok [OF start_ok [OF assms(1,2)] assms(3)]
  by (simp add: multi_ok_def server_ok_def safe_def Let_def split: option.splits)

text \<open>Two workers: the one logs a player in, the other accepts a connection in between.\<close>

theorem multi_mode_stays_safe_witness:
  "let sv = shared (fold (advance sample_env)
        [Begin 1 (EvConnect 1), Go 1, Begin 1 (EvPacket 1 [5, 0, 111, 0, 7] None), Begin 2 (EvConnect 2), Go 1, Go 2, Go 1, Go 1]
        (Multi_start 8 [''server'', ''multi'', ''2'']
          (Server_boot (World_start sample_data (\<lambda>f. None) of_nat (\<lambda>n. 0) (\<lambda>n. False) False) DB_empty ''127.0.0.1:7777'')))
   in faulted (world sv) \<noteq> Some NullDereference \<and> (faulted (world sv) = None \<longrightarrow> world_wf (world sv) \<and> db_ok (db sv))"
proof (rule multi_mode_stays_safe [OF sample_tables_ok])
  show "db_ok DB_empty" by (simp add: db_ok_def DB_empty_def)
  have "ResolveWorkerCount 8 [''server'', ''multi'', ''2''] = 2"
    by (simp add: ResolveWorkerCount_def atoi_def is_space_def is_digit_def char_code_def)
  then have s: "Multi_start 8 [''server'', ''multi'', ''2''] sv = \<lparr>shared = sv, threads = [[], [], []]\<rparr>" for sv
    by (simp add: Multi_start_def numeral_eq_Suc)
  show "fresh_schedule sample_env
      [Begin 1 (EvConnect 1), Go 1, Begin 1 (EvPacket 1 [5, 0, 111, 0, 7] None), Begin 2 (EvConnect 2), Go 1, Go 2, Go 1, Go 1]
      (Multi_start 8 [''server'', ''multi'', ''2'']
        (Server_boot (World_start sample_data (\<lambda>f. None) of_nat (\<lambda>n. 0) (\<lambda>n. False) False) DB_empty ''127.0.0.1:7777''))"
    unfolding s sample_boot_def [symmetric]
    by (simp add: fresh_id_def sample_boot_ids may_begin_def next_block_def OnConnected_def Add_session_def put_session_def
        request_of_def login_name_def sizeof_PacketHeader_def header_at_def le16_value_def ParsePacket_def
        sample_env_def sample_parsers_def FindOrCreateAccount_def c_string_def DB_empty_def Let_def on_world_def)
qed

end
