(* ===== verification/Multi_Order.thy ===== *)
theory Multi_Order
  imports Multi_Safe Server_Sample
begin

text \<open>
  The order of requests in multi mode: what workers hand to a room is run in it once each and in the order it was handed over; and
  what a worker hands over too late, to a room the player has left.
\<close>

section \<open>The requests of a room\<close>

text \<open>The blocks a schedule runs, and among them the requests given to a room and those run in it.\<close>

fun history :: "Env \<Rightarrow> choice list \<Rightarrow> Multi \<Rightarrow> block list" where
  "history E [] m = []"
| "history E (Begin i e # cs) m = history E cs (advance E (Begin i e) m)"
| "history E (Go i # cs) m =
     (case next_block i m of None \<Rightarrow> [] | Some b \<Rightarrow> [b]) @ history E cs (advance E (Go i) m)"

fun given_by :: "RoomRef \<Rightarrow> block \<Rightarrow> job list" where
  "given_by r (PushTo q j) = (if q = r then requests [j] else [])"
| "given_by r b = []"

fun served_by :: "RoomRef \<Rightarrow> block \<Rightarrow> job list" where
  "served_by r (RunJob q j) = (if q = r then requests [j] else [])"
| "served_by r b = []"

definition waiting :: "RoomRef \<Rightarrow> World \<Rightarrow> job list" where
  "waiting r w = requests (running (the_room r w)) @ requests (jobs (the_room r w))"

definition quiet :: "World \<Rightarrow> World \<Rightarrow> bool" where
  "quiet w w' \<longleftrightarrow> (\<forall>r. running (the_room r w') = running (the_room r w)
     \<and> requests (jobs (the_room r w')) = requests (jobs (the_room r w)))"

lemma requests_append [simp]: "requests (xs @ ys) = requests xs @ requests ys"
  by (simp add: requests_def)

lemma quiet_rooms: "rooms w' = rooms w \<Longrightarrow> quiet w w'"
  by (simp add: quiet_def the_room_def)

lemma quiet_refl [simp]: "quiet w w"
  by (simp add: quiet_def)

lemma quiet_evolves: "evolves False w w' \<Longrightarrow> safe w \<Longrightarrow> faulted w' = None \<Longrightarrow> quiet w w'"
  using steps_queue by (simp add: quiet_def evolves_def)

lemma fold_Remove_rooms [simp]: "rooms (fold RemoveDungeonInstance is w) = rooms w"
  by (induction "is" arbitrary: w) (simp_all add: RemoveDungeonInstance_def)

lemma sending_rooms [simp]:
  "rooms (world (OnConnected s sv)) = rooms (world sv)" "rooms (world (Relay_OnRecvPacket ps txt buf sv)) = rooms (world sv)"
  "rooms (world (Subscriber_on_message m sv)) = rooms (world sv)" "rooms (redis e w) = rooms w"
  "rooms (world (login_player acc n pid sv)) = rooms (world sv)" "rooms (notify_party r p w) = rooms w"
proof -
  have "sends_only w (notify_party r p w)"
    unfolding notify_party_def by (rule sends_only_fold) (auto split: option.split ObjRef.split)
  then show "rooms (notify_party r p w) = rooms w" by (rule sends_only_frame(1))
  show "rooms (world (login_player acc n pid sv)) = rooms (world sv)"
    by (simp add: login_player_def Let_def put_player_def)
qed (simp_all add: sends_only_frame(1) [OF relay_sends] sends_only_frame(1) [OF subscriber_sends]
    sends_only_frame(1) [OF sends_only_redis] OnConnected_def Add_session_def put_session_def)

text \<open>Only handing over a request, taking over a queue and running a job touch the requests of a room.\<close>

fun queue_block :: "block \<Rightarrow> bool" where
  "queue_block (PushTo r j) = True"
| "queue_block (UpdateRoom now r) = True"
| "queue_block (RunJob r j) = True"
| "queue_block b = False"

lemma received_rooms:
  "exec E (Received s buf rk) sv = (bs, sv') \<Longrightarrow> rooms (world sv') = rooms (world sv)"
  by (auto simp: sends_only_frame(1) [OF other_packet_sends] split: option.splits)

lemma catch_up_quiet:
  assumes "exec E (CatchUp now r n) sv = (bs, sv')" "server_ok sv" "faulted (world sv') = None"
  shows "quiet (world sv) (world sv')"
proof (cases "n > 0 \<and> now \<ge> nextTick (the_room r (world sv))")
  case True
  with assms(1) have w: "world sv' = upd_room r (\<lambda>g. g\<lparr>nextTick := nextTick g + kTickMs\<rparr>) (Step r (world sv))" by auto
  have "quiet (world sv) (Step r (world sv))"
    by (rule quiet_evolves [OF evolves_Step]) (use assms w in \<open>simp_all add: server_ok_def\<close>)
  then show ?thesis by (simp add: quiet_def w)
qed (use assms(1) in auto)

lemma exec_quiet:
  assumes "exec E b sv = (bs, sv')" "\<not> queue_block b" "server_ok sv" "faulted (world sv') = None"
  shows "quiet (world sv) (world sv')"
proof (cases b)
  case (Received s buf rk)
  with assms(1) show ?thesis by (intro quiet_rooms received_rooms) blast
next
  case (CatchUp now r n)
  with assms show ?thesis by (intro catch_up_quiet) auto
next
  case (StartClock now r)
  with assms(1) show ?thesis by (auto simp: quiet_def)
next
  case (DropTime now r)
  with assms(1) show ?thesis by (auto simp: quiet_def)
next
  case (Report now lr)
  with assms(1) show ?thesis by (auto intro: quiet_rooms simp: reportPerfIfDue_def ConsumePerfSnapshot_def Let_def)
qed (use assms(1,2) in \<open>auto intro!: quiet_rooms simp: Let_def put_session_def CreatePlayer_def put_player_def
      Remove_session_def split: option.splits if_splits prod.splits\<close>)

section \<open>Who serves a room\<close>

text \<open>The blocks of the update thread; a worker has none of them.\<close>

fun update_block :: "block \<Rightarrow> bool" where
  "update_block (UpdateAll now) = True"
| "update_block (UpdateDungeons now) = True"
| "update_block (UpdateRoom now r) = True"
| "update_block (RunJob r j) = True"
| "update_block b = False"

fun is_run :: "block \<Rightarrow> bool" where
  "is_run (RunJob r j) = True"
| "is_run b = False"

text \<open>The jobs of at most one room are being run: those the update thread still has before it.\<close>

definition serving :: "Multi \<Rightarrow> bool" where
  "serving m \<longleftrightarrow> threads m \<noteq> [] \<and>
     (\<exists>r js rest. threads m ! 0 = map (RunJob r) js @ rest \<and> list_all (\<lambda>b. \<not> is_run b) rest
        \<and> (\<forall>q. running (the_room q (world (shared m))) = (if q = r then js else [])))
     \<and> (\<forall>i < length (threads m). i \<noteq> 0 \<longrightarrow> list_all (\<lambda>b. \<not> update_block b) (threads m ! i))"

lemma worker_blocks:
  "exec E b sv = (bs, sv') \<Longrightarrow> \<not> update_block b \<Longrightarrow> list_all (\<lambda>b. \<not> update_block b) bs"
  by (cases b) (auto simp: Let_def split: option.splits if_splits prod.splits)

lemma no_run_blocks:
  "exec E b sv = (bs, sv') \<Longrightarrow> \<forall>now r. b \<noteq> UpdateRoom now r \<Longrightarrow> list_all (\<lambda>b. \<not> is_run b) bs"
  by (cases b) (auto simp: Let_def list_all_iff split: option.splits if_splits prod.splits)

lemma arrive_blocks:
  "list_all (\<lambda>b. \<not> is_run b) (arrive e)" "\<not> is_turn e \<Longrightarrow> list_all (\<lambda>b. \<not> update_block b) (arrive e)"
  by (cases e; simp)+

text \<open>What a block does to what is being run.\<close>

fun running_after :: "block \<Rightarrow> World \<Rightarrow> RoomRef \<Rightarrow> job list" where
  "running_after (RunJob p j) w q = (if q = p then tl (running (the_room q w)) else running (the_room q w))"
| "running_after (UpdateRoom now p) w q = (if q = p then jobs (the_room q w) else running (the_room q w))"
| "running_after b w q = running (the_room q w)"

lemma running_after_other: "\<not> queue_block b \<Longrightarrow> running_after b w q = running (the_room q w)"
  by (cases b) auto

lemma RunJob_quiet:
  assumes "server_ok sv" "all_ok sv [RunJob p j]" "fresh_room (world sv)" "faulted (run_job p j (world sv)) = None"
  shows "quiet (world sv) (run_job p j (world sv))"
proof (rule quiet_evolves [OF evolves_run_job])
  show "safe (world sv)" using assms(1) by (simp add: server_ok_def)
qed (use assms in auto)

lemma exec_waiting:
  assumes "exec E b sv = (bs, sv')" "server_ok sv" "all_ok sv [b]" "fresh_room (world sv)" "faulted (world sv') = None"
    and "\<And>q j. b = RunJob q j \<Longrightarrow> \<exists>js. running (the_room q (world sv)) = j # js"
    and "\<And>now q. b = UpdateRoom now q \<Longrightarrow> running (the_room q (world sv)) = []"
  shows "waiting r (world sv) @ given_by r b = served_by r b @ waiting r (world sv')
    \<and> (\<forall>q. running (the_room q (world sv')) = running_after b (world sv) q)"
proof (cases "queue_block b")
  case False
  then have "given_by r b = []" "served_by r b = []" by (cases b; simp)+
  with exec_quiet [OF assms(1) False assms(2,5)] running_after_other [OF False] show ?thesis
    by (simp add: waiting_def quiet_def)
next
  case True
  then show ?thesis
  proof (cases b)
    case (PushTo p j)
    with assms(1) show ?thesis by (auto simp: waiting_def PushJob_def)
  next
    case (UpdateRoom now p)
    with assms(1,7) show ?thesis by (auto simp: waiting_def Let_def requests_def)
  next
    case (RunJob p j)
    from assms(6) [OF this] obtain js where js: "running (the_room p (world sv)) = j # js" by blast
    have w: "world sv' = pop_job p (run_job p j (world sv))" using assms(1) RunJob by auto
    have "quiet (world sv) (run_job p j (world sv))"
      by (rule RunJob_quiet) (use assms RunJob w in \<open>simp_all add: pop_job_def\<close>)
    with js show ?thesis by (auto simp: w RunJob waiting_def quiet_def pop_job_def requests_def)
  qed auto
qed

lemma serving_Begin: "serving m \<Longrightarrow> serving (advance E (Begin i e) m)"
proof (cases "may_begin i e m")
  case True
  assume s: "serving m"
  then obtain r js rest where m: "threads m \<noteq> []" "threads m ! 0 = map (RunJob r) js @ rest"
      "\<forall>q. running (the_room q (world (shared m))) = (if q = r then js else [])"
    by (auto simp: serving_def)
  from True have i: "i < length (threads m)" "threads m ! i = []" "i = 0 \<longleftrightarrow> is_turn e" by (auto simp: may_begin_def)
  show ?thesis
  proof (cases "i = 0")
    case T: True
    with m i have "\<forall>q. running (the_room q (world (shared m))) = (if q = r then [] else [])" by auto
    with s i arrive_blocks(1) [of e] show ?thesis
      by (auto simp: serving_def True T intro!: exI [of _ r] exI [of _ "[]"])
  next
    case False
    with s i arrive_blocks(2) [of e] show ?thesis by (auto simp: serving_def True nth_list_update)
  qed
qed simp

lemma is_run_RunJob [simp]: "list_all (\<lambda>b. \<not> is_run b) bs \<Longrightarrow> RunJob r j \<notin> set bs"
  by (auto simp: list_all_iff)

text \<open>The room a job of the update thread belongs to is the one being served; a worker has no such block.\<close>

lemma serving_block:
  assumes "serving m" "next_block i m = Some b"
  shows "b = RunJob q j \<Longrightarrow> i = 0 \<and> (\<exists>js. running (the_room q (world (shared m))) = j # js)"
    "b = UpdateRoom now q \<Longrightarrow> i = 0 \<and> (\<forall>p. running (the_room p (world (shared m))) = [])"
proof -
  obtain r js rest where m: "threads m ! 0 = map (RunJob r) js @ rest" "list_all (\<lambda>b. \<not> is_run b) rest"
      "\<forall>q. running (the_room q (world (shared m))) = (if q = r then js else [])"
      "\<forall>i < length (threads m). i \<noteq> 0 \<longrightarrow> list_all (\<lambda>b. \<not> update_block b) (threads m ! i)"
    using assms(1) by (auto simp: serving_def)
  from assms(2) obtain bs where i: "i < length (threads m)" "threads m ! i = b # bs"
    by (auto simp: next_block_def split: if_splits list.splits)
  have z: "update_block b \<Longrightarrow> i = 0" using m(4) i by (cases "i = 0") (auto simp: list_all_iff)
  { assume b: "b = RunJob q j"
    with z i m show "i = 0 \<and> (\<exists>js. running (the_room q (world (shared m))) = j # js)" by (cases js) auto }
  { assume b: "b = UpdateRoom now q"
    with z i m show "i = 0 \<and> (\<forall>p. running (the_room p (world (shared m))) = [])" by (cases js) auto }
qed

lemma serving_Go:
  assumes "serving m" "next_block i m = Some b" "exec E b (shared m) = (bs', sv')"
    and run: "\<forall>q. running (the_room q (world sv')) = running_after b (world (shared m)) q"
  shows "serving \<lparr>shared = sv', threads = (threads m)[i := bs' @ tl (threads m ! i)]\<rparr>"
proof -
  obtain r js rest where m: "threads m ! 0 = map (RunJob r) js @ rest" "list_all (\<lambda>b. \<not> is_run b) rest"
      "\<forall>q. running (the_room q (world (shared m))) = (if q = r then js else [])"
      "\<forall>i < length (threads m). i \<noteq> 0 \<longrightarrow> list_all (\<lambda>b. \<not> update_block b) (threads m ! i)"
    using assms(1) by (auto simp: serving_def)
  from assms(2) obtain bs where i: "i < length (threads m)" "threads m ! i = b # bs"
    by (auto simp: next_block_def split: if_splits list.splits)
  let ?ts = "(threads m)[i := bs' @ bs]" let ?w = "world (shared m)"
  have "?ts \<noteq> []" using i by auto
  moreover have "\<forall>k < length ?ts. k \<noteq> 0 \<longrightarrow> list_all (\<lambda>b. \<not> update_block b) (?ts ! k)"
    using m(4) i worker_blocks [OF assms(3)] by (auto simp: nth_list_update)
  moreover have "\<exists>r js rest. ?ts ! 0 = map (RunJob r) js @ rest \<and> list_all (\<lambda>b. \<not> is_run b) rest
      \<and> (\<forall>q. running (the_room q (world sv')) = (if q = r then js else []))"
  proof (cases "i = 0")
    case False
    with m(4) i have "\<not> update_block b" by auto
    then have "running_after b ?w = (\<lambda>q. running (the_room q ?w))" by (cases b) auto
    with False m(1-3) run show ?thesis by (intro exI [of _ r] exI [of _ js] exI [of _ rest]) simp
  next
    case T: True
    show ?thesis
    proof (cases js)
      case (Cons j js')
      with T i m(1) have b: "b = RunJob r j" "bs = map (RunJob r) js' @ rest" by auto
      with assms(3) have "bs' = []" by auto
      with T b i m run Cons show ?thesis by (intro exI [of _ r] exI [of _ js'] exI [of _ rest]) simp
    next
      case Nil
      with m(3) have none: "\<forall>q. running (the_room q ?w) = []" by simp
      from Nil T i m(1,2) have rest: "\<not> is_run b" "list_all (\<lambda>b. \<not> is_run b) bs" by auto
      show ?thesis
      proof (cases "\<exists>now p. b = UpdateRoom now p")
        case True
        then obtain now p where b: "b = UpdateRoom now p" by blast
        with assms(3) have "bs' = map (RunJob p) (jobs (the_room p ?w)) @ [StartClock now p, CatchUp now p kMaxCatchUp, DropTime now p]"
          by (auto simp: Let_def)
        with b T i rest run none show ?thesis
          by (intro exI [of _ p] exI [of _ "jobs (the_room p ?w)"]
              exI [of _ "[StartClock now p, CatchUp now p kMaxCatchUp, DropTime now p] @ bs"]) simp
      next
        case False
        have "list_all (\<lambda>b. \<not> is_run b) bs'" using no_run_blocks [OF assms(3)] False by blast
        moreover have "running_after b ?w = (\<lambda>q. [])" using False rest(1) none by (cases b) auto
        ultimately show ?thesis using T i rest run
          by (intro exI [of _ r] exI [of _ "[]"] exI [of _ "bs' @ bs"]) simp
      qed
    qed
  qed
  ultimately show ?thesis using i by (simp add: serving_def)
qed

definition given :: "RoomRef \<Rightarrow> block list \<Rightarrow> job list" where
  "given r bs = concat (map (given_by r) bs)"

definition served :: "RoomRef \<Rightarrow> block list \<Rightarrow> job list" where
  "served r bs = concat (map (served_by r) bs)"

lemma given_served_simps [simp]:
  "given r [] = []" "given r (b # bs) = given_by r b @ given r bs" "served r [] = []" "served r (b # bs) = served_by r b @ served r bs"
  by (simp_all add: given_def served_def)

text \<open>Neither counter has come back: that of the objects' ids to a player, that of the dungeons to a room.\<close>

fun counters_fresh :: "Env \<Rightarrow> choice list \<Rightarrow> Multi \<Rightarrow> bool" where
  "counters_fresh E [] m \<longleftrightarrow> True"
| "counters_fresh E (c # cs) m \<longleftrightarrow>
     fresh_id (shared m) \<and> fresh_room (world (shared m)) \<and> counters_fresh E cs (advance E c m)"

lemma advance_fault:
  assumes "multi_ok m" "fresh_id (shared m)" "faulted (world (shared (advance E c m))) = None"
  shows "faulted (world (shared m)) = None"
proof (cases c)
  case (Go i)
  show ?thesis
  proof (cases "next_block i m")
    case (Some b)
    then obtain bs where i: "i < length (threads m)" "threads m ! i = b # bs"
      by (auto simp: next_block_def split: if_splits list.splits)
    obtain bs' sv' where e: "exec E b (shared m) = (bs', sv')" by fastforce
    have "all_ok (shared m) [b]" using assms(1) i nth_mem [of i "threads m"] by (simp add: multi_ok_def)
    from exec_safe [OF _ assms(2) this e] assms Go Some e show ?thesis by (simp add: multi_ok_def lasting_def)
  qed (use assms Go in simp)
qed (use assms in \<open>simp split: if_splits\<close>)

lemma schedule_fault:
  "multi_ok m \<Longrightarrow> counters_fresh E cs m \<Longrightarrow> faulted (world (shared (fold (advance E) cs m))) = None \<Longrightarrow>
    faulted (world (shared m)) = None"
  by (induction cs arbitrary: m) (simp_all add: advance_ok, metis advance_fault advance_ok)

lemma requests_in_order:
  "multi_ok m \<Longrightarrow> serving m \<Longrightarrow> counters_fresh E cs m \<Longrightarrow> faulted (world (shared (fold (advance E) cs m))) = None \<Longrightarrow>
    waiting r (world (shared m)) @ given r (history E cs m)
      = served r (history E cs m) @ waiting r (world (shared (fold (advance E) cs m)))"
proof (induction cs arbitrary: m)
  case (Cons c cs)
  let ?m = "advance E c m"
  from Cons.prems have fr: "fresh_id (shared m)" "fresh_room (world (shared m))" "counters_fresh E cs ?m" by simp_all
  have ok: "multi_ok ?m" using Cons.prems(1) fr(1) by (rule advance_ok)
  have fault: "faulted (world (shared (fold (advance E) cs ?m))) = None" using Cons.prems(4) by simp
  have f: "faulted (world (shared ?m)) = None" using schedule_fault [OF ok fr(3) fault] .
  show ?case
  proof (cases c)
    case (Begin i e)
    have "shared ?m = shared m" by (simp add: Begin)
    with Cons.IH [OF ok serving_Begin [OF Cons.prems(2), of E i e, folded Begin] fr(3) fault] Begin show ?thesis
      by (simp del: advance.simps)
  next
    case (Go i)
    show ?thesis
    proof (cases "next_block i m")
      case None
      with Go Cons.IH [OF ok _ fr(3) fault] Cons.prems(2) show ?thesis by simp
    next
      case (Some b)
      then obtain bs where i: "i < length (threads m)" "threads m ! i = b # bs"
        by (auto simp: next_block_def split: if_splits list.splits)
      obtain bs' sv' where e: "exec E b (shared m) = (bs', sv')" by fastforce
      have m': "?m = \<lparr>shared = sv', threads = (threads m)[i := bs' @ tl (threads m ! i)]\<rparr>" by (simp add: Go Some e)
      have "all_ok (shared m) [b]" using Cons.prems(1) i nth_mem [of i "threads m"] by (simp add: multi_ok_def)
      from exec_waiting [OF e _ this fr(2)] serving_block [OF Cons.prems(2) Some] Cons.prems(1) f
      have w: "waiting r (world (shared m)) @ given_by r b = served_by r b @ waiting r (world sv')"
        and run: "\<forall>q. running (the_room q (world sv')) = running_after b (world (shared m)) q"
        by (auto simp: m' multi_ok_def)
      have "serving ?m" unfolding m' by (rule serving_Go [OF Cons.prems(2) Some e run])
      from Cons.IH [OF ok this fr(3) fault]
      have ih: "waiting r (world (shared ?m)) @ given r (history E cs ?m)
          = served r (history E cs ?m) @ waiting r (world (shared (fold (advance E) cs ?m)))" .
      have h: "history E (c # cs) m = b # history E cs ?m" by (simp add: Go Some)
      have s: "shared ?m = sv'" by (simp add: m')
      show ?thesis using ih w unfolding h s fold_simps given_served_simps by (metis append_assoc)
    qed
  qed
qed simp

text \<open>
  C3. Requests are neither lost, nor doubled, nor overtaken. In every interleaving of the workers and the update thread, and as long
  as no fault was met, what the workers have handed to a room is what has been run there, in the same order, then what is being
  run and what is still queued.
\<close>

theorem requests_are_run_in_order:
  assumes "server_ok sv" "\<forall>q. running (the_room q (world sv)) = [] \<and> jobs (the_room q (world sv)) = []"
    and "counters_fresh E cs (Multi_start hw args sv)"
    and "m = fold (advance E) cs (Multi_start hw args sv)" "faulted (world (shared m)) = None"
  shows "given r (history E cs (Multi_start hw args sv))
    = served r (history E cs (Multi_start hw args sv))
      @ requests (running (the_room r (world (shared m)))) @ requests (jobs (the_room r (world (shared m))))"
proof -
  let ?m = "Multi_start hw args sv"
  have "multi_ok ?m" using assms(1) by (simp add: multi_ok_def Multi_start_def)
  moreover have "serving ?m"
    using assms(2) by (auto simp: serving_def Multi_start_def nth_Cons split: nat.split intro!: exI [of _ "[]"])
  moreover have "waiting r (world (shared ?m)) = []" using assms(2) by (simp add: waiting_def Multi_start_def requests_def)
  ultimately show ?thesis using requests_in_order [OF _ _ assms(3), of r] assms(4,5) by (simp add: waiting_def)
qed

text \<open>The update thread begins its round when a worker has found the room of a turn, and takes the turn over once it is queued.\<close>

theorem requests_are_run_in_order_witness:
  "let cs = [Begin 1 (EvPacket 0 [5, 0, 104, 0, 7] None), Go 1, Begin 0 (EvTurn 50 0), Go 0, Go 1, Go 0];
       m = fold (advance sample_env) cs (Multi_start 2 [] sample_server); w = world (shared m)
   in given town1 (history sample_env cs (Multi_start 2 [] sample_server))
      = served town1 (history sample_env cs (Multi_start 2 [] sample_server))
        @ requests (running (the_room town1 w)) @ requests (jobs (the_room town1 w))"
  unfolding Let_def
proof (rule requests_are_run_in_order [OF _ _ _ refl])
  show "server_ok sample_server"
    by (simp add: server_ok_def sample_server_def sample_safe Server_boot_def db_ok_def DB_empty_def)
  show "\<forall>q. running (the_room q (world sample_server)) = [] \<and> jobs (the_room q (world sample_server)) = []"
    by (simp add: sample_server_def sample_room_def GameRoom_new_def)
  have s: "Multi_start 2 [] sample_server = \<lparr>shared = sample_server, threads = [[], [], []]\<rparr>"
    by (simp add: Multi_start_def ResolveWorkerCount_def numeral_eq_Suc)
  have r: "session_room 0 sample_world = Some town1" "staticRooms sample_world = [town1]" "idGenerator sample_world = 3"
      "wplayers sample_world 3 = None" "rooms sample_world (DungeonRoom k) = None" for k
    by (simp_all add: session_room_def room_alive_def sample_world_def the_session_def town1_def)
  note now = may_begin_def next_block_def request_of_def sizeof_PacketHeader_def header_at_def le16_value_def ParsePacket_def
    sample_env_def sample_parsers_def Let_def on_world_def sample_server_def r
  show "counters_fresh sample_env
      [Begin 1 (EvPacket 0 [5, 0, 104, 0, 7] None), Go 1, Begin 0 (EvTurn 50 0), Go 0, Go 1, Go 0] (Multi_start 2 [] sample_server)"
    unfolding s by (simp add: now fresh_id_def fresh_room_def PushJob_def) (simp add: upd_room_def r town1_def)
  show "faulted (world (shared (fold (advance sample_env)
      [Begin 1 (EvPacket 0 [5, 0, 104, 0, 7] None), Go 1, Begin 0 (EvTurn 50 0), Go 0, Go 1, Go 0]
      (Multi_start 2 [] sample_server)))) = None"
    unfolding s by (simp add: now PushJob_def)
qed

section \<open>A request handed over too late\<close>

lemma Broadcast_tells:
  "x \<in> set (out (Broadcast r p w)) \<Longrightarrow> x \<in> set (out w) \<or> (\<exists>pid t. pid \<in> set (players (the_room r w))
    \<and> psession (the_player pid w) = Some t \<and> x = Packet t p)"
proof -
  have "x \<in> set (out (fold (\<lambda>pid w. case psession (the_player pid w) of
              None \<Rightarrow> raise NullDereference w
            | Some s \<Rightarrow> send_packet s p w) ps v)) \<Longrightarrow> x \<in> set (out v) \<or> (\<exists>pid t. pid \<in> set ps
    \<and> psession (the_player pid v) = Some t \<and> x = Packet t p)" for ps v
  proof (induction ps arbitrary: v)
    case (Cons pid ps)
    show ?case
    proof (cases "psession (the_player pid v)")
      case None
      have "out (raise NullDereference v) = out v" by (simp add: raise_def)
      with None Cons.prems Cons.IH [of "raise NullDereference v"] show ?thesis by auto
    next
      case (Some t)
      have "set (out (send_packet t p v)) \<subseteq> insert (Packet t p) (set (out v))" by (auto simp: send_packet_def)
      with Some Cons.prems Cons.IH [of "send_packet t p v"] show ?thesis by auto
    qed
  qed simp
  then show "x \<in> set (out (Broadcast r p w)) \<Longrightarrow> ?thesis" by (simp add: Broadcast_def)
qed

lemma queue_frame:
  assumes "running (the_room r w) = []" "jobs (the_room r w) = []"
  shows "session_player s (upd_room r (\<lambda>g. g\<lparr>running := [JobPacket s c], jobs := []\<rparr>) w) = session_player s w"
    "CanGo r p (upd_room r (\<lambda>g. g\<lparr>running := [JobPacket s c], jobs := []\<rparr>) w) = CanGo r p w"
proof -
  let ?w = "upd_room r (\<lambda>g. g\<lparr>running := [JobPacket s c], jobs := []\<rparr>) w"
  have "owned_players (the_room q ?w) = owned_players (the_room q w)" for q
    using assms by (simp add: owned_players_def entering_def)
  then have "alive_players ?w = alive_players w" by (simp add: alive_players_def upd_room_def)
  moreover have "the_session s ?w = the_session s w" by (simp add: the_session_def upd_room_def)
  ultimately show "session_player s ?w = session_player s w" by (simp add: session_player_def player_alive_def split: option.split)
  have "obj_pos ref ?w = obj_pos ref w" for ref by (cases ref) (simp_all add: obj_pos_def)
  then show "CanGo r p ?w = CanGo r p w" by (simp add: CanGo_def GetCreatureAt_def first_at_def Let_def split: option.split)
qed

text \<open>
  C32. A worker that has looked up a session's room and is overtaken before it hands the request over hands it to that room even if
  the player has gone to another in between. A step asked for that way is taken by the walls and creatures of the room the player
  has left: it ends inside a wall of the room it is in, and nobody there is told of it.
\<close>

theorem late_step_enters_a_wall:
  assumes "i \<noteq> 0" "next_block i m = Some (PushTo r (JobPacket s (C_Move d)))" "next_block 0 m = Some (UpdateRoom now r)"
    and "running (the_room r (world (shared m))) = []" "jobs (the_room r (world (shared m))) = []"
    and "session_player s (world (shared m)) = Some pid" "in_room (the_player pid (world (shared m))) = Some q" "q \<noteq> r"
    and "DIR_TYPE_IsValid d" "i_dir (info (the_player pid (world (shared m)))) = d"
    and "i_state (info (the_player pid (world (shared m)))) \<noteq> MOVE"
    and "front = GetFrontCellPos (the_player pid (world (shared m)))"
    and "CanGo r front (world (shared m))" "IsBlockedByWall q front (world (shared m))"
    and "w = world (shared (fold (advance E) [Go i, Go 0, Go 0] m))"
  shows "GetCellPos (the_player pid w) = front \<and> in_room (the_player pid w) = Some q \<and> IsBlockedByWall q front w
    \<and> (\<forall>t p. Packet t p \<in> set (out w) \<longrightarrow> Packet t p \<in> set (out (world (shared m)))
          \<or> (\<exists>k \<in> set (players (the_room r w)). psession (the_player k w) = Some t))"
proof -
  let ?w = "world (shared m)" let ?j = "JobPacket s (C_Move d)"
  let ?w1 = "upd_room r (\<lambda>g. g\<lparr>running := [?j], jobs := []\<rparr>) ?w"
  obtain bs0 bsi where t: "0 < length (threads m)" "threads m ! 0 = UpdateRoom now r # bs0"
      "i < length (threads m)" "threads m ! i = PushTo r ?j # bsi"
    using assms(2,3) by (auto simp: next_block_def split: if_splits list.splits)
  define m1 where "m1 = advance E (Go i) m"
  define m2 where "m2 = advance E (Go 0) m1"
  have m1: "world (shared m1) = PushJob r ?j ?w" "threads m1 = (threads m)[i := bsi]"
    using assms(2) t by (simp_all add: m1_def)
  have n1: "next_block 0 m1 = Some (UpdateRoom now r)" using t assms(1) by (simp add: next_block_def m1)
  have "PushJob r ?j ?w = upd_room r (\<lambda>g. g\<lparr>jobs := [?j]\<rparr>) ?w" using assms(5) by (simp add: PushJob_def upd_room_def)
  then have m2: "world (shared m2) = ?w1" "next_block 0 m2 = Some (RunJob r ?j)"
    using t assms(1) by (simp_all add: m2_def n1 m1 Let_def) (simp_all add: upd_room_def the_room_def next_block_def m1)
  have w: "w = pop_job r (run_packet r s (C_Move d) ?w1)"
    by (simp add: assms(15) m1_def [symmetric] m2_def [symmetric] del: advance.simps) (simp add: m2)
  note q = queue_frame [OF assms(4,5), where s = s and c = "C_Move d"]
  obtain n w2 where clk: "tick ?w1 = (n, w2)" by fastforce
  have w2: "out w2 = out ?w" "the_player k w2 = the_player k ?w" "the_room p w2 = the_room p ?w1" for k p
    using clk by (auto simp: tick_def upd_room_def the_player_def the_room_def)
  let ?p = "StartMove n 75 (set_pos front (set_state MOVE (the_player pid ?w)))"
  have h: "run_packet r s (C_Move d) ?w1 = Broadcast r (S_Move (info ?p)) (put_player pid ?p w2)"
    using assms(6,9-13) q by (simp add: Handle_C_Move_def Let_def clk)
  have w': "w = pop_job r (Broadcast r (S_Move (info ?p)) (put_player pid ?p w2))" unfolding w h by (rule refl)
  have out: "out w = out (Broadcast r (S_Move (info ?p)) (put_player pid ?p w2))"
    by (simp add: w' pop_job_def upd_room_def)
  have po: "out (put_player pid ?p w2) = out ?w" by (simp add: put_player_def w2)
  have pl: "the_player k w = (if k = pid then ?p else the_player k ?w)" for k by (simp add: w' pop_job_def w2)
  have rooms: "the_room q w = the_room q ?w" "players (the_room r w) = players (the_room r ?w)"
    using assms(8) by (simp_all add: w' pop_job_def w2)
  have "Packet t p \<in> set (out ?w) \<or> (\<exists>k \<in> set (players (the_room r w)). psession (the_player k w) = Some t)"
    if "Packet t p \<in> set (out w)" for t p
    using Broadcast_tells [OF that [unfolded out]] by (auto simp: w2 pl rooms po split: if_splits)
  moreover have "IsBlockedByWall q front w" using assms(14) by (simp add: IsBlockedByWall_def rooms)
  ultimately show ?thesis using assms(7) by (auto simp: pl GetCellPos_def set_pos_def set_state_def StartMove_def)
qed

text \<open>The hero has gone from the first town to the second, where the cell in front of it is a wall.\<close>

definition town2 :: RoomRef where
  "town2 = StaticRoom Town 2"

definition late_world :: World where
  "late_world = sample_world
     \<lparr>rooms := [town1 \<mapsto> GameRoom_new\<lparr>tilemap := bare_map\<rparr>,
        town2 \<mapsto> GameRoom_new\<lparr>players := [1], tilemap := bare_map\<lparr>tiles := [[1, 0, 0], [0, 0, 0], [0, 0, 0]]\<rparr>\<rparr>],
      roomRefs := [town1, town2], staticRooms := [town1, town2], wplayers := [1 \<mapsto> sample_hero\<lparr>in_room := Some town2\<rparr>],
      wmonsters := Map.empty\<rparr>"

definition late_multi :: Multi where
  "late_multi = \<lparr>shared = sample_server\<lparr>world := late_world\<rparr>,
     threads = [[UpdateRoom 50 town1, UpdateRoom 50 town2], [PushTo town1 (JobPacket 0 (C_Move DIR_UP))]]\<rparr>"

theorem late_step_enters_a_wall_witness:
  "let w = world (shared (fold (advance sample_env) [Go 1, Go 0, Go 0] late_multi))
   in GetCellPos (the_player 1 w) = Vec 0 0 \<and> in_room (the_player 1 w) = Some town2 \<and> IsBlockedByWall town2 (Vec 0 0) w"
proof -
  have t: "town2 \<noteq> town1" by (simp add: town1_def town2_def)
  have p: "the_player 1 late_world = sample_hero\<lparr>in_room := Some town2\<rparr>" by (simp add: late_world_def the_player_def)
  have r: "the_room town1 late_world = GameRoom_new\<lparr>tilemap := bare_map\<rparr>"
    "the_room town2 late_world = GameRoom_new\<lparr>players := [1], tilemap := bare_map\<lparr>tiles := [[1, 0, 0], [0, 0, 0], [0, 0, 0]]\<rparr>\<rparr>"
    using t by (simp_all add: late_world_def the_room_def)
  have s: "the_session 0 late_world = \<lparr>gs_room = Some town1, gs_player = Some 1, gs_account = 3\<rparr>"
    "roomRefs late_world = [town1, town2]"
    by (simp_all add: late_world_def sample_world_def the_session_def)
  have f: "GetFrontCellPos (sample_hero\<lparr>in_room := Some town2\<rparr>) = Vec 0 0"
    using sample_hero_simps(1,2) by (simp add: GetFrontCellPos_def GetCellPos_def)
  have m: "world (shared late_multi) = late_world" by (simp add: late_multi_def)
  define w where "w = world (shared (fold (advance sample_env) [Go 1, Go 0, Go 0] late_multi))"
  have "GetCellPos (the_player 1 w) = Vec 0 0 \<and> in_room (the_player 1 w) = Some town2 \<and> IsBlockedByWall town2 (Vec 0 0) w
    \<and> (\<forall>t p. Packet t p \<in> set (out w) \<longrightarrow> Packet t p \<in> set (out (world (shared late_multi)))
          \<or> (\<exists>k \<in> set (players (the_room town1 w)). psession (the_player k w) = Some t))"
  proof (rule late_step_enters_a_wall)
    show "next_block 1 late_multi = Some (PushTo town1 (JobPacket 0 (C_Move DIR_UP)))"
      "next_block 0 late_multi = Some (UpdateRoom 50 town1)" by (simp_all add: late_multi_def next_block_def)
    show "session_player 0 (world (shared late_multi)) = Some 1"
      by (simp add: m s r session_player_def player_alive_def alive_players_def owned_players_def)
    show "in_room (the_player 1 (world (shared late_multi))) = Some town2" by (simp add: m p)
    show "w = world (shared (fold (advance sample_env) [Go 1, Go 0, Go 0] late_multi))" by (rule w_def)
    show "CanGo town1 (Vec 0 0) (world (shared late_multi))" "IsBlockedByWall town2 (Vec 0 0) (world (shared late_multi))"
      by (simp_all add: m r CanGo_def GetCreatureAt_def first_at_def IsBlockedByWall_def GetTileAt_def bare_map_def GameRoom_new_def)
  qed (use t f sample_hero_simps in \<open>simp_all add: m p r GameRoom_new_def DIR_TYPE_IsValid_def\<close>)
  then show ?thesis unfolding Let_def w_def [symmetric] by blast
qed

end
