(* ===== verification/ClientResources.thy ===== *)
theory ClientResources
  imports RoomData ClientSprite ClientMap
begin

text \<open>
  What the client loads before it shows the scene: the tables of \<open>ResourceManager\<close>, the sheets \<open>DevSceneResourceLoader\<close> reads
  into them, \<open>Texture\<close>, \<open>Sprite\<close>, \<open>Sound\<close> and \<open>SoundManager\<close>, and the two actors that draw pictures rather than flipbooks.
  The scanner of the sheets (\<open>FindKey\<close>, \<open>GetStringValue\<close>, \<open>GetIntValue\<close>, \<open>GetIntArray\<close>, \<open>GetObjectsInArray\<close>) is, statement
  for statement, the one of the server's \<open>RoomDataManager\<close>, so the definitions of \<open>RoomData\<close> are used for it. Files, bitmaps
  and wave files, and whether DirectSound gives a device and a buffer, are a record of the outside world.
\<close>

section \<open>Failures\<close>

text \<open>An uncaught exception of \<open>stoi\<close> or of a vector, and a null or out of range access: both end the client.\<close>

datatype failure = Thrown | NullDeref

definition and_then :: "failure + 'a \<Rightarrow> ('a \<Rightarrow> failure + 'b) \<Rightarrow> failure + 'b" where
  "and_then m f = (case m of Inl e \<Rightarrow> Inl e | Inr x \<Rightarrow> f x)"

definition or_fail :: "failure \<Rightarrow> 'a option \<Rightarrow> failure + 'a" where
  "or_fail e x = (case x of None \<Rightarrow> Inl e | Some y \<Rightarrow> Inr y)"

lemma and_then_simps [simp]: "and_then (Inl e) f = Inl e" "and_then (Inr x) f = f x"
  by (simp_all add: and_then_def)

lemma and_then_Inr: "and_then m f = Inr y \<longleftrightarrow> (\<exists>x. m = Inr x \<and> f x = Inr y)"
  by (cases m) simp_all

lemma or_fail_simps [simp]: "or_fail e None = Inl e" "or_fail e (Some x) = Inr x"
  "or_fail e z = Inr y \<longleftrightarrow> z = Some y"
  by (auto simp: or_fail_def split: option.split)

section \<open>Wide strings\<close>

text \<open>\<open>wstring(value.begin(), value.end())\<close> extends the sign of each \<open>char\<close>. A literal \<open>L"..."\<close> is the widening of its letters.\<close>

type_synonym wstring = "16 word list"

definition ToWideAscii :: "string \<Rightarrow> wstring" where
  "ToWideAscii value = map (\<lambda>c. scast (of_char c :: byte)) value"

section \<open>The outside world\<close>

text \<open>
  The text files by path; what is found at a path under the resource directory: the size of a bitmap, the data chunk of a wave
  file, the text of a tilemap; whether \<open>CreateSoundBuffer\<close> succeeds.
\<close>

record Disk =
  d_text :: "string \<Rightarrow> string option"
  d_bitmap :: "wstring \<Rightarrow> wstring \<Rightarrow> Vec2Int option"
  d_wave :: "wstring \<Rightarrow> wstring \<Rightarrow> byte list option"
  d_tilemap :: "wstring \<Rightarrow> wstring \<Rightarrow> string option"
  d_buffers :: bool

definition ReadAllText :: "Disk \<Rightarrow> string \<Rightarrow> string" where
  "ReadAllText D filePath = (case d_text D filePath of None \<Rightarrow> '''' | Some content \<Rightarrow> content)"

section \<open>Textures, sprites, sounds\<close>

record Texture =
  tx_path :: wstring
  tx_size :: Vec2Int
  tx_transparent :: uint32

text \<open>\<open>RGB(r, g, b)\<close> keeps the low byte of each.\<close>

definition RGB :: "int32 \<Rightarrow> int32 \<Rightarrow> int32 \<Rightarrow> uint32" where
  "RGB r g b = word_of_int (r mod 256 + 256 * (g mod 256) + 65536 * (b mod 256))"

text \<open>A bitmap that is not found raises a message box; \<open>GetObject\<close> then leaves its record zeroed, and so the size.\<close>

definition LoadBmp :: "Disk \<Rightarrow> wstring \<Rightarrow> wstring \<Rightarrow> Texture" where
  "LoadBmp D base path =
     \<lparr>tx_path = path, tx_size = (case d_bitmap D base path of None \<Rightarrow> Vec 0 0 | Some sz \<Rightarrow> sz), tx_transparent = RGB 255 0 255\<rparr>"

definition SetTransparent :: "uint32 \<Rightarrow> Texture \<Rightarrow> Texture" where
  "SetTransparent c t = t\<lparr>tx_transparent := c\<rparr>"

text \<open>A sprite: a rectangle of a texture.\<close>

record Picture =
  pic_texture :: Texture
  pic_pos :: Vec2Int
  pic_size :: Vec2Int

definition Picture_GetTransparent :: "Picture \<Rightarrow> uint32" where
  "Picture_GetTransparent p = tx_transparent (pic_texture p)"

text \<open>A flipbook as the table holds it: its record and the texture the pointer in it leads to.\<close>

record Flipbook =
  fl_info :: FlipbookInfo
  fl_texture :: "Texture option"

text \<open>A sound: its buffer, null until one is loaded, the position in it, and whether it plays and loops.\<close>

record Sound =
  snd_buffer :: "byte list option"
  snd_position :: nat
  snd_playing :: "bool option"

definition Sound_new :: Sound where
  "Sound_new = \<lparr>snd_buffer = None, snd_position = 0, snd_playing = None\<rparr>"

text \<open>
  \<open>fullPath.extension() == L".wav"\<close>: the last dot of the file name starts the extension, unless it is the first character.
\<close>

definition file_name :: "wstring \<Rightarrow> wstring" where
  "file_name p = rev (takeWhile (\<lambda>c. c \<notin> set (ToWideAscii ''/'' @ [0x5C])) (rev p))"

definition is_wav :: "wstring \<Rightarrow> bool" where
  "is_wav p \<longleftrightarrow> (let f = file_name p; n = length f in n > 4 \<and> drop (n - 4) f = ToWideAscii ''.wav'')"

text \<open>\<open>device\<close>: there is a DirectSound device. Without one \<open>GetSoundDevice()->CreateSoundBuffer\<close> goes through null.\<close>

definition LoadWave :: "Disk \<Rightarrow> bool \<Rightarrow> wstring \<Rightarrow> wstring \<Rightarrow> Sound \<Rightarrow> failure + (bool \<times> Sound)" where
  "LoadWave D device base path s =
     (if \<not> is_wav path then Inr (False, s)
      else case d_wave D base path of
             None \<Rightarrow> Inr (False, s)
           | Some wave \<Rightarrow>
               if \<not> device then Inl NullDeref
               else if \<not> d_buffers D then Inr (False, s)
               else Inr (True, s\<lparr>snd_buffer := Some wave\<rparr>))"

definition Sound_Play :: "bool \<Rightarrow> Sound \<Rightarrow> failure + Sound" where
  "Sound_Play loop s =
     (if snd_buffer s = None then Inl NullDeref else Inr (s\<lparr>snd_position := 0, snd_playing := Some loop\<rparr>))"

definition Sound_Stop :: "bool \<Rightarrow> Sound \<Rightarrow> failure + Sound" where
  "Sound_Stop reset s =
     (if snd_buffer s = None then Inl NullDeref
      else Inr (if reset then s\<lparr>snd_playing := None, snd_position := 0\<rparr> else s\<lparr>snd_playing := None\<rparr>))"

section \<open>ResourceManager\<close>

text \<open>
  Five tables of pointers: a key that is not in the table is \<open>None\<close>, one that is there with a null pointer \<open>Some None\<close>.
  Textures and sprites are not changed after they are stored, so a pointer to one is as good as its record.
\<close>

type_synonym 'a table = "wstring \<rightharpoonup> 'a option"

record ResourceManager =
  rm_path :: wstring
  rm_textures :: "Texture table"
  rm_sprites :: "Picture table"
  rm_flipbooks :: "Flipbook table"
  rm_tilemaps :: "Tilemap table"
  rm_sounds :: "Sound table"

definition ResourceManager_Init :: "wstring \<Rightarrow> ResourceManager" where
  "ResourceManager_Init base = \<lparr>rm_path = base, rm_textures = Map.empty, rm_sprites = Map.empty, rm_flipbooks = Map.empty,
     rm_tilemaps = Map.empty, rm_sounds = Map.empty\<rparr>"

text \<open>\<open>Clear\<close> forgets the sounds: they stay in their table and are not deleted.\<close>

definition ResourceManager_Clear :: "ResourceManager \<Rightarrow> ResourceManager" where
  "ResourceManager_Clear R = R\<lparr>rm_textures := Map.empty, rm_sprites := Map.empty, rm_flipbooks := Map.empty,
     rm_tilemaps := Map.empty\<rparr>"

text \<open>\<open>operator[]\<close>: a key that is asked for and not there is stored with a null pointer.\<close>

definition at_key :: "wstring \<Rightarrow> 'a table \<Rightarrow> 'a option \<times> 'a table" where
  "at_key key m = (case m key of None \<Rightarrow> (None, m(key \<mapsto> None)) | Some p \<Rightarrow> (p, m))"

text \<open>The object stored under a key, if there is one: what \<open>operator[]\<close> returns.\<close>

definition stored_at :: "'a table \<Rightarrow> wstring \<Rightarrow> 'a option" where
  "stored_at m key = (case m key of None \<Rightarrow> None | Some p \<Rightarrow> p)"

lemma at_key_held [simp]: "fst (at_key key m) = stored_at m key" "stored_at (snd (at_key key m)) = stored_at m"
  by (auto simp: at_key_def stored_at_def fun_eq_iff split: option.split)

definition GetTexture :: "wstring \<Rightarrow> ResourceManager \<Rightarrow> Texture option \<times> ResourceManager" where
  "GetTexture key R = (case at_key key (rm_textures R) of (p, m) \<Rightarrow> (p, R\<lparr>rm_textures := m\<rparr>))"

definition GetSprite :: "wstring \<Rightarrow> ResourceManager \<Rightarrow> Picture option \<times> ResourceManager" where
  "GetSprite key R = (case at_key key (rm_sprites R) of (p, m) \<Rightarrow> (p, R\<lparr>rm_sprites := m\<rparr>))"

definition FlipbookOf :: "wstring \<Rightarrow> ResourceManager \<Rightarrow> Flipbook option \<times> ResourceManager" where
  "FlipbookOf key R = (case at_key key (rm_flipbooks R) of (p, m) \<Rightarrow> (p, R\<lparr>rm_flipbooks := m\<rparr>))"

definition GetTilemap :: "wstring \<Rightarrow> ResourceManager \<Rightarrow> Tilemap option \<times> ResourceManager" where
  "GetTilemap key R = (case at_key key (rm_tilemaps R) of (p, m) \<Rightarrow> (p, R\<lparr>rm_tilemaps := m\<rparr>))"

definition GetSound :: "wstring \<Rightarrow> ResourceManager \<Rightarrow> Sound option \<times> ResourceManager" where
  "GetSound key R = (case at_key key (rm_sounds R) of (p, m) \<Rightarrow> (p, R\<lparr>rm_sounds := m\<rparr>))"

definition LoadTexture :: "Disk \<Rightarrow> wstring \<Rightarrow> wstring \<Rightarrow> uint32 \<Rightarrow> ResourceManager \<Rightarrow> Texture option \<times> ResourceManager" where
  "LoadTexture D key path transparent R =
     (case rm_textures R key of
        Some p \<Rightarrow> (p, R)
      | None \<Rightarrow>
          let texture = SetTransparent transparent (LoadBmp D (rm_path R) path)
          in (Some texture, R\<lparr>rm_textures := (rm_textures R)(key \<mapsto> Some texture)\<rparr>))"

text \<open>A width or height of 0 stands for the texture's.\<close>

definition CreateSprite :: "wstring \<Rightarrow> Texture \<Rightarrow> int32 \<Rightarrow> int32 \<Rightarrow> int32 \<Rightarrow> int32 \<Rightarrow> ResourceManager
    \<Rightarrow> Picture option \<times> ResourceManager" where
  "CreateSprite key texture x y cx cy R =
     (case rm_sprites R key of
        Some p \<Rightarrow> (p, R)
      | None \<Rightarrow>
          let cx' = (if cx = 0 then vx (tx_size texture) else cx);
              cy' = (if cy = 0 then vy (tx_size texture) else cy);
              sprite = \<lparr>pic_texture = texture, pic_pos = Vec x y, pic_size = Vec cx' cy'\<rparr>
          in (Some sprite, R\<lparr>rm_sprites := (rm_sprites R)(key \<mapsto> Some sprite)\<rparr>))"

text \<open>A new flipbook has the empty record, one second long.\<close>

definition Flipbook_new :: Flipbook where
  "Flipbook_new = \<lparr>fl_info = \<lparr>fb_texture = '''', fb_name = '''', fb_size = Vec 0 0, fb_start = 0, fb_end = 0, fb_line = 0,
     fb_duration = 1, fb_loop = True\<rparr>, fl_texture = None\<rparr>"

definition CreateFlipbook :: "wstring \<Rightarrow> ResourceManager \<Rightarrow> Flipbook option \<times> ResourceManager" where
  "CreateFlipbook key R =
     (case rm_flipbooks R key of
        Some p \<Rightarrow> (p, R)
      | None \<Rightarrow> (Some Flipbook_new, R\<lparr>rm_flipbooks := (rm_flipbooks R)(key \<mapsto> Some Flipbook_new)\<rparr>))"

definition CreateTilemap :: "wstring \<Rightarrow> ResourceManager \<Rightarrow> Tilemap option \<times> ResourceManager" where
  "CreateTilemap key R =
     (case rm_tilemaps R key of
        Some p \<Rightarrow> (p, R)
      | None \<Rightarrow> (Some Tilemap_new, R\<lparr>rm_tilemaps := (rm_tilemaps R)(key \<mapsto> Some Tilemap_new)\<rparr>))"

text \<open>\<open>LoadFile\<close> on the map of the table, which may be null; it throws for a negative size.\<close>

definition LoadTilemap :: "Disk \<Rightarrow> wstring \<Rightarrow> wstring \<Rightarrow> ResourceManager \<Rightarrow> failure + (Tilemap \<times> ResourceManager)" where
  "LoadTilemap D key path R =
     (let tilemaps = (if rm_tilemaps R key = None then (rm_tilemaps R)(key \<mapsto> Some Tilemap_new) else rm_tilemaps R);
          file = d_tilemap D (rm_path R) path
      in case the (tilemaps key) of
           None \<Rightarrow> Inl NullDeref
         | Some tm \<Rightarrow>
             and_then (or_fail Thrown (LoadFile (file \<noteq> None) (case file of None \<Rightarrow> '''' | Some t \<Rightarrow> t) tm)) (\<lambda>tm'.
               Inr (tm', R\<lparr>rm_tilemaps := tilemaps(key \<mapsto> Some tm')\<rparr>)))"

text \<open>The result of \<open>LoadWave\<close> is not looked at: a sound without a buffer is stored like any other.\<close>

definition LoadSound :: "Disk \<Rightarrow> bool \<Rightarrow> wstring \<Rightarrow> wstring \<Rightarrow> ResourceManager \<Rightarrow> failure + (Sound option \<times> ResourceManager)" where
  "LoadSound D device key path R =
     (case rm_sounds R key of
        Some p \<Rightarrow> Inr (p, R)
      | None \<Rightarrow>
          and_then (LoadWave D device (rm_path R) path Sound_new) (\<lambda>(loaded, sound).
            Inr (Some sound, R\<lparr>rm_sounds := (rm_sounds R)(key \<mapsto> Some sound)\<rparr>)))"

section \<open>SoundManager\<close>

text \<open>The device: \<open>Init\<close> gives up when it cannot be created, and keeps it when its cooperative level cannot be set.\<close>

definition SoundManager_Init :: "bool \<Rightarrow> bool \<Rightarrow> bool" where
  "SoundManager_Init created level_set \<longleftrightarrow> created"

definition SoundManager_Play :: "wstring \<Rightarrow> bool \<Rightarrow> ResourceManager \<Rightarrow> failure + ResourceManager" where
  "SoundManager_Play key loop R =
     (case GetSound key R of
        (None, R') \<Rightarrow> Inr R'
      | (Some sound, R') \<Rightarrow>
          and_then (Sound_Play loop sound) (\<lambda>s. Inr (R'\<lparr>rm_sounds := (rm_sounds R')(key \<mapsto> Some s)\<rparr>)))"

end
