(* ===== verification/SceneLoader.thy ===== *)
theory SceneLoader
  imports ClientResources ClientTilemap
begin

text \<open>
  \<open>DevSceneResourceLoader\<close>: the sheets of textures, sprites and sounds, the flipbooks, and what \<open>DevScene\<close> makes of them when
  it starts: the background, the tilemaps, the music. Then the two actors that draw pictures: \<open>SpriteActor\<close> and the debug view
  of \<open>TilemapActor\<close>.
\<close>

section \<open>Fields\<close>

definition ParseBoolValue :: "string \<Rightarrow> string \<Rightarrow> nat \<Rightarrow> bool \<Rightarrow> bool" where
  "ParseBoolValue json key startPos defaultValue =
     (case do { keyPos \<leftarrow> FindKey json key startPos; str_find json '':'' keyPos } of
        None \<Rightarrow> defaultValue
      | Some colonPos \<Rightarrow>
          let valueStart = scan blank json (length json) (colonPos + 1)
          in if substr json valueStart 4 = ''true'' then True
             else if substr json valueStart 5 = ''false'' then False
             else defaultValue)"

text \<open>\<open>None\<close> throws; \<open>Some None\<close> is the result \<open>false\<close>.\<close>

definition TryGetColorKeyField :: "string \<Rightarrow> (int32 \<times> int32 \<times> int32) option option" where
  "TryGetColorKeyField objectText =
     map_option (\<lambda>values. if length values < 3 then None else Some (values ! 0, values ! 1, values ! 2))
       (GetIntArray objectText ''colorkey'' 0)"

definition ExtractFilePathValue :: "string \<Rightarrow> string" where
  "ExtractFilePathValue objectText =
     map (\<lambda>c. if c = CHR ''/'' then CHR 0x5C else c) (GetStringValue objectText ''path'' 0)"

section \<open>Sheets\<close>

fun each_object :: "(string \<Rightarrow> 'r \<Rightarrow> failure + 'r) \<Rightarrow> string list \<Rightarrow> 'r \<Rightarrow> failure + 'r" where
  "each_object f [] R = Inr R"
| "each_object f (obj # objs) R = and_then (f obj R) (each_object f objs)"

definition read_sheet :: "Disk \<Rightarrow> string \<Rightarrow> string \<Rightarrow> string list" where
  "read_sheet D relativePath arrayKey =
     (let json = ReadAllText D (ResolveExistingPath (d_text D) relativePath)
      in if json = '''' then [] else GetObjectsInArray json arrayKey 0)"

definition load_texture :: "Disk \<Rightarrow> string \<Rightarrow> ResourceManager \<Rightarrow> failure + ResourceManager" where
  "load_texture D obj R =
     (let id' = GetStringValue obj ''id'' 0; path = ExtractFilePathValue obj; wid = ToWideAscii id'
      in if id' = '''' \<or> path = '''' then Inr R
         else and_then (or_fail Thrown (TryGetColorKeyField obj)) (\<lambda>key.
           Inr (snd (LoadTexture D wid (ToWideAscii path)
             (case key of None \<Rightarrow> RGB 255 0 255 | Some (r, g, b) \<Rightarrow> RGB r g b) R))))"

definition LoadSceneTextures :: "Disk \<Rightarrow> ResourceManager \<Rightarrow> failure + ResourceManager" where
  "LoadSceneTextures D = each_object (load_texture D) (read_sheet D ''../DatasheetsClient/Textures.json'' ''textures'')"

definition create_sprite :: "string \<Rightarrow> ResourceManager \<Rightarrow> failure + ResourceManager" where
  "create_sprite obj R =
     (let id' = GetStringValue obj ''id'' 0; textureId = GetStringValue obj ''texture'' 0
      in if id' = '''' \<or> textureId = '''' then Inr R
         else and_then (or_fail Thrown (GetIntValue obj ''x'' 0)) (\<lambda>x.
              and_then (or_fail Thrown (GetIntValue obj ''y'' 0)) (\<lambda>y.
              and_then (or_fail Thrown (GetIntValue obj ''w'' 0)) (\<lambda>w.
              and_then (or_fail Thrown (GetIntValue obj ''h'' 0)) (\<lambda>h.
                Inr (case GetTexture (ToWideAscii textureId) R of
                       (None, R') \<Rightarrow> R'
                     | (Some texture, R') \<Rightarrow> snd (CreateSprite (ToWideAscii id') texture x y w h R')))))))"

definition CreateSceneSprites :: "Disk \<Rightarrow> ResourceManager \<Rightarrow> failure + ResourceManager" where
  "CreateSceneSprites D = each_object create_sprite (read_sheet D ''../DatasheetsClient/Sprites.json'' ''sprites'')"

definition load_sound :: "Disk \<Rightarrow> bool \<Rightarrow> string \<Rightarrow> ResourceManager \<Rightarrow> failure + ResourceManager" where
  "load_sound D device obj R =
     (let id' = GetStringValue obj ''id'' 0; path = ExtractFilePathValue obj; wid = ToWideAscii id'
      in if id' = '''' \<or> path = '''' then Inr R
         else and_then (LoadSound D device wid (ToWideAscii path) R) (\<lambda>(sound, R').
           if ParseBoolValue obj ''loop_on_init'' 0 False then SoundManager_Play wid True R' else Inr R'))"

definition LoadSceneSounds :: "Disk \<Rightarrow> bool \<Rightarrow> ResourceManager \<Rightarrow> failure + ResourceManager" where
  "LoadSceneSounds D device =
     each_object (load_sound D device) (read_sheet D ''../DatasheetsClient/Sounds.json'' ''sounds'')"

text \<open>
  A line of \<open>LoadFlipbooks\<close> (the lines are the list \<open>ClientSprite.LoadFlipbooks\<close>): the texture may be null, the flipbook
  \<open>SetInfo\<close> is called on may not.
\<close>

definition load_flipbook :: "FlipbookInfo \<Rightarrow> ResourceManager \<Rightarrow> failure + ResourceManager" where
  "load_flipbook b R =
     (let (texture, R1) = GetTexture (ToWideAscii (fb_texture b)) R; key = ToWideAscii (fb_name b);
          (fb, R2) = CreateFlipbook key R1
      in case fb of
           None \<Rightarrow> Inl NullDeref
         | Some _ \<Rightarrow>
             Inr (R2\<lparr>rm_flipbooks := (rm_flipbooks R2)(key \<mapsto> Some \<lparr>fl_info = b, fl_texture = texture\<rparr>)\<rparr>))"

fun load_books :: "FlipbookInfo list \<Rightarrow> ResourceManager \<Rightarrow> failure + ResourceManager" where
  "load_books [] R = Inr R"
| "load_books (b # bs) R = and_then (load_flipbook b R) (load_books bs)"

definition LoadSceneFlipbooks :: "ResourceManager \<Rightarrow> failure + ResourceManager" where
  "LoadSceneFlipbooks = load_books LoadFlipbooks"

text \<open>\<open>SaveTilemap\<close> gives the text it writes and the path it writes it to.\<close>

definition SaveTilemap :: "wstring \<Rightarrow> wstring \<Rightarrow> ResourceManager \<Rightarrow> failure + ((wstring \<times> wstring) \<times> string \<times> ResourceManager)" where
  "SaveTilemap key path R =
     (case GetTilemap key R of
        (None, R') \<Rightarrow> Inl NullDeref
      | (Some tm, R') \<Rightarrow> Inr ((rm_path R', path), SaveFile tm, R'))"

section \<open>The scene\<close>

text \<open>What \<open>DevScene\<close> keeps of the resources: the background's picture and place, and the map its tilemap actor shows.\<close>

record Stage =
  st_background :: "Picture option"
  st_backgroundPos :: Vec2
  st_tilemap :: "Tilemap option"
  st_showDebug :: bool

definition background_pos :: "Picture \<Rightarrow> Vec2" where
  "background_pos sprite = Pos (of_int (trunc_div (vx (pic_size sprite)) 2)) (of_int (trunc_div (vy (pic_size sprite)) 2))"

definition DevScene_LoadMap :: "ResourceManager \<Rightarrow> failure + (Stage \<times> ResourceManager)" where
  "DevScene_LoadMap R =
     (case GetSprite (ToWideAscii ''Stage01'') R of
        (None, R') \<Rightarrow> Inl NullDeref
      | (Some sprite, R') \<Rightarrow> Inr (\<lparr>st_background = Some sprite, st_backgroundPos = background_pos sprite,
          st_tilemap = None, st_showDebug = False\<rparr>, R'))"

text \<open>\<open>SetMapSize\<close>, \<open>SetTileSize\<close> and \<open>LoadTilemap\<close> on the map \<open>tm\<close> that is stored under \<open>key\<close>.\<close>

definition fill_tilemap :: "Disk \<Rightarrow> wstring \<Rightarrow> wstring \<Rightarrow> Vec2Int \<Rightarrow> Tilemap \<Rightarrow> ResourceManager \<Rightarrow> failure + ResourceManager" where
  "fill_tilemap D key path sz tm R =
     and_then (or_fail Thrown (SetMapSize sz tm)) (\<lambda>tm1.
     and_then (LoadTilemap D key path (R\<lparr>rm_tilemaps := (rm_tilemaps R)(key \<mapsto> Some (SetTileSize 48 tm1))\<rparr>)) (\<lambda>(_, R').
       Inr R'))"

definition make_tilemap :: "Disk \<Rightarrow> wstring \<Rightarrow> wstring \<Rightarrow> Vec2Int \<Rightarrow> ResourceManager \<Rightarrow> failure + ResourceManager" where
  "make_tilemap D key path sz R =
     (case CreateTilemap key R of
        (None, R') \<Rightarrow> Inl NullDeref
      | (Some tm, R') \<Rightarrow> fill_tilemap D key path sz tm R')"

definition tilemap_path :: "string \<Rightarrow> wstring" where
  "tilemap_path file = ToWideAscii (''Tilemap'' @ [CHR 0x5C] @ file)"

definition DevScene_LoadTilemap :: "Disk \<Rightarrow> Stage \<times> ResourceManager \<Rightarrow> failure + (Stage \<times> ResourceManager)" where
  "DevScene_LoadTilemap D SR =
     and_then (make_tilemap D (ToWideAscii ''Tilemap_01'') (tilemap_path ''Tilemap_01.txt'') (Vec 63 43) (snd SR)) (\<lambda>R1.
     and_then (make_tilemap D (ToWideAscii ''Tilemap_02'') (tilemap_path ''Tilemap_02.txt'') (Vec 40 32) R1) (\<lambda>R2.
       Inr ((fst SR)\<lparr>st_tilemap := fst (GetTilemap (ToWideAscii ''Tilemap_01'') R2), st_showDebug := False\<rparr>, R2)))"

text \<open>
  Changing the map: the tilemap's table is asked first, which stores a null for a map that is not there, so that
  \<open>CreateTilemap\<close> after it returns that null and the function gives up. The actor the map is handed to is there since the scene
  was loaded.
\<close>

definition show_tilemap :: "Disk \<Rightarrow> wstring \<Rightarrow> wstring \<Rightarrow> Vec2Int \<Rightarrow> Stage \<times> ResourceManager
    \<Rightarrow> failure + (Stage \<times> ResourceManager)" where
  "show_tilemap D key path sz SR =
     (case GetTilemap key (snd SR) of
        (Some tm, R1) \<Rightarrow> Inr ((fst SR)\<lparr>st_tilemap := Some tm, st_showDebug := False\<rparr>, R1)
      | (None, R1) \<Rightarrow>
          (case CreateTilemap key R1 of
             (None, R2) \<Rightarrow> Inr (fst SR, R2)
           | (Some tm, R2) \<Rightarrow>
               and_then (fill_tilemap D key path sz tm R2) (\<lambda>R3.
                 Inr ((fst SR)\<lparr>st_tilemap := fst (GetTilemap key R3), st_showDebug := False\<rparr>, R3))))"

definition LoadTilemapFile :: "Disk \<Rightarrow> wstring \<Rightarrow> Stage \<times> ResourceManager \<Rightarrow> failure + (Stage \<times> ResourceManager)" where
  "LoadTilemapFile D file SR =
     (if file = tilemap_path ''Tilemap_01.txt'' then show_tilemap D (ToWideAscii ''Tilemap_01'') file (Vec 63 43) SR
      else if file = tilemap_path ''Tilemap_02.txt'' then show_tilemap D (ToWideAscii ''Tilemap_02'') file (Vec 40 32) SR
      else Inr SR)"

definition ChangeBackground :: "int32 \<Rightarrow> Stage \<times> ResourceManager \<Rightarrow> Stage \<times> ResourceManager" where
  "ChangeBackground mapId SR =
     (if st_background (fst SR) = None then SR
      else if mapId \<noteq> MAP_ID_TOWN \<and> mapId \<noteq> MAP_ID_DUNGEON then SR
      else case GetSprite (ToWideAscii (if mapId = MAP_ID_TOWN then ''Stage01'' else ''Stage02'')) (snd SR) of
             (None, R') \<Rightarrow> (fst SR, R')
           | (Some sprite, R') \<Rightarrow>
               ((fst SR)\<lparr>st_background := Some sprite, st_backgroundPos := background_pos sprite\<rparr>, R'))"

text \<open>The part of \<open>DevScene::ChangeMap\<close> that is about resources.\<close>

definition change_stage :: "Disk \<Rightarrow> int32 \<Rightarrow> Stage \<times> ResourceManager \<Rightarrow> failure + (Stage \<times> ResourceManager)" where
  "change_stage D mapId SR =
     (let SR' = ChangeBackground mapId SR
      in if mapId = MAP_ID_TOWN then LoadTilemapFile D (tilemap_path ''Tilemap_01.txt'') SR'
         else if mapId = MAP_ID_DUNGEON then LoadTilemapFile D (tilemap_path ''Tilemap_02.txt'') SR'
         else Inr SR')"

text \<open>The part of \<open>DevScene::Init\<close> that loads.\<close>

definition load_scene :: "Disk \<Rightarrow> bool \<Rightarrow> ResourceManager \<Rightarrow> failure + (Stage \<times> ResourceManager)" where
  "load_scene D device R =
     and_then (LoadSceneTextures D R) (\<lambda>R1.
     and_then (CreateSceneSprites D R1) (\<lambda>R2.
     and_then (LoadSceneFlipbooks R2) (\<lambda>R3.
     and_then (DevScene_LoadMap R3) (\<lambda>SR.
     and_then (DevScene_LoadTilemap D SR) (\<lambda>(S, R4).
     and_then (LoadSceneSounds D device R4) (\<lambda>R5. Inr (S, R5)))))))"

section \<open>Drawing pictures\<close>

text \<open>A copy to the screen: where, how large, and the corner it is taken from in which texture.\<close>

datatype blit = Blit (blit_to: Vec2Int) (blit_size: Vec2Int) (blit_from: Vec2Int) (blit_texture: Texture)

definition SpriteActor_Render :: "Vec2 \<Rightarrow> Vec2 \<Rightarrow> Picture option \<Rightarrow> blit list" where
  "SpriteActor_Render camera pos sprite =
     (case sprite of
        None \<Rightarrow> []
      | Some p \<Rightarrow> [Blit (draw_pos camera (pic_size p) pos) (pic_size p) (pic_pos p) (pic_texture p)])"

text \<open>
  The debug view of the tilemap: the cells the window covers along one axis, and the picture of each cell, which is \<open>TileO\<close>
  where one can walk and \<open>TileX\<close> where one cannot. Neither pointer is looked at before it is used.
\<close>

definition window_cells :: "rat \<Rightarrow> int32 \<Rightarrow> rat \<Rightarrow> int32 \<Rightarrow> int32 list" where
  "window_cells camera win pos tile =
     (let l = int_of_float camera - win div 2; r = int_of_float camera + win div 2
      in [int_of_float ((of_int l - pos) / of_int tile) .. int_of_float ((of_int r - pos) / of_int tile)])"

definition tile_blit :: "Vec2 \<Rightarrow> Vec2 \<Rightarrow> Vec2Int \<Rightarrow> Picture \<Rightarrow> blit" where
  "tile_blit camera pos cell p =
     Blit (Vec (int_of_float (px pos + of_int (vx cell * TILE_SIZEX - (int_of_float (px camera) - GWinSizeX div 2))))
               (int_of_float (py pos + of_int (vy cell * TILE_SIZEY - (int_of_float (py camera) - GWinSizeY div 2)))))
       (Vec TILE_SIZEX TILE_SIZEY) (pic_pos p) (pic_texture p)"

fun draw_cells :: "(Vec2Int \<Rightarrow> int32 option) \<Rightarrow> Picture option \<Rightarrow> Picture option \<Rightarrow> (Vec2Int \<Rightarrow> Picture \<Rightarrow> blit)
    \<Rightarrow> Vec2Int list \<Rightarrow> failure + blit list" where
  "draw_cells tile spriteO spriteX draw [] = Inr []"
| "draw_cells tile spriteO spriteX draw (c # cs) =
     (case tile c of
        None \<Rightarrow> draw_cells tile spriteO spriteX draw cs
      | Some v \<Rightarrow>
          if v = 0 then and_then (or_fail NullDeref spriteO) (\<lambda>p.
            and_then (draw_cells tile spriteO spriteX draw cs) (\<lambda>bs. Inr (draw c p # bs)))
          else if v = 1 then and_then (or_fail NullDeref spriteX) (\<lambda>p.
            and_then (draw_cells tile spriteO spriteX draw cs) (\<lambda>bs. Inr (draw c p # bs)))
          else draw_cells tile spriteO spriteX draw cs)"

definition TilemapActor_Render :: "Vec2 \<Rightarrow> Vec2 \<Rightarrow> Stage \<times> ResourceManager \<Rightarrow> failure + (blit list \<times> ResourceManager)" where
  "TilemapActor_Render camera pos SR =
     (case st_tilemap (fst SR) of
        None \<Rightarrow> Inr ([], snd SR)
      | Some tm \<Rightarrow>
          if \<not> st_showDebug (fst SR) then Inr ([], snd SR)
          else let (spriteO, R1) = GetSprite (ToWideAscii ''TileO'') (snd SR);
                   (spriteX, R2) = GetSprite (ToWideAscii ''TileX'') R1;
                   cells = concat (map (\<lambda>y. map (\<lambda>x. Vec x y) (window_cells (px camera) GWinSizeX (px pos) TILE_SIZEX))
                     (window_cells (py camera) GWinSizeY (py pos) TILE_SIZEY))
               in and_then (draw_cells (\<lambda>c. GetTileAt c tm) spriteO spriteX (tile_blit camera pos) cells)
                    (\<lambda>bs. Inr (bs, R2)))"

end
