(* ===== verification/SceneLoader_Props.thy ===== *)
theory SceneLoader_Props
  imports SceneLoader
begin

text \<open>
  The client's sheets read back: a text is cut at its quotes, and a key is found at the first piece between two quotes that is
  equal to it. From this the objects and the fields of a sheet in the form of the shipped ones are recovered.
\<close>

declare int_array_loop.simps [simp del] objects_loop.simps [simp del]

section \<open>Finding\<close>

lemma index_of_shift: "index_of pat s (i + k) = map_option ((+) k) (index_of pat s i)"
proof (induction s arbitrary: i)
  case (Cons c cs)
  from Cons.IH [of "i + 1"] show ?case by simp
qed simp

lemma str_find_at: "str_find (pre @ s) pat (length pre) = map_option ((+) (length pre)) (index_of pat s 0)"
  using index_of_shift [of pat s 0 "length pre"] by (simp add: str_find_def)

lemma index_of_char: "c \<notin> set a \<Longrightarrow> index_of [c] (a @ c # b) i = Some (i + length a)"
  by (induction a arbitrary: i) auto

text \<open>Pieces, each behind a quote.\<close>

fun quoted :: "string list \<Rightarrow> string" where
  "quoted [] = []"
| "quoted (s # ss) = CHR 0x22 # s @ quoted ss"

lemma quoted_append: "quoted (xs @ ys) = quoted xs @ quoted ys"
  by (induction xs) simp_all

definition unquoted :: "string \<Rightarrow> bool" where
  "unquoted s \<longleftrightarrow> CHR 0x22 \<notin> set s"

lemma index_of_skip: "CHR 0x22 \<notin> set s \<Longrightarrow> index_of (CHR 0x22 # p) (s @ r) i = index_of (CHR 0x22 # p) r (i + length s)"
  by (induction s arbitrary: i) (auto simp: index_of_shift [of _ _ _ "_ :: nat", symmetric])

lemma quote_match:
  assumes "CHR 0x22 \<notin> set k" "CHR 0x22 \<notin> set s"
  shows "take (length k + 1) (s @ CHR 0x22 # r) = k @ [CHR 0x22] \<longleftrightarrow> s = k"
  using assms
proof (induction s arbitrary: k)
  case Nil
  then show ?case by (cases k) auto
next
  case (Cons c s)
  then show ?case by (cases k) auto
qed

text \<open>The first piece with a quote on either side that is the key.\<close>

fun piece_at :: "string \<Rightarrow> string list \<Rightarrow> nat \<Rightarrow> nat option" where
  "piece_at k (s # t # ss) i = (if s = k then Some i else piece_at k (t # ss) (i + 1 + length s))"
| "piece_at k [s] i = None"
| "piece_at k [] i = None"

lemma index_of_quoted:
  assumes "CHR 0x22 \<notin> set k" "\<forall>s \<in> set ss. CHR 0x22 \<notin> set s"
  shows "index_of (CHR 0x22 # k @ [CHR 0x22]) (quoted ss) i = piece_at k ss i"
  using assms
proof (induction k ss i rule: piece_at.induct)
  case (1 k s t ss i)
  then show ?case
    using quote_match [of k s "t @ quoted ss"] index_of_skip [of s "k @ [CHR 0x22]" "quoted (t # ss)" "i + 1"] by simp
next
  case (2 k s i)
  then have "take (length k + 1) s \<noteq> k @ [CHR 0x22]" by (metis in_set_takeD in_set_conv_decomp list.set_intros(1))
  with 2 show ?case using index_of_skip [of s "k @ [CHR 0x22]" "[]" "i + 1"] by simp
qed simp

lemma FindKey_pieces:
  assumes "unquoted key" "unquoted s" "\<forall>p \<in> set ps. unquoted p"
  shows "FindKey (s @ quoted ps) key 0 = piece_at key ps (length s)"
  using index_of_skip [of s "key @ [CHR 0x22]" "quoted ps" 0] index_of_quoted [of key ps "length s"] assms
  by (simp add: FindKey_def str_find_def unquoted_def)

section \<open>Fields\<close>

lemma piece_at_found: "k \<notin> set ps \<Longrightarrow> piece_at k (ps @ k # t # ss) i = Some (i + length (quoted ps))"
proof (induction ps arbitrary: i)
  case (Cons p ps)
  then show ?case by (cases ps) (auto simp: add.assoc)
qed simp

lemma FindKey_found:
  assumes "unquoted key" "unquoted s" "\<forall>p \<in> set (ps @ t # ss). unquoted p" "key \<notin> set ps"
  shows "FindKey (s @ quoted (ps @ key # t # ss)) key 0 = Some (length s + length (quoted ps))"
  using FindKey_pieces [of key s "ps @ key # t # ss"] piece_at_found [of key ps t ss "length s"] assms by auto

text \<open>The text of a sheet around a key: what is before it, the key, and the piece after it.\<close>

definition keyed :: "string \<Rightarrow> string list \<Rightarrow> string \<Rightarrow> string \<Rightarrow> string list \<Rightarrow> bool" where
  "keyed s ps key t ss \<longleftrightarrow> unquoted key \<and> CHR '':'' \<notin> set key \<and> unquoted s
     \<and> (\<forall>p \<in> set (ps @ t # ss). unquoted p) \<and> key \<notin> set ps"

lemma find_colon:
  assumes "CHR '':'' \<notin> set key"
  shows "str_find (pre @ CHR 0x22 # key @ CHR 0x22 # CHR '':'' # r) '':'' (length pre) = Some (length pre + length key + 2)"
  using str_find_at [of pre "CHR 0x22 # key @ CHR 0x22 # CHR '':'' # r" "'':''"]
    index_of_char [of "CHR '':''" "CHR 0x22 # key @ [CHR 0x22]" r 0] assms by simp

lemma key_colon:
  assumes "keyed s ps key (CHR '':'' # t) ss"
  defines "pre \<equiv> s @ quoted ps"
  shows "s @ quoted (ps @ key # (CHR '':'' # t) # ss) = pre @ CHR 0x22 # key @ CHR 0x22 # CHR '':'' # t @ quoted ss"
    and "FindKey (s @ quoted (ps @ key # (CHR '':'' # t) # ss)) key 0 = Some (length pre)"
    and "str_find (s @ quoted (ps @ key # (CHR '':'' # t) # ss)) '':'' (length pre) = Some (length pre + length key + 2)"
  using assms FindKey_found [of key s ps "CHR '':'' # t" ss] find_colon [of key pre "t @ quoted ss"]
  by (simp_all add: keyed_def quoted_append)

lemma substr_at: "substr (pre @ a @ b) (length pre) (length a) = a"
  by (simp add: substr_def)

lemma string_field:
  assumes "keyed s ps key '': '' (v # w # ss)"
  shows "GetStringValue (s @ quoted (ps @ key # '': '' # v # w # ss)) key 0 = v"
proof -
  let ?pre = "s @ quoted ps" and ?json = "s @ quoted (ps @ key # '': '' # v # w # ss)"
  let ?p1 = "?pre @ CHR 0x22 # key @ [CHR 0x22]" and ?r = "w @ quoted ss"
  note k = key_colon [OF assms]
  have j: "?json = ?p1 @ CHR '':'' # CHR '' '' # CHR 0x22 # v @ CHR 0x22 # ?r" using k(1) by simp
  have q1: "str_find ?json [CHR 0x22] (length ?p1) = Some (length ?p1 + 2)"
    using str_find_at [of ?p1 "CHR '':'' # CHR '' '' # CHR 0x22 # v @ CHR 0x22 # ?r" "[CHR 0x22]"]
    unfolding j by simp
  let ?p2 = "?p1 @ '': '' @ [CHR 0x22]"
  have j2: "?json = ?p2 @ v @ CHR 0x22 # ?r" using j by simp
  have "CHR 0x22 \<notin> set v" using assms by (simp add: keyed_def unquoted_def)
  then have q2: "str_find ?json [CHR 0x22] (length ?p2) = Some (length ?p2 + length v)"
    using str_find_at [of ?p2 "v @ CHR 0x22 # ?r" "[CHR 0x22]"] index_of_char [of "CHR 0x22" v ?r 0]
    unfolding j2 by simp
  have v: "substr ?json (length ?p2) (length v) = v" unfolding j2 by (rule substr_at)
  from k(2,3) q1 q2 v show ?thesis by (simp add: GetStringValue_def add.assoc)
qed

lemma scan_prefix:
  assumes "\<forall>c \<in> set a. P c" "b = [] \<or> \<not> P (hd b)" "length pre + length a \<le> limit"
  shows "scan P (pre @ a @ b) limit (length pre) = length pre + length a"
proof -
  have "take (limit - length pre) (a @ b) = a @ take (limit - length pre - length a) b"
    using assms(3) by simp
  moreover have "takeWhile P (take n b) = []" for n
    using assms(2) by (cases b; cases n) auto
  ultimately have "takeWhile P (take (limit - length pre) (a @ b)) = a"
    using assms(1) by (simp add: takeWhile_append2)
  then show ?thesis by (simp add: scan_def)
qed

lemma show_int_numeric: "\<forall>c \<in> set (show_int v). numeric c" "show_int v \<noteq> []" "\<not> blank (hd (show_int v))" "\<not> sep (hd (show_int v))"
proof -
  show n: "\<forall>c \<in> set (show_int v). numeric c"
    using show_nat_digits by (auto simp: show_int_def numeric_def)
  show e: "show_int v \<noteq> []" using show_nat_digits by (simp add: show_int_def)
  then have "numeric (hd (show_int v))" using n by simp
  then show "\<not> blank (hd (show_int v))" "\<not> sep (hd (show_int v))"
    using digit_facts by (auto simp: numeric_def sep_def blank_def is_digit_def char_code_def)
qed

lemma number_field:
  assumes "keyed s ps key (CHR '':'' # CHR '' '' # show_int v @ c # t) ss" "in32 v" "\<not> numeric c"
  shows "GetIntValue (s @ quoted (ps @ key # (CHR '':'' # CHR '' '' # show_int v @ c # t) # ss)) key 0 = Some v"
proof -
  let ?pre = "s @ quoted ps" and ?json = "s @ quoted (ps @ key # (CHR '':'' # CHR '' '' # show_int v @ c # t) # ss)"
  let ?p1 = "?pre @ CHR 0x22 # key @ CHR 0x22 # '':''" and ?r = "t @ quoted ss"
  note k = key_colon [OF assms(1)]
  have j: "?json = ?p1 @ '' '' @ show_int v @ c # ?r" using k(1) by simp
  then have a: "scan blank ?json (length ?json) (length ?p1) = length ?p1 + 1"
    using scan_prefix [of "'' ''" blank "show_int v @ c # ?r" ?p1 "length ?json"] show_int_numeric [of v]
    by (simp add: blank_def hd_append)
  let ?p2 = "?p1 @ '' ''"
  have j2: "?json = ?p2 @ show_int v @ c # ?r" using j by simp
  then have b: "scan numeric ?json (length ?json) (length ?p2) = length ?p2 + length (show_int v)"
    using scan_prefix [of "show_int v" numeric "c # ?r" ?p2 "length ?json"] show_int_numeric [of v] assms(3) by simp
  have "substr ?json (length ?p2) (length (show_int v)) = show_int v" unfolding j2 by (rule substr_at)
  with k(2,3) a b show ?thesis
    using stoi_show assms(2) show_int_numeric(2) [of v] by (simp add: GetIntValue_def add.assoc)
qed

text \<open>An array of three numbers; a key that is nowhere gives the empty array.\<close>

lemma int_array_step:
  assumes "json = pre @ sp @ show_int v @ c # r" "\<forall>x \<in> set sp. sep x" "in32 v" "\<not> numeric c"
    "length pre + length sp + length (show_int v) \<le> e"
  shows "int_array_loop json e (length pre) res = int_array_loop json e (length (pre @ sp @ show_int v)) (res @ [v])"
proof -
  have p: "scan sep json e (length pre) = length (pre @ sp)"
    using scan_prefix [of sp sep "show_int v @ c # r" pre e] assms show_int_numeric [of v] by (simp add: hd_append)
  have j2: "json = (pre @ sp) @ show_int v @ c # r" using assms(1) by simp
  have n: "scan numeric json e (length (pre @ sp)) = length (pre @ sp @ show_int v)"
    using scan_prefix [of "show_int v" numeric "c # r" "pre @ sp" e] assms show_int_numeric [of v] by (simp add: j2)
  have s: "substr json (length (pre @ sp)) (length (show_int v)) = show_int v"
    unfolding j2 by (rule substr_at)
  have "1 \<le> length (show_int v)" using show_int_numeric(2) [of v] by (cases "show_int v") simp_all
  then have "length pre < e" "length (pre @ sp) < e" "length (pre @ sp) < length (pre @ sp @ show_int v)"
    using assms(5) unfolding length_append by linarith+
  then show ?thesis
    using p n s stoi_show [OF assms(3)] by (subst int_array_loop.simps) (simp add: Let_def add.assoc)
qed

lemma colorkey_field:
  assumes "keyed s ps key ('': ['' @ show_int r @ '', '' @ show_int g @ '', '' @ show_int b @ '']'' @ t) ss" "key \<noteq> ''''"
    "in32 r" "in32 g" "in32 b"
  shows "GetIntArray (s @ quoted (ps @ key # ('': ['' @ show_int r @ '', '' @ show_int g @ '', '' @ show_int b @ '']'' @ t) # ss))
    key 0 = Some [r, g, b]"
proof -
  let ?json = "s @ quoted (ps @ key # ('': ['' @ show_int r @ '', '' @ show_int g @ '', '' @ show_int b @ '']'' @ t) # ss)"
  let ?pre = "s @ quoted ps" and ?r = "t @ quoted ss"
  let ?nums = "show_int r @ '', '' @ show_int g @ '', '' @ show_int b"
  have key: "keyed s ps key (CHR '':'' # ('' ['' @ ?nums @ '']'' @ t)) ss" using assms(1) by simp
  note k = key_colon [OF key]
  let ?p1 = "?pre @ CHR 0x22 # key @ CHR 0x22 # '': ''"
  let ?q = "?p1 @ ''[''" and ?e = "length ?p1 + 1 + length ?nums"
  have j: "?json = ?p1 @ ''['' @ ?nums @ '']'' @ ?r" using k(1) by simp
  have j1: "?json = (?pre @ CHR 0x22 # key @ [CHR 0x22]) @ '': ['' @ ?nums @ '']'' @ ?r" using j by simp
  have a: "str_find ?json ''['' (length ?pre + length key + 2) = Some (length ?p1)"
    using str_find_at [of "?pre @ CHR 0x22 # key @ [CHR 0x22]" "'': ['' @ ?nums @ '']'' @ ?r" "''[''"] unfolding j1 by (simp add: add.assoc)
  have num: "CHR '']'' \<notin> set (show_int v)" for v
    using show_int_numeric(1) [of v] by (auto simp: numeric_def is_digit_def char_code_def)
  have e: "str_find ?json '']'' (length ?p1) = Some ?e"
    using str_find_at [of ?p1 "''['' @ ?nums @ '']'' @ ?r" "'']''"] index_of_char [of "CHR '']''" "''['' @ ?nums" ?r 0] num
    unfolding j by simp
  have sp: "\<forall>x \<in> set '', ''. sep x" by (simp add: sep_def blank_def)
  have nn: "\<not> numeric (CHR '','')" "\<not> numeric (CHR '']'')" by (simp_all add: numeric_def is_digit_def char_code_def)
  have "int_array_loop ?json ?e (length ?q) [] = int_array_loop ?json ?e (length (?q @ show_int r)) [r]"
    using int_array_step [of ?json ?q "''''" r "CHR '',''" "'' '' @ show_int g @ '', '' @ show_int b @ '']'' @ ?r" ?e "[]"]
      j assms(3) nn by simp
  moreover have "\<dots> = int_array_loop ?json ?e (length (?q @ show_int r @ '', '' @ show_int g)) [r, g]"
    using int_array_step [of ?json "?q @ show_int r" "'', ''" g "CHR '',''" "'' '' @ show_int b @ '']'' @ ?r" ?e "[r]"]
      j assms(4) nn sp by simp
  moreover have "\<dots> = int_array_loop ?json ?e (length (?q @ ?nums)) [r, g, b]"
    using int_array_step [of ?json "?q @ show_int r @ '', '' @ show_int g" "'', ''" b "CHR '']''" ?r ?e "[r, g]"]
      j assms(5) nn sp by simp
  moreover have "int_array_loop ?json ?e (length (?q @ ?nums)) [r, g, b] = Some [r, g, b]"
    by (subst int_array_loop.simps) simp
  ultimately have "int_array_loop ?json ?e (length ?q) [] = Some [r, g, b]" by simp
  with k(2,3) a e assms(2) show ?thesis by (simp add: GetIntArray_def add.assoc)
qed

lemma no_colorkey:
  assumes "unquoted key" "unquoted s" "\<forall>p \<in> set ps. unquoted p" "key \<notin> set ps" "key \<noteq> ''''"
  shows "GetIntArray (s @ quoted ps) key 0 = Some []"
proof -
  have "piece_at key ps i = None" for i
    using assms(4) by (induction key ps i rule: piece_at.induct) auto
  with FindKey_pieces [OF assms(1-3)] assms(5) show ?thesis by (simp add: GetIntArray_def)
qed

section \<open>The objects of a sheet\<close>

text \<open>An object without objects in it whose brackets match.\<close>

definition level_text :: "string \<Rightarrow> bool" where
  "level_text b \<longleftrightarrow> (\<forall>n r pos. balance (CHR ''['') (CHR '']'') (Suc n) (b @ r) pos
     = balance (CHR ''['') (CHR '']'') (Suc n) r (pos + length b))"

definition flat_object :: "string \<Rightarrow> bool" where
  "flat_object obj \<longleftrightarrow> level_text obj \<and> (\<exists>b. obj = CHR ''{'' # b @ ''}'' \<and> CHR ''{'' \<notin> set b \<and> CHR ''}'' \<notin> set b)"

lemma level_text_append: "level_text a \<Longrightarrow> level_text b \<Longrightarrow> level_text (a @ b)"
  by (simp add: level_text_def add.assoc)

lemma level_text_plain: "CHR ''['' \<notin> set a \<Longrightarrow> CHR '']'' \<notin> set a \<Longrightarrow> level_text a"
  unfolding level_text_def by (induction a) auto

lemma level_text_array:
  assumes "CHR ''['' \<notin> set a" "CHR '']'' \<notin> set a"
  shows "level_text (CHR ''['' # a @ '']'')"
  using level_text_plain [OF assms] by (simp add: level_text_def)

lemma balance_body:
  "CHR ''{'' \<notin> set b \<Longrightarrow> CHR ''}'' \<notin> set b \<Longrightarrow>
    balance (CHR ''{'') (CHR ''}'') 1 (b @ CHR ''}'' # r) pos = (0, pos + length b + 1)"
  by (induction b arbitrary: pos) auto

lemma GetObjectBlock_at:
  assumes "flat_object obj"
  shows "GetObjectBlock (pre @ obj @ r) (length pre) = Some (obj, length pre + length obj)"
proof -
  obtain b where b: "obj = CHR ''{'' # b @ ''}''" "CHR ''{'' \<notin> set b" "CHR ''}'' \<notin> set b"
    using assms by (auto simp: flat_object_def)
  have "str_find (pre @ obj @ r) ''{'' (length pre) = Some (length pre)"
    using str_find_at [of pre "obj @ r" "''{''"] by (simp add: b(1))
  moreover have "drop (length pre + 1) (pre @ obj @ r) = b @ CHR ''}'' # r" by (simp add: b(1))
  moreover have "substr (pre @ obj @ r) (length pre) (length obj) = obj" by (rule substr_at)
  ultimately show ?thesis
    using balance_body [OF b(2,3), of r "length pre + 1"] by (simp add: GetObjectBlock_def b(1))
qed

lemma objects_step:
  assumes "json = pre @ sp @ obj @ r" "\<forall>x \<in> set sp. sep x" "flat_object obj" "length (pre @ sp @ obj) \<le> e"
  shows "objects_loop json e (length pre) res = objects_loop json e (length (pre @ sp @ obj)) (res @ [obj])"
proof -
  obtain b where b: "obj = CHR ''{'' # b @ ''}''" using assms(3) by (auto simp: flat_object_def)
  have "\<not> sep (CHR ''{'')" by (simp add: sep_def blank_def)
  then have p: "scan sep json e (length pre) = length (pre @ sp)"
    using scan_prefix [of sp sep "obj @ r" pre e] assms by (simp add: b)
  have j2: "json = (pre @ sp) @ obj @ r" using assms(1) by simp
  have "json ! length (pre @ sp) = CHR ''{''" unfolding j2 by (simp add: nth_append b)
  moreover have "length pre < e" "length (pre @ sp) < e" using assms(4) b by simp_all
  ultimately show ?thesis
    using p GetObjectBlock_at [OF assms(3), of "pre @ sp" r]
    by (subst objects_loop.simps) (simp add: Let_def j2 add.assoc)
qed

lemma objects_end:
  assumes "json = pre @ sp @ CHR '']'' # r" "\<forall>x \<in> set sp. sep x" "length (pre @ sp) < e"
  shows "objects_loop json e (length pre) res = res"
proof -
  have "\<not> sep (CHR '']'')" by (simp add: sep_def blank_def)
  then have "scan sep json e (length pre) = length (pre @ sp)"
    using scan_prefix [of sp sep "CHR '']'' # r" pre e] assms by simp
  moreover have "json ! length (pre @ sp) = CHR '']''"
    using nth_append_length [of "pre @ sp" "CHR '']''" r] assms(1) by simp
  ultimately show ?thesis using assms(3) by (subst objects_loop.simps) (simp add: Let_def)
qed

text \<open>A sheet in the form of the shipped ones: one array, an object to a line.\<close>

fun listed :: "string list \<Rightarrow> string" where
  "listed [] = []"
| "listed (obj # objs) = (if objs = [] then obj else obj @ '','' @ CHR 0x0A # ''    '' @ listed objs)"

definition json_sheet :: "string \<Rightarrow> string list \<Rightarrow> string" where
  "json_sheet key objs = ''{'' @ CHR 0x0A # ''  '' @ CHR 0x22 # key @ CHR 0x22 # '': ['' @ CHR 0x0A # ''    '' @ listed objs
     @ CHR 0x0A # ''  ]'' @ CHR 0x0A # ''}'' @ [CHR 0x0A]"

lemma objects_listed:
  assumes "json = pre @ sp @ listed objs @ CHR 0x0A # ''  ]'' @ r" "\<forall>x \<in> set sp. sep x" "\<forall>o' \<in> set objs. flat_object o'"
    "length (pre @ sp @ listed objs) + 3 < e"
  shows "objects_loop json e (length pre) res = res @ objs"
  using assms
proof (induction objs arbitrary: pre sp res)
  case Nil
  then show ?case
    using objects_end [of json pre "sp @ CHR 0x0A # ''  ''" r e res] by (simp add: sep_def blank_def)
next
  case (Cons obj objs)
  let ?tl = "if objs = [] then [] else '','' @ CHR 0x0A # ''    ''"
  have l: "listed (obj # objs) = obj @ ?tl @ listed objs" by simp
  have sp: "\<forall>x \<in> set ?tl. sep x" by (simp add: sep_def blank_def)
  have j: "json = pre @ sp @ obj @ ?tl @ listed objs @ CHR 0x0A # ''  ]'' @ r" using Cons.prems(1) unfolding l by simp
  have e: "length ((pre @ sp @ obj) @ ?tl @ listed objs) + 3 < e" using Cons.prems(4) unfolding l by simp
  then have "length (pre @ sp @ obj) \<le> e" by simp
  then have "objects_loop json e (length pre) res = objects_loop json e (length (pre @ sp @ obj)) (res @ [obj])"
    using objects_step [OF j] Cons.prems(2,3) by simp
  also have "\<dots> = (res @ [obj]) @ objs"
  proof (rule Cons.IH [OF _ sp _ e])
    show "json = (pre @ sp @ obj) @ ?tl @ listed objs @ CHR 0x0A # ''  ]'' @ r" using j by simp
  qed (use Cons.prems(3) in simp)
  finally show ?case by simp
qed

lemma level_listed: "\<forall>o' \<in> set objs. flat_object o' \<Longrightarrow> level_text (listed objs)"
proof (induction objs)
  case (Cons obj objs)
  then have o: "level_text obj" and IH: "level_text (listed objs)" by (simp_all add: flat_object_def)
  have "level_text ('','' @ CHR 0x0A # ''    '')" by (rule level_text_plain) simp_all
  from level_text_append [OF o level_text_append [OF this IH]] o show ?case by simp
qed (simp add: level_text_def)

lemma GetObjectsInArray_sheet:
  assumes "\<forall>o' \<in> set objs. flat_object o'" "unquoted key" "CHR '':'' \<notin> set key"
  shows "GetObjectsInArray (json_sheet key objs) key 0 = objs"
proof -
  let ?pre = "''{'' @ CHR 0x0A # ''  ''" and ?r = "CHR 0x0A # ''}'' @ [CHR 0x0A]"
  let ?p1 = "?pre @ CHR 0x22 # key @ [CHR 0x22]" and ?list = "CHR 0x0A # ''    '' @ listed objs @ CHR 0x0A # ''  ''"
  let ?p2 = "?p1 @ '': [''"
  have j: "json_sheet key objs = ?p1 @ '': ['' @ ?list @ CHR '']'' # ?r" by (simp add: json_sheet_def)
  have k: "FindKey (json_sheet key objs) key 0 = Some (length ?pre)"
    unfolding j using assms(2) index_of_skip [of ?pre "key @ [CHR 0x22]" "CHR 0x22 # key @ CHR 0x22 # '': ['' @ ?list @ CHR '']'' # ?r" 0]
    by (simp add: FindKey_def str_find_def)
  have c: "str_find (json_sheet key objs) '':'' (length ?pre) = Some (length ?p1)"
    using find_colon [OF assms(3), of ?pre "'' ['' @ ?list @ CHR '']'' # ?r"] by (simp add: j)
  have b: "str_find (json_sheet key objs) ''['' (length ?p1) = Some (length ?p1 + 2)"
    using str_find_at [of ?p1 "'': ['' @ ?list @ CHR '']'' # ?r" "''[''"] unfolding j by simp
  have "level_text ?list"
  proof -
    have "level_text (CHR 0x0A # ''    '')" "level_text (CHR 0x0A # ''  '')" by (rule level_text_plain; simp)+
    with level_text_append level_listed [OF assms(1)] have "level_text ((CHR 0x0A # ''    '') @ listed objs @ CHR 0x0A # ''  '')"
      by blast
    then show ?thesis by simp
  qed
  then have "balance (CHR ''['') (CHR '']'') (Suc 0) (?list @ CHR '']'' # ?r) (length ?p2)
      = balance (CHR ''['') (CHR '']'') (Suc 0) (CHR '']'' # ?r) (length ?p2 + length ?list)"
    unfolding level_text_def by blast
  moreover have "drop (length ?p2) (json_sheet key objs) = ?list @ CHR '']'' # ?r" by (simp add: j)
  ultimately have e: "balance (CHR ''['') (CHR '']'') 1 (drop (length ?p2) (json_sheet key objs)) (length ?p2)
      = (0, length ?p2 + length ?list + 1)" by simp
  have "objects_loop (json_sheet key objs) (length ?p2 + length ?list + 1) (length ?p2) [] = [] @ objs"
    by (rule objects_listed [of _ _ "CHR 0x0A # ''    ''" _ ?r]) (simp_all add: j assms(1) sep_def blank_def)
  with k c b e show ?thesis by (simp add: GetObjectsInArray_def)
qed

section \<open>The rows of the shipped sheets\<close>

datatype SpriteRow = SpriteRow (sr_id: string) (sr_texture: string) (sr_x: int32) (sr_y: int32) (sr_w: int32) (sr_h: int32)

datatype TextureRow = TextureRow (tr_id: string) (tr_path: string) (tr_colorkey: "(int32 \<times> int32 \<times> int32) option")

definition sprite_line :: "SpriteRow \<Rightarrow> string" where
  "sprite_line r = ''{ '' @ quoted [''id'', '': '', sr_id r, '', '', ''texture'', '': '', sr_texture r, '', '',
     ''x'', '': '' @ show_int (sr_x r) @ '', '', ''y'', '': '' @ show_int (sr_y r) @ '', '',
     ''w'', '': '' @ show_int (sr_w r) @ '', '', ''h'', '': '' @ show_int (sr_h r) @ '' }'']"

definition texture_line :: "TextureRow \<Rightarrow> string" where
  "texture_line r = ''{ '' @ quoted ([''id'', '': '', tr_id r, '', '', ''path'', '': '', tr_path r] @
     (case tr_colorkey r of
        None \<Rightarrow> ['' }'']
      | Some (r, g, b) \<Rightarrow> ['', '', ''colorkey'', '': ['' @ show_int r @ '', '' @ show_int g @ '', '' @ show_int b @ '']'' @ '' }'']))"

text \<open>A name a field can hold: not empty, without quotes and brackets, and not itself the name of a field.\<close>

definition plain_name :: "string \<Rightarrow> bool" where
  "plain_name s \<longleftrightarrow> s \<noteq> '''' \<and> (\<forall>c \<in> set s. c \<notin> set (CHR 0x22 # ''{}[]''))
     \<and> s \<notin> set [''id'', ''texture'', ''x'', ''y'', ''w'', ''h'', ''path'', ''colorkey'']"

definition sprite_row_ok :: "SpriteRow \<Rightarrow> bool" where
  "sprite_row_ok r \<longleftrightarrow> plain_name (sr_id r) \<and> plain_name (sr_texture r)
     \<and> in32 (sr_x r) \<and> in32 (sr_y r) \<and> in32 (sr_w r) \<and> in32 (sr_h r)"

definition texture_row_ok :: "TextureRow \<Rightarrow> bool" where
  "texture_row_ok r \<longleftrightarrow> plain_name (tr_id r) \<and> plain_name (tr_path r)
     \<and> (case tr_colorkey r of None \<Rightarrow> True | Some (r, g, b) \<Rightarrow> in32 r \<and> in32 g \<and> in32 b)"

lemma numeric_facts:
  "numeric c \<Longrightarrow> c \<noteq> CHR 0x22 \<and> c \<noteq> CHR ''{'' \<and> c \<noteq> CHR ''}'' \<and> c \<noteq> CHR ''['' \<and> c \<noteq> CHR '']''"
  by (auto simp: numeric_def is_digit_def char_code_def)

lemma show_int_plain: "c \<in> {CHR 0x22, CHR ''{'', CHR ''}'', CHR ''['', CHR '']''} \<Longrightarrow> c \<notin> set (show_int v)"
  using show_int_numeric(1) [of v] numeric_facts by blast

lemma not_numeric: "\<not> numeric (CHR '','')" "\<not> numeric (CHR '' '')" "\<not> numeric (CHR '']'')"
  by (simp_all add: numeric_def is_digit_def char_code_def)

lemma plain_name_facts:
  assumes "plain_name s"
  shows "s \<noteq> ''''" "unquoted s" "CHR 0x22 \<notin> set s" "CHR ''{'' \<notin> set s" "CHR ''}'' \<notin> set s" "CHR ''['' \<notin> set s" "CHR '']'' \<notin> set s"
    "s \<noteq> ''id''" "s \<noteq> ''texture''" "s \<noteq> ''x''" "s \<noteq> ''y''" "s \<noteq> ''w''" "s \<noteq> ''h''" "s \<noteq> ''path''" "s \<noteq> ''colorkey''"
  using assms by (auto simp: plain_name_def unquoted_def)

lemmas keyed_simps = keyed_def unquoted_def show_int_plain not_numeric

lemma sprite_fields:
  assumes "sprite_row_ok r"
  shows "GetStringValue (sprite_line r) ''id'' 0 = sr_id r" "GetStringValue (sprite_line r) ''texture'' 0 = sr_texture r"
    "GetIntValue (sprite_line r) ''x'' 0 = Some (sr_x r)" "GetIntValue (sprite_line r) ''y'' 0 = Some (sr_y r)"
    "GetIntValue (sprite_line r) ''w'' 0 = Some (sr_w r)" "GetIntValue (sprite_line r) ''h'' 0 = Some (sr_h r)"
proof -
  have n: "plain_name (sr_id r)" "plain_name (sr_texture r)" and i: "in32 (sr_x r)" "in32 (sr_y r)" "in32 (sr_w r)" "in32 (sr_h r)"
    using assms by (simp_all add: sprite_row_ok_def)
  note f = plain_name_facts [OF n(1)] plain_name_facts [OF n(2)]
  let ?num = "\<lambda>v. CHR '':'' # CHR '' '' # show_int v @ CHR '','' # '' ''"
  let ?a = "[''id'', '': '', sr_id r, '', '']" and ?b = "[''texture'', '': '', sr_texture r, '', '']"
  let ?x = "[''x'', ?num (sr_x r)]" and ?y = "[''y'', ?num (sr_y r)]" and ?w = "[''w'', ?num (sr_w r)]"
    and ?h = "[''h'', CHR '':'' # CHR '' '' # show_int (sr_h r) @ CHR '' '' # ''}'']"
  have l: "sprite_line r = ''{ '' @ quoted (?a @ ?b @ ?x @ ?y @ ?w @ ?h)" by (simp add: sprite_line_def)
  show "GetStringValue (sprite_line r) ''id'' 0 = sr_id r"
    using string_field [of "''{ ''" "[]" "''id''" "sr_id r" "'', ''" "?b @ ?x @ ?y @ ?w @ ?h"] f by (simp add: l keyed_simps)
  show "GetStringValue (sprite_line r) ''texture'' 0 = sr_texture r"
    using string_field [of "''{ ''" ?a "''texture''" "sr_texture r" "'', ''" "?x @ ?y @ ?w @ ?h"] f by (simp add: l keyed_simps)
  show "GetIntValue (sprite_line r) ''x'' 0 = Some (sr_x r)"
    using number_field [of "''{ ''" "?a @ ?b" "''x''" "sr_x r" "CHR '',''" "'' ''" "?y @ ?w @ ?h"] f i by (simp add: l keyed_simps)
  show "GetIntValue (sprite_line r) ''y'' 0 = Some (sr_y r)"
    using number_field [of "''{ ''" "?a @ ?b @ ?x" "''y''" "sr_y r" "CHR '',''" "'' ''" "?w @ ?h"] f i by (simp add: l keyed_simps)
  show "GetIntValue (sprite_line r) ''w'' 0 = Some (sr_w r)"
    using number_field [of "''{ ''" "?a @ ?b @ ?x @ ?y" "''w''" "sr_w r" "CHR '',''" "'' ''" ?h] f i by (simp add: l keyed_simps)
  show "GetIntValue (sprite_line r) ''h'' 0 = Some (sr_h r)"
    using number_field [of "''{ ''" "?a @ ?b @ ?x @ ?y @ ?w" "''h''" "sr_h r" "CHR '' ''" "''}''" "[]"] f i by (simp add: l keyed_simps)
qed

lemma texture_fields:
  assumes "texture_row_ok r"
  shows "GetStringValue (texture_line r) ''id'' 0 = tr_id r" "GetStringValue (texture_line r) ''path'' 0 = tr_path r"
    "TryGetColorKeyField (texture_line r) = Some (tr_colorkey r)"
proof -
  have n: "plain_name (tr_id r)" "plain_name (tr_path r)" using assms by (simp_all add: texture_row_ok_def)
  note f = plain_name_facts [OF n(1)] plain_name_facts [OF n(2)]
  let ?a = "[''id'', '': '', tr_id r, '', '']" and ?b = "[''path'', '': '', tr_path r]"
  define tl where "tl = (case tr_colorkey r of None \<Rightarrow> ['' }'']
      | Some (r, g, b) \<Rightarrow> ['', '', ''colorkey'', '': ['' @ show_int r @ '', '' @ show_int g @ '', '' @ show_int b @ '']'' @ '' }''])"
  have l: "texture_line r = ''{ '' @ quoted (?a @ ?b @ tl)" by (simp add: texture_line_def tl_def)
  obtain t ts where tl: "tl = t # ts" by (cases "tr_colorkey r") (auto simp: tl_def)
  have u: "\<forall>p \<in> set tl. CHR 0x22 \<notin> set p" by (auto simp: tl_def show_int_plain split: option.splits)
  show "GetStringValue (texture_line r) ''id'' 0 = tr_id r"
    using string_field [of "''{ ''" "[]" "''id''" "tr_id r" "'', ''" "?b @ tl"] f u by (simp add: l keyed_simps)
  show "GetStringValue (texture_line r) ''path'' 0 = tr_path r"
    using string_field [of "''{ ''" ?a "''path''" "tr_path r" t ts] f u by (simp add: l tl keyed_simps)
  show "TryGetColorKeyField (texture_line r) = Some (tr_colorkey r)"
  proof (cases "tr_colorkey r")
    case None
    then show ?thesis using no_colorkey [of "''colorkey''" "''{ ''" "?a @ ?b @ ['' }'']"] f
      by (simp add: l tl_def TryGetColorKeyField_def unquoted_def)
  next
    case (Some k)
    obtain x y z where k: "k = (x, y, z)" by (cases k)
    have "in32 x" "in32 y" "in32 z" using assms Some k by (simp_all add: texture_row_ok_def)
    then show ?thesis
      using colorkey_field [of "''{ ''" "?a @ ?b @ ['', '']" "''colorkey''" x y z "'' }''" "[]"] f Some k
      by (simp add: l tl_def TryGetColorKeyField_def keyed_simps numeral_eq_Suc)
  qed
qed

lemma block_sprite:
  assumes "sprite_row_ok r"
  shows "flat_object (sprite_line r)"
proof -
  have n: "plain_name (sr_id r)" "plain_name (sr_texture r)" using assms by (simp_all add: sprite_row_ok_def)
  note f = plain_name_facts [OF n(1)] plain_name_facts [OF n(2)]
  have "level_text (sprite_line r)"
    using f by (intro level_text_plain) (simp_all add: sprite_line_def show_int_plain)
  moreover have "\<exists>b. sprite_line r = CHR ''{'' # b @ ''}'' \<and> CHR ''{'' \<notin> set b \<and> CHR ''}'' \<notin> set b"
    using f by (intro exI [of _ "butlast (tl (sprite_line r))"])
      (simp add: sprite_line_def show_int_plain butlast_append)
  ultimately show ?thesis by (simp add: flat_object_def)
qed

lemma block_texture:
  assumes "texture_row_ok r"
  shows "flat_object (texture_line r)"
proof -
  have n: "plain_name (tr_id r)" "plain_name (tr_path r)" using assms by (simp_all add: texture_row_ok_def)
  note f = plain_name_facts [OF n(1)] plain_name_facts [OF n(2)]
  let ?h = "''{ '' @ quoted [''id'', '': '', tr_id r, '', '', ''path'', '': '', tr_path r]"
  have h: "level_text ?h" using f by (intro level_text_plain) simp_all
  show ?thesis
  proof (cases "tr_colorkey r")
    case None
    have l: "texture_line r = ?h @ CHR 0x22 # '' }''" by (simp add: texture_line_def None)
    have "level_text (CHR 0x22 # '' }'')" by (rule level_text_plain) simp_all
    then have "level_text (texture_line r)" unfolding l by (rule level_text_append [OF h])
    moreover have "texture_line r = CHR ''{'' # (tl ?h @ CHR 0x22 # '' '') @ ''}''" by (simp add: l)
    ultimately show ?thesis using f by (auto simp: flat_object_def)
  next
    case (Some k)
    obtain x y z where k: "k = (x, y, z)" by (cases k)
    let ?n = "show_int x @ '', '' @ show_int y @ '', '' @ show_int z"
    let ?m = "CHR 0x22 # '', '' @ CHR 0x22 # ''colorkey'' @ CHR 0x22 # '': ''"
    have l: "texture_line r = ?h @ ?m @ (CHR ''['' # ?n @ '']'') @ '' }''" by (simp add: texture_line_def Some k)
    have m: "level_text ?m" and e: "level_text '' }''" by (rule level_text_plain; simp)+
    have "level_text (CHR ''['' # ?n @ '']'')" by (rule level_text_array) (simp_all add: show_int_plain)
    from level_text_append [OF h level_text_append [OF m level_text_append [OF this e]]]
    have "level_text (texture_line r)" unfolding l .
    moreover have "texture_line r = CHR ''{'' # (tl ?h @ ?m @ (CHR ''['' # ?n @ '']'') @ '' '') @ ''}''" by (simp add: l)
    ultimately show ?thesis using f show_int_plain [of "CHR ''{''"] show_int_plain [of "CHR ''}''"] by (auto simp: flat_object_def)
  qed
qed

section \<open>The sprite sheet loaded\<close>

lemma byte_of_char: "(of_char c :: byte) = of_char d \<longleftrightarrow> c = d"
proof
  have u: "unat (of_char x :: byte) = of_char x" for x :: char
    using unat_of_nat [where 'a = 8, of "of_char x"] by (simp add: of_nat_of_char)
  assume "(of_char c :: byte) = of_char d"
  then have "unat (of_char c :: byte) = unat (of_char d :: byte)" by simp
  then show "c = d" by (simp add: u)
qed simp

lemma inj_ToWideAscii: "inj ToWideAscii"
proof -
  have "inj (scast :: byte \<Rightarrow> 16 word)" 
    by (rule down_scast_inj) (simp add: is_down)
  then have i: "inj (\<lambda>c. scast (of_char c :: byte) :: 16 word)" by (auto intro!: injI dest: injD simp: byte_of_char)
  have e: "ToWideAscii = map (\<lambda>c. scast (of_char c :: byte))" by (simp add: fun_eq_iff ToWideAscii_def)
  show ?thesis unfolding e using i by (rule inj_mapI)
qed

lemma ToWideAscii_eq [simp]: "ToWideAscii s = ToWideAscii t \<longleftrightarrow> s = t"
  using inj_ToWideAscii by (simp add: inj_eq)

text \<open>What a row of the sheet makes, once its texture is loaded.\<close>

definition picture_of :: "ResourceManager \<Rightarrow> SpriteRow \<Rightarrow> Picture option" where
  "picture_of R r = map_option (\<lambda>t. \<lparr>pic_texture = t, pic_pos = Vec (sr_x r) (sr_y r),
     pic_size = Vec (if sr_w r = 0 then vx (tx_size t) else sr_w r) (if sr_h r = 0 then vy (tx_size t) else sr_h r)\<rparr>)
     (stored_at (rm_textures R) (ToWideAscii (sr_texture r)))"

text \<open>Two states with the same textures loaded, which may differ in the null pointers that asking has left.\<close>

definition same_textures :: "ResourceManager \<Rightarrow> ResourceManager \<Rightarrow> bool" where
  "same_textures R R' \<longleftrightarrow> stored_at (rm_textures R') = stored_at (rm_textures R)"

lemma picture_of_same: "same_textures R R' \<Longrightarrow> picture_of R' r = picture_of R r"
  by (simp add: same_textures_def picture_of_def)

lemma create_sprite_row:
  assumes "sprite_row_ok r" "rm_sprites R (ToWideAscii (sr_id r)) = None"
  obtains R' where "create_sprite (sprite_line r) R = Inr R'" "same_textures R R'" "rm_path R' = rm_path R"
    "rm_sprites R' = (rm_sprites R)(ToWideAscii (sr_id r) := map_option Some (picture_of R r))"
    "rm_flipbooks R' = rm_flipbooks R" "rm_tilemaps R' = rm_tilemaps R" "rm_sounds R' = rm_sounds R"
proof -
  have n: "sr_id r \<noteq> ''''" "sr_texture r \<noteq> ''''" using assms(1) plain_name_facts(1) by (simp_all add: sprite_row_ok_def)
  let ?R = "case GetTexture (ToWideAscii (sr_texture r)) R of
      (None, R') \<Rightarrow> R' | (Some t, R') \<Rightarrow> snd (CreateSprite (ToWideAscii (sr_id r)) t (sr_x r) (sr_y r) (sr_w r) (sr_h r) R')"
  have "create_sprite (sprite_line r) R = Inr ?R"
    using n by (simp add: create_sprite_def sprite_fields [OF assms(1)])
  moreover have "same_textures R ?R \<and> rm_path ?R = rm_path R
      \<and> rm_sprites ?R = (rm_sprites R)(ToWideAscii (sr_id r) := map_option Some (picture_of R r))
      \<and> rm_flipbooks ?R = rm_flipbooks R \<and> rm_tilemaps ?R = rm_tilemaps R \<and> rm_sounds ?R = rm_sounds R"
    using assms(2)
    by (auto simp: GetTexture_def at_key_def CreateSprite_def picture_of_def same_textures_def stored_at_def Let_def
        split: option.splits prod.splits)
  ultimately show ?thesis using that by blast
qed

lemma create_sprite_rows:
  assumes "\<forall>r \<in> set rows. sprite_row_ok r" "distinct (map sr_id rows)"
    "\<forall>r \<in> set rows. rm_sprites R (ToWideAscii (sr_id r)) = None"
  shows "\<exists>R'. each_object create_sprite (map sprite_line rows) R = Inr R' \<and> same_textures R R'
    \<and> rm_path R' = rm_path R \<and> rm_flipbooks R' = rm_flipbooks R \<and> rm_tilemaps R' = rm_tilemaps R \<and> rm_sounds R' = rm_sounds R
    \<and> (\<forall>r \<in> set rows. rm_sprites R' (ToWideAscii (sr_id r)) = map_option Some (picture_of R r))
    \<and> (\<forall>k. k \<notin> ToWideAscii ` sr_id ` set rows \<longrightarrow> rm_sprites R' k = rm_sprites R k)"
  using assms
proof (induction rows arbitrary: R)
  case Nil
  then show ?case by (simp add: same_textures_def)
next
  case (Cons r rows)
  from Cons.prems have r: "sprite_row_ok r" "rm_sprites R (ToWideAscii (sr_id r)) = None" by simp_all
  obtain R1 where R1: "create_sprite (sprite_line r) R = Inr R1" "same_textures R R1" "rm_path R1 = rm_path R"
    "rm_sprites R1 = (rm_sprites R)(ToWideAscii (sr_id r) := map_option Some (picture_of R r))"
    "rm_flipbooks R1 = rm_flipbooks R" "rm_tilemaps R1 = rm_tilemaps R" "rm_sounds R1 = rm_sounds R"
    using create_sprite_row [OF r] .
  have new: "sr_id r \<noteq> sr_id q" if "q \<in> set rows" for q using Cons.prems(2) that by (auto simp: image_iff)
  have "\<forall>q \<in> set rows. rm_sprites R1 (ToWideAscii (sr_id q)) = None"
    using Cons.prems(3) R1(4) new by (simp add: eq_commute)
  then obtain R2 where R2: "each_object create_sprite (map sprite_line rows) R1 = Inr R2" "same_textures R1 R2"
    "rm_path R2 = rm_path R1" "rm_flipbooks R2 = rm_flipbooks R1" "rm_tilemaps R2 = rm_tilemaps R1" "rm_sounds R2 = rm_sounds R1"
    "\<forall>q \<in> set rows. rm_sprites R2 (ToWideAscii (sr_id q)) = map_option Some (picture_of R1 q)"
    "\<forall>k. k \<notin> ToWideAscii ` sr_id ` set rows \<longrightarrow> rm_sprites R2 k = rm_sprites R1 k"
    using Cons.IH [of R1] Cons.prems by auto
  have "ToWideAscii (sr_id r) \<notin> ToWideAscii ` sr_id ` set rows" using new by auto
  then have "rm_sprites R2 (ToWideAscii (sr_id r)) = map_option Some (picture_of R r)" using R2(8) R1(4) by simp
  moreover have "same_textures R R2" using R1(2) R2(2) by (simp add: same_textures_def)
  moreover have "\<forall>q \<in> set rows. rm_sprites R2 (ToWideAscii (sr_id q)) = map_option Some (picture_of R q)"
    using R2(7) picture_of_same [OF R1(2)] by simp
  moreover have "rm_sprites R2 k = rm_sprites R k" if "k \<notin> ToWideAscii ` sr_id ` set (r # rows)" for k
    using that R2(8) R1(4) by simp
  ultimately show ?case using R1 R2(1,3-6) by (intro exI [of _ R2]) simp
qed

lemma read_sheet_json:
  assumes "d_text D path = Some (json_sheet key objs)" "\<forall>o' \<in> set objs. flat_object o'" "unquoted key" "CHR '':'' \<notin> set key"
  shows "read_sheet D path key = objs"
proof -
  have "ResolveExistingPath (d_text D) path = path" using assms(1) by (simp add: ResolveExistingPath_def)
  moreover have "json_sheet key objs \<noteq> ''''" by (simp add: json_sheet_def)
  ultimately show ?thesis
    using GetObjectsInArray_sheet [OF assms(2-4)] assms(1) by (simp add: read_sheet_def ReadAllText_def)
qed

text \<open>C35. Whatever sprites are written to a sheet in the shipped form, the client loads exactly those whose texture is loaded.\<close>

theorem sprite_sheet_reloads:
  assumes "d_text D ''../DatasheetsClient/Sprites.json'' = Some (json_sheet ''sprites'' (map sprite_line rows))"
    and "\<forall>r \<in> set rows. sprite_row_ok r" "distinct (map sr_id rows)" "rm_sprites R = Map.empty"
  shows "\<exists>R'. CreateSceneSprites D R = Inr R' \<and> (\<forall>r \<in> set rows. rm_sprites R' (ToWideAscii (sr_id r)) = map_option Some (picture_of R r))
    \<and> (\<forall>k. k \<notin> ToWideAscii ` sr_id ` set rows \<longrightarrow> rm_sprites R' k = None)"
proof -
  have "read_sheet D ''../DatasheetsClient/Sprites.json'' ''sprites'' = map sprite_line rows"
    using assms(1,2) block_sprite by (intro read_sheet_json) (auto simp: unquoted_def)
  then show ?thesis
    using create_sprite_rows [OF assms(2,3), of R] assms(4) by (auto simp: CreateSceneSprites_def)
qed

theorem sprite_sheet_reloads_witness:
  defines "rows \<equiv> [SpriteRow ''Hp_Bar'' ''HUD'' 109 61 129 9, SpriteRow ''TileO'' ''Tile'' 0 0 48 48,
      SpriteRow ''Stage01'' ''HUD'' 0 0 0 0]"
    and "hud \<equiv> \<lparr>tx_path = ToWideAscii ''HUD.bmp'', tx_size = Vec 512 256, tx_transparent = RGB 188 255 235\<rparr>"
    and "D \<equiv> \<lparr>d_text = (\<lambda>p. if p = ''../DatasheetsClient/Sprites.json'' then Some (json_sheet ''sprites'' (map sprite_line
      [SpriteRow ''Hp_Bar'' ''HUD'' 109 61 129 9, SpriteRow ''TileO'' ''Tile'' 0 0 48 48, SpriteRow ''Stage01'' ''HUD'' 0 0 0 0]))
      else None), d_bitmap = (\<lambda>_ _. None), d_wave = (\<lambda>_ _. None), d_tilemap = (\<lambda>_ _. None), d_buffers = True\<rparr>"
  shows "\<exists>R'. CreateSceneSprites D (ResourceManager_Init []\<lparr>rm_textures := [ToWideAscii ''HUD'' \<mapsto> Some hud]\<rparr>) = Inr R'
    \<and> rm_sprites R' (ToWideAscii ''Hp_Bar'') = Some (Some \<lparr>pic_texture = hud, pic_pos = Vec 109 61, pic_size = Vec 129 9\<rparr>)
    \<and> rm_sprites R' (ToWideAscii ''Stage01'') = Some (Some \<lparr>pic_texture = hud, pic_pos = Vec 0 0, pic_size = Vec 512 256\<rparr>)
    \<and> rm_sprites R' (ToWideAscii ''TileO'') = None"
proof -
  let ?R = "ResourceManager_Init []\<lparr>rm_textures := [ToWideAscii ''HUD'' \<mapsto> Some hud]\<rparr>"
  have "\<forall>r \<in> set rows. sprite_row_ok r"
    by (simp add: rows_def sprite_row_ok_def plain_name_def in32_def)
  moreover have "d_text D ''../DatasheetsClient/Sprites.json'' = Some (json_sheet ''sprites'' (map sprite_line rows))"
    by (simp add: D_def rows_def)
  moreover have "distinct (map sr_id rows)" "rm_sprites ?R = Map.empty" by (simp_all add: rows_def ResourceManager_Init_def)
  ultimately obtain R' where "CreateSceneSprites D ?R = Inr R'"
    "\<forall>r \<in> set rows. rm_sprites R' (ToWideAscii (sr_id r)) = map_option Some (picture_of ?R r)"
    using sprite_sheet_reloads [of D rows ?R] by blast
  then show ?thesis
    by (simp add: rows_def picture_of_def stored_at_def hud_def)
qed

section \<open>The texture sheet loaded\<close>

definition backslashes :: "string \<Rightarrow> string" where
  "backslashes s = map (\<lambda>c. if c = CHR ''/'' then CHR 0x5C else c) s"

definition texture_of :: "Disk \<Rightarrow> wstring \<Rightarrow> TextureRow \<Rightarrow> Texture" where
  "texture_of D dir r = SetTransparent (case tr_colorkey r of None \<Rightarrow> RGB 255 0 255 | Some (r, g, b) \<Rightarrow> RGB r g b)
     (LoadBmp D dir (ToWideAscii (backslashes (tr_path r))))"

lemma load_texture_row:
  assumes "texture_row_ok r"
  shows "load_texture D (texture_line r) R = Inr (if rm_textures R (ToWideAscii (tr_id r)) = None
    then R\<lparr>rm_textures := (rm_textures R)(ToWideAscii (tr_id r) \<mapsto> Some (texture_of D (rm_path R) r))\<rparr> else R)"
proof -
  have n: "tr_id r \<noteq> ''''" "tr_path r \<noteq> ''''" using assms plain_name_facts(1) by (simp_all add: texture_row_ok_def)
  then have "ExtractFilePathValue (texture_line r) = backslashes (tr_path r)" "backslashes (tr_path r) \<noteq> ''''"
    by (simp_all add: ExtractFilePathValue_def backslashes_def texture_fields [OF assms])
  then show ?thesis
    using n by (auto simp: load_texture_def texture_fields [OF assms] LoadTexture_def texture_of_def Let_def
        split: option.splits)
qed

text \<open>The first row of an id counts.\<close>

lemma load_texture_rows:
  assumes "\<forall>r \<in> set rows. texture_row_ok r"
  shows "\<exists>R'. each_object (load_texture D) (map texture_line rows) R = Inr R' \<and> rm_path R' = rm_path R
    \<and> rm_sprites R' = rm_sprites R \<and> rm_flipbooks R' = rm_flipbooks R \<and> rm_tilemaps R' = rm_tilemaps R \<and> rm_sounds R' = rm_sounds R
    \<and> rm_textures R' = (map_of (map (\<lambda>r. (ToWideAscii (tr_id r), Some (texture_of D (rm_path R) r))) rows)) ++ rm_textures R"
  using assms
proof (induction rows arbitrary: R)
  case (Cons r rows)
  define R0 where "R0 = (if rm_textures R (ToWideAscii (tr_id r)) = None
    then R\<lparr>rm_textures := (rm_textures R)(ToWideAscii (tr_id r) \<mapsto> Some (texture_of D (rm_path R) r))\<rparr> else R)"
  have s: "load_texture D (texture_line r) R = Inr R0" using Cons.prems load_texture_row [of r D R] by (simp add: R0_def)
  let ?m = "map_of (map (\<lambda>r. (ToWideAscii (tr_id r), Some (texture_of D (rm_path R) r))) rows)"
  have p: "rm_path R0 = rm_path R" "rm_sprites R0 = rm_sprites R" "rm_flipbooks R0 = rm_flipbooks R"
    "rm_tilemaps R0 = rm_tilemaps R" "rm_sounds R0 = rm_sounds R" by (simp_all add: R0_def)
  have m: "?m ++ rm_textures R0 = (?m(ToWideAscii (tr_id r) \<mapsto> Some (texture_of D (rm_path R) r))) ++ rm_textures R"
    by (auto simp: R0_def map_add_def fun_eq_iff split: option.split)
  show ?case using Cons.IH [of R0] Cons.prems s by (simp add: p m fun_upd_def)
qed simp

end
