(* ===== verification/Scene_Props.thy ===== *)
theory Scene_Props
  imports SceneLoader_Props
begin

text \<open>
  The scene as the client loads it. With the shipped sheets two sprites are never made, and the debug view of the map that asks
  for them ends the client; a computer without a sound device ends it before the first frame; once a scene is loaded no change
  of the map fails.
\<close>

section \<open>What the steps of loading leave alone\<close>

text \<open>Tables other than the textures and flipbooks are as before, and no texture is lost.\<close>

definition keeps :: "ResourceManager \<Rightarrow> ResourceManager \<Rightarrow> bool" where
  "keeps R R' \<longleftrightarrow> rm_path R' = rm_path R \<and> same_textures R R' \<and> rm_sprites R' = rm_sprites R
     \<and> rm_tilemaps R' = rm_tilemaps R \<and> rm_sounds R' = rm_sounds R"

lemma keeps_refl [simp]: "keeps R R" by (simp add: keeps_def same_textures_def)

lemma keeps_trans: "keeps R R1 \<Longrightarrow> keeps R1 R2 \<Longrightarrow> keeps R R2"
  by (simp add: keeps_def same_textures_def)

lemma load_flipbook_keeps: "load_flipbook b R = Inr R' \<Longrightarrow> keeps R R'"
  by (auto simp: load_flipbook_def keeps_def same_textures_def GetTexture_def CreateFlipbook_def Let_def
      split: prod.splits option.splits dest: arg_cong [where f = "\<lambda>x. stored_at (snd x)"])

lemma load_books_keeps: "load_books bs R = Inr R' \<Longrightarrow> keeps R R'"
proof (induction bs arbitrary: R)
  case (Cons b bs)
  then show ?case by (simp add: and_then_Inr) (blast intro: keeps_trans load_flipbook_keeps)
qed simp

section \<open>The shipped sheets\<close>

definition shipped_textures :: "TextureRow list" where
  "shipped_textures =
     [TextureRow ''Stage01'' ''Sprite/Map/Stage01.bmp'' None,
      TextureRow ''Stage02'' ''Sprite/Map/Stage02.bmp'' None,
      TextureRow ''Arrow'' ''Sprite/Item/Arrow.bmp'' (Some (128, 128, 128)),
      TextureRow ''Items'' ''Sprite/Item/Items.bmp'' (Some (182, 69, 166)),
      TextureRow ''Inventory'' ''Sprite/UI/Inventory.bmp'' (Some (118, 134, 255)),
      TextureRow ''PlayerDown'' ''Sprite/Player/PlayerDown.bmp'' (Some (128, 128, 128)),
      TextureRow ''PlayerUp'' ''Sprite/Player/PlayerUp.bmp'' (Some (128, 128, 128)),
      TextureRow ''PlayerLeft'' ''Sprite/Player/PlayerLeft.bmp'' (Some (128, 128, 128)),
      TextureRow ''PlayerRight'' ''Sprite/Player/PlayerRight.bmp'' (Some (128, 128, 128)),
      TextureRow ''Snake'' ''Sprite/Monster/Snake.bmp'' (Some (128, 128, 128)),
      TextureRow ''Octoroc'' ''Sprite/Monster/Octoroc.bmp'' (Some (128, 128, 128)),
      TextureRow ''Hit'' ''Sprite/Effect/Hit.bmp'' (Some (0, 0, 0)),
      TextureRow ''Explode'' ''Sprite/Effect/Explode.bmp'' (Some (123, 173, 148)),
      TextureRow ''MapButton'' ''Sprite/UI/MapButton.bmp'' (Some (211, 249, 188)),
      TextureRow ''HUD'' ''Sprite/UI/Health_Energy_EXP_Bars.bmp'' (Some (188, 255, 235)),
      TextureRow ''LoginPanel'' ''Sprite/UI/LoginPanel.bmp'' (Some (0, 0, 0)),
      TextureRow ''PartyInvite'' ''Sprite/UI/PartyInvite.bmp'' (Some (0, 0, 0)),
      TextureRow ''PartyStatus'' ''Sprite/UI/PartyStatus.bmp'' (Some (0, 0, 0)),
      TextureRow ''RankingPanel'' ''Sprite/UI/RankingPanel.bmp'' (Some (255, 0, 255)),
      TextureRow ''ChatPanel'' ''Sprite/UI/ChatPanel.bmp'' (Some (255, 0, 255))]"

definition shipped_sprites :: "SpriteRow list" where
  "shipped_sprites =
     [SpriteRow ''Stage01'' ''Stage01'' 0 0 0 0,
      SpriteRow ''Stage02'' ''Stage02'' 0 0 0 0,
      SpriteRow ''TileO'' ''Tile'' 0 0 48 48,
      SpriteRow ''TileX'' ''Tile'' 48 0 48 48,
      SpriteRow ''Btn_Town1'' ''MapButton'' 0 0 64 40,
      SpriteRow ''Btn_Town2'' ''MapButton'' 71 0 64 40,
      SpriteRow ''Btn_Dungeon'' ''MapButton'' 142 0 64 40,
      SpriteRow ''LoginPanel'' ''LoginPanel'' 0 0 0 0,
      SpriteRow ''PartyInvite'' ''PartyInvite'' 0 0 0 0,
      SpriteRow ''PartyStatus'' ''PartyStatus'' 0 0 0 0,
      SpriteRow ''Status_Frame'' ''HUD'' 8 8 240 48,
      SpriteRow ''Hp_Bar'' ''HUD'' 109 61 129 9,
      SpriteRow ''Exp_Bar'' ''HUD'' 101 110 219 6,
      SpriteRow ''Enemy_Hp_Frame'' ''HUD'' 261 8 102 12,
      SpriteRow ''Enemy_Hp_Bar'' ''HUD'' 264 23 96 6,
      SpriteRow ''Sword_Icon'' ''HUD'' 14 61 63 39,
      SpriteRow ''Bow_Icon'' ''HUD'' 14 106 63 39,
      SpriteRow ''Staff_Icon'' ''HUD'' 14 151 63 39,
      SpriteRow ''Sword_A'' ''Items'' 0 0 32 32,
      SpriteRow ''Sword_B'' ''Items'' 32 0 32 32,
      SpriteRow ''Sword_C'' ''Items'' 64 0 32 32,
      SpriteRow ''Armor_A'' ''Items'' 0 32 32 32,
      SpriteRow ''Armor_B'' ''Items'' 32 32 32 32,
      SpriteRow ''Armor_C'' ''Items'' 64 32 32 32,
      SpriteRow ''Potion_A'' ''Items'' 0 64 32 32,
      SpriteRow ''Inventory'' ''Inventory'' 0 0 0 0,
      SpriteRow ''RankingPanel'' ''RankingPanel'' 0 0 0 0,
      SpriteRow ''ChatPanel'' ''ChatPanel'' 0 0 0 0]"

lemma shipped_textures_ok: "\<forall>r \<in> set shipped_textures. texture_row_ok r"
  by (simp add: shipped_textures_def texture_row_ok_def plain_name_def in32_def)

lemma shipped_sprites_ok: "\<forall>r \<in> set shipped_sprites. sprite_row_ok r" "distinct (map sr_id shipped_sprites)"
  by (simp_all add: shipped_sprites_def sprite_row_ok_def plain_name_def in32_def)

text \<open>The sheets are the shipped files, which end their lines as \<open>ifstream\<close> delivers them.\<close>

definition ships :: "Disk \<Rightarrow> bool" where
  "ships D \<longleftrightarrow> d_text D ''../DatasheetsClient/Textures.json'' = Some (json_sheet ''textures'' (map texture_line shipped_textures))
     \<and> d_text D ''../DatasheetsClient/Sprites.json'' = Some (json_sheet ''sprites'' (map sprite_line shipped_sprites))"

lemma shipped_names:
  assumes "rm_textures R = map_of (map (\<lambda>r. (ToWideAscii (tr_id r), Some (texture_of D dir r))) shipped_textures)"
  shows "\<forall>r \<in> set shipped_sprites. stored_at (rm_textures R) (ToWideAscii (sr_texture r)) = None \<longleftrightarrow> sr_id r \<in> {''TileO'', ''TileX''}"
  by (simp add: assms stored_at_def shipped_sprites_def shipped_textures_def)

text \<open>The sprites after the two sheets.\<close>

lemma shipped_pictures:
  assumes "ships D" "LoadSceneTextures D (ResourceManager_Init dir) = Inr R1" "CreateSceneSprites D R1 = Inr R2"
  shows "\<forall>r \<in> set shipped_sprites. stored_at (rm_sprites R2) (ToWideAscii (sr_id r)) = None \<longleftrightarrow> sr_id r \<in> {''TileO'', ''TileX''}"
    and "\<forall>k p. rm_sprites R2 k = Some p \<longrightarrow> p \<noteq> None"
proof -
  have t: "read_sheet D ''../DatasheetsClient/Textures.json'' ''textures'' = map texture_line shipped_textures"
    using assms(1) block_texture shipped_textures_ok by (intro read_sheet_json) (auto simp: ships_def unquoted_def)
  have R1: "rm_sprites R1 = Map.empty"
    "rm_textures R1 = map_of (map (\<lambda>r. (ToWideAscii (tr_id r), Some (texture_of D dir r))) shipped_textures)"
    using load_texture_rows [OF shipped_textures_ok, of D "ResourceManager_Init dir"] assms(2)
    by (auto simp: LoadSceneTextures_def t ResourceManager_Init_def)
  have s: "read_sheet D ''../DatasheetsClient/Sprites.json'' ''sprites'' = map sprite_line shipped_sprites"
    using assms(1) block_sprite shipped_sprites_ok(1) by (intro read_sheet_json) (auto simp: ships_def unquoted_def)
  have R2: "\<forall>r \<in> set shipped_sprites. rm_sprites R2 (ToWideAscii (sr_id r)) = map_option Some (picture_of R1 r)"
    "\<forall>k. k \<notin> ToWideAscii ` sr_id ` set shipped_sprites \<longrightarrow> rm_sprites R2 k = None"
    using create_sprite_rows [OF shipped_sprites_ok, of R1] R1(1) assms(3) by (auto simp: CreateSceneSprites_def s)
  show "\<forall>k p. rm_sprites R2 k = Some p \<longrightarrow> p \<noteq> None"
  proof (intro allI impI)
    fix k p assume "rm_sprites R2 k = Some p"
    then show "p \<noteq> None" using R2 by (cases "k \<in> ToWideAscii ` sr_id ` set shipped_sprites") auto
  qed
  show "\<forall>r \<in> set shipped_sprites. stored_at (rm_sprites R2) (ToWideAscii (sr_id r)) = None \<longleftrightarrow> sr_id r \<in> {''TileO'', ''TileX''}"
  proof
    fix r assume r: "r \<in> set shipped_sprites"
    have "stored_at (rm_sprites R2) (ToWideAscii (sr_id r)) = picture_of R1 r" using R2(1) r by (simp add: stored_at_def split: option.split)
    moreover have "picture_of R1 r = None \<longleftrightarrow> stored_at (rm_textures R1) (ToWideAscii (sr_texture r)) = None" by (simp add: picture_of_def)
    moreover have "stored_at (rm_textures R1) (ToWideAscii (sr_texture r)) = None \<longleftrightarrow> sr_id r \<in> {''TileO'', ''TileX''}"
      using shipped_names [OF R1(2)] r by blast
    ultimately show "stored_at (rm_sprites R2) (ToWideAscii (sr_id r)) = None \<longleftrightarrow> sr_id r \<in> {''TileO'', ''TileX''}" by simp
  qed
qed

section \<open>The stage\<close>

lemma GetSprite_held: "stored_at (rm_sprites R) k = Some p \<Longrightarrow> GetSprite k R = (Some p, R)"
  by (auto simp: GetSprite_def at_key_def stored_at_def split: option.splits)

lemma GetTilemap_held: "stored_at (rm_tilemaps R) k = Some p \<Longrightarrow> GetTilemap k R = (Some p, R)"
  by (auto simp: GetTilemap_def at_key_def stored_at_def split: option.splits)

lemma LoadMap_stage:
  "DevScene_LoadMap R = Inr (S, R') \<Longrightarrow> R' = R \<and> st_background S \<noteq> None \<and> \<not> st_showDebug S"
  by (auto simp: DevScene_LoadMap_def GetSprite_def at_key_def split: prod.splits option.splits)

lemma make_tilemap_stored:
  assumes "make_tilemap D key path sz R = Inr R'"
  shows "\<exists>tm. stored_at (rm_tilemaps R') key = Some tm \<and> tilemap_ok tm" "k \<noteq> key \<Longrightarrow> stored_at (rm_tilemaps R') k = stored_at (rm_tilemaps R) k"
    "rm_sprites R' = rm_sprites R"
proof -
  obtain opened content tm0 tm m where f: "LoadFile opened content tm0 = Some tm" "R' = R\<lparr>rm_tilemaps := m(key \<mapsto> Some tm)\<rparr>"
    "\<forall>k. k \<noteq> key \<longrightarrow> m k = rm_tilemaps R k"
    using assms
    by (fastforce simp: make_tilemap_def fill_tilemap_def CreateTilemap_def LoadTilemap_def and_then_Inr Let_def
        split: prod.splits option.splits if_splits)
  then show "\<exists>tm. stored_at (rm_tilemaps R') key = Some tm \<and> tilemap_ok tm" using LoadFile_ok by (auto simp: stored_at_def)
  show "k \<noteq> key \<Longrightarrow> stored_at (rm_tilemaps R') k = stored_at (rm_tilemaps R) k" "rm_sprites R' = rm_sprites R"
    using f by (simp_all add: stored_at_def)
qed

lemma LoadTilemap_stage:
  assumes "DevScene_LoadTilemap D (S, R) = Inr (S', R')"
  shows "\<exists>tm. st_tilemap S' = Some tm \<and> stored_at (rm_tilemaps R') (ToWideAscii ''Tilemap_01'') = Some tm \<and> tilemap_ok tm"
    "\<exists>tm. stored_at (rm_tilemaps R') (ToWideAscii ''Tilemap_02'') = Some tm \<and> tilemap_ok tm"
    "rm_sprites R' = rm_sprites R" "st_background S' = st_background S"
proof -
  obtain R1 where R1: "make_tilemap D (ToWideAscii ''Tilemap_01'') (tilemap_path ''Tilemap_01.txt'') (Vec 63 43) R = Inr R1"
    "make_tilemap D (ToWideAscii ''Tilemap_02'') (tilemap_path ''Tilemap_02.txt'') (Vec 40 32) R1 = Inr R'"
    "S' = S\<lparr>st_tilemap := fst (GetTilemap (ToWideAscii ''Tilemap_01'') R'), st_showDebug := False\<rparr>"
    using assms by (auto simp: DevScene_LoadTilemap_def and_then_Inr)
  note m = make_tilemap_stored [OF R1(1)] make_tilemap_stored [OF R1(2)]
  show "\<exists>tm. st_tilemap S' = Some tm \<and> stored_at (rm_tilemaps R') (ToWideAscii ''Tilemap_01'') = Some tm \<and> tilemap_ok tm"
    using m(1) m(5) [of "ToWideAscii ''Tilemap_01''"] R1(3) GetTilemap_held by fastforce
qed (use assms make_tilemap_stored in \<open>auto simp: DevScene_LoadTilemap_def and_then_Inr\<close>)

lemma LoadSound_frame: "LoadSound D device key path R = Inr (p, R') \<Longrightarrow> rm_sprites R' = rm_sprites R \<and> rm_tilemaps R' = rm_tilemaps R"
  by (auto simp: LoadSound_def and_then_Inr split: option.splits)

lemma Play_frame: "SoundManager_Play key loop R = Inr R' \<Longrightarrow> rm_sprites R' = rm_sprites R \<and> rm_tilemaps R' = rm_tilemaps R"
  by (auto simp: SoundManager_Play_def GetSound_def and_then_Inr split: option.splits prod.splits)

lemma load_sounds_frame:
  "each_object (load_sound D device) objs R = Inr R' \<Longrightarrow> rm_sprites R' = rm_sprites R \<and> rm_tilemaps R' = rm_tilemaps R"
proof (induction objs arbitrary: R)
  case (Cons obj objs)
  then obtain R1 where R1: "load_sound D device obj R = Inr R1" "each_object (load_sound D device) objs R1 = Inr R'"
    by (auto simp: and_then_Inr)
  have "rm_sprites R1 = rm_sprites R \<and> rm_tilemaps R1 = rm_tilemaps R"
    using R1(1) LoadSound_frame Play_frame
    by (fastforce simp: load_sound_def and_then_Inr Let_def split: if_splits prod.splits)
  with Cons.IH [OF R1(2)] show ?case by simp
qed simp

lemma load_scene_parts:
  assumes "load_scene D device R = Inr (S, R')"
  obtains R1 R2 R3 S0 R4 where "LoadSceneTextures D R = Inr R1" "CreateSceneSprites D R1 = Inr R2"
    "LoadSceneFlipbooks R2 = Inr R3" "DevScene_LoadMap R3 = Inr (S0, R3)" "DevScene_LoadTilemap D (S0, R3) = Inr (S, R4)"
    "rm_sprites R' = rm_sprites R2" "rm_tilemaps R' = rm_tilemaps R4"
proof -
  obtain R1 R2 R3 SR R4 where p: "LoadSceneTextures D R = Inr R1" "CreateSceneSprites D R1 = Inr R2"
    "LoadSceneFlipbooks R2 = Inr R3" "DevScene_LoadMap R3 = Inr SR" "DevScene_LoadTilemap D SR = Inr (S, R4)"
    "LoadSceneSounds D device R4 = Inr R'"
    using assms by (auto simp: load_scene_def and_then_Inr)
  obtain S0 R0 where SR: "SR = (S0, R0)" by (cases SR)
  then have R0: "R0 = R3" using LoadMap_stage p(4) by blast
  have "rm_sprites R3 = rm_sprites R2" using load_books_keeps p(3) by (auto simp: LoadSceneFlipbooks_def keeps_def)
  moreover have "rm_sprites R4 = rm_sprites R3" using LoadTilemap_stage(3) p(5) SR R0 by auto
  moreover have "rm_sprites R' = rm_sprites R4" "rm_tilemaps R' = rm_tilemaps R4"
    using load_sounds_frame p(6) by (auto simp: LoadSceneSounds_def)
  ultimately show ?thesis using that p SR R0 by simp
qed

definition sound_id :: "string \<Rightarrow> string" where
  "sound_id obj = GetStringValue obj ''id'' 0"

section \<open>A disk with the shipped sheets\<close>

text \<open>Both tilemaps are one row of a free cell and a wall; there is one sound.\<close>

definition demo_row :: TextureRow where
  "demo_row = TextureRow ''BGM'' ''Sound/BGM.wav'' None"

definition demo_disk :: Disk where
  "demo_disk = \<lparr>d_text = (\<lambda>p.
       if p = ''../DatasheetsClient/Textures.json'' then Some (json_sheet ''textures'' (map texture_line shipped_textures))
       else if p = ''../DatasheetsClient/Sprites.json'' then Some (json_sheet ''sprites'' (map sprite_line shipped_sprites))
       else if p = ''../DatasheetsClient/Sounds.json'' then Some (json_sheet ''sounds'' [texture_line demo_row])
       else None),
     d_bitmap = (\<lambda>_ _. Some (Vec 512 256)), d_wave = (\<lambda>_ _. Some [1, 2, 3]), d_tilemap = (\<lambda>_ _. Some ''2 1 01''), d_buffers = True\<rparr>"

lemma load_flipbook_total:
  assumes "\<forall>k. rm_flipbooks R k \<noteq> Some None"
  shows "\<exists>R'. load_flipbook b R = Inr R' \<and> (\<forall>k. rm_flipbooks R' k \<noteq> Some None)"
proof -
  obtain x m where g: "GetTexture (ToWideAscii (fb_texture b)) R = (x, R\<lparr>rm_textures := m\<rparr>)"
    by (cases "at_key (ToWideAscii (fb_texture b)) (rm_textures R)") (simp add: GetTexture_def)
  consider "rm_flipbooks R (ToWideAscii (fb_name b)) = None" | fb where "rm_flipbooks R (ToWideAscii (fb_name b)) = Some (Some fb)"
    using assms by (metis not_Some_eq)
  then show ?thesis using assms by cases (auto simp: load_flipbook_def g CreateFlipbook_def)
qed

lemma load_books_total:
  "\<forall>k. rm_flipbooks R k \<noteq> Some None \<Longrightarrow> \<exists>R'. load_books bs R = Inr R'"
proof (induction bs arbitrary: R)
  case (Cons b bs)
  from load_flipbook_total [OF Cons.prems, of b] Cons.IH show ?case by auto
qed simp

lemma demo_tilemap: "LoadFile True ''2 1 01'' tm = Some (tm\<lparr>mapSize := Vec 2 1, tiles := [[0, 1]]\<rparr>)"
  by (simp add: LoadFile_def read_int_def is_space_def is_digit_def char_code_def SetMapSize_def read_word_def row_tiles_def
      numeral_eq_Suc upt_conv_Cons)

lemma demo_make:
  "stored_at (rm_tilemaps R) key = None \<Longrightarrow> rm_tilemaps R key = None \<Longrightarrow> sz \<in> {Vec 63 43, Vec 40 32} \<Longrightarrow>
    make_tilemap demo_disk key path sz R = Inr (R\<lparr>rm_tilemaps := (rm_tilemaps R)(key \<mapsto>
      Some \<lparr>mapSize = Vec 2 1, tileSize = 48, tiles = [[0, 1]]\<rparr>)\<rparr>)"
  by (auto simp: make_tilemap_def fill_tilemap_def CreateTilemap_def SetMapSize_def SetTileSize_def LoadTilemap_def demo_disk_def
      demo_tilemap Tilemap_new_def)

lemma demo_ships: "ships demo_disk"
  by (simp add: ships_def demo_disk_def)

lemma demo_row_ok: "texture_row_ok demo_row"
  by (simp add: demo_row_def texture_row_ok_def plain_name_def)

lemma demo_sounds: "read_sheet demo_disk ''../DatasheetsClient/Sounds.json'' ''sounds'' = [texture_line demo_row]"
  using demo_row_ok by (intro read_sheet_json) (auto simp: demo_disk_def demo_row_def unquoted_def block_texture)

lemma demo_sound:
  "sound_id (texture_line demo_row) = ''BGM''" "ExtractFilePathValue (texture_line demo_row) = ''Sound'' @ CHR 0x5C # ''BGM.wav''"
  "ParseBoolValue (texture_line demo_row) ''loop_on_init'' 0 False = False"
proof -
  show "sound_id (texture_line demo_row) = ''BGM''" "ExtractFilePathValue (texture_line demo_row) = ''Sound'' @ CHR 0x5C # ''BGM.wav''"
    using texture_fields [OF demo_row_ok] by (simp_all add: sound_id_def ExtractFilePathValue_def demo_row_def)
  have "FindKey (texture_line demo_row) ''loop_on_init'' 0 = None"
    using FindKey_pieces [of "''loop_on_init''" "''{ ''" "[''id'', '': '', ''BGM'', '', '', ''path'', '': '', ''Sound/BGM.wav'', '' }'']"]
    by (simp add: texture_line_def demo_row_def unquoted_def)
  then show "ParseBoolValue (texture_line demo_row) ''loop_on_init'' 0 False = False" by (simp add: ParseBoolValue_def)
qed

lemma demo_wav: "is_wav (ToWideAscii (''Sound'' @ CHR 0x5C # ''BGM.wav''))"
  by (simp add: is_wav_def file_name_def ToWideAscii_def)

lemma demo_sheets:
  obtains R1 R2 where "LoadSceneTextures demo_disk (ResourceManager_Init []) = Inr R1" "CreateSceneSprites demo_disk R1 = Inr R2"
    "rm_flipbooks R2 = Map.empty" "rm_tilemaps R2 = Map.empty" "rm_sounds R2 = Map.empty" "rm_path R2 = []"
proof -
  have t: "read_sheet demo_disk ''../DatasheetsClient/Textures.json'' ''textures'' = map texture_line shipped_textures"
    using block_texture shipped_textures_ok by (intro read_sheet_json) (auto simp: demo_disk_def unquoted_def)
  have s: "read_sheet demo_disk ''../DatasheetsClient/Sprites.json'' ''sprites'' = map sprite_line shipped_sprites"
    using block_sprite shipped_sprites_ok(1) by (intro read_sheet_json) (auto simp: demo_disk_def unquoted_def)
  obtain R1 where R1: "LoadSceneTextures demo_disk (ResourceManager_Init []) = Inr R1" "rm_path R1 = []" "rm_sprites R1 = Map.empty"
    "rm_flipbooks R1 = Map.empty" "rm_tilemaps R1 = Map.empty" "rm_sounds R1 = Map.empty"
    using load_texture_rows [OF shipped_textures_ok, of demo_disk "ResourceManager_Init []"]
    by (auto simp: LoadSceneTextures_def t ResourceManager_Init_def)
  moreover obtain R2 where "CreateSceneSprites demo_disk R1 = Inr R2" "rm_path R2 = []" "rm_flipbooks R2 = Map.empty"
    "rm_tilemaps R2 = Map.empty" "rm_sounds R2 = Map.empty"
    using create_sprite_rows [OF shipped_sprites_ok, of R1] R1(2-6) by (auto simp: CreateSceneSprites_def s)
  ultimately show ?thesis using that by blast
qed

lemma demo_sounds_load:
  assumes "rm_sounds R = Map.empty"
  shows "\<exists>R'. LoadSceneSounds demo_disk True R = Inr R'"
proof -
  have "LoadWave demo_disk True (rm_path R) (ToWideAscii (''Sound'' @ CHR 0x5C # ''BGM.wav'')) Sound_new
      = Inr (True, Sound_new\<lparr>snd_buffer := Some [1, 2, 3]\<rparr>)"
    using demo_wav by (simp add: LoadWave_def demo_disk_def)
  then show ?thesis
    using assms demo_sound by (simp add: LoadSceneSounds_def demo_sounds load_sound_def sound_id_def LoadSound_def)
qed

lemma demo_scene:
  "\<exists>S R. load_scene demo_disk True (ResourceManager_Init []) = Inr (S, R)
    \<and> st_tilemap S = Some \<lparr>mapSize = Vec 2 1, tileSize = 48, tiles = [[0, 1]]\<rparr>"
proof -
  let ?tm = "\<lparr>mapSize = Vec 2 1, tileSize = 48, tiles = [[0, 1]]\<rparr> :: Tilemap"
  obtain R1 R2 where p: "LoadSceneTextures demo_disk (ResourceManager_Init []) = Inr R1" "CreateSceneSprites demo_disk R1 = Inr R2"
    "rm_flipbooks R2 = Map.empty" "rm_tilemaps R2 = Map.empty" "rm_sounds R2 = Map.empty" by (rule demo_sheets)
  obtain R3 where R3: "LoadSceneFlipbooks R2 = Inr R3" "keeps R2 R3"
    using load_books_total [of R2 LoadFlipbooks] load_books_keeps p(3) unfolding LoadSceneFlipbooks_def by fastforce
  have "SpriteRow ''Stage01'' ''Stage01'' 0 0 0 0 \<in> set shipped_sprites" by (simp add: shipped_sprites_def)
  then have "stored_at (rm_sprites R2) (ToWideAscii ''Stage01'') \<noteq> None"
    using shipped_pictures(1) [OF demo_ships p(1,2)] by fastforce
  then obtain p1 where "stored_at (rm_sprites R3) (ToWideAscii ''Stage01'') = Some p1" using R3(2) by (auto simp: keeps_def)
  then have m: "\<exists>S0. DevScene_LoadMap R3 = Inr (S0, R3)" by (simp add: DevScene_LoadMap_def GetSprite_held)
  have e: "rm_tilemaps R3 = Map.empty" "rm_sounds R3 = Map.empty" using R3(2) p by (simp_all add: keeps_def)
  have "\<exists>S R4. DevScene_LoadTilemap demo_disk (S0, R3) = Inr (S, R4) \<and> st_tilemap S = Some ?tm \<and> rm_sounds R4 = Map.empty" for S0
    using e demo_make [of R3] demo_make
    by (simp add: DevScene_LoadTilemap_def demo_make stored_at_def GetTilemap_def at_key_def)
  then obtain S R4 S0 where t: "DevScene_LoadMap R3 = Inr (S0, R3)" "DevScene_LoadTilemap demo_disk (S0, R3) = Inr (S, R4)"
    "st_tilemap S = Some ?tm" "rm_sounds R4 = Map.empty"
    using m by metis
  obtain R5 where "LoadSceneSounds demo_disk True R4 = Inr R5" using demo_sounds_load [OF t(4)] by blast
  then show ?thesis using p(1,2) R3(1) t(1-3) by (simp add: load_scene_def)
qed

section \<open>The debug view\<close>

lemma draw_cells_null:
  "c \<in> set cells \<Longrightarrow> tile c \<in> {Some 0, Some 1} \<Longrightarrow> draw_cells tile None None draw cells = Inl NullDeref"
  by (induction cells) (auto split: option.split)

text \<open>
  C36. With the shipped sheets the sprites \<open>TileO\<close> and \<open>TileX\<close> of the map's debug view are the only ones that are not made, for
  the sheet of textures has no \<open>Tile\<close>; the debug view uses them unchecked, so the first tile it draws ends the client.
\<close>

theorem shipped_debug_view_crashes:
  assumes "ships D" "load_scene D device (ResourceManager_Init dir) = Inr (S, R)" "st_tilemap S = Some tm"
    and "vx c \<in> set (window_cells (px camera) GWinSizeX (px pos) TILE_SIZEX)"
    and "vy c \<in> set (window_cells (py camera) GWinSizeY (py pos) TILE_SIZEY)"
    and "GetTileAt c tm \<in> {Some 0, Some 1}"
  shows "(\<forall>r \<in> set shipped_sprites. fst (GetSprite (ToWideAscii (sr_id r)) R) = None \<longleftrightarrow> sr_id r \<in> {''TileO'', ''TileX''})
    \<and> TilemapActor_Render camera pos (S\<lparr>st_showDebug := True\<rparr>, R) = Inl NullDeref"
proof -
  obtain R1 R2 where p: "LoadSceneTextures D (ResourceManager_Init dir) = Inr R1" "CreateSceneSprites D R1 = Inr R2"
    "rm_sprites R = rm_sprites R2"
    using load_scene_parts [OF assms(2)] by metis
  have g: "fst (GetSprite k Q) = stored_at (rm_sprites Q) k" "stored_at (rm_sprites (snd (GetSprite k Q))) = stored_at (rm_sprites Q)" for k Q
    by (simp_all add: GetSprite_def split_beta)
  have none: "\<forall>r \<in> set shipped_sprites. stored_at (rm_sprites R) (ToWideAscii (sr_id r)) = None \<longleftrightarrow> sr_id r \<in> {''TileO'', ''TileX''}"
    using shipped_pictures(1) [OF assms(1) p(1,2)] p(3) by simp
  have "SpriteRow ''TileO'' ''Tile'' 0 0 48 48 \<in> set shipped_sprites" "SpriteRow ''TileX'' ''Tile'' 48 0 48 48 \<in> set shipped_sprites"
    by (simp_all add: shipped_sprites_def)
  then have n: "stored_at (rm_sprites R) (ToWideAscii ''TileO'') = None" "stored_at (rm_sprites R) (ToWideAscii ''TileX'') = None"
    using none by fastforce+
  let ?cells = "concat (map (\<lambda>y. map (\<lambda>x. Vec x y) (window_cells (px camera) GWinSizeX (px pos) TILE_SIZEX))
    (window_cells (py camera) GWinSizeY (py pos) TILE_SIZEY))"
  have "c \<in> set ?cells" using assms(4,5) by (cases c) auto
  then have "draw_cells (\<lambda>c. GetTileAt c tm) None None (tile_blit camera pos) ?cells = Inl NullDeref"
    using assms(6) by (rule draw_cells_null)
  moreover obtain Ra where "GetSprite (ToWideAscii ''TileO'') R = (None, Ra)" "stored_at (rm_sprites Ra) = stored_at (rm_sprites R)"
    using g [of "ToWideAscii ''TileO''" R] n(1) by (metis prod.collapse)
  moreover obtain Rb where "GetSprite (ToWideAscii ''TileX'') Ra = (None, Rb)"
    using g [of "ToWideAscii ''TileX''" Ra] n(2) calculation(3) by (metis prod.collapse)
  ultimately have "TilemapActor_Render camera pos (S\<lparr>st_showDebug := True\<rparr>, R) = Inl NullDeref"
    using assms(3) by (simp add: TilemapActor_Render_def)
  then show ?thesis using none g(1) by simp
qed

theorem shipped_debug_view_crashes_witness:
  "\<exists>S R. load_scene demo_disk True (ResourceManager_Init []) = Inr (S, R)
    \<and> TilemapActor_Render (Pos 400 300) (Pos 0 0) (S\<lparr>st_showDebug := True\<rparr>, R) = Inl NullDeref"
proof -
  obtain S R where s: "load_scene demo_disk True (ResourceManager_Init []) = Inr (S, R)"
    "st_tilemap S = Some \<lparr>mapSize = Vec 2 1, tileSize = 48, tiles = [[0, 1]]\<rparr>" using demo_scene by blast
  have "0 \<in> set (window_cells 400 GWinSizeX 0 TILE_SIZEX)" "0 \<in> set (window_cells 300 GWinSizeY 0 TILE_SIZEY)"
    by (simp_all add: window_cells_def int_of_float_def TILE_SIZEX_def TILE_SIZEY_def)
  then show ?thesis
    using shipped_debug_view_crashes [OF demo_ships s, of "Vec 0 0" "Pos 400 300" "Pos 0 0"] s(1) by (simp add: GetTileAt_def)
qed

section \<open>Changing the map\<close>

fun change_stages :: "Disk \<Rightarrow> int32 list \<Rightarrow> Stage \<times> ResourceManager \<Rightarrow> failure + (Stage \<times> ResourceManager)" where
  "change_stages D [] SR = Inr SR"
| "change_stages D (m # ms) SR = and_then (change_stage D m SR) (change_stages D ms)"

text \<open>The tilemap of the last map that is one.\<close>

fun stage_key :: "string \<Rightarrow> int32 list \<Rightarrow> string" where
  "stage_key k [] = k"
| "stage_key k (m # ms) =
     stage_key (if m = MAP_ID_TOWN then ''Tilemap_01'' else if m = MAP_ID_DUNGEON then ''Tilemap_02'' else k) ms"

definition stage_ok :: "string \<Rightarrow> Stage \<times> ResourceManager \<Rightarrow> bool" where
  "stage_ok k SR \<longleftrightarrow> st_background (fst SR) \<noteq> None \<and> k \<in> {''Tilemap_01'', ''Tilemap_02''}
     \<and> st_tilemap (fst SR) = stored_at (rm_tilemaps (snd SR)) (ToWideAscii k)
     \<and> (\<forall>j \<in> {''Tilemap_01'', ''Tilemap_02''}. \<exists>tm. stored_at (rm_tilemaps (snd SR)) (ToWideAscii j) = Some tm \<and> tilemap_ok tm)"

lemma ChangeBackground_stage:
  "ChangeBackground m SR = SR' \<Longrightarrow> rm_tilemaps (snd SR') = rm_tilemaps (snd SR) \<and> st_tilemap (fst SR') = st_tilemap (fst SR)
    \<and> (st_background (fst SR) \<noteq> None \<longrightarrow> st_background (fst SR') \<noteq> None)"
  by (auto simp: ChangeBackground_def GetSprite_def Let_def split: prod.splits option.splits if_splits)

lemma show_tilemap_held:
  "stored_at (rm_tilemaps R) key = Some tm \<Longrightarrow> show_tilemap D key path sz (S, R) = Inr (S\<lparr>st_tilemap := Some tm, st_showDebug := False\<rparr>, R)"
  by (simp add: show_tilemap_def GetTilemap_held)

lemma tilemap_path_eq [simp]: "tilemap_path f = tilemap_path g \<longleftrightarrow> f = g"
  by (simp add: tilemap_path_def)

lemma change_stage_ok:
  assumes "stage_ok k SR"
  shows "\<exists>SR'. change_stage D m SR = Inr SR' \<and> stage_ok (stage_key k [m]) SR' \<and> rm_tilemaps (snd SR') = rm_tilemaps (snd SR)"
proof -
  obtain S1 R1 where b: "ChangeBackground m SR = (S1, R1)" by (cases "ChangeBackground m SR")
  have s: "rm_tilemaps R1 = rm_tilemaps (snd SR)" "st_tilemap S1 = st_tilemap (fst SR)" "st_background S1 \<noteq> None"
    using ChangeBackground_stage [OF b] assms by (simp_all add: stage_ok_def)
  obtain t1 t2 where t: "stored_at (rm_tilemaps R1) (ToWideAscii ''Tilemap_01'') = Some t1"
    "stored_at (rm_tilemaps R1) (ToWideAscii ''Tilemap_02'') = Some t2"
    using assms s(1) by (auto simp: stage_ok_def)
  then show ?thesis
    using assms s by (auto simp: change_stage_def b Let_def LoadTilemapFile_def show_tilemap_held stage_ok_def)
qed

lemma change_stages_ok:
  assumes "stage_ok k SR"
  shows "\<exists>SR'. change_stages D ms SR = Inr SR' \<and> stage_ok (stage_key k ms) SR' \<and> rm_tilemaps (snd SR') = rm_tilemaps (snd SR)"
  using assms
proof (induction ms arbitrary: k SR)
  case (Cons m ms)
  obtain SR1 where "change_stage D m SR = Inr SR1" "stage_ok (stage_key k [m]) SR1" "rm_tilemaps (snd SR1) = rm_tilemaps (snd SR)"
    using change_stage_ok [OF Cons.prems] by blast
  with Cons.IH [of "stage_key k [m]" SR1] show ?case by simp
qed simp

text \<open>
  C34. Once the scene is loaded, no sequence of map changes fails: there always is a background, and the map shown is the
  well-formed one that was loaded for the last town or dungeon entered.
\<close>

theorem map_changes_never_fail:
  assumes "load_scene D device (ResourceManager_Init dir) = Inr (S, R)"
  shows "\<exists>S' R' tm. change_stages D ms (S, R) = Inr (S', R') \<and> st_background S' \<noteq> None \<and> st_tilemap S' = Some tm \<and> tilemap_ok tm
    \<and> stored_at (rm_tilemaps R) (ToWideAscii (stage_key ''Tilemap_01'' ms)) = Some tm"
proof -
  obtain R3 S0 R4 where p: "DevScene_LoadMap R3 = Inr (S0, R3)" "DevScene_LoadTilemap D (S0, R3) = Inr (S, R4)"
    "rm_tilemaps R = rm_tilemaps R4"
    using load_scene_parts [OF assms] by metis
  have "stage_ok ''Tilemap_01'' (S, R)"
    using LoadTilemap_stage [OF p(2)] LoadMap_stage [OF p(1)] p(3) by (auto simp: stage_ok_def)
  then obtain SR' where SR': "change_stages D ms (S, R) = Inr SR'" "stage_ok (stage_key ''Tilemap_01'' ms) SR'"
    "rm_tilemaps (snd SR') = rm_tilemaps R" using change_stages_ok by fastforce
  obtain S' R' where s: "SR' = (S', R')" by (cases SR')
  obtain tm where "stored_at (rm_tilemaps R) (ToWideAscii (stage_key ''Tilemap_01'' ms)) = Some tm" "tilemap_ok tm"
    using SR'(2,3) unfolding stage_ok_def by fastforce
  with SR' s show ?thesis by (auto simp: stage_ok_def)
qed

theorem map_changes_never_fail_witness:
  "\<exists>S R S' R' tm. load_scene demo_disk True (ResourceManager_Init []) = Inr (S, R)
    \<and> change_stages demo_disk [MAP_ID_DUNGEON, 7, MAP_ID_TOWN, MAP_ID_DUNGEON] (S, R) = Inr (S', R') \<and> st_tilemap S' = Some tm
    \<and> stored_at (rm_tilemaps R) (ToWideAscii ''Tilemap_02'') = Some tm"
proof -
  obtain S R where s: "load_scene demo_disk True (ResourceManager_Init []) = Inr (S, R)" using demo_scene by blast
  have "stage_key ''Tilemap_01'' [MAP_ID_DUNGEON, 7, MAP_ID_TOWN, MAP_ID_DUNGEON] = ''Tilemap_02''"
    by (simp add: MAP_ID_TOWN_def MAP_ID_DUNGEON_def)
  with map_changes_never_fail [OF s, of "[MAP_ID_DUNGEON, 7, MAP_ID_TOWN, MAP_ID_DUNGEON]"] s show ?thesis by metis
qed

section \<open>No sound device\<close>

lemma LoadWave_result: "LoadWave D device dir path s = Inl NullDeref \<or> (\<exists>b s'. LoadWave D device dir path s = Inr (b, s'))"
  by (auto simp: LoadWave_def split: option.split)

lemma LoadSound_result:
  "LoadSound D device key path R = Inl NullDeref
    \<or> (\<exists>s R'. LoadSound D device key path R = Inr (s, R') \<and> rm_path R' = rm_path R \<and> (\<forall>k. k \<noteq> key \<longrightarrow> rm_sounds R' k = rm_sounds R k))"
  using LoadWave_result [of D device "rm_path R" path Sound_new] by (auto simp: LoadSound_def split: option.split)

lemma Play_result:
  "SoundManager_Play key loop R = Inl NullDeref
    \<or> (\<exists>R'. SoundManager_Play key loop R = Inr R' \<and> rm_path R' = rm_path R \<and> (\<forall>k. k \<noteq> key \<longrightarrow> rm_sounds R' k = rm_sounds R k))"
  by (auto simp: SoundManager_Play_def GetSound_def at_key_def Sound_Play_def split: option.split)

text \<open>A row of the sheet of sounds either ends the client through a null pointer or touches its own key only.\<close>

lemma load_sound_result:
  "load_sound D device obj R = Inl NullDeref
    \<or> (\<exists>R'. load_sound D device obj R = Inr R' \<and> rm_path R' = rm_path R
      \<and> (\<forall>k. k \<noteq> ToWideAscii (sound_id obj) \<longrightarrow> rm_sounds R' k = rm_sounds R k))"
proof (cases "sound_id obj = '''' \<or> ExtractFilePathValue obj = ''''")
  case True
  then show ?thesis by (auto simp: load_sound_def sound_id_def Let_def)
next
  case False
  let ?k = "ToWideAscii (sound_id obj)"
  have l: "load_sound D device obj R = and_then (LoadSound D device ?k (ToWideAscii (ExtractFilePathValue obj)) R) (\<lambda>(sound, R').
      if ParseBoolValue obj ''loop_on_init'' 0 False then SoundManager_Play ?k True R' else Inr R')"
    using False unfolding sound_id_def load_sound_def Let_def by simp
  consider "LoadSound D device ?k (ToWideAscii (ExtractFilePathValue obj)) R = Inl NullDeref"
    | s R1 where "LoadSound D device ?k (ToWideAscii (ExtractFilePathValue obj)) R = Inr (s, R1)" "rm_path R1 = rm_path R"
        "\<forall>k. k \<noteq> ?k \<longrightarrow> rm_sounds R1 k = rm_sounds R k"
    using LoadSound_result [of D device ?k "ToWideAscii (ExtractFilePathValue obj)" R] by blast
  then show ?thesis
  proof cases
    case 1
    then show ?thesis by (simp add: l)
  next
    case 2
    then show ?thesis using Play_result [of ?k True R1] by (auto simp: l)
  qed
qed

lemma load_sound_no_device:
  assumes "sound_id obj \<noteq> ''''" "ExtractFilePathValue obj \<noteq> ''''" "rm_sounds R (ToWideAscii (sound_id obj)) = None"
    and "is_wav (ToWideAscii (ExtractFilePathValue obj))" "d_wave D (rm_path R) (ToWideAscii (ExtractFilePathValue obj)) \<noteq> None"
  shows "load_sound D False obj R = Inl NullDeref"
  using assms by (auto simp: load_sound_def sound_id_def LoadSound_def LoadWave_def Let_def)

text \<open>
  C37. On a computer where DirectSound gives no device, \<open>Init\<close> only shows a box; as soon as the sheet of sounds names one wave file
  that can be opened, loading the sounds goes through the null device and the client ends, before its first frame.
\<close>

theorem no_sound_device_ends_the_client:
  assumes "obj \<in> set (read_sheet D ''../DatasheetsClient/Sounds.json'' ''sounds'')"
    and "distinct (map sound_id (read_sheet D ''../DatasheetsClient/Sounds.json'' ''sounds''))"
    and "sound_id obj \<noteq> ''''" "ExtractFilePathValue obj \<noteq> ''''"
    and "is_wav (ToWideAscii (ExtractFilePathValue obj))" "d_wave D (rm_path R) (ToWideAscii (ExtractFilePathValue obj)) \<noteq> None"
    and "rm_sounds R = Map.empty" "\<not> created"
  shows "LoadSceneSounds D (SoundManager_Init created level_set) R = Inl NullDeref"
proof -
  have "each_object (load_sound D False) objs Q = Inl NullDeref"
    if "obj \<in> set objs" "distinct (map sound_id objs)" "rm_path Q = rm_path R" "rm_sounds Q (ToWideAscii (sound_id obj)) = None" for objs Q
    using that
  proof (induction objs arbitrary: Q)
    case (Cons a objs)
    show ?case
    proof (cases "a = obj")
      case True
      then show ?thesis using load_sound_no_device [of obj Q D] assms(3-6) Cons.prems by simp
    next
      case False
      then have o: "obj \<in> set objs" "sound_id a \<noteq> sound_id obj" using Cons.prems by auto
      show ?thesis
        using load_sound_result [of D False a Q] Cons.IH o Cons.prems(2-4) by auto
    qed
  qed simp
  then show ?thesis using assms(1,2,7,8) by (simp add: LoadSceneSounds_def SoundManager_Init_def)
qed

theorem no_sound_device_ends_the_client_witness:
  "LoadSceneSounds demo_disk (SoundManager_Init False False) (ResourceManager_Init []) = Inl NullDeref"
proof (rule no_sound_device_ends_the_client)
  show "texture_line demo_row \<in> set (read_sheet demo_disk ''../DatasheetsClient/Sounds.json'' ''sounds'')"
    "distinct (map sound_id (read_sheet demo_disk ''../DatasheetsClient/Sounds.json'' ''sounds''))"
    by (simp_all add: demo_sounds)
  show "is_wav (ToWideAscii (ExtractFilePathValue (texture_line demo_row)))" by (simp only: demo_sound demo_wav)
qed (simp_all add: demo_sound demo_disk_def ResourceManager_Init_def)

section \<open>Asking too early\<close>

text \<open>
  A resource that is asked for before it is loaded is never loaded afterwards: the null pointer that asking leaves is what every
  later loading returns, and for a tilemap what it goes through.
\<close>

lemma asked_too_early:
  assumes "rm_textures R k = None" "rm_sprites R k = None" "rm_flipbooks R k = None" "rm_tilemaps R k = None" "rm_sounds R k = None"
  shows "LoadTexture D k path c (snd (GetTexture k R)) = (None, snd (GetTexture k R))"
    "CreateSprite k t x y w h (snd (GetSprite k R)) = (None, snd (GetSprite k R))"
    "CreateFlipbook k (snd (FlipbookOf k R)) = (None, snd (FlipbookOf k R))"
    "CreateTilemap k (snd (GetTilemap k R)) = (None, snd (GetTilemap k R))"
    "LoadTilemap D k path (snd (GetTilemap k R)) = Inl NullDeref"
    "LoadSound D device k path (snd (GetSound k R)) = Inr (None, snd (GetSound k R))"
  using assms
  by (simp_all add: LoadTexture_def GetTexture_def CreateSprite_def GetSprite_def CreateFlipbook_def FlipbookOf_def
      CreateTilemap_def GetTilemap_def LoadTilemap_def LoadSound_def GetSound_def at_key_def)

text \<open>So the creation of a missing tilemap in \<open>DevScene::LoadTilemap\<close> never creates one.\<close>

lemma missing_tilemap_is_never_made:
  "rm_tilemaps R key = None \<Longrightarrow> show_tilemap D key path sz (S, R) = Inr (S, R\<lparr>rm_tilemaps := (rm_tilemaps R)(key \<mapsto> None)\<rparr>)"
  by (simp add: show_tilemap_def GetTilemap_def CreateTilemap_def at_key_def)

end
