(* ===== verification/Loggers.thy ===== *)
theory Loggers
  imports RoomData_Props
begin

text \<open>
  The loggers of the two servers: \<open>ServerLogger\<close> with one file a day, \<open>ChatServerLogger\<close> with a second one for the chat. The clock is
  read once to choose the file and once more for the line, so a call takes two times; whether a file can be opened is an
  argument too. Colours of the console are left out.
\<close>

section \<open>Lines\<close>

record SYSTEMTIME =
  wYear :: nat
  wMonth :: nat
  wDay :: nat
  wHour :: nat
  wMinute :: nat
  wSecond :: nat

text \<open>\<open>%0nd\<close>\<close>

definition zero_padded :: "nat \<Rightarrow> nat \<Rightarrow> string" where
  "zero_padded n v = replicate (n - length (show_nat v)) (CHR ''0'') @ show_nat v"

text \<open>\<open>snprintf\<close> and \<open>vsnprintf\<close> cut what they print to the buffer, less its terminator.\<close>

definition GetTimestamp :: "SYSTEMTIME \<Rightarrow> string" where
  "GetTimestamp st = take 31 (''['' @ zero_padded 4 (wYear st) @ ''-'' @ zero_padded 2 (wMonth st) @ ''-'' @ zero_padded 2 (wDay st)
     @ '' '' @ zero_padded 2 (wHour st) @ '':'' @ zero_padded 2 (wMinute st) @ '':'' @ zero_padded 2 (wSecond st) @ '']'')"

definition GetDateString :: "SYSTEMTIME \<Rightarrow> string" where
  "GetDateString st = take 15 (zero_padded 4 (wYear st) @ zero_padded 2 (wMonth st) @ zero_padded 2 (wDay st))"

definition LogFormat :: "string \<Rightarrow> string" where
  "LogFormat formatted = take 1023 formatted"

definition padded_tag :: "string \<Rightarrow> string" where
  "padded_tag tag =
     (if length tag < 7 then tag @ replicate (7 - length tag) (CHR '' '') else if length tag > 7 then take 7 tag else tag)"

definition log_line :: "SYSTEMTIME \<Rightarrow> string \<Rightarrow> string \<Rightarrow> string \<Rightarrow> string" where
  "log_line now severity tag msg = GetTimestamp now @ ''['' @ severity @ ''][''  @ padded_tag tag @ ''] '' @ msg"

definition chat_line :: "SYSTEMTIME \<Rightarrow> string \<Rightarrow> string \<Rightarrow> string \<Rightarrow> string \<Rightarrow> string" where
  "chat_line now sender kind recipient msg = GetTimestamp now @ ''[CHAT] '' @ kind @ '' | sender='' @ sender
     @ (if recipient \<noteq> '''' then '' | to='' @ recipient else '''') @ '' | msg='' @ msg"

section \<open>ServerLogger\<close>

text \<open>The open files by path, the text of all files, and what is on the console.\<close>

record ServerLogger =
  lg_server :: "string option"
  lg_lastDate :: string
  lg_files :: "string \<Rightarrow> string"
  lg_console :: string

definition ServerLogger_new :: "(string \<Rightarrow> string) \<Rightarrow> ServerLogger" where
  "ServerLogger_new files = \<lparr>lg_server = None, lg_lastDate = '''', lg_files = files, lg_console = ''''\<rparr>"

definition server_path :: "string \<Rightarrow> string" where
  "server_path today = ''logs/server_'' @ today @ ''.log''"

definition EnsureFileOpen :: "(string \<Rightarrow> bool) \<Rightarrow> SYSTEMTIME \<Rightarrow> ServerLogger \<Rightarrow> ServerLogger" where
  "EnsureFileOpen opens now L =
     (let today = GetDateString now
      in if today = lg_lastDate L \<and> lg_server L \<noteq> None then L
         else L\<lparr>lg_server := (if opens (server_path today) then Some (server_path today) else None), lg_lastDate := today\<rparr>)"

text \<open>\<open>stream << line << "\n" << flush\<close> on an open file, which appends.\<close>

definition append_line :: "string option \<Rightarrow> string \<Rightarrow> (string \<Rightarrow> string) \<Rightarrow> string \<Rightarrow> string" where
  "append_line file line files =
     (case file of None \<Rightarrow> files | Some path \<Rightarrow> files(path := files path @ line @ [CHR 0x0A]))"

definition Log_Write :: "(string \<Rightarrow> bool) \<Rightarrow> SYSTEMTIME \<times> SYSTEMTIME \<Rightarrow> string \<Rightarrow> string \<Rightarrow> string \<Rightarrow> ServerLogger \<Rightarrow> ServerLogger" where
  "Log_Write opens now severity tag msg L =
     (let L1 = EnsureFileOpen opens (fst now) L; line = log_line (snd now) severity tag msg
      in L1\<lparr>lg_files := append_line (lg_server L1) line (lg_files L1), lg_console := lg_console L1 @ line @ [CHR 0x0A]\<rparr>)"

section \<open>ChatServerLogger\<close>

record ChatServerLogger = ServerLogger +
  lg_chat :: "string option"

definition ChatServerLogger_new :: "(string \<Rightarrow> string) \<Rightarrow> ChatServerLogger" where
  "ChatServerLogger_new files =
     \<lparr>lg_server = None, lg_lastDate = '''', lg_files = files, lg_console = '''', lg_chat = None\<rparr>"

definition chat_path :: "string \<Rightarrow> string" where
  "chat_path today = ''logs/chat_'' @ today @ ''.log''"

text \<open>Whether the file of the chat is open is not asked.\<close>

definition Chat_EnsureFileOpen :: "(string \<Rightarrow> bool) \<Rightarrow> SYSTEMTIME \<Rightarrow> ChatServerLogger \<Rightarrow> ChatServerLogger" where
  "Chat_EnsureFileOpen opens now L =
     (let today = GetDateString now
      in if today = lg_lastDate L \<and> lg_server L \<noteq> None then L
         else L\<lparr>lg_server := (if opens (server_path today) then Some (server_path today) else None), lg_lastDate := today,
           lg_chat := (if opens (chat_path today) then Some (chat_path today) else None)\<rparr>)"

definition Chat_Write :: "(string \<Rightarrow> bool) \<Rightarrow> SYSTEMTIME \<times> SYSTEMTIME \<Rightarrow> string \<Rightarrow> string \<Rightarrow> string \<Rightarrow> ChatServerLogger
    \<Rightarrow> ChatServerLogger" where
  "Chat_Write opens now severity tag msg L =
     (let L1 = Chat_EnsureFileOpen opens (fst now) L; line = log_line (snd now) severity tag msg
      in L1\<lparr>lg_files := append_line (lg_server L1) line (lg_files L1), lg_console := lg_console L1 @ line @ [CHR 0x0A]\<rparr>)"

definition WriteChat :: "(string \<Rightarrow> bool) \<Rightarrow> SYSTEMTIME \<times> SYSTEMTIME \<Rightarrow> string \<Rightarrow> string \<Rightarrow> string \<Rightarrow> string \<Rightarrow> ChatServerLogger
    \<Rightarrow> ChatServerLogger" where
  "WriteChat opens now sender kind recipient msg L =
     (let L1 = Chat_EnsureFileOpen opens (fst now) L; line = chat_line (snd now) sender kind recipient msg
      in L1\<lparr>lg_files := append_line (lg_chat L1) line (lg_files L1), lg_console := lg_console L1 @ line @ [CHR 0x0A]\<rparr>)"

section \<open>What ends up where\<close>

text \<open>A call of the chat server's logger, and the day and line it stands for.\<close>

datatype log_call =
    LogLine (call_time: "SYSTEMTIME \<times> SYSTEMTIME") string string string
  | ChatLine (call_time: "SYSTEMTIME \<times> SYSTEMTIME") string string string string

fun log_step :: "(string \<Rightarrow> bool) \<Rightarrow> log_call \<Rightarrow> ChatServerLogger \<Rightarrow> ChatServerLogger" where
  "log_step opens (LogLine now severity tag msg) L = Chat_Write opens now severity tag msg L"
| "log_step opens (ChatLine now sender kind recipient msg) L = WriteChat opens now sender kind recipient msg L"

fun call_path :: "log_call \<Rightarrow> string" where
  "call_path (LogLine now severity tag msg) = server_path (GetDateString (fst now))"
| "call_path (ChatLine now sender kind recipient msg) = chat_path (GetDateString (fst now))"

fun call_text :: "log_call \<Rightarrow> string" where
  "call_text (LogLine now severity tag msg) = log_line (snd now) severity tag msg @ [CHR 0x0A]"
| "call_text (ChatLine now sender kind recipient msg) = chat_line (snd now) sender kind recipient msg @ [CHR 0x0A]"

text \<open>The open files are those of the last date.\<close>

definition files_of_day :: "ChatServerLogger \<Rightarrow> bool" where
  "files_of_day L \<longleftrightarrow> (lg_server L = None \<or> lg_server L = Some (server_path (lg_lastDate L)) \<and> lg_chat L = Some (chat_path (lg_lastDate L)))"

lemma paths_differ [simp]: "server_path d \<noteq> chat_path e" "chat_path e \<noteq> server_path d"
  by (simp_all add: server_path_def chat_path_def)

lemma Chat_EnsureFileOpen_day:
  assumes "files_of_day L"
  shows "lg_server (Chat_EnsureFileOpen (\<lambda>_. True) t L) = Some (server_path (GetDateString t))"
    "lg_chat (Chat_EnsureFileOpen (\<lambda>_. True) t L) = Some (chat_path (GetDateString t))"
    "lg_lastDate (Chat_EnsureFileOpen (\<lambda>_. True) t L) = GetDateString t"
    "lg_files (Chat_EnsureFileOpen opens t L) = lg_files L" "lg_console (Chat_EnsureFileOpen opens t L) = lg_console L"
  using assms by (auto simp: Chat_EnsureFileOpen_def files_of_day_def Let_def)

lemma log_step_day:
  assumes "files_of_day L"
  shows "files_of_day (log_step (\<lambda>_. True) e L)"
    "lg_files (log_step (\<lambda>_. True) e L) = (lg_files L)(call_path e := lg_files L (call_path e) @ call_text e)"
    "lg_console (log_step (\<lambda>_. True) e L) = lg_console L @ call_text e"
  using Chat_EnsureFileOpen_day [OF assms]
  by (cases e; simp add: Chat_Write_def WriteChat_def Let_def append_line_def files_of_day_def)+

text \<open>
  As long as files can be opened, every file gets exactly the lines of its day and kind, in the order of the calls, behind what it
  held before; the console gets all of them.
\<close>

lemma logged_by_day:
  assumes "L = fold (log_step (\<lambda>_. True)) es (ChatServerLogger_new files)"
  shows "lg_files L path = files path @ concat (map call_text (filter (\<lambda>e. call_path e = path) es))"
    "lg_console L = concat (map call_text es)"
proof -
  have "lg_files (fold (log_step (\<lambda>_. True)) es L0) path = lg_files L0 path @ concat (map call_text (filter (\<lambda>e. call_path e = path) es))
      \<and> lg_console (fold (log_step (\<lambda>_. True)) es L0) = lg_console L0 @ concat (map call_text es)" if "files_of_day L0" for L0
    using that
  proof (induction es arbitrary: L0)
    case (Cons e es)
    then show ?case using Cons.IH [OF log_step_day(1) [OF Cons.prems]] log_step_day(2,3) [OF Cons.prems] by simp
  qed simp
  from this [of "ChatServerLogger_new files"] show "lg_files L path = files path @ concat (map call_text (filter (\<lambda>e. call_path e = path) es))"
    "lg_console L = concat (map call_text es)"
    using assms by (simp_all add: ChatServerLogger_new_def files_of_day_def)
qed

text \<open>
  When the file of the chat cannot be opened at the first line of a day and that of the server can, no chat of that day is logged,
  even if the file could be opened later.
\<close>

lemma chat_file_is_not_retried:
  assumes "lg_lastDate L = GetDateString t" "lg_server L \<noteq> None" "lg_chat L = None"
  shows "lg_files (WriteChat opens (t, t') sender kind recipient msg L) = lg_files L"
    "lg_chat (WriteChat opens (t, t') sender kind recipient msg L) = None"
  using assms by (simp_all add: WriteChat_def Chat_EnsureFileOpen_def append_line_def Let_def)

text \<open>
  The text of a message is written as it is: with a line break in it a player writes a second line, which reads like one of any
  sender.
\<close>

lemma chat_forges_a_line:
  "chat_line now a ''GLOBAL'' '''' (m @ CHR 0x0A # chat_line now' b ''GLOBAL'' '''' m') @ [CHR 0x0A]
    = call_text (ChatLine (t, now) a ''GLOBAL'' '''' m) @ call_text (ChatLine (t, now') b ''GLOBAL'' '''' m')"
  by (simp add: chat_line_def)

end
