(* ===== verification/Spec2Isabelle.thy ===== *)
theory Spec2Isabelle
  imports Session_Recv Session_Send Server_Sample RoomData_Props ChatServer Listener_Props View ClientTilemap ClientInput_Props
    ClientMotion ClientPanels_Props ClientMain DummyClient_Props
    Multi_Order Scene_Props Loggers
begin

text \<open>
  An online role-playing game: a game server and a chat server on I/O completion ports, a WinAPI client, and a load generator.
  The theories of this directory model the four programs as they are written under \<^verbatim>\<open>src/Zelda-Winapi\<close>, and prove what
  makes each part correct and how the parts fit together.

  The programs and their interplay. The server is authoritative. A client sends requests (\<open>C_Move\<close>, \<open>C_Attack\<close>, ...); the packet
  handler parses them and queues a job in the room of the session; the room runs its jobs in its update, changes players,
  monsters and arrows, and broadcasts what has changed (\<open>S_Move\<close>, \<open>S_AddObject\<close>, ...), which the client copies into its scene.
  Accounts and items live in SQLite, online players and the ranking in Redis, chat goes through the chat server to every game
  server and from there to the sessions it is meant for. Below all of it \<open>ServerCore\<close> turns asynchronous sends and receives of
  a socket into whole packets.

  Network library, \<^verbatim>\<open>ServerCore\<close>. \<open>Buffers\<close>: \<open>RecvBuffer\<close>, \<open>SendBuffer\<close>, \<open>BufferReader\<close>, \<open>BufferWriter\<close>, the receive window as a first-in
  first-out queue of bytes (locale \<open>byte_fifo\<close>). \<open>Framing\<close>: \<open>PacketHeader\<close>, \<open>MakeSendBuffer\<close>, \<open>ParsePacket\<close>, \<open>PacketSession::OnRecv\<close>.
  \<open>Session\<close>: \<open>Session.cpp\<close> and the bookkeeping of \<open>Service.cpp\<close>; \<open>Session_Recv\<close> shows that a stream of frames is handed on frame by frame
  however the transport cuts it, \<open>Session_Send\<close> that in every interleaving of the locked blocks sends are in order, at most one is
  outstanding and none is forgotten, and that a \<open>Send\<close> before the connect keeps the session from ever sending. \<open>Listener\<close>, \<open>Listener_Props\<close>: \<open>IocpCore\<close>,
  \<open>IocpEvent\<close>, \<open>Listener\<close>; the service's set of sessions against the set of connected ones, and when arming the listener ends.

  Game server, \<^verbatim>\<open>Server\<close>. \<open>Protocol\<close>: the messages. \<open>GameData\<close>, \<open>RoomData\<close>, \<open>RoomData_Props\<close>: \<open>RoomDataManager\<close>, its tables and the parsers of the
  sheets and of the spawn file. \<open>Tilemap\<close>: the walls. \<open>StdMap\<close>, \<open>PathFinding\<close>: the containers \<open>FindPath\<close> uses (locales
  \<open>ordered_map\<close>, \<open>priority_queue\<close>) and the search. \<open>Objects\<close>, \<open>PlayerData\<close>: \<open>GameObject\<close>, \<open>Creature\<close>, \<open>Player\<close>; \<open>Player_Body\<close>, \<open>Player_Progress\<close> and \<open>Player_Items\<close>
  show what its operations keep. \<open>Party\<close>: \<open>PartyManager\<close>. \<open>World\<close>: the state of the process, that is rooms, objects by id,
  sessions, parties, and what has been sent. \<open>Rooms\<close>: \<open>GameRoom\<close>; \<open>Spawn\<close>: \<open>SpawnSystem\<close>; \<open>Combat\<close>: \<open>CombatSystem\<close>; \<open>Creatures\<close>: \<open>Monster\<close> and \<open>Arrow\<close>;
  \<open>RoomManager\<close>: \<open>GameRoomManager\<close> and the rest of \<open>GameRoom\<close> with its job queue; \<open>Database\<close>: \<open>DBManager\<close>; \<open>Handlers\<close>: \<open>ServerPacketHandler\<close>,
  \<open>GameSession\<close>, \<open>GameSessionManager\<close>, \<open>ChatConnector\<close>, \<open>RedisSubscriber\<close>; \<open>Server\<close>: \<open>Server.cpp\<close>, as a machine that reacts to events.
  \<open>Multi\<close>: its multi mode, the threads as lists of blocks and a schedule that says who goes on; \<open>Multi_Safe\<close> shows the invariant of the
  server in every interleaving, \<open>Multi_Order\<close> that the requests of a room are run in order, and what a late one does.

  \<open>World_Steps\<close> lists the elementary changes of the world as a step relation, and \<open>World_Safe\<close>, \<open>Rooms_Safe\<close>, \<open>Combat_Safe\<close>,
  \<open>Manager_Safe\<close> show each operation to be a run of them, so that the invariant of the whole server needs to be checked
  for the elementary changes only; \<open>Server\<close> draws the conclusion for every history of events. \<open>Room_Props\<close>, \<open>Monster_Props\<close>
  and \<open>Server_Props\<close> say what single operations do on every branch; \<open>Sample\<close> and \<open>Server_Sample\<close> hold the concrete inputs.

  Chat server, \<^verbatim>\<open>ChatServer\<close>: \<open>ChatServer\<close>, with the game servers at the other end, for the way of a message from one to the other.
  Its connections are records of \<open>Session\<close>, so a broadcast runs the \<open>Send\<close> of the network layer, and what that calls upwards runs
  while the broadcast holds the lock of the session set; locking that lock again is undefined behaviour, the flag \<open>relocked\<close>, and
  nothing after it is modelled.
  \<open>Loggers\<close>: the loggers of both servers and which line ends up in which file.

  Client, \<^verbatim>\<open>Client\<close>. \<open>ClientSprite\<close>: places on the screen, flipbooks, walking, flying and the camera; \<open>ClientPanels\<close>: keys, mouse,
  rectangles, buttons and panels; \<open>ClientMap\<close>, \<open>ClientTilemap\<close>: loading, saving and editing a map; \<open>ClientData\<close>: the scene, its actors and
  effects and the own player; \<open>ClientHandlers\<close>: \<open>ClientPacketHandler\<close> and everything a message does; \<open>ClientInput\<close>: what keys and clicks do, and
  the update and drawing of a frame; \<open>ClientResources\<close>, \<open>SceneLoader\<close>: \<open>ResourceManager\<close>, \<open>SoundManager\<close>, \<open>DevSceneResourceLoader\<close>
  and the picture actors; \<open>SceneLoader_Props\<close> reads the sheets back, \<open>Scene_Props\<close> says what the loaded scene has and when loading
  or drawing it ends the client; \<open>ClientMain\<close>: the clock, \<open>Game\<close> and the message loop. \<open>ClientMotion\<close> says where sprites come to rest
  and when effects end, \<open>ClientPanels_Props\<close> and \<open>ClientInput_Props\<close> what the mouse does.
  \<open>DummyClient\<close>, \<open>DummyClient_Props\<close>: the load generator of \<^verbatim>\<open>DummyClient\<close>.

  Both ends together. \<open>Lockstep\<close> has the contract of two programs that talk (locale \<open>conversation\<close>). \<open>Mirror\<close>: the client's copy of the
  inventory is the server's. \<open>View\<close>: the client's scene is the room. \<open>Handshake\<close>: every request of a walking player is
  answered, and the order of packets in which client and server lose each other.

  How the code is modelled. A class is a record, an enum from the wire an integer with named constants (proto3 enums are open),
  a pointer to a room, player or session its id, with one table per class; a \<open>weak_ptr\<close> locks when somebody still owns the
  player. \<open>int32\<close> is \<open>int\<close> with the wrap-around written out where the code does arithmetic on values it does not bound; sizes,
  ids and ticks are words. Undefined behaviour, a failed assertion and an exception nobody catches are a \<open>fault\<close>: the first is
  recorded and nothing is sent after it. \<open>GetTickCount64\<close>, \<open>rand\<close> and the results of Winsock calls are streams or arguments. The
  client's and the load generator's times and places are rational and whole numbers, where the code has \<open>float\<close> and \<open>time_point\<close>; a
  root is rounded down to a \<open>2\<^sup>-\<^sup>12\<close> part of a pixel, panels stand on whole pixels, and the order \<open>std::sort\<close> leaves equal elements in
  is an argument. Two orders that C++ leaves open are fixed: of nodes with the same cost the priority queue of \<open>FindPath\<close> gives the
  one pushed last, and \<open>GameRoomManager::Update\<close> visits the dungeons, an \<open>unordered_map\<close>, in the order they were made, over
  the table as it was before the loop. A subscriber of Redis hears the whisper channel of its server's address: its thread builds
  the channel's name when \<open>GServerAddr\<close> is set, which the code does not make sure of.

  Bounds and fuel. \<open>FindPath\<close> terminates by \<open>(2 * maxDepth + 1) ^ 2 + 1\<close> expansions, as many as there are cells within the depth
  bound; the walk back along the parents by the number of parents. The catch-up loop of a room has its five steps. The loop
  of \<open>OnRecv\<close> and the scanner of the spawn file are partial functions: that they end is a theorem with its condition.
  Sends of the world model do not fail; failing ones are in \<open>Session\<close>, \<open>Listener\<close> and \<open>ChatServer\<close>. The server is first modelled in its single
  thread mode, one handler or room update after the other, and then, in \<open>Multi\<close>, block by block; other threads interleave in
  \<open>Session_Send\<close> and \<open>DummyClient_Props\<close>. In \<open>Multi\<close> a job or a step of a room is one block: it runs on the update thread only. What
  workers do meanwhile to the fields it reads without a lock is a data race of the code and not modelled.

  Not modelled. The pixels, samples and windows of the client: what is drawn is modelled up to the rectangle of the bitmap, what
  is played up to the buffer. The socket, thread and drawing wrappers (\<open>SocketUtils\<close>, \<open>NetAddress\<close>, \<open>ThreadManager\<close>, \<open>Utils\<close>),
  which are single system calls. Protobuf and the code it generates, SQLite, Redis, the JSON library and Winsock are not this
  program's: their functions are arguments, or, for SQL and Redis, the few operations the code uses on tables and keys.
\<close>

end
